(* ===== verification/Holon_Prelude.thy ===== *)
theory Holon_Prelude
  imports Complex_Main "HOL-Library.Sublist" "HOL-Library.AList"
begin

text \<open>
  Shared ground of the development: results (a raise is \<open>Inl\<close>), the Python string
  methods the services use, decimal text, insertion-ordered dictionaries, and the generic
  lemmas about them. A \<open>char\<close> is a code point below 256; the character classes below agree
  with CPython on that range (\<open>str.upper\<close> leaves the two code points alone whose capital is
  outside it, the micro sign and y with diaeresis).
\<close>

named_theorems res_simps \<open>when a composed result is a value or a raise\<close>
named_theorems py_string \<open>unfolding of the Python string methods\<close>
named_theorems char_class \<open>unfolding of the character classes\<close>

section \<open>Results: a raise is a value\<close>

type_synonym ('e, 'a) result = "'e + 'a"

definition rbind :: "('e, 'a) result \<Rightarrow> ('a \<Rightarrow> ('e, 'b) result) \<Rightarrow> ('e, 'b) result" where
  "rbind r f = (case r of Inl e \<Rightarrow> Inl e | Inr x \<Rightarrow> f x)"

definition raise_if :: "bool \<Rightarrow> 'e \<Rightarrow> ('e, unit) result" where
  "raise_if b e = (if b then Inl e else Inr ())"

lemma rbind_simps [simp]:
  "rbind (Inl e) f = Inl e"
  "rbind (Inr x) f = f x"
  by (simp_all add: rbind_def)

lemma rbind_Inr_iff [res_simps]: "(rbind r f = Inr y) = (\<exists>x. r = Inr x \<and> f x = Inr y)"
  by (cases r) simp_all

lemma rbind_Inl_iff [res_simps]:
  "(rbind r f = Inl e) = (r = Inl e \<or> (\<exists>x. r = Inr x \<and> f x = Inl e))"
  by (cases r) simp_all

lemma raise_if_iff [res_simps]:
  "(raise_if b e = Inr u) = (\<not> b)"
  "(raise_if b e = Inl e') = (b \<and> e' = e)"
  by (auto simp: raise_if_def)

lemma raise_if_simps [simp]:
  "raise_if True e = Inl e"
  "raise_if False e = Inr ()"
  by (simp_all add: raise_if_def)

definition is_ok :: "('e, 'a) result \<Rightarrow> bool" where
  "is_ok r = (case r of Inl _ \<Rightarrow> False | Inr _ \<Rightarrow> True)"

lemma is_ok_simps [simp]: "is_ok (Inr x)" "\<not> is_ok (Inl e)"
  by (simp_all add: is_ok_def)

lemma is_ok_iff [res_simps]: "is_ok r = (\<exists>x. r = Inr x)"
  by (cases r) simp_all

text \<open>Loops that stop at the first error.\<close>

fun each_ok :: "('a \<Rightarrow> ('e, unit) result) \<Rightarrow> 'a list \<Rightarrow> ('e, unit) result" where
  "each_ok f [] = Inr ()"
| "each_ok f (x # xs) = rbind (f x) (\<lambda>_. each_ok f xs)"

fun each_result :: "('a \<Rightarrow> ('e, 'b) result) \<Rightarrow> 'a list \<Rightarrow> ('e, 'b list) result" where
  "each_result f [] = Inr []"
| "each_result f (x # xs) = rbind (f x) (\<lambda>y. rbind (each_result f xs) (\<lambda>ys. Inr (y # ys)))"

lemma each_ok_iff [res_simps]: "each_ok f xs = Inr u \<longleftrightarrow> (\<forall>x \<in> set xs. f x = Inr ())"
  by (induction xs) (auto simp: res_simps)

lemma each_result_list: "each_result f xs = Inr ys \<longleftrightarrow> list_all2 (\<lambda>x y. f x = Inr y) xs ys"
  by (induction xs arbitrary: ys) (auto simp: res_simps list_all2_Cons1)

lemma each_result_keyed:
  "each_result (\<lambda>(k, v). rbind (f v) (\<lambda>w. Inr (k, w))) xs = Inr ys \<longleftrightarrow>
   list_all2 (\<lambda>x y. fst x = fst y \<and> f (snd x) = Inr (snd y)) xs ys"
  by (induction xs arbitrary: ys) (auto simp: res_simps list_all2_Cons1)

text \<open>The elements of a second list that are not yet there, appended in order.\<close>

definition append_new :: "string list \<Rightarrow> string list \<Rightarrow> string list" where
  "append_new xs ys = fold (\<lambda>y acc. if y \<in> set acc then acc else acc @ [y]) ys xs"

lemma append_new_set [simp]: "set (append_new xs ys) = set xs \<union> set ys"
  unfolding append_new_def by (induction ys arbitrary: xs) auto

lemma append_new_distinct: "distinct xs \<Longrightarrow> distinct (append_new xs ys)"
  unfolding append_new_def by (induction ys arbitrary: xs) auto

lemma append_new_fresh: "distinct (xs @ ys) \<Longrightarrow> append_new xs ys = xs @ ys"
  unfolding append_new_def by (induction ys arbitrary: xs) auto

lemma each_result_cong [fundef_cong]: "xs = ys \<Longrightarrow> (\<And>x. x \<in> set ys \<Longrightarrow> f x = g x) \<Longrightarrow> each_result f xs = each_result g ys"
  by (induction ys arbitrary: xs) simp_all

section \<open>Character classes\<close>

definition codept :: "char \<Rightarrow> nat" where
  "codept c = of_char c"

definition is_lower :: "char \<Rightarrow> bool" where
  "is_lower c = (97 \<le> codept c \<and> codept c \<le> 122)"

definition is_upper :: "char \<Rightarrow> bool" where
  "is_upper c = (65 \<le> codept c \<and> codept c \<le> 90)"

definition is_digit :: "char \<Rightarrow> bool" where
  "is_digit c = (48 \<le> codept c \<and> codept c \<le> 57)"

definition is_alnum :: "char \<Rightarrow> bool" where
  "is_alnum c = (is_lower c \<or> is_upper c \<or> is_digit c)"

text \<open>\<open>str.isspace\<close> below 256.\<close>

definition is_space :: "char \<Rightarrow> bool" where
  "is_space c = ((9 \<le> codept c \<and> codept c \<le> 13) \<or> (28 \<le> codept c \<and> codept c \<le> 32) \<or>
     codept c = 133 \<or> codept c = 160)"

lemmas class_defs [char_class] =
  codept_def is_lower_def is_upper_def is_digit_def is_alnum_def is_space_def

abbreviation newline :: char where "newline \<equiv> CHR 0x0A"

section \<open>Python string methods\<close>

type_synonym env = "string \<Rightarrow> string option"

definition startswith :: "string \<Rightarrow> string \<Rightarrow> bool" where
  "startswith s p = (take (length p) s = p)"

definition endswith :: "string \<Rightarrow> string \<Rightarrow> bool" where
  "endswith s p = (length p \<le> length s \<and> drop (length s - length p) s = p)"

definition removeprefix :: "string \<Rightarrow> string \<Rightarrow> string" where
  "removeprefix s p = (if startswith s p then drop (length p) s else s)"

fun contains :: "string \<Rightarrow> string \<Rightarrow> bool" where
  "contains [] p = (p = [])"
| "contains (c # cs) p = (startswith (c # cs) p \<or> contains cs p)"

text \<open>\<open>s.split(c)\<close>: never empty.\<close>

fun split_on :: "char \<Rightarrow> string \<Rightarrow> string list" where
  "split_on c [] = [[]]"
| "split_on c (x # xs) =
     (if x = c then [] # split_on c xs
      else (case split_on c xs of [] \<Rightarrow> [[x]] | p # ps \<Rightarrow> (x # p) # ps))"

fun join_with :: "string \<Rightarrow> string list \<Rightarrow> string" where
  "join_with sep [] = []"
| "join_with sep [p] = p"
| "join_with sep (p # q # ps) = p @ sep @ join_with sep (q # ps)"

text \<open>\<open>s.partition(c)\<close> and \<open>s.rpartition(c)\<close>: the middle component says whether \<open>c\<close> occurs.\<close>

definition partition_on :: "char \<Rightarrow> string \<Rightarrow> string \<times> bool \<times> string" where
  "partition_on c s =
     (case dropWhile (\<lambda>x. x \<noteq> c) s of
        [] \<Rightarrow> (s, False, [])
      | _ # rest \<Rightarrow> (takeWhile (\<lambda>x. x \<noteq> c) s, True, rest))"

definition after_last :: "char \<Rightarrow> string \<Rightarrow> string" where
  "after_last c s = rev (takeWhile (\<lambda>x. x \<noteq> c) (rev s))"

definition replace_char :: "char \<Rightarrow> string \<Rightarrow> string \<Rightarrow> string" where
  "replace_char c r s = concat (map (\<lambda>x. if x = c then r else [x]) s)"

definition py_strip :: "string \<Rightarrow> string" where
  "py_strip s = rev (dropWhile is_space (rev (dropWhile is_space s)))"

definition rstrip_chars :: "string \<Rightarrow> string \<Rightarrow> string" where
  "rstrip_chars cs s = rev (dropWhile (\<lambda>x. x \<in> set cs) (rev s))"

definition strip_chars :: "string \<Rightarrow> string \<Rightarrow> string" where
  "strip_chars cs s = rstrip_chars cs (dropWhile (\<lambda>x. x \<in> set cs) s)"

definition lower_char :: "char \<Rightarrow> char" where
  "lower_char c =
     (if is_upper c \<or> (192 \<le> codept c \<and> codept c \<le> 222 \<and> codept c \<noteq> 215)
      then char_of (codept c + 32) else c)"

definition py_lower :: "string \<Rightarrow> string" where
  "py_lower s = map lower_char s"

definition upper_char :: "char \<Rightarrow> string" where
  "upper_char c =
     (if is_lower c \<or> (224 \<le> codept c \<and> codept c \<le> 254 \<and> codept c \<noteq> 247)
      then [char_of (codept c - 32)]
      else if codept c = 223 then ''SS'' else [c])"

definition py_upper :: "string \<Rightarrow> string" where
  "py_upper s = concat (map upper_char s)"

lemmas string_defs [py_string] =
  startswith_def endswith_def removeprefix_def partition_on_def after_last_def
  replace_char_def py_strip_def rstrip_chars_def strip_chars_def lower_char_def py_lower_def
  upper_char_def py_upper_def

lemma startswith_iff: "startswith s p = (\<exists>t. s = p @ t)"
  unfolding startswith_def by (metis append_eq_conv_conj append_take_drop_id)

lemma startswith_append [simp]: "startswith (p @ t) p"
  by (simp add: startswith_def)

lemma startswith_Cons [simp]:
  "startswith (x # xs) (p # ps) = (x = p \<and> startswith xs ps)"
  "startswith xs []"
  "startswith [] ps = (ps = [])"
  by (auto simp: startswith_def)

lemma startswith_code [code]:
  "startswith xs [] = True"
  "startswith [] (p # ps) = False"
  "startswith (x # xs) (p # ps) = (x = p \<and> startswith xs ps)"
  by simp_all

lemma removeprefix_append [simp]: "removeprefix (p @ t) p = t"
  by (simp add: removeprefix_def)

lemma startswith_removeprefix: "startswith s p \<Longrightarrow> s = p @ removeprefix s p"
  by (auto simp: startswith_iff)

lemma endswith_iff: "endswith s p = (\<exists>t. s = t @ p)"
proof
  assume "endswith s p"
  then have "s = take (length s - length p) s @ p"
    by (metis append_take_drop_id endswith_def)
  then show "\<exists>t. s = t @ p" by blast
qed (auto simp: endswith_def)

lemma split_on_neq_Nil [simp]: "split_on c s \<noteq> []" "[] \<noteq> split_on c s"
  by (induction s) (auto split: list.splits)

lemma split_on_parts: "p \<in> set (split_on c s) \<Longrightarrow> c \<notin> set p"
  by (induction s arbitrary: p) (auto split: if_splits list.splits)

lemma join_with_Cons: "ps \<noteq> [] \<Longrightarrow> join_with sep (p # ps) = p @ sep @ join_with sep ps"
  by (cases ps) simp_all

lemma join_split [simp]: "join_with [c] (split_on c s) = s"
proof (induction s)
  case Nil
  then show ?case by simp
next
  case (Cons x xs)
  show ?case
  proof (cases "x = c")
    case True
    with Cons show ?thesis by (simp add: join_with_Cons)
  next
    case False
    then obtain p ps where ps: "split_on c xs = p # ps"
      by (metis list.exhaust split_on_neq_Nil(1))
    with Cons False show ?thesis by (cases ps) simp_all
  qed
qed

lemma split_on_notin [simp]: "c \<notin> set s \<Longrightarrow> split_on c s = [s]"
  by (induction s) auto

lemma split_on_append:
  "c \<notin> set p \<Longrightarrow> split_on c (p @ c # s) = p # split_on c s"
  by (induction p) auto

lemma split_join [simp]:
  "ps \<noteq> [] \<Longrightarrow> (\<forall>p \<in> set ps. c \<notin> set p) \<Longrightarrow> split_on c (join_with [c] ps) = ps"
proof (induction ps)
  case (Cons p ps)
  then show ?case
    by (cases "ps = []") (simp_all add: join_with_Cons split_on_append)
qed simp

lemma partition_on_found:
  "c \<notin> set p \<Longrightarrow> partition_on c (p @ c # s) = (p, True, s)"
  by (induction p) (auto simp: partition_on_def split: list.splits)

lemma partition_on_True:
  "partition_on c s = (p, True, r) \<Longrightarrow> s = p @ c # r \<and> c \<notin> set p"
  unfolding partition_on_def
  by (auto split: list.splits dest!: set_takeWhileD)
     (metis (mono_tags, lifting) dropWhile_eq_Cons_conv takeWhile_dropWhile_id)

lemma partition_on_False:
  "partition_on c s = (p, False, r) \<Longrightarrow> s = p \<and> r = [] \<and> c \<notin> set s"
  unfolding partition_on_def
  by (auto split: list.splits simp: dropWhile_eq_Nil_conv)

lemma replace_char_Nil [simp]: "replace_char c r [] = []"
  by (simp add: replace_char_def)

lemma replace_char_Cons [simp]:
  "replace_char c r (x # xs) = (if x = c then r else [x]) @ replace_char c r xs"
  by (simp add: replace_char_def)

lemma replace_char_append [simp]:
  "replace_char c r (xs @ ys) = replace_char c r xs @ replace_char c r ys"
  by (simp add: replace_char_def)

lemma replace_char_absent [simp]: "c \<notin> set s \<Longrightarrow> replace_char c r s = s"
  by (induction s) auto

lemma set_replace_char: "set (replace_char c r s) \<subseteq> (set s - {c}) \<union> set r"
  by (induction s) auto

lemma in_set_dropWhile: "x \<in> set (dropWhile P xs) \<Longrightarrow> x \<in> set xs"
  by (metis Un_iff set_append takeWhile_dropWhile_id)

lemma set_py_strip: "set (py_strip s) \<subseteq> set s"
  by (auto simp: py_strip_def dest!: in_set_dropWhile)

lemma dropWhile_last_neq: "s \<noteq> [] \<Longrightarrow> \<not> P (last s) \<Longrightarrow> dropWhile P (rev s) = rev s"
  by (cases s rule: rev_cases) simp_all

lemma py_strip_id: "s \<noteq> [] \<Longrightarrow> \<not> is_space (hd s) \<Longrightarrow> \<not> is_space (last s) \<Longrightarrow> py_strip s = s"
  using dropWhile_last_neq [of s is_space] by (cases s) (simp_all add: py_strip_def del: dropWhile_append)

lemma py_strip_not_space:
  "py_strip s \<noteq> [] \<Longrightarrow> \<not> is_space (last (py_strip s))"
  unfolding py_strip_def by (metis hd_dropWhile last_rev rev_is_Nil_conv)

lemma dropWhile_rev_hd:
  "xs \<noteq> [] \<Longrightarrow> \<not> P (hd xs) \<Longrightarrow> rev (dropWhile P (rev xs)) \<noteq> [] \<and> hd (rev (dropWhile P (rev xs))) = hd xs"
proof (cases xs)
  case (Cons y ys)
  assume "xs \<noteq> []" "\<not> P (hd xs)"
  with Cons have "dropWhile P (rev ys @ [y]) \<noteq> [] \<and> last (dropWhile P (rev ys @ [y])) = y"
    by (simp add: dropWhile_append dropWhile_last)
  with Cons show ?thesis by (simp add: hd_rev)
qed simp

lemma py_strip_idem [simp]: "py_strip (py_strip s) = py_strip s"
proof (cases "py_strip s = []")
  case True
  then show ?thesis by (metis dropWhile.simps(1) py_strip_def rev.simps(1))
next
  case False
  then have ne: "dropWhile is_space s \<noteq> []" by (auto simp: py_strip_def dest: in_set_dropWhile)
  then have "\<not> is_space (hd (dropWhile is_space s))" by (rule hd_dropWhile)
  from dropWhile_rev_hd [of "dropWhile is_space s" is_space, OF ne this]
  have "\<not> is_space (hd (py_strip s))"
    unfolding py_strip_def using \<open>\<not> is_space (hd (dropWhile is_space s))\<close> by simp
  with False show ?thesis by (intro py_strip_id py_strip_not_space)
qed

section \<open>Decimal text\<close>

definition digit_char :: "nat \<Rightarrow> char" where
  "digit_char d = char_of (48 + d)"

definition digit_val :: "char \<Rightarrow> nat" where
  "digit_val c = codept c - 48"

fun show_nat :: "nat \<Rightarrow> string" where
  "show_nat n = (if n < 10 then [digit_char n] else show_nat (n div 10) @ [digit_char (n mod 10)])"

declare show_nat.simps [simp del]

definition nat_of_digits :: "string \<Rightarrow> nat" where
  "nat_of_digits s = foldl (\<lambda>a c. 10 * a + digit_val c) 0 s"

definition show_int :: "int \<Rightarrow> string" where
  "show_int i = (if i < 0 then CHR ''-'' # show_nat (nat (- i)) else show_nat (nat i))"

text \<open>\<open>int(s)\<close> on text: surrounding white space, a sign, single underscores between digits.\<close>

definition py_int :: "string \<Rightarrow> int option" where
  "py_int s =
     (let t = py_strip s;
          neg = startswith t ''-'';
          u = (if startswith t ''-'' \<or> startswith t ''+'' then drop 1 t else t);
          parts = split_on (CHR ''_'') u
      in if list_all (\<lambda>p. p \<noteq> [] \<and> list_all is_digit p) parts
         then Some (if neg then - int (nat_of_digits (concat parts))
                    else int (nat_of_digits (concat parts)))
         else None)"

text \<open>\<open>str.isdigit\<close> also holds of the three superscript digits, which \<open>int\<close> refuses.\<close>

definition isdigit_char :: "char \<Rightarrow> bool" where
  "isdigit_char c = (is_digit c \<or> codept c \<in> {178, 179, 185})"

definition py_isdigit :: "string \<Rightarrow> bool" where
  "py_isdigit s = (s \<noteq> [] \<and> list_all isdigit_char s)"

lemma codept_digit_char [simp]: "d < 10 \<Longrightarrow> codept (digit_char d) = 48 + d"
  by (simp add: codept_def digit_char_def)

lemma digit_val_digit_char [simp]: "d < 10 \<Longrightarrow> digit_val (digit_char d) = d"
  by (simp add: digit_val_def)

lemma is_digit_digit_char [simp]: "d < 10 \<Longrightarrow> is_digit (digit_char d)"
  by (simp add: is_digit_def)

lemma show_nat_digits: "list_all is_digit (show_nat n)"
  by (induction n rule: show_nat.induct) (subst show_nat.simps, simp)

lemma show_nat_neq_Nil [simp]: "show_nat n \<noteq> []"
  by (subst show_nat.simps) simp

lemma nat_of_digits_snoc [simp]: "nat_of_digits (s @ [c]) = 10 * nat_of_digits s + digit_val c"
  by (simp add: nat_of_digits_def)

lemma nat_of_digits_show_nat [simp]: "nat_of_digits (show_nat n) = n"
proof (induction n rule: show_nat.induct)
  case (1 n)
  then show ?case
    by (subst show_nat.simps) (simp add: nat_of_digits_def [of "[_]"])
qed

lemma show_nat_inject [simp]: "(show_nat m = show_nat n) = (m = n)"
  by (metis nat_of_digits_show_nat)

text \<open>\<open>repr(s)\<close> of text, for messages.\<close>

definition hex_digit :: "nat \<Rightarrow> char" where
  "hex_digit n = (if n < 10 then digit_char n else char_of (87 + n))"

definition repr_char :: "char \<Rightarrow> char \<Rightarrow> string" where
  "repr_char q c =
     (if c = q \<or> c = CHR 0x5C then [CHR 0x5C, c]
      else if codept c = 9 then CHR 0x5C # ''t''
      else if codept c = 10 then CHR 0x5C # ''n''
      else if codept c = 13 then CHR 0x5C # ''r''
      else if codept c < 32 \<or> (127 \<le> codept c \<and> codept c \<le> 160) \<or> codept c = 173
      then CHR 0x5C # CHR ''x'' # [hex_digit (codept c div 16), hex_digit (codept c mod 16)]
      else [c])"

definition py_repr :: "string \<Rightarrow> string" where
  "py_repr s =
     (let q = (if CHR 0x27 \<in> set s \<and> CHR 0x22 \<notin> set s then CHR 0x22 else CHR 0x27)
      in [q] @ concat (map (repr_char q) s) @ [q])"

section \<open>Insertion-ordered dictionaries\<close>

text \<open>
  A Python \<open>dict\<close> (and \<open>OrderedDict\<close>) is an association list with distinct keys, oldest
  first: assignment keeps the position of an existing key, a new key goes last.
\<close>

type_synonym ('k, 'v) dict = "('k \<times> 'v) list"

definition dict_wf :: "('k, 'v) dict \<Rightarrow> bool" where
  "dict_wf d = distinct (map fst d)"

definition dict_get :: "('k, 'v) dict \<Rightarrow> 'k \<Rightarrow> 'v option" where
  "dict_get d k = map_of d k"

definition dict_set :: "'k \<Rightarrow> 'v \<Rightarrow> ('k, 'v) dict \<Rightarrow> ('k, 'v) dict" where
  "dict_set k v d = AList.update k v d"

definition dict_pop :: "'k \<Rightarrow> ('k, 'v) dict \<Rightarrow> ('k, 'v) dict" where
  "dict_pop k d = AList.delete k d"

definition move_to_end :: "'k \<Rightarrow> ('k, 'v) dict \<Rightarrow> ('k, 'v) dict" where
  "move_to_end k d = (case map_of d k of None \<Rightarrow> d | Some v \<Rightarrow> AList.delete k d @ [(k, v)])"

lemma dict_get_Nil [simp]: "dict_get [] k = None"
  by (simp add: dict_get_def)

lemma dict_get_set [simp]: "dict_get (dict_set k v d) = (dict_get d)(k \<mapsto> v)"
  by (rule ext) (simp add: dict_get_def dict_set_def update_conv')

lemma dict_set_same: "dict_get d k = Some v \<Longrightarrow> dict_set k v d = d"
  unfolding dict_get_def dict_set_def by (induction d) (auto split: if_splits)

lemma dict_set_new: "dict_get d k = None \<Longrightarrow> dict_set k v d = d @ [(k, v)]"
  unfolding dict_get_def dict_set_def by (induction d) (auto split: if_splits)

lemma dict_get_list_all2:
  "list_all2 (\<lambda>x y. fst x = fst y \<and> P (snd x) (snd y)) xs ys \<Longrightarrow> dict_get xs k = Some v \<Longrightarrow>
   \<exists>w. dict_get ys k = Some w \<and> P v w"
  unfolding dict_get_def by (induction xs ys rule: list_all2_induct) (auto split: if_splits)

lemma dict_get_pop [simp]: "dict_get (dict_pop k d) = (dict_get d)(k := None)"
  by (rule ext) (simp add: dict_get_def dict_pop_def delete_conv')

lemma dict_get_move_to_end [simp]: "dict_get (move_to_end k d) = dict_get d"
proof (rule ext)
  fix j
  show "dict_get (move_to_end k d) j = dict_get d j"
    by (cases "map_of d k")
       (auto simp: dict_get_def move_to_end_def delete_conv' map_add_def split: option.splits)
qed

lemma dict_wf_Nil [simp]: "dict_wf []"
  by (simp add: dict_wf_def)

lemma dict_wf_set [simp, intro]: "dict_wf d \<Longrightarrow> dict_wf (dict_set k v d)"
  by (simp add: dict_wf_def dict_set_def distinct_update)

lemma dict_wf_pop [simp, intro]: "dict_wf d \<Longrightarrow> dict_wf (dict_pop k d)"
  by (simp add: dict_wf_def dict_pop_def distinct_delete)

lemma dict_wf_move_to_end [simp, intro]: "dict_wf d \<Longrightarrow> dict_wf (move_to_end k d)"
  by (auto simp: dict_wf_def move_to_end_def delete_keys distinct_removeAll split: option.splits)

lemma dict_get_mem: "dict_get d k = Some v \<Longrightarrow> (k, v) \<in> set d"
  by (auto simp: dict_get_def dest: map_of_SomeD)

lemma dict_mem_get: "dict_wf d \<Longrightarrow> (k, v) \<in> set d \<Longrightarrow> dict_get d k = Some v"
  by (simp add: dict_get_def dict_wf_def)

lemma dict_get_iff: "dict_wf d \<Longrightarrow> dict_get d k = Some v \<longleftrightarrow> (k, v) \<in> set d"
  by (simp add: dict_get_def dict_wf_def)

lemma dict_get_None_iff: "dict_get d k = None \<longleftrightarrow> k \<notin> fst ` set d"
  by (simp add: dict_get_def map_of_eq_None_iff)

lemma dict_pop_filter: "dict_pop k d = filter (\<lambda>x. fst x \<noteq> k) d"
  by (auto simp: dict_pop_def AList.delete_eq intro: filter_cong)

lemma dict_mem_pop: "x \<in> set (dict_pop k d) \<Longrightarrow> x \<in> set d"
  by (simp add: dict_pop_filter)

lemma dict_mem_set: "x \<in> set (dict_set k v d) \<Longrightarrow> x = (k, v) \<or> x \<in> set d"
  by (induction d) (auto simp: dict_set_def split: if_splits)

lemma dict_mem_move: "x \<in> set (move_to_end k d) \<Longrightarrow> x \<in> set d"
  by (auto simp: move_to_end_def AList.delete_eq dest: map_of_SomeD split: option.splits)

lemma length_move_to_end: "length (move_to_end k d) \<le> length d"
proof (cases "map_of d k")
  case (Some v)
  then have "k \<in> fst ` set d" by (metis domI dom_map_of_conv_image_fst)
  then have "length (filter (\<lambda>x. fst x \<noteq> k) d) < length d"
    using length_filter_less by fastforce
  with Some show ?thesis by (simp add: move_to_end_def dict_pop_filter [unfolded dict_pop_def])
qed (simp add: move_to_end_def)

lemma dict_wf_suffix: "suffix d' d \<Longrightarrow> dict_wf d \<Longrightarrow> dict_wf d'"
  by (auto simp: suffix_def dict_wf_def)

lemma fold_dict_pop: "fold dict_pop ks d = filter (\<lambda>x. fst x \<notin> set ks) d"
proof (induction ks arbitrary: d)
  case (Cons k ks)
  then show ?case by (simp add: dict_pop_filter conj_commute)
qed simp

lemma dict_wf_filter [simp, intro]: "dict_wf d \<Longrightarrow> dict_wf (filter P d)"
  by (simp add: dict_wf_def distinct_map_filter)

lemma dict_get_filter_key: "dict_get (filter (\<lambda>x. P (fst x)) d) k = (if P k then dict_get d k else None)"
  by (induction d) (auto simp: dict_get_def)

end
