(* ===== verification/Holon_Urn.thy ===== *)
theory Holon_Urn
  imports Holon_Prelude
begin

text \<open>
  The URN scheme of \<open>libs/holon_common/urn.py\<close>: the record \<open>URN\<close>, its printers and the
  parser. \<open>parse\<close> follows the regular expression \<open>_URN_RE\<close> group by group: the first
  three groups are greedy over classes without a colon, so they end at the next colon; the
  identifier is lazy over everything but an at sign; the anchor \<open>$\<close> holds at the end of the
  text and before one final newline.
\<close>

record URN =
  tenant :: string
  workspace :: string
  type_of_urn :: string
  id_of_urn :: string
  version :: "int option"

datatype urn_error = InvalidURNError string

definition unversioned :: "URN \<Rightarrow> string" where
  "unversioned u =
     ''hl:'' @ tenant u @ '':'' @ workspace u @ '':'' @ type_of_urn u @ '':'' @ id_of_urn u"

definition urn_str :: "URN \<Rightarrow> string" where
  "urn_str u =
     (let base = ''hl:'' @ tenant u @ '':'' @ workspace u @ '':'' @ type_of_urn u @ '':'' @ id_of_urn u
      in case version u of None \<Rightarrow> base | Some v \<Rightarrow> base @ ''@'' @ show_int v)"

definition build_urn :: "string \<Rightarrow> string \<Rightarrow> string \<Rightarrow> string \<Rightarrow> int option \<Rightarrow> string" where
  "build_urn t w ty i v =
     urn_str \<lparr>tenant = t, workspace = w, type_of_urn = ty, id_of_urn = i, version = v\<rparr>"

text \<open>The groups \<open>[a-z0-9][a-z0-9\-]*\<close> and \<open>[a-zA-Z0-9][a-zA-Z0-9\-]*\<close>.\<close>

definition slug_char :: "char \<Rightarrow> bool" where
  "slug_char c = (is_lower c \<or> is_digit c)"

definition is_slug :: "string \<Rightarrow> bool" where
  "is_slug s = (s \<noteq> [] \<and> slug_char (hd s) \<and> list_all (\<lambda>c. slug_char c \<or> c = CHR ''-'') (tl s))"

definition is_type_name :: "string \<Rightarrow> bool" where
  "is_type_name s = (s \<noteq> [] \<and> is_alnum (hd s) \<and> list_all (\<lambda>c. is_alnum c \<or> c = CHR ''-'') (tl s))"

definition at_end :: "string \<Rightarrow> bool" where
  "at_end s = (s = [] \<or> s = [newline])"

text \<open>The tail \<open>(?:@(\d+))?$\<close>: the digits of the version, if any.\<close>

fun match_version :: "string \<Rightarrow> string option option" where
  "match_version (c # cs) =
     (if c = CHR ''@'' then
        (let v = takeWhile is_digit cs; rest = dropWhile is_digit cs
         in if v \<noteq> [] \<and> at_end rest then Some (Some v) else None)
      else if at_end (c # cs) then Some None else None)"
| "match_version [] = Some None"

text \<open>The lazy group \<open>[^@]+?\<close> takes one more character until the tail matches.\<close>

fun match_id :: "string \<Rightarrow> string \<Rightarrow> (string \<times> string option) option" where
  "match_id acc [] = None"
| "match_id acc (c # cs) =
     (if c = CHR ''@'' then None
      else case match_version cs of
        Some v \<Rightarrow> Some (acc @ [c], v)
      | None \<Rightarrow> match_id (acc @ [c]) cs)"

definition match_urn ::
  "string \<Rightarrow> (string \<times> string \<times> string \<times> string \<times> string option) option" where
  "match_urn s =
     (if \<not> startswith s ''hl:'' then None
      else case partition_on (CHR '':'') (removeprefix s ''hl:'') of (t, c1, r1) \<Rightarrow>
        (case partition_on (CHR '':'') r1 of (w, c2, r2) \<Rightarrow>
        (case partition_on (CHR '':'') r2 of (ty, c3, r3) \<Rightarrow>
          if c1 \<and> c2 \<and> c3 \<and> is_slug t \<and> is_slug w \<and> is_type_name ty
          then map_option (\<lambda>(i, v). (t, w, ty, i, v)) (match_id [] r3)
          else None)))"

definition parse :: "string \<Rightarrow> (urn_error, URN) result" where
  "parse s =
     (case match_urn s of
        None \<Rightarrow> Inl (InvalidURNError s)
      | Some (t, w, ty, i, v) \<Rightarrow>
          Inr \<lparr>tenant = t, workspace = w, type_of_urn = ty, id_of_urn = i,
               version = map_option (\<lambda>d. int (nat_of_digits d)) v\<rparr>)"

text \<open>What a parsed record looks like, and which records survive printing.\<close>

definition wf_urn :: "URN \<Rightarrow> bool" where
  "wf_urn u = (is_slug (tenant u) \<and> is_slug (workspace u) \<and> is_type_name (type_of_urn u) \<and>
     id_of_urn u \<noteq> [] \<and> CHR ''@'' \<notin> set (id_of_urn u) \<and>
     (case version u of
        None \<Rightarrow> length (id_of_urn u) = 1 \<or> last (id_of_urn u) \<noteq> newline
      | Some v \<Rightarrow> 0 \<le> v))"

section \<open>The groups of the pattern\<close>

lemma slug_char_colon [simp]: "\<not> slug_char (CHR '':'')"
  by (simp add: slug_char_def char_class)

lemma is_alnum_colon [simp]: "\<not> is_alnum (CHR '':'')"
  by (simp add: char_class)

lemma slug_no_colon: "is_slug s \<Longrightarrow> CHR '':'' \<notin> set s"
  by (cases s) (auto simp: is_slug_def list_all_iff)

lemma type_name_no_colon: "is_type_name s \<Longrightarrow> CHR '':'' \<notin> set s"
  by (cases s) (auto simp: is_type_name_def list_all_iff)

lemma match_urn_parts:
  assumes "is_slug t" "is_slug w" "is_type_name ty"
  shows "match_urn (''hl:'' @ t @ '':'' @ w @ '':'' @ ty @ '':'' @ r) =
    map_option (\<lambda>(i, v). (t, w, ty, i, v)) (match_id [] r)"
proof -
  have colons: "CHR '':'' \<notin> set t" "CHR '':'' \<notin> set w" "CHR '':'' \<notin> set ty"
    using assms slug_no_colon type_name_no_colon by blast+
  have "removeprefix (''hl:'' @ t @ '':'' @ w @ '':'' @ ty @ '':'' @ r) ''hl:''
      = t @ CHR '':'' # (w @ CHR '':'' # (ty @ CHR '':'' # r))"
    using removeprefix_append [of "''hl:''" "t @ CHR '':'' # (w @ CHR '':'' # (ty @ CHR '':'' # r))"]
    by simp
  with assms colons show ?thesis
    by (simp add: match_urn_def partition_on_found)
qed

lemma takeWhile_digits: "list_all is_digit v \<Longrightarrow> takeWhile is_digit v = v \<and> dropWhile is_digit v = []"
  by (simp add: list_all_iff takeWhile_eq_all_conv)

lemma match_version_digits:
  "list_all is_digit v \<Longrightarrow> v \<noteq> [] \<Longrightarrow> match_version (CHR ''@'' # v) = Some (Some v)"
  by (simp add: takeWhile_digits at_end_def)

lemma match_version_None: "CHR ''@'' \<noteq> hd s \<Longrightarrow> \<not> at_end s \<Longrightarrow> match_version s = None"
  by (cases s) (auto simp: at_end_def)

lemma match_id_step:
  "i \<noteq> [] \<Longrightarrow> CHR ''@'' \<notin> set i \<Longrightarrow>
   (\<forall>k. 0 < k \<and> k < length i \<longrightarrow> match_version (drop k i @ r) = None) \<Longrightarrow>
   match_version r = Some v \<Longrightarrow> match_id acc (i @ r) = Some (acc @ i, v)"
proof (induction i arbitrary: acc)
  case (Cons c cs)
  show ?case
  proof (cases "cs = []")
    case True
    with Cons.prems show ?thesis by simp
  next
    case False
    have step: "match_version (cs @ r) = None"
      using Cons.prems(3) [rule_format, of 1] False by simp
    have "\<forall>k. 0 < k \<and> k < length cs \<longrightarrow> match_version (drop k cs @ r) = None"
      using Cons.prems(3) [rule_format, of "Suc _"] by auto
    with Cons.IH [of "acc @ [c]"] False Cons.prems(2,4)
    have "match_id (acc @ [c]) (cs @ r) = Some ((acc @ [c]) @ cs, v)" by simp
    moreover have "c \<noteq> CHR ''@''" using Cons.prems(2) by auto
    ultimately show ?thesis using step by simp
  qed
qed simp

lemma match_id_unversioned:
  assumes "i \<noteq> []" "CHR ''@'' \<notin> set i" "length i = 1 \<or> last i \<noteq> newline"
  shows "match_id [] i = Some (i, None)"
proof -
  have "match_version (drop k i @ []) = None" if "0 < k" "k < length i" for k
  proof -
    have mem: "hd (drop k i) \<in> set i" using that
      by (metis hd_in_set drop_eq_Nil in_set_dropD not_le)
    have "drop k i \<noteq> [newline]" using that assms(3)
      by (metis last_drop last_ConsL less_irrefl less_one nat_neq_iff)
    with that assms(2) mem have "match_version (drop k i) = None"
      by (intro match_version_None) (auto simp: at_end_def)
    then show ?thesis by simp
  qed
  with match_id_step [of i "[]" None "[]"] assms(1,2) show ?thesis by simp
qed

lemma match_id_versioned:
  assumes "i \<noteq> []" "CHR ''@'' \<notin> set i" "list_all is_digit v" "v \<noteq> []"
  shows "match_id [] (i @ CHR ''@'' # v) = Some (i, Some v)"
proof -
  have "match_version (drop k i @ CHR ''@'' # v) = None" if "0 < k" "k < length i" for k
  proof (rule match_version_None)
    have "drop k i \<noteq> []" using that by simp
    then have "hd (drop k i) \<in> set i" using in_set_dropD hd_in_set by metis
    with assms(2) \<open>drop k i \<noteq> []\<close> show "CHR ''@'' \<noteq> hd (drop k i @ CHR ''@'' # v)" by auto
    show "\<not> at_end (drop k i @ CHR ''@'' # v)"
      using \<open>drop k i \<noteq> []\<close> by (auto simp: at_end_def append_eq_Cons_conv)
  qed
  with match_id_step [of i "CHR ''@'' # v" "Some v" "[]"] match_version_digits [of v] assms
  show ?thesis by simp
qed

lemma match_version_Some:
  "match_version s = Some (Some v) \<Longrightarrow> v \<noteq> [] \<and> list_all is_digit v"
  by (cases s) (auto simp: Let_def list_all_iff split: if_splits dest: set_takeWhileD)

lemma match_version_Some_None: "match_version s = Some None \<Longrightarrow> at_end s"
  by (cases s) (auto simp: at_end_def Let_def split: if_splits)

lemma match_id_Some:
  "match_id acc s = Some (i, v) \<Longrightarrow> CHR ''@'' \<notin> set acc \<Longrightarrow>
   (\<forall>d. v = Some d \<longrightarrow> d \<noteq> [] \<and> list_all is_digit d) \<and>
   i \<noteq> [] \<and> CHR ''@'' \<notin> set i \<and> (\<exists>n. 0 < n \<and> i = acc @ take n s \<and>
     match_version (drop n s) = Some v \<and> (\<forall>k. 0 < k \<and> k < n \<longrightarrow> match_version (drop k s) = None))"
proof (induction s arbitrary: acc)
  case (Cons c cs)
  show ?case
  proof (cases "match_version cs")
    case None
    with Cons.prems have ne: "c \<noteq> CHR ''@''" and rec: "match_id (acc @ [c]) cs = Some (i, v)"
      by (auto split: if_splits)
    have "CHR ''@'' \<notin> set (acc @ [c])" using ne Cons.prems(2) by auto
    from Cons.IH [OF rec this] obtain n where n: "0 < n" "i = (acc @ [c]) @ take n cs"
      "match_version (drop n cs) = Some v"
      "\<forall>k. 0 < k \<and> k < n \<longrightarrow> match_version (drop k cs) = None"
      and rest: "\<forall>d. v = Some d \<longrightarrow> d \<noteq> [] \<and> list_all is_digit d" "i \<noteq> []" "CHR ''@'' \<notin> set i"
      by blast
    have "\<forall>k. 0 < k \<and> k < Suc n \<longrightarrow> match_version (drop k (c # cs)) = None"
    proof (intro allI impI)
      fix k assume "0 < k \<and> k < Suc n"
      with n(4) None show "match_version (drop k (c # cs)) = None"
        by (cases k) (auto, metis drop0 neq0_conv)
    qed
    with n rest show ?thesis by (intro conjI exI [of _ "Suc n"]) auto
  next
    case (Some u)
    with Cons.prems have eq: "i = acc @ [c]" "v = u" "c \<noteq> CHR ''@''"
      by (auto split: if_splits)
    have "\<forall>d. v = Some d \<longrightarrow> d \<noteq> [] \<and> list_all is_digit d"
      using Some eq match_version_Some by blast
    with eq Some Cons.prems(2) show ?thesis
      by (intro conjI exI [of _ "Suc 0"]) auto
  qed
qed simp

lemma match_id_last:
  assumes "match_id [] s = Some (i, None)" "last s \<noteq> newline"
  shows "last i \<noteq> newline"
proof -
  from match_id_Some [OF assms(1)] obtain n where n: "i = take n s"
    "match_version (drop n s) = Some None"
    by auto
  have "at_end (drop n s)" using n(2) by (rule match_version_Some_None)
  moreover have "drop n s \<noteq> [newline]" using assms(2) by (metis last_ConsL last_drop drop_all leI list.discI)
  ultimately have "i = s" using n(1) by (simp add: at_end_def)
  with assms(2) show ?thesis by simp
qed

section \<open>Printing and parsing\<close>

lemma urn_str_unfold:
  "urn_str u = ''hl:'' @ tenant u @ '':'' @ workspace u @ '':'' @ type_of_urn u @ '':'' @
     (id_of_urn u @ (case version u of None \<Rightarrow> [] | Some v \<Rightarrow> CHR ''@'' # show_int v))"
  by (cases "version u") (simp_all add: urn_str_def)

lemma parse_urn_str: "wf_urn u \<Longrightarrow> parse (urn_str u) = Inr u"
proof -
  assume wf: "wf_urn u"
  then have parts: "is_slug (tenant u)" "is_slug (workspace u)" "is_type_name (type_of_urn u)"
    and id: "id_of_urn u \<noteq> []" "CHR ''@'' \<notin> set (id_of_urn u)"
    by (auto simp: wf_urn_def)
  show ?thesis
  proof (cases "version u")
    case None
    with wf have "match_id [] (id_of_urn u) = Some (id_of_urn u, None)"
      by (intro match_id_unversioned) (auto simp: wf_urn_def)
    with match_urn_parts [OF parts, of "id_of_urn u"] None show ?thesis
      by (simp add: parse_def urn_str_unfold)
  next
    case (Some v)
    with wf have v: "0 \<le> v" by (simp add: wf_urn_def)
    then have "match_id [] (id_of_urn u @ CHR ''@'' # show_int v) =
        Some (id_of_urn u, Some (show_nat (nat v)))"
      using id by (simp add: show_int_def match_id_versioned show_nat_digits)
    with match_urn_parts [OF parts, of "id_of_urn u @ CHR ''@'' # show_int v"] Some v
    show ?thesis
      by (simp add: parse_def urn_str_unfold)
  qed
qed

lemma match_urn_Some:
  assumes "match_urn s = Some (t, w, ty, i, v)"
  obtains r where "s = ''hl:'' @ t @ '':'' @ w @ '':'' @ ty @ '':'' @ r"
    "is_slug t" "is_slug w" "is_type_name ty" "match_id [] r = Some (i, v)"
proof -
  obtain t' c1 r1 where p1: "partition_on (CHR '':'') (removeprefix s ''hl:'') = (t', c1, r1)"
    by (metis prod.exhaust)
  obtain w' c2 r2 where p2: "partition_on (CHR '':'') r1 = (w', c2, r2)" by (metis prod.exhaust)
  obtain ty' c3 r3 where p3: "partition_on (CHR '':'') r2 = (ty', c3, r3)" by (metis prod.exhaust)
  from assms p1 p2 p3 have hl: "startswith s ''hl:''" and cs: "c1" "c2" "c3"
    and eqs: "t' = t" "w' = w" "ty' = ty" "match_id [] r3 = Some (i, v)"
    and ok: "is_slug t" "is_slug w" "is_type_name ty"
    by (auto simp: match_urn_def split: if_splits)
  have "s = ''hl:'' @ t @ '':'' @ w @ '':'' @ ty @ '':'' @ r3"
    using startswith_removeprefix [OF hl] partition_on_True p1 p2 p3 cs eqs by simp
  with ok eqs(4) that show thesis by blast
qed

lemma parse_tenant:
  assumes "parse s = Inr u"
  shows "\<exists>r. s = ''hl:'' @ tenant u @ '':'' @ r" and "is_slug (tenant u)"
  using assms by (auto simp: parse_def split: option.splits elim!: match_urn_Some)

lemma parse_wf:
  assumes "parse s = Inr u" "last s \<noteq> newline"
  shows "wf_urn u"
proof -
  from assms(1) obtain t w ty i v where m: "match_urn s = Some (t, w, ty, i, v)"
    and u: "u = \<lparr>tenant = t, workspace = w, type_of_urn = ty, id_of_urn = i,
               version = map_option (\<lambda>d. int (nat_of_digits d)) v\<rparr>"
    by (auto simp: parse_def split: option.splits)
  from m obtain r where s: "s = ''hl:'' @ t @ '':'' @ w @ '':'' @ ty @ '':'' @ r"
    and ok: "is_slug t" "is_slug w" "is_type_name ty" and i: "match_id [] r = Some (i, v)"
    by (rule match_urn_Some)
  have "r \<noteq> []" using i by auto
  with s assms(2) have "last r \<noteq> newline" by simp
  with i have "v = None \<longrightarrow> last i \<noteq> newline" using match_id_last by blast
  with match_id_Some [OF i] ok u show ?thesis
    by (auto simp: wf_urn_def split: option.splits)
qed

text \<open>
  One trailing newline is dropped, so two texts denote the same resource; a second newline
  stays in the identifier, and such a record does not survive printing.
\<close>

lemma parse_drops_newline:
  "parse (''hl:acme:main:user:x'' @ [newline]) = parse ''hl:acme:main:user:x''"
  "map_sum id id_of_urn (parse (''hl:acme:main:user:x'' @ [newline, newline])) = Inr (''x'' @ [newline])"
  by code_simp+

text \<open>
  C1. Every record the pattern can produce survives printing: parsing the text \<open>str(urn)\<close>
  of a well-formed URN, with or without a version, gives the URN back.
\<close>

theorem urn_roundtrip:
  assumes "wf_urn u"
  shows "parse (urn_str u) = Inr u"
  using assms by (rule parse_urn_str)

theorem urn_roundtrip_witness:
  "parse (build_urn ''acme'' ''global'' ''user'' ''admin:1'' (Some 42)) =
     Inr \<lparr>tenant = ''acme'', workspace = ''global'', type_of_urn = ''user'',
          id_of_urn = ''admin:1'', version = Some 42\<rparr>"
  unfolding build_urn_def by (rule urn_roundtrip) code_simp

text \<open>
  Parsing is stable: a text without a final newline that parses denotes a well-formed
  record, whose printed form parses to the same record, and its tenant is the text between
  the first two colons.
\<close>

theorem urn_parse_stable:
  assumes "parse s = Inr u" "last s \<noteq> newline"
  shows "wf_urn u \<and> parse (urn_str u) = Inr u \<and>
    partition_on (CHR '':'') (drop 3 s) = (tenant u, True, drop (4 + length (tenant u)) s)"
proof -
  from parse_tenant [OF assms(1)] obtain r where r: "s = ''hl:'' @ tenant u @ '':'' @ r"
    and t: "is_slug (tenant u)" by blast
  have "partition_on (CHR '':'') (tenant u @ CHR '':'' # r) = (tenant u, True, r)"
    using slug_no_colon [OF t] by (rule partition_on_found)
  then have "partition_on (CHR '':'') (drop 3 s) = (tenant u, True, drop (4 + length (tenant u)) s)"
    unfolding r by (simp add: drop_Cons' numeral_eq_Suc)
  with parse_wf [OF assms] parse_urn_str show ?thesis by blast
qed

theorem urn_parse_stable_witness:
  "wf_urn \<lparr>tenant = ''acme'', workspace = ''main'', type_of_urn = ''instance'',
     id_of_urn = ''Customer/7'', version = Some 7\<rparr>"
proof -
  have "parse ''hl:acme:main:instance:Customer/7@007'' =
      Inr \<lparr>tenant = ''acme'', workspace = ''main'', type_of_urn = ''instance'',
        id_of_urn = ''Customer/7'', version = Some 7\<rparr>"
    by code_simp
  from urn_parse_stable [OF this] show ?thesis by simp
qed

end
