(* ===== verification/Holon_Ident.thy ===== *)
theory Holon_Ident
  imports Holon_Prelude
begin

text \<open>
  Identifier encodings: \<open>spicedb_id.py\<close> (SpiceDB object ids), \<open>sql_ident.py\<close> (quoting of
  SQL identifiers) and \<open>iceberg_ident.py\<close> (tenant-scoped Iceberg table names). Two locales
  state what makes an escaping unambiguous; the encodings of the code are interpretations.
\<close>

section \<open>Escapings that can be decoded\<close>

text \<open>
  An escaping replaces every character by a code word; when no code word can be confused with
  the start of another, the encoded text determines the original.
\<close>

locale escape_code =
  fixes esc :: "char \<Rightarrow> string"
  assumes esc_neq_Nil: "esc c \<noteq> []"
    and esc_unique: "esc c @ x = esc d @ y \<Longrightarrow> c = d"
begin

lemma encode_inject: "concat (map esc s) = concat (map esc t) \<Longrightarrow> s = t"
proof (induction s arbitrary: t)
  case Nil
  then show ?case using esc_neq_Nil by (cases t) auto
next
  case (Cons c s)
  then obtain d t' where t: "t = d # t'"
    using esc_neq_Nil by (cases t) auto
  with Cons.prems have "esc c @ concat (map esc s) = esc d @ concat (map esc t')" by simp
  then have "c = d" by (rule esc_unique)
  with Cons t show ?case by auto
qed

end

text \<open>A delimiter that no code word starts like separates the encoded text from what follows.\<close>

locale delimited_code = escape_code +
  fixes delim :: string
  assumes delim_free: "esc c @ x \<noteq> delim @ y"
begin

lemma delimited_inject:
  "concat (map esc s) @ delim @ x = concat (map esc t) @ delim @ y \<Longrightarrow> s = t \<and> x = y"
proof (induction s arbitrary: t)
  case Nil
  then show ?case using delim_free by (cases t) (auto, metis)
next
  case (Cons c s)
  then obtain d t' where t: "t = d # t'"
    using delim_free [of c] by (cases t) auto
  with Cons.prems have eq: "esc c @ concat (map esc s) @ delim @ x = esc d @ concat (map esc t') @ delim @ y"
    by simp
  then have "c = d" by (rule esc_unique)
  with eq Cons.IH [of t'] t show ?case by auto
qed

end

section \<open>SpiceDB object ids\<close>

definition spicedb_object_id :: "string \<Rightarrow> string" where
  "spicedb_object_id urn =
     replace_char (CHR '':'') ''_c'' (replace_char (CHR ''.'') ''_d'' (replace_char (CHR ''_'') ''__'' urn))"

definition index_by_spicedb_object_id :: "('r \<Rightarrow> string) \<Rightarrow> 'r list \<Rightarrow> (string, 'r) dict" where
  "index_by_spicedb_object_id urn_of rows =
     foldl (\<lambda>d row. dict_set (spicedb_object_id (urn_of row)) row d) [] rows"

definition spicedb_esc :: "char \<Rightarrow> string" where
  "spicedb_esc c =
     (if c = CHR ''_'' then ''__'' else if c = CHR ''.'' then ''_d''
      else if c = CHR '':'' then ''_c'' else [c])"

interpretation spicedb: escape_code spicedb_esc
  by unfold_locales (auto simp: spicedb_esc_def split: if_splits)

text \<open>The three passes of \<open>str.replace\<close> do not disturb each other: they are one escaping.\<close>

lemma spicedb_object_id_esc: "spicedb_object_id s = concat (map spicedb_esc s)"
  by (induction s) (auto simp: spicedb_object_id_def spicedb_esc_def)

lemma spicedb_object_id_inject [simp]: "(spicedb_object_id s = spicedb_object_id t) = (s = t)"
  using spicedb.encode_inject by (auto simp: spicedb_object_id_esc)

lemma spicedb_object_id_chars: "set (spicedb_object_id s) \<inter> {CHR '':'', CHR ''.''} = {}"
  by (auto simp: spicedb_object_id_esc spicedb_esc_def split: if_splits)

lemma index_get:
  "dict_get (foldl (\<lambda>d row. dict_set (spicedb_object_id (urn_of row)) row d) d rows) (spicedb_object_id u) =
     (case find (\<lambda>r. urn_of r = u) (rev rows) of
        Some r \<Rightarrow> Some r | None \<Rightarrow> dict_get d (spicedb_object_id u))"
proof (induction rows rule: rev_induct)
  case (snoc r rows)
  then show ?case by (auto split: option.splits)
qed simp

text \<open>
  The object-id encoding is injective and stays inside SpiceDB's alphabet, and looking a
  URN up in the index by its encoded id finds exactly the last row that carries the URN.
\<close>

theorem spicedb_index_lookup:
  "(spicedb_object_id s = spicedb_object_id t) = (s = t) \<and>
   set (spicedb_object_id s) \<inter> {CHR '':'', CHR ''.''} = {} \<and>
   dict_get (index_by_spicedb_object_id urn_of rows) (spicedb_object_id s) =
     find (\<lambda>r. urn_of r = s) (rev rows)"
  using index_get [of urn_of "[]" rows s] spicedb_object_id_chars [of s]
  by (simp add: index_by_spicedb_object_id_def split: option.splits)

section \<open>SQL identifiers\<close>

datatype sql_error = InvalidIdentifier string | UnsupportedDialect string

definition ident_start :: "char \<Rightarrow> bool" where
  "ident_start c = (is_lower c \<or> is_upper c \<or> c = CHR ''_'')"

definition ident_char :: "char \<Rightarrow> bool" where
  "ident_char c = (is_alnum c \<or> c = CHR ''_'')"

definition is_ident_part :: "string \<Rightarrow> bool" where
  "is_ident_part p = (p \<noteq> [] \<and> ident_start (hd p) \<and> list_all ident_char (tl p))"

text \<open>\<open>IDENTIFIER_RE.fullmatch\<close>: one to three dot-separated parts.\<close>

definition identifier_re :: "string \<Rightarrow> bool" where
  "identifier_re s = (length (split_on (CHR ''.'') s) \<le> 3 \<and> list_all is_ident_part (split_on (CHR ''.'') s))"

definition require_identifier :: "string \<Rightarrow> (sql_error, string) result" where
  "require_identifier name =
     (if name = [] \<or> \<not> identifier_re name then Inl (InvalidIdentifier name) else Inr name)"

definition quote_dialects :: "string list" where
  "quote_dialects = [''postgres'', ''mysql'', ''mssql'', ''snowflake'']"

definition quote_identifier :: "string \<Rightarrow> string \<Rightarrow> (sql_error, string) result" where
  "quote_identifier name dialect =
     rbind (require_identifier name) (\<lambda>_.
       let d = py_lower (if dialect = [] then ''postgres'' else dialect) in
       if d \<notin> set quote_dialects then Inl (UnsupportedDialect dialect)
       else if d = ''snowflake'' then Inr name
       else if d = ''mysql'' then
         Inr (join_with ''.'' (map (\<lambda>p. ''`'' @ p @ ''`'') (split_on (CHR ''.'') name)))
       else if d = ''mssql'' then
         Inr (join_with ''.'' (map (\<lambda>p. ''['' @ p @ '']'') (split_on (CHR ''.'') name)))
       else Inr (join_with ''.'' (map (\<lambda>p. [CHR 0x22] @ p @ [CHR 0x22]) (split_on (CHR ''.'') name))))"

text \<open>
  How a database reads a chain of delimited identifiers: an opening mark, everything up to the
  next closing mark, then a dot or the end. This is the contract quoting has to meet.
\<close>

fun read_quoted :: "nat \<Rightarrow> char \<Rightarrow> char \<Rightarrow> string \<Rightarrow> string list option" where
  "read_quoted 0 opn cls s = None"
| "read_quoted (Suc n) opn cls s =
     (case s of
        [] \<Rightarrow> None
      | c # cs \<Rightarrow>
          if c \<noteq> opn then None
          else case partition_on cls cs of (p, found, rest) \<Rightarrow>
            if \<not> found then None
            else case rest of
              [] \<Rightarrow> Some [p]
            | d # ds \<Rightarrow>
                if d = CHR ''.'' then map_option (\<lambda>ps. p # ps) (read_quoted n opn cls ds) else None)"

lemma ident_part_chars: "is_ident_part p \<Longrightarrow> c \<in> set p \<Longrightarrow> ident_char c"
  by (cases p) (auto simp: is_ident_part_def list_all_iff ident_start_def ident_char_def is_alnum_def)

lemma quote_chars_not_ident [simp]:
  "\<not> ident_char (CHR ''`'')" "\<not> ident_char (CHR ''['')" "\<not> ident_char (CHR '']'')"
  "\<not> ident_char (CHR 0x22)" "\<not> ident_char (CHR ''.'')"
  by (simp_all add: ident_char_def char_class)

lemma read_quoted_join:
  "ps \<noteq> [] \<Longrightarrow> (\<forall>p \<in> set ps. cls \<notin> set p) \<Longrightarrow> length ps \<le> n \<Longrightarrow>
   read_quoted n opn cls (join_with ''.'' (map (\<lambda>p. [opn] @ p @ [cls]) ps)) = Some ps"
proof (induction ps arbitrary: n)
  case (Cons p ps)
  then obtain m where n: "n = Suc m" by (cases n) auto
  show ?case
  proof (cases "ps = []")
    case True
    with Cons n show ?thesis by (simp add: partition_on_found)
  next
    case False
    with Cons n have rec: "read_quoted m opn cls (join_with ''.'' (map (\<lambda>p. [opn] @ p @ [cls]) ps)) = Some ps"
      by simp
    from False Cons.prems(2) rec n show ?thesis
      by (simp add: join_with_Cons partition_on_found)
  qed
qed simp

lemma require_identifier_Inr:
  "(require_identifier name = Inr s) = (s = name \<and> identifier_re name)"
proof -
  have "\<not> identifier_re []" by (simp add: identifier_re_def is_ident_part_def)
  then show ?thesis by (auto simp: require_identifier_def)
qed

text \<open>
  C24. Quoting cannot be escaped. The text produced for an accepted name, read by the
  delimited-identifier rule of the database it is meant for (double quotes for PostgreSQL, back
  ticks for MySQL, square brackets for SQL Server), is exactly the list of the name's parts,
  whatever the parts contain; for Snowflake the name is passed on unquoted, and it is a plain
  identifier of at most three parts. No other dialect is accepted.
\<close>

theorem quote_identifier_reads_back:
  assumes "quote_identifier name dialect = Inr q"
  shows "py_lower dialect \<in> {'''', ''postgres''} \<and>
      read_quoted 3 (CHR 0x22) (CHR 0x22) q = Some (split_on (CHR ''.'') name) \<or>
    py_lower dialect = ''mysql'' \<and>
      read_quoted 3 (CHR ''`'') (CHR ''`'') q = Some (split_on (CHR ''.'') name) \<or>
    py_lower dialect = ''mssql'' \<and>
      read_quoted 3 (CHR ''['') (CHR '']'') q = Some (split_on (CHR ''.'') name) \<or>
    py_lower dialect = ''snowflake'' \<and> q = name \<and> identifier_re name"
proof -
  let ?ps = "split_on (CHR ''.'') name" and ?d = "py_lower (if dialect = [] then ''postgres'' else dialect)"
  from assms have re: "identifier_re name"
    by (auto simp: quote_identifier_def res_simps require_identifier_Inr)
  then have len: "length ?ps \<le> 3" and parts: "\<forall>p \<in> set ?ps. is_ident_part p"
    by (auto simp: identifier_re_def list_all_iff)
  have read: "read_quoted 3 opn cls (join_with ''.'' (map (\<lambda>p. [opn] @ p @ [cls]) ?ps)) = Some ?ps"
    if "\<not> ident_char cls" for opn cls
    using that parts ident_part_chars len by (intro read_quoted_join) auto
  have low: "py_lower ''postgres'' = ''postgres''" "py_lower [] = []" by code_simp+
  then have d: "?d = (if dialect = [] then ''postgres'' else py_lower dialect)" by simp
  have known: "?d \<in> set quote_dialects"
    using assms by (auto simp: quote_identifier_def res_simps Let_def split: if_splits)
  then consider "?d = ''postgres''" | "?d = ''mysql''" | "?d = ''mssql''" | "?d = ''snowflake''"
    by (auto simp: quote_dialects_def simp del: if_split)
  then show ?thesis
  proof cases
    case 1
    with assms have "q = join_with ''.'' (map (\<lambda>p. [CHR 0x22] @ p @ [CHR 0x22]) ?ps)"
      using known by (simp add: quote_identifier_def res_simps Let_def split: sum.splits)
    moreover have "py_lower dialect \<in> {'''', ''postgres''}"
      using 1 d low by (auto split: if_splits)
    ultimately show ?thesis using read [of "CHR 0x22" "CHR 0x22"] by simp
  next
    case 2
    with assms have "q = join_with ''.'' (map (\<lambda>p. ''`'' @ p @ ''`'') ?ps)"
      using known by (simp add: quote_identifier_def res_simps Let_def split: sum.splits)
    moreover have "py_lower dialect = ''mysql''" using 2 d by (auto split: if_splits)
    ultimately show ?thesis using read [of "CHR ''`''" "CHR ''`''"] by simp
  next
    case 3
    with assms have "q = join_with ''.'' (map (\<lambda>p. ''['' @ p @ '']'') ?ps)"
      using known by (simp add: quote_identifier_def res_simps Let_def split: sum.splits)
    moreover have "py_lower dialect = ''mssql''" using 3 d by (auto split: if_splits)
    ultimately show ?thesis using read [of "CHR '']''" "CHR ''[''"] by simp
  next
    case 4
    with assms have "q = name"
      using known by (simp add: quote_identifier_def res_simps Let_def split: sum.splits)
    moreover have "py_lower dialect = ''snowflake''" using 4 d by (auto split: if_splits)
    ultimately show ?thesis using re by simp
  qed
qed

theorem quote_identifier_reads_back_witness:
  "read_quoted 3 (CHR ''['') (CHR '']'') ''[analytics].[public].[orders]'' =
     Some (split_on (CHR ''.'') ''analytics.public.orders'')"
proof -
  have low: "py_lower ''MSSQL'' = ''mssql''" by code_simp
  have "quote_identifier ''analytics.public.orders'' ''MSSQL'' = Inr ''[analytics].[public].[orders]''"
    by code_simp
  from quote_identifier_reads_back [OF this] show ?thesis unfolding low by simp
qed

section \<open>Iceberg table identifiers\<close>

datatype iceberg_error =
    TenantRequired
  | InvalidTenant string
  | InvalidTenantAfterEncoding string
  | TableRequired
  | InvalidTable string

definition is_letter :: "char \<Rightarrow> bool" where
  "is_letter c = (is_lower c \<or> is_upper c)"

definition tenant_input_re :: "string \<Rightarrow> bool" where
  "tenant_input_re s = (s \<noteq> [] \<and> is_letter (hd s) \<and>
     list_all (\<lambda>c. is_alnum c \<or> c = CHR ''_'' \<or> c = CHR ''-'') (tl s))"

definition table_name_re :: "string \<Rightarrow> bool" where
  "table_name_re s = (s \<noteq> [] \<and> is_letter (hd s) \<and> list_all (\<lambda>c. is_alnum c \<or> c = CHR ''_'') (tl s))"

definition iceberg_tenant_prefix :: "string \<Rightarrow> (iceberg_error, string) result" where
  "iceberg_tenant_prefix tenant_id =
     (if tenant_id = [] \<or> py_strip tenant_id = [] then Inl TenantRequired
      else let t = py_strip tenant_id in
        if \<not> tenant_input_re t then Inl (InvalidTenant t)
        else let encoded = replace_char (CHR ''-'') ''_d'' (replace_char (CHR ''_'') ''_u'' t) in
          if \<not> table_name_re encoded then Inl (InvalidTenantAfterEncoding t) else Inr encoded)"

definition iceberg_table_identifier ::
  "string \<Rightarrow> string \<Rightarrow> (iceberg_error, string \<times> string) result" where
  "iceberg_table_identifier tenant_id table_name =
     (if table_name = [] \<or> py_strip table_name = [] then Inl TableRequired
      else let t = py_strip table_name in
        if \<not> table_name_re t then Inl (InvalidTable t)
        else rbind (iceberg_tenant_prefix tenant_id) (\<lambda>p. Inr (''raw'', p @ ''__'' @ t)))"

definition iceberg_legacy_identifier :: "string \<Rightarrow> (iceberg_error, string \<times> string) result" where
  "iceberg_legacy_identifier table_name =
     (if table_name = [] \<or> py_strip table_name = [] then Inl TableRequired
      else let t = py_strip table_name in
        if \<not> table_name_re t then Inl (InvalidTable t) else Inr (''raw'', t))"

definition iceberg_read_identifiers ::
  "string \<Rightarrow> string \<Rightarrow> (iceberg_error, (string \<times> string) list) result" where
  "iceberg_read_identifiers tenant_id table_name =
     rbind (iceberg_table_identifier tenant_id table_name) (\<lambda>current.
     rbind (iceberg_legacy_identifier table_name) (\<lambda>legacy.
       if current = legacy then Inr [current] else Inr [current, legacy]))"

definition iceberg_esc :: "char \<Rightarrow> string" where
  "iceberg_esc c = (if c = CHR ''_'' then ''_u'' else if c = CHR ''-'' then ''_d'' else [c])"

interpretation iceberg: delimited_code iceberg_esc "''__''"
  by unfold_locales (auto simp: iceberg_esc_def split: if_splits)

lemma iceberg_encode_esc:
  "replace_char (CHR ''-'') ''_d'' (replace_char (CHR ''_'') ''_u'' s) = concat (map iceberg_esc s)"
  by (induction s) (auto simp: iceberg_esc_def)

lemma letters_of_escape [simp]: "is_alnum (CHR ''u'')" "is_alnum (CHR ''d'')"
  by (simp_all add: char_class)

lemma hyphen_underscore_not_letter [simp]: "\<not> is_letter (CHR ''-'')" "\<not> is_letter (CHR ''_'')"
  by (simp_all add: is_letter_def char_class)

text \<open>The second alphabet check of the code never fires: encoding keeps a valid tenant valid.\<close>

lemma encoded_is_table_name:
  assumes "tenant_input_re t"
  shows "table_name_re (concat (map iceberg_esc t))"
proof (cases t)
  case Nil
  with assms show ?thesis by (simp add: tenant_input_re_def)
next
  case (Cons c cs)
  with assms have "is_letter c" "iceberg_esc c = [c]"
    by (auto simp: tenant_input_re_def iceberg_esc_def)
  moreover have "list_all (\<lambda>c. is_alnum c \<or> c = CHR ''_'') (concat (map iceberg_esc cs))"
    using assms Cons by (auto simp: tenant_input_re_def list_all_iff iceberg_esc_def)
  ultimately show ?thesis using Cons by (simp add: table_name_re_def)
qed

lemma iceberg_tenant_prefix_Inr:
  "iceberg_tenant_prefix t = Inr e \<longleftrightarrow>
     tenant_input_re (py_strip t) \<and> e = concat (map iceberg_esc (py_strip t))"
  using encoded_is_table_name [of "py_strip t"]
  by (auto simp: iceberg_tenant_prefix_def Let_def iceberg_encode_esc tenant_input_re_def py_strip_def)

lemma iceberg_table_identifier_Inr:
  "iceberg_table_identifier t n = Inr i \<longleftrightarrow>
     table_name_re (py_strip n) \<and> tenant_input_re (py_strip t) \<and>
     i = (''raw'', concat (map iceberg_esc (py_strip t)) @ ''__'' @ py_strip n)"
  by (auto simp: iceberg_table_identifier_def Let_def res_simps iceberg_tenant_prefix_Inr
      table_name_re_def py_strip_def)

lemma iceberg_legacy_identifier_Inr:
  "iceberg_legacy_identifier n = Inr i \<longleftrightarrow> table_name_re (py_strip n) \<and> i = (''raw'', py_strip n)"
  by (auto simp: iceberg_legacy_identifier_def Let_def table_name_re_def py_strip_def)

text \<open>
  C25. An Iceberg identifier determines the tenant and the table name it was built from, up to
  surrounding white space: two tenants are never given the same table identifier. (What the
  writer does to legacy tables is another matter, see below.)
\<close>

theorem iceberg_identifier_injective:
  assumes "iceberg_table_identifier t1 n1 = Inr i" "iceberg_table_identifier t2 n2 = Inr i"
  shows "py_strip t1 = py_strip t2 \<and> py_strip n1 = py_strip n2"
proof -
  have "concat (map iceberg_esc (py_strip t1)) @ ''__'' @ py_strip n1 =
      concat (map iceberg_esc (py_strip t2)) @ ''__'' @ py_strip n2"
    using assms unfolding iceberg_table_identifier_Inr by simp
  then show ?thesis by (rule iceberg.delimited_inject)
qed

theorem iceberg_identifier_injective_witness:
  "py_strip ''fil-iale'' = py_strip '' fil-iale'' \<and> py_strip ''customers'' = py_strip ''customers ''"
proof -
  have "iceberg_table_identifier ''fil-iale'' ''customers'' = Inr (''raw'', ''fil_diale__customers'')"
    "iceberg_table_identifier '' fil-iale'' ''customers '' = Inr (''raw'', ''fil_diale__customers'')"
    by code_simp+
  then show ?thesis by (rule iceberg_identifier_injective)
qed

lemma table_name_not_space: "table_name_re s \<Longrightarrow> py_strip s = s"
proof (intro py_strip_id)
  assume re: "table_name_re s"
  then show "s \<noteq> []" by (simp add: table_name_re_def)
  have all: "\<forall>c \<in> set s. is_alnum c \<or> c = CHR ''_''"
    using re by (cases s) (auto simp: table_name_re_def list_all_iff is_letter_def is_alnum_def)
  have ns: "\<not> is_space c" if "is_alnum c \<or> c = CHR ''_''" for c
    using that by (auto simp: char_class)
  show "\<not> is_space (hd s)" "\<not> is_space (last s)"
    using all ns \<open>s \<noteq> []\<close> by (meson hd_in_set last_in_set)+
qed

lemma encoded_name_is_table_name:
  "tenant_input_re t \<Longrightarrow> table_name_re n \<Longrightarrow> table_name_re (concat (map iceberg_esc t) @ ''__'' @ n)"
proof -
  assume t: "tenant_input_re t" and n: "table_name_re n"
  let ?e = "concat (map iceberg_esc t)"
  have n': "list_all (\<lambda>c. is_alnum c \<or> c = CHR ''_'') n"
    using n by (cases n) (auto simp: table_name_re_def is_letter_def is_alnum_def)
  obtain c cs where e: "?e = c # cs" "is_letter c" "list_all (\<lambda>c. is_alnum c \<or> c = CHR ''_'') cs"
    using encoded_is_table_name [OF t] by (cases ?e) (auto simp: table_name_re_def)
  show ?thesis unfolding e(1) using e(2,3) n' by (simp add: table_name_re_def)
qed

text \<open>
  The legacy read alias crosses tenants: whatever tenant \<open>u\<close> reads, if it asks for the
  table name that is tenant \<open>t\<close>'s encoded name, the second identifier tried is exactly the
  table of \<open>t\<close>.
\<close>

theorem iceberg_legacy_alias_crosses_tenants:
  assumes "iceberg_table_identifier t n = Inr (ns, m)" "iceberg_table_identifier u m = Inr current"
  shows "iceberg_read_identifiers u m = Inr [current, (ns, m)]"
proof -
  from assms(1) have m: "ns = ''raw''" "m = concat (map iceberg_esc (py_strip t)) @ ''__'' @ py_strip n"
    and re: "table_name_re m"
    using encoded_name_is_table_name by (auto simp: iceberg_table_identifier_Inr)
  then have legacy: "iceberg_legacy_identifier m = Inr (ns, m)"
    by (simp add: iceberg_legacy_identifier_Inr table_name_not_space)
  from assms(2) have "current = (''raw'', concat (map iceberg_esc (py_strip u)) @ ''__'' @ m)"
    using table_name_not_space [OF re] by (simp add: iceberg_table_identifier_Inr)
  then have "current \<noteq> (ns, m)" by auto
  with assms(2) legacy show ?thesis by (simp add: iceberg_read_identifiers_def)
qed

theorem iceberg_legacy_alias_crosses_tenants_witness:
  "iceberg_read_identifiers ''globex'' ''acme__customers'' =
     Inr [(''raw'', ''globex__acme__customers''), (''raw'', ''acme__customers'')]"
proof -
  have "iceberg_table_identifier ''acme'' ''customers'' = Inr (''raw'', ''acme__customers'')"
    "iceberg_table_identifier ''globex'' ''acme__customers'' = Inr (''raw'', ''globex__acme__customers'')"
    by code_simp+
  then show ?thesis by (rule iceberg_legacy_alias_crosses_tenants)
qed

section \<open>The in-place upgrade of the snapshot writer\<close>

text \<open>
  \<open>_ensure_prefixed_identifier\<close> of \<open>iceberg_writer.py\<close>, which every first write of a
  sync goes through. The Iceberg catalog is not part of the repository: \<open>load_table\<close> and
  \<open>rename_table\<close> are arguments, with the exceptions the code tells apart.
\<close>

datatype catalog_error = NoSuchTableError | RenameAttributeError | CatalogFailure string

datatype writer_error = WriterIdent iceberg_error | WriterCatalog catalog_error

definition ensure_prefixed_identifier ::
  "('c \<Rightarrow> string \<times> string \<Rightarrow> (catalog_error, 't) result) \<Rightarrow>
   ('c \<Rightarrow> string \<times> string \<Rightarrow> string \<times> string \<Rightarrow> (catalog_error, 'c) result) \<Rightarrow>
   'c \<Rightarrow> string \<Rightarrow> string \<Rightarrow> (writer_error, (string \<times> string) \<times> 'c) result" where
  "ensure_prefixed_identifier load_table rename_table catalog tenant_id table_name =
     (case iceberg_table_identifier tenant_id table_name of
        Inl e \<Rightarrow> Inl (WriterIdent e)
      | Inr new_id \<Rightarrow>
          (case load_table catalog new_id of
             Inr _ \<Rightarrow> Inr (new_id, catalog)
           | Inl NoSuchTableError \<Rightarrow>
               (case iceberg_legacy_identifier table_name of
                  Inl e \<Rightarrow> Inl (WriterIdent e)
                | Inr legacy_id \<Rightarrow>
                    (case rename_table catalog legacy_id new_id of
                       Inr catalog' \<Rightarrow> Inr (new_id, catalog')
                     | Inl NoSuchTableError \<Rightarrow> Inr (new_id, catalog)
                     | Inl RenameAttributeError \<Rightarrow> Inr (new_id, catalog)
                     | Inl e \<Rightarrow> Inl (WriterCatalog e)))
           | Inl e \<Rightarrow> Inl (WriterCatalog e)))"

text \<open>The writer always hands out the caller's own prefixed identifier.\<close>

lemma ensure_prefixed_own_identifier:
  "ensure_prefixed_identifier load_table rename_table catalog t n = Inr (i, catalog') \<Longrightarrow>
   iceberg_table_identifier t n = Inr i"
  by (auto simp: ensure_prefixed_identifier_def split: sum.splits catalog_error.splits)

text \<open>
  The upgrade crosses tenants as the read alias does: when tenant \<open>u\<close> first writes a dataset
  whose table name is tenant \<open>t\<close>'s encoded name, the rename moves the table of \<open>t\<close> to \<open>u\<close>.
\<close>

theorem legacy_rename_takes_over:
  assumes "iceberg_table_identifier t n = Inr i" "iceberg_table_identifier u (snd i) = Inr new_id"
    and "load_table catalog new_id = Inl NoSuchTableError"
    and "rename_table catalog i new_id = Inr catalog'"
  shows "ensure_prefixed_identifier load_table rename_table catalog u (snd i) = Inr (new_id, catalog')"
proof -
  have re: "table_name_re (snd i)" and i: "fst i = ''raw''"
    using assms(1) encoded_name_is_table_name by (auto simp: iceberg_table_identifier_Inr)
  then have "iceberg_legacy_identifier (snd i) = Inr i"
    by (cases i) (simp add: iceberg_legacy_identifier_Inr table_name_not_space)
  with assms(2-) show ?thesis by (simp add: ensure_prefixed_identifier_def)
qed

text \<open>On a catalog that is a finite map: tenant \<open>acme\<close>'s rows now belong to \<open>globex\<close>.\<close>

lemma legacy_rename_takes_over_witness:
  "ensure_prefixed_identifier (\<lambda>c i. case c i of None \<Rightarrow> Inl NoSuchTableError | Some t \<Rightarrow> Inr t)
     (\<lambda>c old new. case c old of None \<Rightarrow> Inl NoSuchTableError
        | Some t \<Rightarrow> Inr ((c(old := None))(new \<mapsto> t)))
     [(''raw'', ''acme__customers'') \<mapsto> [1::int, 2]] ''globex'' ''acme__customers'' =
   Inr ((''raw'', ''globex__acme__customers''),
     [(''raw'', ''globex__acme__customers'') \<mapsto> [1, 2]])"
proof -
  have a: "iceberg_table_identifier ''acme'' ''customers'' = Inr (''raw'', ''acme__customers'')"
    "iceberg_table_identifier ''globex'' (snd (''raw'', ''acme__customers'')) =
       Inr (''raw'', ''globex__acme__customers'')"
    by code_simp+
  show ?thesis by (rule legacy_rename_takes_over [OF a, unfolded snd_conv]) (auto simp: fun_eq_iff)
qed

end
