(* ===== verification/Holon_Resilience.thy ===== *)
theory Holon_Resilience
  imports Holon_Prelude
begin

text \<open>
  The resilience primitives of \<open>observability.py\<close>: \<open>retry_with_backoff\<close> and
  \<open>CircuitBreaker\<close>. An awaited call is a function of the world it runs in and returns an
  outcome and the new world; \<open>time.monotonic()\<close> and \<open>random.random()\<close> are arguments, and
  times are reals. Because the breaker suspends while the call is in flight, admission and
  settlement are separate operations, composed by \<open>breaker_call\<close> and interleaved by
  \<open>breaker_step\<close>.
\<close>

section \<open>Retry with backoff\<close>

datatype ('e, 'a) retry_outcome = Returned 'a | Raised 'e | ReturnedNone

record retry_cfg =
  base_delay :: real
  max_delay :: real
  jitter :: bool

definition backoff_delay :: "retry_cfg \<Rightarrow> (nat \<Rightarrow> real) \<Rightarrow> nat \<Rightarrow> real" where
  "backoff_delay cfg rnd attempt =
     (let delay = min (base_delay cfg * 2 ^ (attempt - 1)) (max_delay cfg)
      in if jitter cfg then delay * (1 / 2 + rnd attempt) else delay)"

text \<open>\<open>for attempt in range(1, attempts + 1)\<close>: the first argument counts the iterations left.\<close>

fun retry_loop ::
  "nat \<Rightarrow> nat \<Rightarrow> retry_cfg \<Rightarrow> (nat \<Rightarrow> real) \<Rightarrow> ('e \<Rightarrow> bool) \<Rightarrow> ('s \<Rightarrow> ('e, 'a) result \<times> 's) \<Rightarrow> 's
     \<Rightarrow> ('e, 'a) retry_outcome \<times> 's \<times> real list" where
  "retry_loop 0 attempt cfg rnd retry_on fn s = (ReturnedNone, s, [])"
| "retry_loop (Suc n) attempt cfg rnd retry_on fn s =
     (case fn s of
        (Inr v, s') \<Rightarrow> (Returned v, s', [])
      | (Inl e, s') \<Rightarrow>
          if \<not> retry_on e then (Raised e, s', [])
          else if n = 0 then (Raised e, s', [])
          else let (r, s'', sleeps) = retry_loop n (Suc attempt) cfg rnd retry_on fn s'
               in (r, s'', backoff_delay cfg rnd attempt # sleeps))"

definition retry_with_backoff ::
  "int \<Rightarrow> retry_cfg \<Rightarrow> (nat \<Rightarrow> real) \<Rightarrow> ('e \<Rightarrow> bool) \<Rightarrow> ('s \<Rightarrow> ('e, 'a) result \<times> 's) \<Rightarrow> 's
     \<Rightarrow> ('e, 'a) retry_outcome \<times> 's \<times> real list" where
  "retry_with_backoff attempts cfg rnd retry_on fn s = retry_loop (nat attempts) 1 cfg rnd retry_on fn s"

text \<open>The reference: the outcomes of calling \<open>fn\<close> over and over.\<close>

fun nth_world :: "('s \<Rightarrow> ('e, 'a) result \<times> 's) \<Rightarrow> 's \<Rightarrow> nat \<Rightarrow> 's" where
  "nth_world fn s 0 = s"
| "nth_world fn s (Suc k) = nth_world fn (snd (fn s)) k"

definition nth_outcome :: "('s \<Rightarrow> ('e, 'a) result \<times> 's) \<Rightarrow> 's \<Rightarrow> nat \<Rightarrow> ('e, 'a) result" where
  "nth_outcome fn s k = fst (fn (nth_world fn s k))"

definition to_outcome :: "('e, 'a) result \<Rightarrow> ('e, 'a) retry_outcome" where
  "to_outcome r = (case r of Inl e \<Rightarrow> Raised e | Inr v \<Rightarrow> Returned v)"

definition retryable :: "('e \<Rightarrow> bool) \<Rightarrow> ('e, 'a) result \<Rightarrow> bool" where
  "retryable retry_on r = (case r of Inl e \<Rightarrow> retry_on e | Inr _ \<Rightarrow> False)"

lemma retry_loop_spec:
  "\<exists>m \<le> n. retry_loop (Suc n) k cfg rnd retry_on fn s =
      (to_outcome (nth_outcome fn s m), nth_world fn s (Suc m),
       map (\<lambda>i. backoff_delay cfg rnd (k + i)) [0..<m]) \<and>
    (\<forall>i < m. retryable retry_on (nth_outcome fn s i)) \<and>
    (m < n \<longrightarrow> \<not> retryable retry_on (nth_outcome fn s m))"
proof (induction n arbitrary: k s)
  case 0
  obtain r s' where fn: "fn s = (r, s')" by fastforce
  then show ?case
    by (auto simp: nth_outcome_def to_outcome_def split: sum.splits)
next
  case (Suc n)
  obtain r s' where fn: "fn s = (r, s')" by fastforce
  show ?case
  proof (cases "retryable retry_on r")
    case False
    with fn show ?thesis
      by (intro exI [of _ 0])
         (auto simp: nth_outcome_def to_outcome_def retryable_def split: sum.splits)
  next
    case True
    then obtain e where e: "r = Inl e" "retry_on e" by (auto simp: retryable_def split: sum.splits)
    from Suc.IH [of "Suc k" s'] obtain m where m: "m \<le> n"
      "retry_loop (Suc n) (Suc k) cfg rnd retry_on fn s' =
        (to_outcome (nth_outcome fn s' m), nth_world fn s' (Suc m),
         map (\<lambda>i. backoff_delay cfg rnd (Suc k + i)) [0..<m])"
      "\<forall>i < m. retryable retry_on (nth_outcome fn s' i)"
      "m < n \<longrightarrow> \<not> retryable retry_on (nth_outcome fn s' m)" by blast
    have shift: "nth_outcome fn s (Suc i) = nth_outcome fn s' i" for i
      using fn by (simp add: nth_outcome_def)
    have ds: "backoff_delay cfg rnd k # map (\<lambda>i. backoff_delay cfg rnd (Suc k + i)) [0..<m] =
        map (\<lambda>i. backoff_delay cfg rnd (k + i)) [0..<Suc m]"
      by (simp add: upt_conv_Cons map_Suc_upt [symmetric] del: upt_Suc)
    have "retryable retry_on (nth_outcome fn s i)" if "i < Suc m" for i
      using that m(3) True fn shift by (cases i) (auto simp: nth_outcome_def)
    moreover have "retry_loop (Suc (Suc n)) k cfg rnd retry_on fn s =
        (to_outcome (nth_outcome fn s (Suc m)), nth_world fn s (Suc (Suc m)),
         map (\<lambda>i. backoff_delay cfg rnd (k + i)) [0..<Suc m])"
      using fn e m(2) ds shift by (simp del: retry_loop.simps(2) add: retry_loop.simps(2) [of "Suc n" k])
    ultimately show ?thesis using m(1,4) shift by (intro exI [of _ "Suc m"]) auto
  qed
qed

lemma backoff_delay_bounds:
  assumes "0 \<le> base_delay cfg" "0 \<le> max_delay cfg" "0 \<le> rnd k" "rnd k < 1"
  shows "0 \<le> backoff_delay cfg rnd k \<and> backoff_delay cfg rnd k \<le> 3 / 2 * max_delay cfg \<and>
    (\<not> jitter cfg \<longrightarrow> backoff_delay cfg rnd k \<le> max_delay cfg)"
proof -
  let ?d = "min (base_delay cfg * 2 ^ (k - 1)) (max_delay cfg)"
  have d: "0 \<le> ?d" "?d \<le> max_delay cfg" using assms by auto
  have "?d * (1 / 2 + rnd k) \<le> max_delay cfg * (3 / 2)"
    by (rule mult_mono) (use d assms in auto)
  moreover have "0 \<le> ?d * (1 / 2 + rnd k)" using d assms by auto
  moreover have "max_delay cfg \<le> 3 / 2 * max_delay cfg" using assms(2) by simp
  ultimately show ?thesis using d unfolding backoff_delay_def Let_def by (simp only: if_splits) force
qed

text \<open>
  Retrying makes between one and \<open>attempts\<close> calls: it stops at the first outcome that is a
  value or an exception not retried on, hands that outcome to the caller, otherwise the last
  exception, and sleeps once, for the backoff delay of that attempt, before each further call.
\<close>

theorem retry_first_final_outcome:
  assumes "0 < attempts"
  shows "\<exists>m < nat attempts.
    retry_with_backoff attempts cfg rnd retry_on fn s =
      (to_outcome (nth_outcome fn s m), nth_world fn s (Suc m),
       map (\<lambda>i. backoff_delay cfg rnd (1 + i)) [0..<m]) \<and>
    (\<forall>i < m. retryable retry_on (nth_outcome fn s i)) \<and>
    (retryable retry_on (nth_outcome fn s m) \<longrightarrow> Suc m = nat attempts)"
proof -
  from assms obtain n where n: "nat attempts = Suc n" by (metis gr0_conv_Suc zero_less_nat_eq)
  from retry_loop_spec [of n 1 cfg rnd retry_on fn s] show ?thesis
    unfolding retry_with_backoff_def n by (metis le_imp_less_Suc le_neq_implies_less)
qed

theorem retry_first_final_outcome_witness:
  "\<exists>m < nat 3.
    retry_with_backoff 3 \<lparr>base_delay = 2, max_delay = 30, jitter = False\<rparr> (\<lambda>_. 0) (\<lambda>e. e = ''io'')
      (\<lambda>k. (if k < 2 then Inl ''io'' else Inr k, k + 1)) (0 :: nat) =
      (to_outcome (nth_outcome (\<lambda>k. (if k < 2 then Inl ''io'' else Inr k, k + 1)) (0 :: nat) m),
       nth_world (\<lambda>k. (if k < 2 then Inl ''io'' else Inr k, k + 1)) 0 (Suc m),
       map (\<lambda>i. backoff_delay \<lparr>base_delay = 2, max_delay = 30, jitter = False\<rparr> (\<lambda>_. 0) (1 + i)) [0..<m])"
proof -
  let ?cfg = "\<lparr>base_delay = 2, max_delay = 30, jitter = False\<rparr>"
    and ?fn = "\<lambda>k :: nat. (if k < 2 then Inl ''io'' else Inr k, k + 1)"
  have "0 < (3 :: int)" by simp
  from retry_first_final_outcome [OF this, of ?cfg "\<lambda>_. 0" "\<lambda>e. e = ''io''" ?fn 0]
  show ?thesis by blast
qed

section \<open>Circuit breaker\<close>

datatype circuit = Closed | Open | HalfOpen

record breaker_cfg =
  failure_threshold :: int
  cooldown_seconds :: real

record breaker =
  failures :: int
  state :: circuit
  opened_at :: "real option"

datatype 'e call_error = CircuitBreakerOpenError | BreakerTypeError | Upstream 'e

definition breaker_init :: breaker where
  "breaker_init = \<lparr>failures = 0, state = Closed, opened_at = None\<rparr>"

text \<open>The part of \<open>call\<close> before the await; \<open>now - None\<close> would be a \<open>TypeError\<close>.\<close>

definition breaker_admit :: "breaker_cfg \<Rightarrow> real \<Rightarrow> breaker \<Rightarrow> ('e call_error, breaker) result" where
  "breaker_admit cfg now b =
     (if state b = Open then
        (case opened_at b of
           None \<Rightarrow> Inl BreakerTypeError
         | Some t \<Rightarrow>
             if now - t < cooldown_seconds cfg then Inl CircuitBreakerOpenError
             else Inr (b\<lparr>state := HalfOpen\<rparr>))
      else Inr b)"

text \<open>The part after it; \<open>counts\<close> is \<open>counts_as_failure\<close>.\<close>

definition breaker_settle ::
  "breaker_cfg \<Rightarrow> ('e \<Rightarrow> bool) option \<Rightarrow> real \<Rightarrow> ('e, 'a) result \<Rightarrow> breaker \<Rightarrow> breaker" where
  "breaker_settle cfg counts now r b =
     (case r of
        Inl exc \<Rightarrow>
          if (case counts of None \<Rightarrow> False | Some f \<Rightarrow> \<not> f exc)
          then b\<lparr>failures := 0, state := (if state b = HalfOpen then Closed else state b)\<rparr>
          else let b' = b\<lparr>failures := failures b + 1\<rparr> in
            if state b' = HalfOpen \<or> failure_threshold cfg \<le> failures b'
            then b'\<lparr>state := Open, opened_at := Some now\<rparr> else b'
      | Inr _ \<Rightarrow> b\<lparr>failures := 0, state := Closed\<rparr>)"

definition breaker_call ::
  "breaker_cfg \<Rightarrow> ('e \<Rightarrow> bool) option \<Rightarrow> real \<Rightarrow> real \<Rightarrow> ('s \<Rightarrow> ('e, 'a) result \<times> 's) \<Rightarrow> breaker \<Rightarrow> 's
     \<Rightarrow> ('e call_error, 'a) result \<times> breaker \<times> 's" where
  "breaker_call cfg counts now now' fn b s =
     (case breaker_admit cfg now b of
        Inl e \<Rightarrow> (Inl e, b, s)
      | Inr b' \<Rightarrow>
          (case fn s of (r, s') \<Rightarrow>
             (case r of Inl e \<Rightarrow> Inl (Upstream e) | Inr v \<Rightarrow> Inr v,
              breaker_settle cfg counts now' r b', s')))"

definition breaker_inv :: "breaker_cfg \<Rightarrow> breaker \<Rightarrow> bool" where
  "breaker_inv cfg b \<longleftrightarrow> 0 \<le> failures b \<and> (state b = Open \<longrightarrow> opened_at b \<noteq> None) \<and>
     (state b = Closed \<longrightarrow> failures b < failure_threshold cfg)"

text \<open>
  Overlapping calls: a call is admitted, and settles while others are in flight. A cancelled
  call leaves by an exception that \<open>except Exception\<close> does not catch, and settles nothing.
\<close>

inductive breaker_step :: "breaker_cfg \<Rightarrow> breaker \<times> nat \<Rightarrow> breaker \<times> nat \<Rightarrow> bool" for cfg where
  admit: "breaker_admit cfg now b = (Inr b' :: (unit call_error, breaker) result) \<Longrightarrow>
     breaker_step cfg (b, n) (b', Suc n)"
| settle: "breaker_step cfg (b, Suc n) (breaker_settle cfg counts now (r :: (unit, unit) result) b, n)"
| cancel: "breaker_step cfg (b, Suc n) (b, n)"

inductive breaker_reachable :: "breaker_cfg \<Rightarrow> breaker \<times> nat \<Rightarrow> bool" for cfg where
  init: "breaker_reachable cfg (breaker_init, 0)"
| step: "breaker_reachable cfg x \<Longrightarrow> breaker_step cfg x y \<Longrightarrow> breaker_reachable cfg y"

lemma breaker_inv_init: "0 < failure_threshold cfg \<Longrightarrow> breaker_inv cfg breaker_init"
  by (simp add: breaker_inv_def breaker_init_def)

lemma breaker_inv_admit: "breaker_inv cfg b \<Longrightarrow> breaker_admit cfg now b = Inr b' \<Longrightarrow> breaker_inv cfg b'"
  by (auto simp: breaker_inv_def breaker_admit_def split: if_splits option.splits)

lemma breaker_inv_settle:
  "0 < failure_threshold cfg \<Longrightarrow> breaker_inv cfg b \<Longrightarrow> breaker_inv cfg (breaker_settle cfg counts now r b)"
  by (auto simp: breaker_inv_def breaker_settle_def Let_def split: sum.splits option.splits)

lemma breaker_inv_call:
  "0 < failure_threshold cfg \<Longrightarrow> breaker_inv cfg b \<Longrightarrow> breaker_call cfg counts now now' fn b s = (r, b', s') \<Longrightarrow>
   breaker_inv cfg b'"
  by (auto simp: breaker_call_def intro!: breaker_inv_settle intro: breaker_inv_admit
      split: sum.splits prod.splits)

text \<open>
  C26. In every interleaving of overlapping calls the breaker stays consistent: the failure
  count is never negative, an open breaker knows when it opened, so the cooldown test cannot
  raise a type error, and a closed breaker is below its failure threshold.
\<close>

theorem breaker_reachable_inv:
  assumes "breaker_reachable cfg (b, n)" "0 < failure_threshold cfg"
  shows "breaker_inv cfg b \<and> breaker_admit cfg now b \<noteq> (Inl BreakerTypeError :: ('e call_error, breaker) result)"
proof -
  have "breaker_inv cfg (fst x)" if "breaker_reachable cfg x" for x
    using that
  proof induction
    case init
    with assms(2) show ?case by (simp add: breaker_inv_init)
  next
    case (step x y)
    from step.hyps(2) step.IH show ?case
      by cases (auto intro: breaker_inv_admit breaker_inv_settle assms(2))
  qed
  from this [OF assms(1)] have "breaker_inv cfg b" by simp
  then show ?thesis
    by (auto simp: breaker_inv_def breaker_admit_def split: option.splits)
qed

theorem breaker_reachable_inv_witness:
  "breaker_inv \<lparr>failure_threshold = 1, cooldown_seconds = 30\<rparr>
     \<lparr>failures = 1, state = Open, opened_at = Some 7\<rparr>"
proof -
  let ?cfg = "\<lparr>failure_threshold = 1, cooldown_seconds = 30\<rparr>"
  have "breaker_step ?cfg (breaker_init, 0) (breaker_init, Suc 0)"
    by (rule breaker_step.admit [of _ 0]) (simp add: breaker_admit_def breaker_init_def)
  then have r: "breaker_reachable ?cfg (breaker_init, Suc 0)"
    by (rule breaker_reachable.step [OF breaker_reachable.init])
  have "breaker_step ?cfg (breaker_init, Suc 0)
      (breaker_settle ?cfg None 7 (Inl () :: (unit, unit) result) breaker_init, 0)"
    by (rule breaker_step.settle)
  then have "breaker_reachable ?cfg
      (breaker_settle ?cfg None 7 (Inl () :: (unit, unit) result) breaker_init, 0)"
    by (rule breaker_reachable.step [OF r])
  from breaker_reachable_inv [where ?'e = unit, OF this, of 0] show ?thesis
    by (simp add: breaker_settle_def breaker_init_def)
qed

subsection \<open>The contract a caller of the breaker relies on\<close>

locale guarded_call =
  fixes call :: "('s \<Rightarrow> ('e, 'a) result \<times> 's) \<Rightarrow> 'b \<Rightarrow> 's \<Rightarrow> ('e call_error, 'a) result \<times> 'b \<times> 's"
    and inv :: "'b \<Rightarrow> bool"
  assumes call_value: "call fn b s = (Inr v, b', s') \<Longrightarrow> fn s = (Inr v, s')"
    and call_upstream: "call fn b s = (Inl (Upstream e), b', s') \<Longrightarrow> fn s = (Inl e, s')"
    and call_rejected: "call fn b s = (Inl CircuitBreakerOpenError, b', s') \<Longrightarrow> s' = s \<and> b' = b"
    and call_no_type_error: "inv b \<Longrightarrow> call fn b s \<noteq> (Inl BreakerTypeError, b', s')"
    and call_inv: "inv b \<Longrightarrow> call fn b s = (r, b', s') \<Longrightarrow> inv b'"
begin

text \<open>A guarded call either ran the function once, or was rejected without touching the world.\<close>

lemma call_cases:
  assumes "inv b"
  obtains v b' s' where "call fn b s = (Inr v, b', s')" "fn s = (Inr v, s')" "inv b'"
  | e b' s' where "call fn b s = (Inl (Upstream e), b', s')" "fn s = (Inl e, s')" "inv b'"
  | "call fn b s = (Inl CircuitBreakerOpenError, b, s)"
proof -
  obtain r b' s' where c: "call fn b s = (r, b', s')" by (metis prod.exhaust)
  have i: "inv b'" using assms c by (rule call_inv)
  show thesis
  proof (cases r)
    case (Inr v)
    with c i that(1) call_value show thesis by blast
  next
    case (Inl err)
    with c i that(2,3) call_upstream call_rejected call_no_type_error [OF assms] show thesis
      by (cases err) blast+
  qed
qed

end

text \<open>The breaker with a positive threshold is such a guard, whatever the clock says.\<close>

lemma breaker_guarded_call:
  fixes counts :: "('e \<Rightarrow> bool) option"
  assumes "0 < failure_threshold cfg"
  shows "guarded_call (breaker_call cfg counts now now' ::
      ('s \<Rightarrow> ('e, 'a) result \<times> 's) \<Rightarrow> breaker \<Rightarrow> 's \<Rightarrow> ('e call_error, 'a) result \<times> breaker \<times> 's)
    (breaker_inv cfg)"
proof
  fix fn :: "'s \<Rightarrow> ('e, 'a) result \<times> 's" and b b' :: breaker and s s' :: 's and v :: 'a and e :: 'e
    and r :: "('e call_error, 'a) result"
  show "breaker_call cfg counts now now' fn b s = (Inr v, b', s') \<Longrightarrow> fn s = (Inr v, s')"
    "breaker_call cfg counts now now' fn b s = (Inl (Upstream e), b', s') \<Longrightarrow> fn s = (Inl e, s')"
    "breaker_call cfg counts now now' fn b s = (Inl CircuitBreakerOpenError, b', s') \<Longrightarrow> s' = s \<and> b' = b"
    by (auto simp: breaker_call_def breaker_admit_def split: sum.splits prod.splits if_splits option.splits)
  show "breaker_inv cfg b \<Longrightarrow> breaker_call cfg counts now now' fn b s \<noteq> (Inl BreakerTypeError, b', s')"
    by (auto simp: breaker_call_def breaker_admit_def breaker_inv_def
        split: sum.splits prod.splits if_splits option.splits)
  show "breaker_inv cfg b \<Longrightarrow> breaker_call cfg counts now now' fn b s = (r, b', s') \<Longrightarrow> breaker_inv cfg b'"
    using assms by (rule breaker_inv_call)
qed

text \<open>Every breaker of the platform is built with these two numbers.\<close>

definition service_breaker_cfg :: breaker_cfg where
  "service_breaker_cfg = \<lparr>failure_threshold = 5, cooldown_seconds = 30\<rparr>"

interpretation service_breaker: guarded_call
  "breaker_call service_breaker_cfg counts now now'" "breaker_inv service_breaker_cfg"
  for counts now now'
  by (rule breaker_guarded_call) (simp add: service_breaker_cfg_def)

subsection \<open>Opening, rejecting, recovering\<close>

fun settle_failures :: "breaker_cfg \<Rightarrow> real \<Rightarrow> nat \<Rightarrow> breaker \<Rightarrow> breaker" where
  "settle_failures cfg now 0 b = b"
| "settle_failures cfg now (Suc n) b =
     settle_failures cfg now n (breaker_settle cfg None now (Inl () :: (unit, unit) result) b)"

lemma settle_failures_closed:
  "state b = Closed \<Longrightarrow> failures b + int n < failure_threshold cfg \<Longrightarrow>
   settle_failures cfg now n b = b\<lparr>failures := failures b + int n\<rparr>"
proof (induction n arbitrary: b)
  case (Suc n)
  have step: "breaker_settle cfg None now (Inl () :: (unit, unit) result) b = b\<lparr>failures := failures b + 1\<rparr>"
    using Suc.prems by (simp add: breaker_settle_def)
  have "settle_failures cfg now n (b\<lparr>failures := failures b + 1\<rparr>) =
      b\<lparr>failures := failures b + 1 + int n\<rparr>"
    using Suc.IH [of "b\<lparr>failures := failures b + 1\<rparr>"] Suc.prems by simp
  with step show ?case by (simp add: algebra_simps)
qed simp



text \<open>
  The half-open state does not limit the number of trial calls: once the cooldown is over,
  any number of overlapping calls is admitted before the first of them settles.
\<close>

theorem half_open_admits_any_number:
  assumes "state b = Open" "opened_at b = Some t" "cooldown_seconds cfg \<le> now - t"
  shows "(breaker_step cfg ^^ Suc k) (b, n) (b\<lparr>state := HalfOpen\<rparr>, n + Suc k)"
proof (induction k)
  case 0
  have "breaker_admit cfg now b = (Inr (b\<lparr>state := HalfOpen\<rparr>) :: (unit call_error, breaker) result)"
    using assms by (simp add: breaker_admit_def)
  then show ?case by (auto intro: breaker_step.admit)
next
  case (Suc k)
  have "breaker_step cfg (b\<lparr>state := HalfOpen\<rparr>, n + Suc k) (b\<lparr>state := HalfOpen\<rparr>, Suc (n + Suc k))"
    by (rule breaker_step.admit [of _ now]) (simp add: breaker_admit_def)
  with Suc show ?case by (auto simp del: relpowp.simps intro: relpowp_Suc_I)
qed

theorem half_open_admits_any_number_witness:
  "(breaker_step \<lparr>failure_threshold = 5, cooldown_seconds = 30\<rparr> ^^ Suc 9)
     (\<lparr>failures = 5, state = Open, opened_at = Some 0\<rparr>, 0)
     (\<lparr>failures = 5, state = HalfOpen, opened_at = Some 0\<rparr>, 10)"
  using half_open_admits_any_number [of "\<lparr>failures = 5, state = Open, opened_at = Some 0\<rparr>" 0
      "\<lparr>failure_threshold = 5, cooldown_seconds = 30\<rparr>" 31 9 0] by simp

end
