(* ===== verification/Holon_Json.thy ===== *)
theory Holon_Json
  imports Holon_Prelude
begin

text \<open>
  JSON values as the services hold them after decoding: Python's \<open>None\<close>, \<open>bool\<close>, \<open>int\<close>,
  \<open>float\<close> (as a real), \<open>str\<close>, \<open>list\<close> and \<open>dict\<close> with string keys in insertion order,
  with the truth test and the accessors the code uses on them.
\<close>

datatype json =
    JNull
  | JBool bool
  | JInt int
  | JFloat real
  | JStr string
  | JList "json list"
  | JObj "(string \<times> json) list"

type_synonym payload = "(string, json) dict"

fun truthy :: "json \<Rightarrow> bool" where
  "truthy JNull = False"
| "truthy (JBool b) = b"
| "truthy (JInt i) = (i \<noteq> 0)"
| "truthy (JFloat r) = (r \<noteq> 0)"
| "truthy (JStr s) = (s \<noteq> [])"
| "truthy (JList xs) = (xs \<noteq> [])"
| "truthy (JObj d) = (d \<noteq> [])"

text \<open>\<open>d.get(k)\<close> with the default \<open>None\<close>.\<close>

definition obj_get :: "payload \<Rightarrow> string \<Rightarrow> json" where
  "obj_get d k = (case dict_get d k of None \<Rightarrow> JNull | Some v \<Rightarrow> v)"

definition jopt :: "string option \<Rightarrow> json" where
  "jopt s = (case s of None \<Rightarrow> JNull | Some x \<Rightarrow> JStr x)"

fun is_dict :: "json \<Rightarrow> bool" where
  "is_dict (JObj _) = True"
| "is_dict _ = False"

lemma obj_get_Nil [simp]: "obj_get [] k = JNull"
  by (simp add: obj_get_def)

lemma obj_get_set [simp]: "obj_get (dict_set k v d) j = (if j = k then v else obj_get d j)"
  by (simp add: obj_get_def)

text \<open>A member of an object is smaller than the object.\<close>

lemma member_smaller: "dict_get d k = Some j \<Longrightarrow> size j < size (JObj d)"
proof -
  assume "dict_get d k = Some j"
  then have "(k, j) \<in> set d" by (rule dict_get_mem)
  then have "size j \<le> size_list (size_prod (\<lambda>_. 0) size) d" by (induction d) auto
  then show ?thesis by simp
qed

end
