(* ===== verification/Holon_Errors.thy ===== *)
theory Holon_Errors
  imports Holon_Json
begin

text \<open>
  The error contract of \<open>libs/holon_common/errors.py\<close>: status-to-code tables, the typed
  \<open>HolonError\<close> with its factories, the canonical body, and the four exception handlers as
  functions from the exception to the response (status, body, headers). The fresh error
  instance id (\<open>uuid4\<close>) is an argument; logging is left out.
\<close>

definition CODE_UNAUTHORIZED :: string where "CODE_UNAUTHORIZED = ''unauthorized''"
definition CODE_FORBIDDEN :: string where "CODE_FORBIDDEN = ''forbidden''"
definition CODE_NOT_FOUND :: string where "CODE_NOT_FOUND = ''not_found''"
definition CODE_INVALID_ARGUMENT :: string where "CODE_INVALID_ARGUMENT = ''invalid_argument''"
definition CODE_CONFLICT :: string where "CODE_CONFLICT = ''conflict''"
definition CODE_RATE_LIMITED :: string where "CODE_RATE_LIMITED = ''rate_limited''"
definition CODE_UNAVAILABLE :: string where "CODE_UNAVAILABLE = ''unavailable''"
definition CODE_INTERNAL :: string where "CODE_INTERNAL = ''internal''"

lemmas code_names =
  CODE_UNAUTHORIZED_def CODE_FORBIDDEN_def CODE_NOT_FOUND_def CODE_INVALID_ARGUMENT_def
  CODE_CONFLICT_def CODE_RATE_LIMITED_def CODE_UNAVAILABLE_def CODE_INTERNAL_def

definition status_to_code :: "(int, string) dict" where
  "status_to_code =
     [(400, CODE_INVALID_ARGUMENT), (401, CODE_UNAUTHORIZED), (403, CODE_FORBIDDEN),
      (404, CODE_NOT_FOUND), (409, CODE_CONFLICT), (415, CODE_INVALID_ARGUMENT),
      (422, CODE_INVALID_ARGUMENT), (429, CODE_RATE_LIMITED), (503, CODE_UNAVAILABLE),
      (500, CODE_INTERNAL)]"

definition code_for_status :: "int \<Rightarrow> string" where
  "code_for_status status_code =
     (case dict_get status_to_code status_code of
        Some c \<Rightarrow> c
      | None \<Rightarrow>
          if status_code = 502 then CODE_UNAVAILABLE
          else if 400 \<le> status_code \<and> status_code < 500 then CODE_INVALID_ARGUMENT
          else if status_code = 503 then CODE_UNAVAILABLE
          else CODE_INTERNAL)"

definition wire_error_codes :: "(string, string) dict" where
  "wire_error_codes =
     [(CODE_UNAUTHORIZED, ''UNAUTHORIZED''), (CODE_FORBIDDEN, ''PERMISSION_DENIED''),
      (CODE_NOT_FOUND, ''NOT_FOUND''), (CODE_INVALID_ARGUMENT, ''INVALID_ARGUMENT''),
      (CODE_CONFLICT, ''CONFLICT''), (CODE_RATE_LIMITED, ''RATE_LIMITED''),
      (CODE_UNAVAILABLE, ''UNAVAILABLE''), (CODE_INTERNAL, ''INTERNAL'')]"

definition wire_error_code :: "string \<Rightarrow> string" where
  "wire_error_code error_code =
     (case dict_get wire_error_codes error_code of Some c \<Rightarrow> c | None \<Rightarrow> py_upper error_code)"

definition error_body ::
  "string \<Rightarrow> string \<Rightarrow> string \<Rightarrow> string \<Rightarrow> payload option \<Rightarrow> string option \<Rightarrow> string \<Rightarrow> payload" where
  "error_body detail error_code error_name service parameters error_instance_id fresh_id =
     (let instance_id = (case error_instance_id of
            Some i \<Rightarrow> if i = [] then fresh_id else i | None \<Rightarrow> fresh_id)
      in [(''detail'', JStr detail),
          (''errorCode'', JStr (wire_error_code error_code)),
          (''errorName'', JStr error_name),
          (''errorInstanceId'', JStr instance_id),
          (''parameters'', JObj (case parameters of None \<Rightarrow> [] | Some p \<Rightarrow> p)),
          (''service'', JStr service)])"

record HolonError =
  status_code :: int
  error_name :: string
  detail :: string
  error_code :: string
  parameters :: payload
  headers :: "(string, string) dict"

definition new_HolonError ::
  "int \<Rightarrow> string \<Rightarrow> string \<Rightarrow> string option \<Rightarrow> payload option \<Rightarrow> (string, string) dict option \<Rightarrow> HolonError" where
  "new_HolonError status name det code params hdrs =
     \<lparr>status_code = status, error_name = name, detail = det,
      error_code = (case code of Some c \<Rightarrow> if c = [] then code_for_status status else c
                    | None \<Rightarrow> code_for_status status),
      parameters = (case params of None \<Rightarrow> [] | Some p \<Rightarrow> p),
      headers = (case hdrs of None \<Rightarrow> [] | Some h \<Rightarrow> h)\<rparr>"

definition to_body :: "HolonError \<Rightarrow> string \<Rightarrow> string option \<Rightarrow> string \<Rightarrow> payload" where
  "to_body exc service error_instance_id fresh_id =
     error_body (detail exc) (error_code exc) (error_name exc) service (Some (parameters exc))
       error_instance_id fresh_id"

definition http_names :: "(int, string) dict" where
  "http_names =
     [(400, ''InvalidRequest''), (401, ''Unauthorized''), (403, ''Forbidden''), (404, ''NotFound''),
      (409, ''Conflict''), (422, ''ValidationFailed''), (429, ''RateLimited''), (502, ''BadGateway''),
      (503, ''Unavailable''), (500, ''InternalError'')]"

definition from_http ::
  "int \<Rightarrow> string \<Rightarrow> string option \<Rightarrow> payload option \<Rightarrow> (string, string) dict option \<Rightarrow> HolonError" where
  "from_http status det name params hdrs =
     (let default = (case dict_get http_names status of Some n \<Rightarrow> n | None \<Rightarrow> ''RequestFailed'');
          nm = (case name of Some n \<Rightarrow> if n = [] then default else n | None \<Rightarrow> default)
      in new_HolonError status nm det (Some (code_for_status status)) params hdrs)"

definition invalid_argument :: "string \<Rightarrow> string \<Rightarrow> payload \<Rightarrow> HolonError" where
  "invalid_argument name det params = new_HolonError 400 name det (Some CODE_INVALID_ARGUMENT) (Some params) None"

definition unauthorized :: "string \<Rightarrow> string \<Rightarrow> payload \<Rightarrow> HolonError" where
  "unauthorized name det params = new_HolonError 401 name det (Some CODE_UNAUTHORIZED) (Some params) None"

definition forbidden :: "string \<Rightarrow> string \<Rightarrow> payload \<Rightarrow> HolonError" where
  "forbidden name det params = new_HolonError 403 name det (Some CODE_FORBIDDEN) (Some params) None"

definition not_found :: "string \<Rightarrow> string \<Rightarrow> payload \<Rightarrow> HolonError" where
  "not_found name det params = new_HolonError 404 name det (Some CODE_NOT_FOUND) (Some params) None"

definition conflict :: "string \<Rightarrow> string \<Rightarrow> payload \<Rightarrow> HolonError" where
  "conflict name det params = new_HolonError 409 name det (Some CODE_CONFLICT) (Some params) None"

definition rate_limited :: "string \<Rightarrow> string \<Rightarrow> payload \<Rightarrow> HolonError" where
  "rate_limited name det params = new_HolonError 429 name det (Some CODE_RATE_LIMITED) (Some params) None"

definition unavailable :: "string \<Rightarrow> string \<Rightarrow> payload \<Rightarrow> HolonError" where
  "unavailable name det params = new_HolonError 503 name det (Some CODE_UNAVAILABLE) (Some params) None"

definition internal_error :: "string \<Rightarrow> string \<Rightarrow> payload \<Rightarrow> HolonError" where
  "internal_error name det params = new_HolonError 500 name det (Some CODE_INTERNAL) (Some params) None"

text \<open>
  \<open>_detail_message\<close> and the handlers. \<open>str\<close> of a number or truth value is not needed for the
  contract and is an argument of the model (\<open>py_str\<close>).
\<close>

definition detail_message :: "(json \<Rightarrow> string) \<Rightarrow> json \<Rightarrow> string" where
  "detail_message py_str d =
     (case d of
        JNull \<Rightarrow> ''request failed''
      | JStr s \<Rightarrow> s
      | JList _ \<Rightarrow> ''request failed''
      | JObj _ \<Rightarrow> ''request failed''
      | _ \<Rightarrow> py_str d)"

definition legacy_http_name :: "int \<Rightarrow> string" where
  "legacy_http_name status =
     (case dict_get [(400, ''InvalidRequest''), (401, ''Unauthorized''), (403, ''Forbidden''),
        (404, ''NotFound''), (409, ''Conflict''), (422, ''ValidationFailed''), (429, ''RateLimited''),
        (503, ''Unavailable''), (500, ''InternalError'')] status of
        Some n \<Rightarrow> n | None \<Rightarrow> ''RequestFailed'')"

record response =
  resp_status :: int
  resp_body :: payload
  resp_headers :: "(string, string) dict option"

definition holon_error_handler :: "string \<Rightarrow> string \<Rightarrow> HolonError \<Rightarrow> response" where
  "holon_error_handler service instance_id exc =
     \<lparr>resp_status = status_code exc, resp_body = to_body exc service (Some instance_id) instance_id,
      resp_headers = (if headers exc = [] then None else Some (headers exc))\<rparr>"

definition validation_handler :: "string \<Rightarrow> string \<Rightarrow> json \<Rightarrow> response" where
  "validation_handler service instance_id errs =
     \<lparr>resp_status = 422,
      resp_body = error_body ''request validation failed'' CODE_INVALID_ARGUMENT
        ''RequestValidationFailed'' service (Some [(''errors'', errs)]) (Some instance_id) instance_id,
      resp_headers = None\<rparr>"

definition http_exception_handler ::
  "(json \<Rightarrow> string) \<Rightarrow> string \<Rightarrow> string \<Rightarrow> int \<Rightarrow> json \<Rightarrow> (string, string) dict \<Rightarrow> response" where
  "http_exception_handler py_str service instance_id status det hdrs =
     (let (message, name, code, params) =
        (case det of
           JObj raw \<Rightarrow>
             if dict_get raw ''error_name'' \<noteq> None \<and> dict_get raw ''detail'' \<noteq> None then
               (let pick = (\<lambda>key default. let v = obj_get raw key in if truthy v then
                      (case v of JStr s \<Rightarrow> s | _ \<Rightarrow> py_str v) else default)
                in (pick ''detail'' ''request failed'',
                    pick ''error_name'' (legacy_http_name status),
                    pick ''error_code'' (code_for_status status),
                    (case obj_get raw ''parameters'' of JObj p \<Rightarrow> p | _ \<Rightarrow> [])))
             else (detail_message py_str det, legacy_http_name status, code_for_status status, [])
         | _ \<Rightarrow> (detail_message py_str det, legacy_http_name status, code_for_status status, []))
      in \<lparr>resp_status = status,
          resp_body = error_body message code name service (Some params) (Some instance_id) instance_id,
          resp_headers = (if hdrs = [] then None else Some hdrs)\<rparr>)"

definition unhandled_exception_handler :: "string \<Rightarrow> string \<Rightarrow> response" where
  "unhandled_exception_handler service instance_id =
     \<lparr>resp_status = 500,
      resp_body = error_body ''internal server error'' CODE_INTERNAL ''InternalError'' service None
        (Some instance_id) instance_id,
      resp_headers = None\<rparr>"

section \<open>The contract\<close>

lemma dict_get_cases: "dict_get d k = Some v \<Longrightarrow> \<exists>(k', v') \<in> set d. k' = k \<and> v' = v"
  by (auto dest: dict_get_mem)

lemma code_for_status_range:
  "(400 \<le> s \<and> s < 500 \<longrightarrow> code_for_status s \<in>
      {CODE_INVALID_ARGUMENT, CODE_UNAUTHORIZED, CODE_FORBIDDEN, CODE_NOT_FOUND, CODE_CONFLICT, CODE_RATE_LIMITED}) \<and>
   (500 \<le> s \<longrightarrow> code_for_status s \<in> {CODE_UNAVAILABLE, CODE_INTERNAL})"
  by (auto simp: code_for_status_def status_to_code_def dict_get_def)

lemma wire_error_code_table:
  "wire_error_code CODE_UNAUTHORIZED = ''UNAUTHORIZED''"
  "wire_error_code CODE_FORBIDDEN = ''PERMISSION_DENIED''"
  "wire_error_code CODE_NOT_FOUND = ''NOT_FOUND''"
  "wire_error_code CODE_INVALID_ARGUMENT = ''INVALID_ARGUMENT''"
  "wire_error_code CODE_CONFLICT = ''CONFLICT''"
  "wire_error_code CODE_RATE_LIMITED = ''RATE_LIMITED''"
  "wire_error_code CODE_UNAVAILABLE = ''UNAVAILABLE''"
  "wire_error_code CODE_INTERNAL = ''INTERNAL''"
  by (simp_all add: wire_error_code_def wire_error_codes_def dict_get_def code_names)

lemma factory_codes:
  "code_for_status (status_code (invalid_argument n d p)) = error_code (invalid_argument n d p)"
  "code_for_status (status_code (unauthorized n d p)) = error_code (unauthorized n d p)"
  "code_for_status (status_code (forbidden n d p)) = error_code (forbidden n d p)"
  "code_for_status (status_code (not_found n d p)) = error_code (not_found n d p)"
  "code_for_status (status_code (conflict n d p)) = error_code (conflict n d p)"
  "code_for_status (status_code (rate_limited n d p)) = error_code (rate_limited n d p)"
  "code_for_status (status_code (unavailable n d p)) = error_code (unavailable n d p)"
  "code_for_status (status_code (internal_error n d p)) = error_code (internal_error n d p)"
  by (simp_all add: invalid_argument_def unauthorized_def forbidden_def not_found_def conflict_def
      rate_limited_def unavailable_def internal_error_def new_HolonError_def code_for_status_def
      status_to_code_def dict_get_def code_names)

definition client_codes :: "string set" where
  "client_codes = {''INVALID_ARGUMENT'', ''UNAUTHORIZED'', ''PERMISSION_DENIED'', ''NOT_FOUND'',
     ''CONFLICT'', ''RATE_LIMITED''}"

definition server_codes :: "string set" where
  "server_codes = {''UNAVAILABLE'', ''INTERNAL''}"

lemma wire_code_for_status:
  "(400 \<le> s \<and> s < 500 \<longrightarrow> wire_error_code (code_for_status s) \<in> client_codes) \<and>
   (500 \<le> s \<longrightarrow> wire_error_code (code_for_status s) \<in> server_codes)"
  using code_for_status_range [of s] wire_error_code_table
  by (auto simp: client_codes_def server_codes_def)

lemma handlers_canonical:
  assumes "i \<noteq> []" "r \<in> {holon_error_handler svc i exc, validation_handler svc i errs,
      http_exception_handler py_str svc i st det hdrs, unhandled_exception_handler svc i}"
  shows "map fst (resp_body r) =
      [''detail'', ''errorCode'', ''errorName'', ''errorInstanceId'', ''parameters'', ''service''] \<and>
    obj_get (resp_body r) ''errorInstanceId'' = JStr i \<and> obj_get (resp_body r) ''service'' = JStr svc"
  using assms
  by (auto simp: holon_error_handler_def validation_handler_def http_exception_handler_def
      unhandled_exception_handler_def to_body_def error_body_def obj_get_def dict_get_def Let_def
      split: prod.splits)

lemma raised_error_code:
  assumes "exc \<in> {invalid_argument n d p, unauthorized n d p, forbidden n d p, not_found n d p,
      conflict n d p, rate_limited n d p, unavailable n d p, internal_error n d p,
      from_http st d nm prm hdrs}"
  shows "obj_get (resp_body (holon_error_handler svc i exc)) ''errorCode'' =
      JStr (wire_error_code (code_for_status (status_code exc)))"
proof -
  have "code_for_status (status_code (from_http st d nm prm hdrs)) = error_code (from_http st d nm prm hdrs)"
    by (simp add: from_http_def new_HolonError_def Let_def)
  with assms factory_codes have "code_for_status (status_code exc) = error_code exc" by auto
  then show ?thesis
    by (simp add: holon_error_handler_def to_body_def error_body_def obj_get_def dict_get_def)
qed

end
