(* ===== verification/Holon_Posture.thy ===== *)
theory Holon_Posture
  imports Holon_Prelude
begin

text \<open>
  Environment flags and the production gate of \<open>security_posture.py\<close>, with
  \<open>auth.jwt_algorithm\<close> that it calls. The process environment is a partial map; the messages
  of the violations are the constructors of a datatype, one per \<open>violations.append\<close>.
\<close>

definition env_get :: "env \<Rightarrow> string \<Rightarrow> string" where
  "env_get env name = (case env name of None \<Rightarrow> [] | Some v \<Rightarrow> v)"

definition flag_values :: "string set" where
  "flag_values = {''1'', ''true'', ''yes''}"

definition is_production :: "env \<Rightarrow> bool" where
  "is_production env = (py_lower (py_strip (env_get env ''HOLON_ENV'')) \<in> {''prod'', ''production''})"

definition truthy_flag :: "env \<Rightarrow> string \<Rightarrow> bool" where
  "truthy_flag env name = (py_lower (py_strip (env_get env name)) \<in> flag_values)"

datatype config_error = UnsupportedJwtAlg string

definition jwt_algorithm :: "env \<Rightarrow> (config_error, string) result" where
  "jwt_algorithm env =
     (let raw = (if env_get env ''HOLON_JWT_ALG'' = [] then ''HS256'' else env_get env ''HOLON_JWT_ALG'');
          up = py_upper (py_strip raw);
          alg = (if up = [] then ''HS256'' else up)
      in if alg \<notin> {''HS256'', ''RS256''} then Inl (UnsupportedJwtAlg alg) else Inr alg)"

datatype violation =
    MetricsTokenUnset | CorsUnset | CorsLocalhost | MintableUnset
  | AsymmetricNeedsRS256 | PublicKeysUnset
  | IdentityMustMintUsers | UserMintOutsideIdentity string | LocalUserMint
  | ServingStoreNotMaterialized
  | BetaOptInMissing | SandboxUnset | SpendUnset string | SpendNotPositive string
  | SpendNotInteger string | PluginIsolationOff
  | JoblibModels | ToolPluginRegister

datatype posture_error =
    PostureValueError config_error
  | ProductionSecurityError string "violation list"

definition metrics_cors_violations :: "env \<Rightarrow> violation list" where
  "metrics_cors_violations env =
     (if py_strip (env_get env ''HOLON_METRICS_TOKEN'') = [] then [MetricsTokenUnset] else []) @
     (case env ''HOLON_CORS_ORIGINS'' of
        None \<Rightarrow> [CorsUnset]
      | Some cors \<Rightarrow>
          if py_strip cors = [] then [CorsUnset]
          else if contains (py_lower cors) ''localhost'' \<or> contains cors ''127.0.0.1'' then [CorsLocalhost]
          else []) @
     (if env ''HOLON_MINTABLE_PRINCIPAL_URNS'' = None then [MintableUnset] else [])"

definition public_keys_unset :: "env \<Rightarrow> bool" where
  "public_keys_unset env =
     (py_strip (if env_get env ''HOLON_JWT_PUBLIC_KEYS'' \<noteq> [] then env_get env ''HOLON_JWT_PUBLIC_KEYS''
                else env_get env ''HOLON_JWT_PUBLIC_KEY'') = [])"

definition jwt_violations :: "env \<Rightarrow> string \<Rightarrow> violation list" where
  "jwt_violations env alg =
     (if truthy_flag env ''HOLON_JWT_REQUIRE_ASYMMETRIC'' then
        (if alg \<noteq> ''RS256'' then [AsymmetricNeedsRS256] else []) @
        (if public_keys_unset env then [PublicKeysUnset] else [])
      else if alg = ''RS256'' then
        (if public_keys_unset env then [PublicKeysUnset] else [])
      else [])"

definition mint_violations :: "env \<Rightarrow> string \<Rightarrow> violation list" where
  "mint_violations env service_name =
     (if contains (py_lower service_name) ''identity'' then
        (if \<not> truthy_flag env ''HOLON_ALLOW_USER_JWT_MINT'' then [IdentityMustMintUsers] else [])
      else if truthy_flag env ''HOLON_ALLOW_USER_JWT_MINT'' then [UserMintOutsideIdentity service_name]
      else []) @
     (if truthy_flag env ''HOLON_ALLOW_LOCAL_USER_MINT'' then [LocalUserMint] else []) @
     (if contains (py_lower service_name) ''knowledge'' \<and>
         \<not> truthy_flag env ''HOLON_SERVING_STORE_REQUIRE_MATERIALIZED''
      then [ServingStoreNotMaterialized] else [])"

definition spend_violations :: "env \<Rightarrow> string \<Rightarrow> violation list" where
  "spend_violations env key =
     (let raw = py_strip (env_get env key) in
      if raw = [] then [SpendUnset key]
      else case py_int raw of
        None \<Rightarrow> [SpendNotInteger key]
      | Some n \<Rightarrow> if n \<le> 0 then [SpendNotPositive key] else [])"

definition intelligence_violations :: "env \<Rightarrow> string \<Rightarrow> violation list" where
  "intelligence_violations env service_name =
     (if contains (py_lower service_name) ''intelligence'' then
        (if truthy_flag env ''HOLON_INTELLIGENCE_ENABLED'' then
           (if \<not> truthy_flag env ''HOLON_INTELLIGENCE_BETA_OPT_IN'' then [BetaOptInMissing] else []) @
           (if py_strip (env_get env ''HOLON_INTELLIGENCE_SANDBOX_RUNTIME'') = [] then [SandboxUnset] else []) @
           concat (map (spend_violations env)
             [''HOLON_INTELLIGENCE_RPM'', ''HOLON_INTELLIGENCE_DAILY_TOKEN_QUOTA'']) @
           (if py_lower (py_strip (if env_get env ''HOLON_TOOL_PLUGIN_ISOLATION'' = [] then ''subprocess''
                 else env_get env ''HOLON_TOOL_PLUGIN_ISOLATION'')) \<noteq> ''subprocess''
            then [PluginIsolationOff] else [])
         else []) @
        (if truthy_flag env ''HOLON_ALLOW_JOBLIB_MODELS'' then [JoblibModels] else []) @
        (if truthy_flag env ''HOLON_ALLOW_TOOL_PLUGIN_REGISTER'' then [ToolPluginRegister] else [])
      else [])"

definition assert_production_posture :: "env \<Rightarrow> string \<Rightarrow> (posture_error, unit) result" where
  "assert_production_posture env service_name =
     (if \<not> is_production env then Inr ()
      else case jwt_algorithm env of
        Inl e \<Rightarrow> Inl (PostureValueError e)
      | Inr alg \<Rightarrow>
          (let violations = metrics_cors_violations env @ jwt_violations env alg @
             mint_violations env service_name @ intelligence_violations env service_name
           in if violations \<noteq> [] then Inl (ProductionSecurityError service_name violations) else Inr ()))"

section \<open>What a passed gate guarantees\<close>

lemma posture_passed:
  assumes "assert_production_posture env svc = Inr ()" "is_production env"
  shows "metrics_cors_violations env = []" "mint_violations env svc = []"
    "intelligence_violations env svc = []"
    "\<exists>alg. jwt_algorithm env = Inr alg \<and> jwt_violations env alg = []"
  using assms by (auto simp: assert_production_posture_def Let_def split: sum.splits if_splits)

lemma posture_no_user_mint:
  assumes "assert_production_posture env svc = Inr ()" "is_production env"
    "\<not> contains (py_lower svc) ''identity''"
  shows "\<not> truthy_flag env ''HOLON_ALLOW_USER_JWT_MINT''" "\<not> truthy_flag env ''HOLON_ALLOW_LOCAL_USER_MINT''"
    "env ''HOLON_MINTABLE_PRINCIPAL_URNS'' \<noteq> None"
  using posture_passed [OF assms(1,2)] assms(3)
  by (auto simp: mint_violations_def metrics_cors_violations_def split: if_splits)

lemma posture_spend:
  assumes "assert_production_posture env svc = Inr ()" "is_production env"
    "contains (py_lower svc) ''intelligence''" "truthy_flag env ''HOLON_INTELLIGENCE_ENABLED''"
    "key \<in> {''HOLON_INTELLIGENCE_RPM'', ''HOLON_INTELLIGENCE_DAILY_TOKEN_QUOTA''}"
  shows "\<exists>n > 0. py_int (py_strip (env_get env key)) = Some n"
proof -
  have "spend_violations env key = []"
    using posture_passed(3) [OF assms(1,2)] assms(3-5) by (auto simp: intelligence_violations_def)
  then show ?thesis
    by (auto simp: spend_violations_def Let_def split: if_splits option.splits)
qed

text \<open>A flag compared without stripping is set only if it is set after stripping.\<close>

lemma lower_char_space: "is_space (lower_char c) = is_space c"
  by (auto simp: lower_char_def char_class)

lemma unstripped_flag:
  assumes "py_lower v \<in> flag_values"
  shows "py_lower (py_strip v) \<in> flag_values"
proof -
  have "\<forall>c \<in> set (py_lower v). \<not> is_space c" using assms by (auto simp: flag_values_def char_class)
  then have "\<forall>c \<in> set v. \<not> is_space c" by (simp add: py_lower_def lower_char_space)
  moreover have "v \<noteq> []" using assms by (auto simp: flag_values_def py_lower_def)
  ultimately have "py_strip v = v" by (simp add: py_strip_id)
  with assms show ?thesis by simp
qed

end
