(* ===== verification/Holon_Auth.thy ===== *)
theory Holon_Auth
  imports Holon_Posture Holon_Urn Holon_Errors
begin

text \<open>
  Identity primitives of \<open>auth.py\<close>: the \<open>Principal\<close>, the process-local denylists with the
  capture stack used while a snapshot is replaced, minting and decoding of tokens, the request
  dependency and the tenant fences. PyJWT is a parameter: \<open>jwt_encode\<close>, \<open>jwt_header\<close> (the
  \<open>kid\<close> of the unverified header) and \<open>jwt_decode\<close>, which reads the clock to check the
  dates of a token. The verification keys read from the environment under RS256
  (\<open>load_jwt_verify_keys\<close>) and the clock are arguments.
\<close>

section \<open>Principals and denylists\<close>

record principal =
  p_urn :: string
  p_type :: string
  p_tenant_id :: string
  p_display_name :: string
  p_on_behalf_of :: "string option"
  p_country :: "string option"
  p_jti :: "string option"

record denylists =
  disabled_principal_urns :: "string set"
  revoked_jtis :: "string set"
  revocation_captures :: "(string \<times> string) list list"

definition note_revocation :: "string \<Rightarrow> string \<Rightarrow> denylists \<Rightarrow> denylists" where
  "note_revocation kind value st =
     (if revocation_captures st \<noteq> [] \<and> value \<noteq> [] then
        st\<lparr>revocation_captures := butlast (revocation_captures st) @
             [last (revocation_captures st) @ [(kind, value)]]\<rparr>
      else st)"

definition capture_enter :: "denylists \<Rightarrow> denylists" where
  "capture_enter st = st\<lparr>revocation_captures := revocation_captures st @ [[]]\<rparr>"

definition capture_exit :: "denylists \<Rightarrow> denylists" where
  "capture_exit st = st\<lparr>revocation_captures := butlast (revocation_captures st)\<rparr>"

definition mark_principal_disabled :: "string \<Rightarrow> denylists \<Rightarrow> denylists" where
  "mark_principal_disabled u st =
     (if u \<noteq> [] then note_revocation ''disabled'' u
        (st\<lparr>disabled_principal_urns := insert u (disabled_principal_urns st)\<rparr>) else st)"

definition mark_principal_enabled :: "string \<Rightarrow> denylists \<Rightarrow> denylists" where
  "mark_principal_enabled u st =
     note_revocation ''enabled'' u
       (st\<lparr>disabled_principal_urns := disabled_principal_urns st - {u}\<rparr>)"

definition is_principal_disabled :: "string \<Rightarrow> denylists \<Rightarrow> bool" where
  "is_principal_disabled u st = (u \<in> disabled_principal_urns st)"

definition mark_jti_revoked :: "string \<Rightarrow> denylists \<Rightarrow> denylists" where
  "mark_jti_revoked j st =
     (if j \<noteq> [] then note_revocation ''jti'' j (st\<lparr>revoked_jtis := insert j (revoked_jtis st)\<rparr>) else st)"

definition is_jti_revoked :: "string \<Rightarrow> denylists \<Rightarrow> bool" where
  "is_jti_revoked j st = (j \<noteq> [] \<and> j \<in> revoked_jtis st)"

definition replay_event :: "string \<times> string \<Rightarrow> denylists \<Rightarrow> denylists" where
  "replay_event ev st =
     (case ev of (kind, value) \<Rightarrow>
        if kind = ''jti'' then mark_jti_revoked value st
        else if kind = ''disabled'' then mark_principal_disabled value st
        else if kind = ''enabled'' then mark_principal_enabled value st
        else st)"

definition replay_revocation_events :: "(string \<times> string) list \<Rightarrow> denylists \<Rightarrow> denylists" where
  "replay_revocation_events events st =
     (let held = revocation_captures st;
          st' = fold replay_event events (st\<lparr>revocation_captures := []\<rparr>)
      in st'\<lparr>revocation_captures := revocation_captures st' @ held\<rparr>)"

definition replace_disabled_principal_urns :: "string list \<Rightarrow> denylists \<Rightarrow> denylists" where
  "replace_disabled_principal_urns urns st =
     st\<lparr>disabled_principal_urns := set (filter (\<lambda>u. u \<noteq> []) urns)\<rparr>"

definition replace_revoked_jtis :: "string list \<Rightarrow> denylists \<Rightarrow> denylists" where
  "replace_revoked_jtis jtis st = st\<lparr>revoked_jtis := set (filter (\<lambda>j. j \<noteq> []) jtis)\<rparr>"

definition reset_revocation_state :: "denylists \<Rightarrow> denylists" where
  "reset_revocation_state st =
     st\<lparr>disabled_principal_urns := {}, revoked_jtis := {}, revocation_captures := []\<rparr>"

text \<open>Event payloads: the registry admits only text in these two fields.\<close>

definition apply_principal_status_payload :: "(string, string) dict \<Rightarrow> denylists \<Rightarrow> denylists" where
  "apply_principal_status_payload pl st =
     (let u = (case dict_get pl ''principal_urn'' of None \<Rightarrow> [] | Some v \<Rightarrow> v) in
      if u = [] then st
      else if dict_get pl ''status'' = Some ''active'' then mark_principal_enabled u st
      else mark_principal_disabled u st)"

definition apply_token_revoked_payload :: "(string, string) dict \<Rightarrow> denylists \<Rightarrow> denylists" where
  "apply_token_revoked_payload pl st =
     mark_jti_revoked (case dict_get pl ''jti'' of None \<Rightarrow> [] | Some v \<Rightarrow> v) st"

lemmas denylist_defs =
  note_revocation_def mark_principal_disabled_def mark_principal_enabled_def mark_jti_revoked_def
  replay_event_def

section \<open>Tokens\<close>

text \<open>The exceptions of PyJWT the tokens of this program can raise, subclasses of \<open>PyJWTError\<close>.\<close>

datatype jwt_error = ImmatureSignatureError | ExpiredSignatureError | InvalidSignatureError | DecodeError

datatype auth_error =
    MintUserOutsideIdentity
  | MintUserInProduction
  | MintNotListed string
  | MintListUnset
  | ConfigError config_error
  | MissingKid string
  | MissingClaim string
  | InvalidToken jwt_error
  | Http HolonError

definition principal_mint_allowed :: "string \<Rightarrow> string set \<Rightarrow> bool" where
  "principal_mint_allowed u allowed =
     (if u \<in> allowed then True
      else let loc = (if u \<noteq> [] then after_last (CHR '':'') u else []) in loc \<noteq> [] \<and> loc \<in> allowed)"

definition mintable_set :: "string \<Rightarrow> string set" where
  "mintable_set raw = set (filter (\<lambda>p. p \<noteq> []) (map py_strip (split_on (CHR '','') raw)))"

text \<open>The guards of \<open>issue_token\<close>, in their order.\<close>

definition check_mint :: "env \<Rightarrow> principal \<Rightarrow> bool \<Rightarrow> (auth_error, unit) result" where
  "check_mint env p allow_user =
     rbind (raise_if (p_type p = ''user'' \<and> \<not> allow_user \<and>
              py_lower (env_get env ''HOLON_ALLOW_LOCAL_USER_MINT'') \<notin> flag_values)
            MintUserOutsideIdentity) (\<lambda>_.
     rbind (raise_if (p_type p = ''user'' \<and> allow_user \<and> is_production env \<and>
              \<not> truthy_flag env ''HOLON_ALLOW_USER_JWT_MINT'')
            MintUserInProduction) (\<lambda>_.
       if p_type p \<noteq> ''user'' \<and> \<not> truthy_flag env ''HOLON_ALLOW_USER_JWT_MINT'' then
         (case env ''HOLON_MINTABLE_PRINCIPAL_URNS'' of
            Some raw \<Rightarrow> raise_if (\<not> principal_mint_allowed (p_urn p) (mintable_set raw)) (MintNotListed (p_urn p))
          | None \<Rightarrow> raise_if (is_production env) MintListUnset)
       else Inr ()))"

record claims =
  c_sub :: string
  c_type :: string
  c_tenant_id :: string
  c_display_name :: string
  c_on_behalf_of :: "string option"
  c_country :: "string option"
  c_jti :: string
  c_iat :: int
  c_exp :: int

definition token_claims :: "principal \<Rightarrow> string \<Rightarrow> int \<Rightarrow> int \<Rightarrow> claims" where
  "token_claims p fresh_jti now ttl =
     \<lparr>c_sub = p_urn p, c_type = p_type p, c_tenant_id = p_tenant_id p, c_display_name = p_display_name p,
      c_on_behalf_of = p_on_behalf_of p, c_country = p_country p, c_jti = fresh_jti,
      c_iat = now, c_exp = now + ttl\<rparr>"

type_synonym 'tok jwt_encoder = "claims \<Rightarrow> string \<Rightarrow> string \<Rightarrow> string option \<Rightarrow> 'tok"

definition issue_token ::
  "'tok jwt_encoder \<Rightarrow> env \<Rightarrow> int \<Rightarrow> string \<Rightarrow> principal \<Rightarrow> string \<Rightarrow> int \<Rightarrow> string option
     \<Rightarrow> (string, string) dict option \<Rightarrow> bool \<Rightarrow> (auth_error, 'tok) result" where
  "issue_token jwt_encode env now fresh_jti p secret ttl kid secrets allow_user =
     rbind (check_mint env p allow_user) (\<lambda>_.
     rbind (map_sum ConfigError id (jwt_algorithm env)) (\<lambda>alg.
       let pl = token_claims p fresh_jti now ttl;
           kid' = (case kid of Some k \<Rightarrow> if k = [] then None else Some k | None \<Rightarrow> None)
       in case (secrets, kid') of
            (Some m, Some k) \<Rightarrow>
              if m = [] then Inr (jwt_encode pl secret alg kid')
              else (case dict_get m k of
                      None \<Rightarrow> Inl (MissingKid k)
                    | Some sign_key \<Rightarrow> Inr (jwt_encode pl sign_key alg kid'))
          | _ \<Rightarrow> Inr (jwt_encode pl secret alg kid')))"

text \<open>
  Decoded claims are a map from claim names to text: \<open>payload["sub"]\<close> raises when missing,
  \<open>payload.get\<close> does not. \<open>verify_keys\<close> is what \<open>load_jwt_verify_keys()\<close> returns, \<open>now\<close> the
  time \<open>jwt.decode\<close> reads. The response to a \<open>PyJWTError\<close> is \<open>InvalidToken\<close> with its text.
\<close>

definition claim :: "(string \<Rightarrow> string option) \<Rightarrow> string \<Rightarrow> (auth_error, string) result" where
  "claim c name = (case c name of None \<Rightarrow> Inl (MissingClaim name) | Some v \<Rightarrow> Inr v)"

definition decode_token ::
  "('tok \<Rightarrow> (jwt_error, string option) result)
     \<Rightarrow> ('tok \<Rightarrow> string \<Rightarrow> string \<Rightarrow> int \<Rightarrow> (jwt_error, string \<Rightarrow> string option) result)
     \<Rightarrow> env \<Rightarrow> (auth_error, (string, string) dict) result \<Rightarrow> int \<Rightarrow> 'tok \<Rightarrow> string \<Rightarrow> (string, string) dict option
     \<Rightarrow> (auth_error, principal) result" where
  "decode_token jwt_header jwt_decode env verify_keys now token secret secrets =
     rbind (map_sum ConfigError id (jwt_algorithm env)) (\<lambda>alg.
     rbind (if alg = ''RS256'' then map_sum id Some verify_keys
            else Inr (case secrets of Some m \<Rightarrow> if m = [] then None else Some m | None \<Rightarrow> None)) (\<lambda>verify_map.
     rbind (case verify_map of
              Some m \<Rightarrow>
                rbind (map_sum InvalidToken id (jwt_header token)) (\<lambda>h.
                  let kid = (case h of Some k \<Rightarrow> if k = [] then ''default'' else k | None \<Rightarrow> ''default'') in
                  case dict_get m kid of
                    None \<Rightarrow> Inl (Http (unauthorized ''UnknownJwtKid'' (''unknown jwt kid: '' @ kid)
                                      [(''kid'', JStr kid)]))
                  | Some key \<Rightarrow> Inr key)
            | None \<Rightarrow> Inr secret) (\<lambda>verify_key.
     rbind (map_sum InvalidToken id (jwt_decode token verify_key alg now)) (\<lambda>c.
     rbind (claim c ''sub'') (\<lambda>u.
     rbind (claim c ''type'') (\<lambda>ty.
     rbind (claim c ''tenant_id'') (\<lambda>tid.
     rbind (claim c ''display_name'') (\<lambda>dn.
       Inr \<lparr>p_urn = u, p_type = ty, p_tenant_id = tid, p_display_name = dn,
            p_on_behalf_of = c ''on_behalf_of'', p_country = c ''country'', p_jti = c ''jti''\<rparr>))))))))"

section \<open>The request dependency and the tenant fences\<close>

definition tenant_mismatch :: "string \<Rightarrow> string \<Rightarrow> HolonError" where
  "tenant_mismatch expected actual =
     forbidden ''TenantMismatch'' ''access denied: tenant mismatch''
       [(''expected_tenant_id'', JStr expected), (''principal_tenant_id'', JStr actual)]"

record request =
  authorization :: "string option"
  session_cookie :: "string option"

definition request_token :: "request \<Rightarrow> string option" where
  "request_token rq =
     (case authorization rq of
        Some text \<Rightarrow>
          if text \<noteq> [] \<and> startswith text ''Bearer '' then Some (removeprefix text ''Bearer '') else session_cookie rq
      | None \<Rightarrow> session_cookie rq)"

definition principal_dependency ::
  "(string \<Rightarrow> (auth_error, principal) result) \<Rightarrow> string option \<Rightarrow> bool \<Rightarrow> denylists \<Rightarrow> request
     \<Rightarrow> (auth_error, principal) result" where
  "principal_dependency decode expected_tenant_id check_disabled_denylist st rq =
     (case request_token rq of
        None \<Rightarrow> Inl (Http (unauthorized ''AuthenticationRequired''
          ''authentication required (Authorization: Bearer <token> header or session cookie)'' []))
      | Some token \<Rightarrow>
          rbind (decode token) (\<lambda>p.
          rbind (raise_if (case p_jti p of Some j \<Rightarrow> j \<noteq> [] \<and> is_jti_revoked j st | None \<Rightarrow> False)
                  (Http (unauthorized ''TokenRevoked'' ''token has been revoked'' []))) (\<lambda>_.
          rbind (raise_if (check_disabled_denylist \<and> is_principal_disabled (p_urn p) st)
                  (Http (unauthorized ''PrincipalDisabled'' ''principal is disabled'' []))) (\<lambda>_.
          rbind (raise_if (p_tenant_id p = [])
                  (Http (unauthorized ''MissingTenantId'' ''missing tenant_id'' []))) (\<lambda>_.
          case expected_tenant_id of
            Some t \<Rightarrow> if p_tenant_id p \<noteq> t then Inl (Http (tenant_mismatch t (p_tenant_id p))) else Inr p
          | None \<Rightarrow> Inr p)))))"

definition require_tenant_match :: "principal \<Rightarrow> string \<Rightarrow> (auth_error, unit) result" where
  "require_tenant_match p resource_tenant_id =
     raise_if (p_tenant_id p \<noteq> resource_tenant_id) (Http (tenant_mismatch resource_tenant_id (p_tenant_id p)))"

definition require_urn_tenant_match :: "principal \<Rightarrow> string \<Rightarrow> (auth_error, unit) result" where
  "require_urn_tenant_match p resource_urn =
     (case parse resource_urn of
        Inl (InvalidURNError u) \<Rightarrow>
          Inl (Http (invalid_argument ''InvalidUrn''
            (''invalid URN (expected hl:{tenant}:{workspace}:{type}:{id}[@version]): '' @ py_repr u)
            [(''resource_urn'', JStr resource_urn)]))
      | Inr parsed \<Rightarrow> require_tenant_match p (tenant parsed))"

section \<open>Authentication\<close>

text \<open>
  C7. A request is served for a principal exactly if its token decodes to that principal, its
  token id is not revoked, the principal is not disabled (where the denylist is consulted), it
  has a tenant, and the tenant is the one the service expects.
\<close>

theorem dependency_accepts_iff:
  "principal_dependency decode expected check st rq = Inr p \<longleftrightarrow>
     (\<exists>tok. request_token rq = Some tok \<and> decode tok = Inr p) \<and>
     (\<nexists>j. p_jti p = Some j \<and> is_jti_revoked j st) \<and>
     \<not> (check \<and> is_principal_disabled (p_urn p) st) \<and>
     p_tenant_id p \<noteq> [] \<and> expected \<in> {None, Some (p_tenant_id p)}"
proof (cases "request_token rq")
  case None
  then show ?thesis by (simp add: principal_dependency_def)
next
  case (Some tok)
  show ?thesis
  proof (cases "decode tok")
    case (Inl e)
    with Some show ?thesis by (simp add: principal_dependency_def)
  next
    case (Inr q)
    with Some show ?thesis
      by (cases "p_jti q"; cases expected)
         (auto simp: principal_dependency_def raise_if_def is_jti_revoked_def)
  qed
qed

section \<open>Minting\<close>

lemma check_mint_user:
  "check_mint env p allow_user = Inr () \<Longrightarrow> p_type p = ''user'' \<Longrightarrow>
   py_lower (env_get env ''HOLON_ALLOW_LOCAL_USER_MINT'') \<in> flag_values \<or>
   (allow_user \<and> (is_production env \<longrightarrow> truthy_flag env ''HOLON_ALLOW_USER_JWT_MINT''))"
  by (auto simp: check_mint_def res_simps)

lemma check_mint_service:
  "check_mint env p allow_user = Inr () \<Longrightarrow> p_type p \<noteq> ''user'' \<Longrightarrow>
   \<not> truthy_flag env ''HOLON_ALLOW_USER_JWT_MINT'' \<Longrightarrow> env ''HOLON_MINTABLE_PRINCIPAL_URNS'' = Some raw \<Longrightarrow>
   principal_mint_allowed (p_urn p) (mintable_set raw)"
  by (auto simp: check_mint_def res_simps)

lemma issue_token_check:
  "issue_token enc env now j p secret ttl kid secrets allow_user = Inr tok \<Longrightarrow>
   check_mint env p allow_user = Inr ()"
  by (auto simp: issue_token_def res_simps)

text \<open>
  C29. After the production gate has passed on a service other than Identity, that service can
  mint no user token, whatever the call site asks for, and a service or agent token only for
  a principal on the deployment's allowlist.
\<close>

theorem production_mint_confined:
  assumes "assert_production_posture env svc = Inr ()" "is_production env"
    and "\<not> contains (py_lower svc) ''identity''"
    and "issue_token enc env now j p secret ttl kid secrets allow_user = Inr tok"
  shows "p_type p \<noteq> ''user'' \<and> (\<exists>raw. env ''HOLON_MINTABLE_PRINCIPAL_URNS'' = Some raw \<and>
    principal_mint_allowed (p_urn p) (mintable_set raw))"
proof -
  note gate = posture_no_user_mint [OF assms(1-3)]
  note ok = issue_token_check [OF assms(4)]
  have "py_lower (env_get env ''HOLON_ALLOW_LOCAL_USER_MINT'') \<notin> flag_values"
    using gate(2) unstripped_flag by (auto simp: truthy_flag_def)
  with check_mint_user [OF ok] gate(1) assms(2) have user: "p_type p \<noteq> ''user''" by blast
  from gate(3) obtain raw where "env ''HOLON_MINTABLE_PRINCIPAL_URNS'' = Some raw" by auto
  with check_mint_service [OF ok user gate(1)] user show ?thesis by blast
qed

definition prod_env :: env where
  "prod_env = map_of [(''HOLON_ENV'', ''Production''), (''HOLON_METRICS_TOKEN'', ''m''),
     (''HOLON_CORS_ORIGINS'', ''https://holon.example''),
     (''HOLON_MINTABLE_PRINCIPAL_URNS'', ''automation-workflow-engine, hl:acme:global:agent:bot'')]"

definition engine_principal :: principal where
  "engine_principal = \<lparr>p_urn = ''hl:acme:global:service-account:automation-workflow-engine'',
     p_type = ''service_account'', p_tenant_id = ''acme'', p_display_name = ''Automation Workflow Engine'',
     p_on_behalf_of = None, p_country = None, p_jti = None\<rparr>"

theorem production_mint_confined_witness:
  "principal_mint_allowed (p_urn engine_principal)
     (mintable_set ''automation-workflow-engine, hl:acme:global:agent:bot'')"
proof -
  have "assert_production_posture prod_env ''automation'' = Inr ()" by code_simp
  moreover have "is_production prod_env" "\<not> contains (py_lower ''automation'') ''identity''" by code_simp+
  moreover have "issue_token (\<lambda>c key alg kid. (c_sub c, key)) prod_env 100 ''j1'' engine_principal ''s3cret'' 60
      None None False = Inr (p_urn engine_principal, ''s3cret'')"
    by code_simp
  ultimately show ?thesis
    using production_mint_confined [of prod_env "''automation''" "\<lambda>c key alg kid. (c_sub c, key)" 100 "''j1''"
      engine_principal "''s3cret''" 60 None None False] by (simp add: prod_env_def)
qed

section \<open>Minting and decoding\<close>

definition claim_map :: "claims \<Rightarrow> string \<Rightarrow> string option" where
  "claim_map c = map_of ([(''sub'', c_sub c), (''type'', c_type c), (''tenant_id'', c_tenant_id c),
       (''display_name'', c_display_name c), (''jti'', c_jti c)] @
     (case c_on_behalf_of c of None \<Rightarrow> [] | Some v \<Rightarrow> [(''on_behalf_of'', v)]) @
     (case c_country c of None \<Rightarrow> [] | Some v \<Rightarrow> [(''country'', v)]))"

lemma claim_map_simps [simp]:
  "claim_map c ''sub'' = Some (c_sub c)" "claim_map c ''type'' = Some (c_type c)"
  "claim_map c ''tenant_id'' = Some (c_tenant_id c)" "claim_map c ''display_name'' = Some (c_display_name c)"
  "claim_map c ''jti'' = Some (c_jti c)" "claim_map c ''on_behalf_of'' = c_on_behalf_of c"
  "claim_map c ''country'' = c_country c"
  by (auto simp: claim_map_def split: option.splits)

text \<open>
  What PyJWT documents of \<open>decode\<close> on a token it encoded: a verifier with another key is refused,
  and with the same key and algorithm the claims are returned from the time of issue on and
  until, not including, the time of expiry. The unverified header returns the stamped \<open>kid\<close>.
\<close>

definition pyjwt ::
  "'tok jwt_encoder \<Rightarrow> ('tok \<Rightarrow> (jwt_error, string option) result)
     \<Rightarrow> ('tok \<Rightarrow> string \<Rightarrow> string \<Rightarrow> int \<Rightarrow> (jwt_error, string \<Rightarrow> string option) result) \<Rightarrow> bool" where
  "pyjwt jwt_encode jwt_header jwt_decode \<longleftrightarrow>
     (\<forall>c key a h. jwt_header (jwt_encode c key a h) = Inr h) \<and>
     (\<forall>c key a h key' t. jwt_decode (jwt_encode c key a h) key' a t =
        (if key' \<noteq> key then Inl InvalidSignatureError
         else if t < c_iat c then Inl ImmatureSignatureError
         else if c_exp c \<le> t then Inl ExpiredSignatureError
         else Inr (claim_map c)))"

text \<open>The key the code looks up to sign or to verify a token with this \<open>kid\<close>.\<close>

definition key_for :: "(string, string) dict option \<Rightarrow> string \<Rightarrow> string option \<Rightarrow> string option" where
  "key_for secrets secret kid =
     (case secrets of
        Some (e # es) \<Rightarrow> dict_get (e # es) (case kid of Some (c # cs) \<Rightarrow> c # cs | _ \<Rightarrow> ''default'')
      | _ \<Rightarrow> Some secret)"

lemma decode_issued:
  assumes "pyjwt jwt_encode jwt_header jwt_decode" "jwt_algorithm env = Inr ''HS256''"
  shows "decode_token jwt_header jwt_decode env vk t (jwt_encode (token_claims p j now ttl) key ''HS256'' h) secret secrets =
    (case key_for secrets secret h of
       None \<Rightarrow> (let kid = (case h of Some (c # cs) \<Rightarrow> c # cs | _ \<Rightarrow> ''default'') in
         Inl (Http (unauthorized ''UnknownJwtKid'' (''unknown jwt kid: '' @ kid) [(''kid'', JStr kid)])))
     | Some key' \<Rightarrow>
         if key' \<noteq> key then Inl (InvalidToken InvalidSignatureError)
         else if t < now then Inl (InvalidToken ImmatureSignatureError)
         else if now + ttl \<le> t then Inl (InvalidToken ExpiredSignatureError)
         else Inr (p\<lparr>p_jti := Some j\<rparr>))"
proof -
  have kid: "(case h of Some k \<Rightarrow> if k = [] then ''default'' else k | None \<Rightarrow> ''default'') =
      (case h of Some (c # cs) \<Rightarrow> c # cs | _ \<Rightarrow> ''default'')"
    by (auto split: option.splits list.splits)
  have jwt: "jwt_header (jwt_encode c k a h) = Inr h"
    "jwt_decode (jwt_encode c k a h) k' a t = (if k' \<noteq> k then Inl InvalidSignatureError
       else if t < c_iat c then Inl ImmatureSignatureError
       else if c_exp c \<le> t then Inl ExpiredSignatureError else Inr (claim_map c))" for c k a h k'
    using assms(1) by (auto simp: pyjwt_def)
  show ?thesis
    using assms(2) by (cases secrets; cases "the secrets"; cases "key_for secrets secret h")
      (auto simp: decode_token_def jwt kid key_for_def Let_def claim_def token_claims_def)
qed

text \<open>
  C30. A token that \<open>issue_token\<close> hands out under HS256 is worth exactly this to any verifier, at
  any time: a verifier that holds the key it was signed with (the single secret, or the entry of
  the rotation map its \<open>kid\<close> names) reads back the principal it was minted for, with
  the fresh token id, from the time of issue until it expires \<open>ttl\<close> seconds later, and refuses it
  before and afterwards; a verifier whose key differs refuses it as badly signed, one whose
  rotation map lacks the \<open>kid\<close> as unknown. What is assumed of the JWT library is \<open>pyjwt\<close>.
\<close>

theorem token_roundtrip:
  assumes issued: "issue_token jwt_encode env now j p secret ttl kid secrets allow_user = Inr tok"
    and alg: "jwt_algorithm env = Inr ''HS256''"
    and lib: "pyjwt jwt_encode jwt_header jwt_decode"
  shows "\<exists>key. (kid \<notin> {None, Some []} \<or> secrets \<in> {None, Some []} \<longrightarrow> key_for secrets secret kid = Some key) \<and>
    (\<forall>t vk secret' secrets'. decode_token jwt_header jwt_decode env vk t tok secret' secrets' =
       (case key_for secrets' secret' kid of
          None \<Rightarrow> (let k = (case kid of Some (c # cs) \<Rightarrow> c # cs | _ \<Rightarrow> ''default'') in
            Inl (Http (unauthorized ''UnknownJwtKid'' (''unknown jwt kid: '' @ k) [(''kid'', JStr k)])))
        | Some key' \<Rightarrow>
            if key' \<noteq> key then Inl (InvalidToken InvalidSignatureError)
            else if t < now then Inl (InvalidToken ImmatureSignatureError)
            else if now + ttl \<le> t then Inl (InvalidToken ExpiredSignatureError)
            else Inr (p\<lparr>p_jti := Some j\<rparr>)))"
proof -
  let ?h = "case kid of Some k \<Rightarrow> if k = [] then None else Some k | None \<Rightarrow> None"
  obtain key where tok: "tok = jwt_encode (token_claims p j now ttl) key ''HS256'' ?h"
    and key: "kid \<notin> {None, Some []} \<or> secrets \<in> {None, Some []} \<longrightarrow> key_for secrets secret kid = Some key"
    using issued alg
    by (cases secrets; cases "the secrets"; cases kid; cases "the kid")
       (auto simp: issue_token_def res_simps Let_def key_for_def split: option.splits)
  have same: "key_for s x ?h = key_for s x kid" "(case ?h of Some (c # cs) \<Rightarrow> c # cs | _ \<Rightarrow> ''default'') =
      (case kid of Some (c # cs) \<Rightarrow> c # cs | _ \<Rightarrow> ''default'')" for s x
    by (auto simp: key_for_def split: option.splits list.splits)
  show ?thesis
    using key unfolding tok decode_issued [OF lib alg] same by blast
qed

text \<open>A library whose tokens are the claims with the key, on a token of a minute's life: read, expired, rotated away.\<close>

definition open_encode :: "claims \<Rightarrow> string \<Rightarrow> string \<Rightarrow> string option \<Rightarrow> claims \<times> string \<times> string \<times> string option" where
  "open_encode c key a h = (c, key, a, h)"

definition open_decode ::
  "claims \<times> string \<times> string \<times> string option \<Rightarrow> string \<Rightarrow> string \<Rightarrow> int \<Rightarrow> (jwt_error, string \<Rightarrow> string option) result" where
  "open_decode tok key alg t =
     (case tok of (c, k, a, h) \<Rightarrow>
        if alg \<noteq> a then Inl DecodeError else if key \<noteq> k then Inl InvalidSignatureError
        else if t < c_iat c then Inl ImmatureSignatureError
        else if c_exp c \<le> t then Inl ExpiredSignatureError else Inr (claim_map c))"

theorem token_roundtrip_witness:
  "let tok = open_encode (token_claims engine_principal ''j1'' 100 60) ''new'' ''HS256'' (Some ''k2'');
       read = (\<lambda>t ks. decode_token (\<lambda>(c, key, a, h). Inr h) open_decode prod_env (Inl (MissingKid [])) t tok ''other'' (Some ks))
   in read 100 [(''k1'', ''old''), (''k2'', ''new'')] = Inr (engine_principal\<lparr>p_jti := Some ''j1''\<rparr>) \<and>
      read 160 [(''k1'', ''old''), (''k2'', ''new'')] = Inl (InvalidToken ExpiredSignatureError) \<and>
      read 100 [(''k2'', ''newer'')] = Inl (InvalidToken InvalidSignatureError)"
proof -
  let ?ks = "[(''k1'', ''old''), (''k2'', ''new'')]"
  let ?tok = "open_encode (token_claims engine_principal ''j1'' 100 60) ''new'' ''HS256'' (Some ''k2'')"
  have alg: "jwt_algorithm prod_env = Inr ''HS256''" by code_simp
  have "check_mint prod_env engine_principal False = Inr ()" by code_simp
  with alg have issued: "issue_token open_encode prod_env 100 ''j1'' engine_principal ''other'' 60 (Some ''k2'') (Some ?ks) False = Inr ?tok"
    by (simp add: issue_token_def dict_get_def)
  have lib: "pyjwt open_encode (\<lambda>(c, key, a, h). Inr h) open_decode"
    by (simp add: pyjwt_def open_encode_def open_decode_def)
  from token_roundtrip [OF issued alg lib]
  show ?thesis by (auto simp: Let_def key_for_def dict_get_def)
qed

section \<open>Tenant fence\<close>

text \<open>
  The URN fence lets a principal through exactly for resources of its own tenant, and the
  text it accepted starts with that tenant's prefix.
\<close>

theorem urn_fence_own_tenant:
  "(require_urn_tenant_match p u = Inr ()) = (\<exists>r. parse u = Inr r \<and> tenant r = p_tenant_id p) \<and>
   (is_ok (require_urn_tenant_match p u) \<longrightarrow> startswith u (''hl:'' @ p_tenant_id p @ '':''))"
proof -
  have iff: "(require_urn_tenant_match p u = Inr ()) = (\<exists>r. parse u = Inr r \<and> tenant r = p_tenant_id p)"
    by (auto simp: require_urn_tenant_match_def require_tenant_match_def res_simps
        split: sum.splits urn_error.splits)
  moreover have "startswith u (''hl:'' @ p_tenant_id p @ '':'')" if "parse u = Inr r" "tenant r = p_tenant_id p" for r
    using parse_tenant(1) [OF that(1)] that(2) startswith_append [of "''hl:'' @ p_tenant_id p @ '':''"]
    by (auto simp: startswith_iff)
  ultimately show ?thesis by (auto simp: is_ok_iff)
qed

theorem urn_fence_own_tenant_witness:
  "require_urn_tenant_match engine_principal ''hl:acme:main:dataset:orders'' = Inr () \<and>
   startswith ''hl:acme:main:dataset:orders'' ''hl:acme:''"
proof -
  have "require_urn_tenant_match engine_principal ''hl:acme:main:dataset:orders'' = Inr ()" by code_simp
  with urn_fence_own_tenant [of engine_principal "''hl:acme:main:dataset:orders''"] show ?thesis
    by (simp add: engine_principal_def)
qed

end
