(* ===== verification/Holon_Authz.thy ===== *)
theory Holon_Authz
  imports Holon_Auth Holon_Ident Holon_Resilience "HOL-Library.List_Lexorder" "HOL-Library.Char_ord"
begin

text \<open>
  The policy decision point of \<open>authz.py\<close>: relational checks at SpiceDB, then attribute checks
  at OPA, behind two circuit breakers and a cache of denials. SpiceDB and OPA are parameters:
  functions of a world of any type that answer a query or fail, and return the new world, so
  an answer may change between two calls. The client's own state (breakers, the
  insertion-ordered cache, counters, audit trail) is a record. Since \<open>authorize\<close> suspends
  between the cache lookup and the store, both halves are operations of their own and
  \<open>pdp_step\<close> interleaves them with invalidation.
\<close>

section \<open>Upstream answers\<close>

datatype http_exc = HttpStatusError int | TransportError

fun upstream_failure :: "http_exc \<Rightarrow> bool" where
  "upstream_failure (HttpStatusError status) = (status = 429 \<or> 500 \<le> status)"
| "upstream_failure TransportError = True"

record check_query =
  q_resource_type :: string
  q_resource_id :: string
  q_permission :: string
  q_subject_id :: string

record 'w upstreams =
  spicedb_check :: "check_query \<Rightarrow> 'w \<Rightarrow> (http_exc, string option) result \<times> 'w"
  opa_allow :: "string option \<Rightarrow> payload \<Rightarrow> 'w \<Rightarrow> (http_exc, json option) result \<times> 'w"

record decision =
  allowed :: bool
  reason :: string

record audit_entry =
  au_outcome :: string
  au_tenant_id :: string
  au_actor_urn :: string
  au_actor_type :: string
  au_resource_type :: string
  au_resource_urn :: string
  au_permission :: string
  au_reason :: string
  au_cache_hit :: bool

text \<open>\<open>json.dumps(..., sort_keys=True)\<close> identifies exactly the values equal up to key order.\<close>

fun sort_keys :: "json \<Rightarrow> json" where
  "sort_keys (JList xs) = JList (map sort_keys xs)"
| "sort_keys (JObj d) = JObj (sort_key fst (map (\<lambda>(k, v). (k, sort_keys v)) d))"
| "sort_keys j = j"

type_synonym cache_key =
  "string \<times> string option \<times> string option \<times> string \<times> string \<times> string \<times> json"

record permission_client =
  rebac_breaker :: breaker
  abac_breaker :: breaker
  decision_cache_ttl :: real
  denial_cache_max :: nat
  decision_cache :: "(cache_key, decision \<times> real) dict"
  cache_hits :: nat
  cache_misses :: nat
  audit_log :: "audit_entry list"

definition new_permission_client :: "real \<Rightarrow> permission_client" where
  "new_permission_client ttl =
     \<lparr>rebac_breaker = breaker_init, abac_breaker = breaker_init, decision_cache_ttl = ttl,
      denial_cache_max = 10000, decision_cache = [], cache_hits = 0, cache_misses = 0, audit_log = []\<rparr>"

definition cache_key_of ::
  "principal \<Rightarrow> string \<Rightarrow> string \<Rightarrow> string \<Rightarrow> payload option \<Rightarrow> cache_key" where
  "cache_key_of p rtype rurn perm attrs =
     (p_urn p, p_on_behalf_of p, p_country p, rtype, rurn, perm,
      sort_keys (JObj (case attrs of None \<Rightarrow> [] | Some a \<Rightarrow> a)))"

definition stale_key :: "string \<Rightarrow> cache_key \<Rightarrow> bool" where
  "stale_key u k = (fst k = u \<or> fst (snd k) = Some u)"

definition invalidate_principal :: "string \<Rightarrow> permission_client \<Rightarrow> nat \<times> permission_client" where
  "invalidate_principal u c =
     (let stale_keys = filter (stale_key u) (map fst (decision_cache c))
      in (length stale_keys, c\<lparr>decision_cache := fold dict_pop stale_keys (decision_cache c)\<rparr>))"

definition clear_cache :: "permission_client \<Rightarrow> permission_client" where
  "clear_cache c = c\<lparr>decision_cache := []\<rparr>"

section \<open>Checks\<close>

definition check_rebac ::
  "'w upstreams \<Rightarrow> real \<times> real \<Rightarrow> string \<Rightarrow> string \<Rightarrow> string \<Rightarrow> string \<Rightarrow> permission_client \<times> 'w
     \<Rightarrow> (http_exc call_error, bool) result \<times> permission_client \<times> 'w" where
  "check_rebac ups ts principal_urn rtype rurn perm cw =
     (case cw of (c, w) \<Rightarrow>
        let q = \<lparr>q_resource_type = rtype, q_resource_id = spicedb_object_id rurn,
                 q_permission = perm, q_subject_id = spicedb_object_id principal_urn\<rparr>
        in case breaker_call service_breaker_cfg (Some upstream_failure) (fst ts) (snd ts)
                  (spicedb_check ups q) (rebac_breaker c) w of
             (r, b, w') \<Rightarrow>
               (map_sum id (\<lambda>permissionship. permissionship = Some ''PERMISSIONSHIP_HAS_PERMISSION'') r,
                c\<lparr>rebac_breaker := b\<rparr>, w'))"

definition check_abac ::
  "'w upstreams \<Rightarrow> real \<times> real \<Rightarrow> principal \<Rightarrow> payload \<Rightarrow> permission_client \<times> 'w
     \<Rightarrow> (http_exc call_error, json) result \<times> permission_client \<times> 'w" where
  "check_abac ups ts p resource cw =
     (case cw of (c, w) \<Rightarrow>
        case breaker_call service_breaker_cfg (Some upstream_failure) (fst ts) (snd ts)
               (opa_allow ups (p_country p) resource) (abac_breaker c) w of
          (r, b, w') \<Rightarrow>
            (map_sum id (\<lambda>res. case res of None \<Rightarrow> JBool False | Some v \<Rightarrow> v) r,
             c\<lparr>abac_breaker := b\<rparr>, w'))"

definition audit_decision ::
  "decision \<Rightarrow> principal \<Rightarrow> string \<Rightarrow> string \<Rightarrow> string \<Rightarrow> bool \<Rightarrow> permission_client \<Rightarrow> permission_client" where
  "audit_decision d p rtype rurn perm cache_hit c =
     c\<lparr>audit_log := audit_log c @
        [\<lparr>au_outcome = (if \<not> allowed d then ''deny'' else ''allow''), au_tenant_id = p_tenant_id p,
          au_actor_urn = p_urn p, au_actor_type = p_type p, au_resource_type = rtype,
          au_resource_urn = rurn, au_permission = perm, au_reason = reason d, au_cache_hit = cache_hit\<rparr>]\<rparr>"

definition rebac_denied :: "principal \<Rightarrow> string \<Rightarrow> string \<Rightarrow> decision" where
  "rebac_denied p rurn perm =
     \<lparr>allowed = False, reason = ''rebac_denied: '' @ p_urn p @ '' has no '' @ [CHR 0x27] @ perm @ [CHR 0x27] @ '' on '' @ rurn\<rparr>"

definition mandant_denied :: "principal \<Rightarrow> string \<Rightarrow> string \<Rightarrow> string \<Rightarrow> decision" where
  "mandant_denied p m rurn perm =
     \<lparr>allowed = False, reason = ''rebac_denied: '' @ p_urn p @ '' acts on behalf of '' @ m @
        '', which has no '' @ [CHR 0x27] @ perm @ [CHR 0x27] @ '' on '' @ rurn\<rparr>"

definition abac_denied :: "string \<Rightarrow> string \<Rightarrow> decision" where
  "abac_denied rurn perm =
     \<lparr>allowed = False, reason = ''abac_denied: policy restricted '' @ [CHR 0x27] @ perm @ [CHR 0x27] @ '' on '' @ rurn\<rparr>"

definition granted_decision :: "principal \<Rightarrow> string \<Rightarrow> string \<Rightarrow> decision" where
  "granted_decision p rurn perm =
     \<lparr>allowed = True, reason = ''granted: '' @ p_urn p @ '' -> '' @ perm @ '' on '' @ rurn\<rparr>"

lemmas decision_defs = rebac_denied_def mandant_denied_def abac_denied_def granted_decision_def

text \<open>\<open>clk i\<close> is the clock at the i-th point where one of the two breakers reads it.\<close>

definition abac_stage ::
  "'w upstreams \<Rightarrow> (nat \<Rightarrow> real) \<Rightarrow> principal \<Rightarrow> string \<Rightarrow> string \<Rightarrow> string \<Rightarrow> payload option
     \<Rightarrow> permission_client \<times> 'w \<Rightarrow> (http_exc call_error, decision) result \<times> permission_client \<times> 'w" where
  "abac_stage ups clk p rtype rurn perm attrs cw =
     (case check_abac ups (clk 4, clk 5) p (case attrs of None \<Rightarrow> [] | Some a \<Rightarrow> a) cw of
        (Inl e, cw') \<Rightarrow> (Inl e, cw')
      | (Inr res, c, w) \<Rightarrow>
          let d = (if \<not> truthy res then abac_denied rurn perm else granted_decision p rurn perm)
          in (Inr d, audit_decision d p rtype rurn perm False c, w))"

definition authorize_uncached ::
  "'w upstreams \<Rightarrow> (nat \<Rightarrow> real) \<Rightarrow> principal \<Rightarrow> string \<Rightarrow> string \<Rightarrow> string \<Rightarrow> payload option
     \<Rightarrow> permission_client \<times> 'w \<Rightarrow> (http_exc call_error, decision) result \<times> permission_client \<times> 'w" where
  "authorize_uncached ups clk p rtype rurn perm attrs cw =
     (case check_rebac ups (clk 0, clk 1) (p_urn p) rtype rurn perm cw of
        (Inl e, cw1) \<Rightarrow> (Inl e, cw1)
      | (Inr granted, c1, w1) \<Rightarrow>
          if \<not> granted then
            (Inr (rebac_denied p rurn perm), audit_decision (rebac_denied p rurn perm) p rtype rurn perm False c1, w1)
          else case p_on_behalf_of p of
            None \<Rightarrow> abac_stage ups clk p rtype rurn perm attrs (c1, w1)
          | Some m \<Rightarrow>
              (case check_rebac ups (clk 2, clk 3) m rtype rurn perm (c1, w1) of
                 (Inl e, cw2) \<Rightarrow> (Inl e, cw2)
               | (Inr mandant_granted, c2, w2) \<Rightarrow>
                   if \<not> mandant_granted then
                     (Inr (mandant_denied p m rurn perm),
                      audit_decision (mandant_denied p m rurn perm) p rtype rurn perm False c2, w2)
                   else abac_stage ups clk p rtype rurn perm attrs (c2, w2)))"

section \<open>The denial cache\<close>

fun evict :: "nat \<Rightarrow> ('k, 'v) dict \<Rightarrow> ('k, 'v) dict" where
  "evict m [] = []"
| "evict m (x # xs) = (if m < length (x # xs) then evict m xs else x # xs)"

text \<open>The first half of \<open>authorize\<close>: a live cached denial answers; an expired entry is dropped.\<close>

definition cache_lookup ::
  "real \<Rightarrow> principal \<Rightarrow> string \<Rightarrow> string \<Rightarrow> string \<Rightarrow> cache_key \<Rightarrow> permission_client \<Rightarrow> decision option \<times> permission_client" where
  "cache_lookup now p rtype rurn perm key c =
     (case dict_get (decision_cache c) key of
        Some (d, expires_at) \<Rightarrow>
          if now < expires_at then
            (Some d, audit_decision d p rtype rurn perm True
               (c\<lparr>decision_cache := move_to_end key (decision_cache c), cache_hits := Suc (cache_hits c)\<rparr>))
          else (None, c\<lparr>decision_cache := dict_pop key (decision_cache c), cache_misses := Suc (cache_misses c)\<rparr>)
      | None \<Rightarrow> (None, c\<lparr>cache_misses := Suc (cache_misses c)\<rparr>))"

text \<open>The second half: only a denial is stored, and the oldest entries make room.\<close>

definition cache_store :: "real \<Rightarrow> cache_key \<Rightarrow> decision \<Rightarrow> permission_client \<Rightarrow> permission_client" where
  "cache_store now key d c =
     (if \<not> allowed d then
        c\<lparr>decision_cache := evict (denial_cache_max c)
             (move_to_end key (dict_set key (d, now + decision_cache_ttl c) (decision_cache c)))\<rparr>
      else c)"

definition authorize ::
  "'w upstreams \<Rightarrow> real \<Rightarrow> (nat \<Rightarrow> real) \<Rightarrow> principal \<Rightarrow> string \<Rightarrow> string \<Rightarrow> string \<Rightarrow> payload option
     \<Rightarrow> permission_client \<times> 'w \<Rightarrow> (http_exc call_error, decision) result \<times> permission_client \<times> 'w" where
  "authorize ups now clk p rtype rurn perm attrs cw =
     (case cw of (c, w) \<Rightarrow>
        let key = cache_key_of p rtype rurn perm attrs in
        case cache_lookup now p rtype rurn perm key c of
          (Some d, c') \<Rightarrow> (Inr d, c', w)
        | (None, c') \<Rightarrow>
            (case authorize_uncached ups clk p rtype rurn perm attrs (c', w) of
               (Inl e, c2, w2) \<Rightarrow> (Inl e, c2, w2)
             | (Inr d, c2, w2) \<Rightarrow> (Inr d, cache_store now key d c2, w2)))"

section \<open>Relationships\<close>

record relationship =
  rel_resource_type :: string
  rel_resource_id :: string
  rel_relation :: string
  rel_subject :: "string \<times> string"
  rel_subject_relation :: "string option"

datatype update = OPERATION_TOUCH relationship | OPERATION_DELETE relationship

definition subject_of :: "string \<Rightarrow> string \<Rightarrow> string \<times> string" where
  "subject_of subject_type subject_urn = (subject_type, spicedb_object_id subject_urn)"

definition relationship_of ::
  "string \<Rightarrow> string \<Rightarrow> string \<Rightarrow> string \<Rightarrow> string \<Rightarrow> string option \<Rightarrow> relationship" where
  "relationship_of rtype rurn relation subject_urn subject_type optional_relation =
     \<lparr>rel_resource_type = rtype, rel_resource_id = spicedb_object_id rurn, rel_relation = relation,
      rel_subject = subject_of subject_type subject_urn,
      rel_subject_relation = (case optional_relation of Some r \<Rightarrow> if r = [] then None else Some r | None \<Rightarrow> None)\<rparr>"

definition write_relationship ::
  "string \<Rightarrow> string \<Rightarrow> string \<Rightarrow> string \<Rightarrow> string \<Rightarrow> string option \<Rightarrow> update list" where
  "write_relationship rtype rurn relation subject_urn subject_type optional_relation =
     [OPERATION_TOUCH (relationship_of rtype rurn relation subject_urn subject_type optional_relation)]"

definition delete_relationship ::
  "string \<Rightarrow> string \<Rightarrow> string \<Rightarrow> string \<Rightarrow> string \<Rightarrow> string option \<Rightarrow> update list" where
  "delete_relationship rtype rurn relation subject_urn subject_type optional_relation =
     [OPERATION_DELETE (relationship_of rtype rurn relation subject_urn subject_type optional_relation)]"

text \<open>\<open>None\<close>: the method returns without writing.\<close>

definition set_single_subject ::
  "relationship list \<Rightarrow> string \<Rightarrow> string \<Rightarrow> string \<Rightarrow> string \<Rightarrow> string option \<Rightarrow> update list option" where
  "set_single_subject existing rtype rurn relation subject_type subject_urn =
     (let target = map_option (subject_of subject_type) subject_urn;
          stale = filter (\<lambda>rel. target = None \<or> Some (rel_subject rel) \<noteq> target) existing
      in if stale = [] \<and> (target = None \<or> existing \<noteq> []) then None
         else Some (map OPERATION_DELETE stale @
           (case subject_urn of
              None \<Rightarrow> []
            | Some u \<Rightarrow> [OPERATION_TOUCH (relationship_of rtype rurn relation u subject_type None)])))"

text \<open>
  \<open>lookup_resource_ids\<close> over the decoded lines of the answer: \<open>x or y\<close> picks the first truthy
  value; a permissionship that is not text would raise in Python and is outside the wire format.
\<close>

definition sub_obj :: "payload \<Rightarrow> string \<Rightarrow> payload" where
  "sub_obj d k = (case obj_get d k of JObj x \<Rightarrow> x | _ \<Rightarrow> [])"

definition first_truthy :: "json list \<Rightarrow> json" where
  "first_truthy xs = (case find truthy xs of Some x \<Rightarrow> x | None \<Rightarrow> (if xs = [] then JNull else last xs))"

definition line_resource_id :: "payload \<Rightarrow> json option" where
  "line_resource_id pl =
     (let result = (case obj_get pl ''result'' of JObj r \<Rightarrow> if r = [] then pl else r | _ \<Rightarrow> pl);
          rid = first_truthy [obj_get result ''resourceObjectId'', obj_get result ''resource_object_id'',
            obj_get (sub_obj result ''resource'') ''objectId'', obj_get (sub_obj result ''resource'') ''object_id''];
          permissionship = (case obj_get result ''permissionship'' of JStr s \<Rightarrow> s | _ \<Rightarrow> [])
      in if truthy rid \<and> contains permissionship ''HAS_PERMISSION'' \<and> \<not> contains permissionship ''NO_PERMISSION''
         then Some rid else None)"

definition lookup_resource_ids :: "payload list \<Rightarrow> json set" where
  "lookup_resource_ids answer = set (List.map_filter line_resource_id answer)"


section \<open>The client's invariant\<close>

definition cache_ok :: "permission_client \<Rightarrow> bool" where
  "cache_ok c \<longleftrightarrow> dict_wf (decision_cache c) \<and> length (decision_cache c) \<le> denial_cache_max c \<and>
     (\<forall>(k, d, t) \<in> set (decision_cache c). \<not> allowed d)"

lemma cache_okD: "cache_ok c \<Longrightarrow> dict_get (decision_cache c) k = Some (d, t) \<Longrightarrow> \<not> allowed d"
  by (auto simp: cache_ok_def dest!: dict_get_mem)

lemma evict_suffix: "suffix (evict m d) d"
proof (induction m d rule: evict.induct)
  case (2 m x xs)
  then show ?case by (auto intro: suffix_ConsI)
qed simp

lemma length_evict: "length (evict m d) \<le> m"
  by (induction m d rule: evict.induct) auto


lemma cache_ok_shrink:
  assumes "cache_ok c" "dict_wf (decision_cache c')" "length (decision_cache c') \<le> length (decision_cache c)"
    "set (decision_cache c') \<subseteq> set (decision_cache c)" "denial_cache_max c' = denial_cache_max c"
  shows "cache_ok c'"
  using assms by (auto simp: cache_ok_def)

lemma cache_ok_lookup:
  assumes "cache_ok c" "cache_lookup now p rtype rurn perm key c = (r, c')"
  shows "cache_ok c'"
proof (rule cache_ok_shrink [OF assms(1)])
  have wf: "dict_wf (decision_cache c)" using assms(1) by (simp add: cache_ok_def)
  have c': "c' = snd (cache_lookup now p rtype rurn perm key c)" using assms(2) by simp
  show "dict_wf (decision_cache c')" "length (decision_cache c') \<le> length (decision_cache c)"
    "set (decision_cache c') \<subseteq> set (decision_cache c)" "denial_cache_max c' = denial_cache_max c"
    using wf unfolding c'
    by (auto simp: cache_lookup_def audit_decision_def length_move_to_end dict_pop_filter
        dest: dict_mem_move split: option.splits)
qed

lemma cache_ok_store:
  assumes "cache_ok c"
  shows "cache_ok (cache_store now key d c)"
proof (cases "allowed d")
  case False
  let ?e = "move_to_end key (dict_set key (d, now + decision_cache_ttl c) (decision_cache c))"
  have "dict_wf (evict (denial_cache_max c) ?e)"
    using assms by (auto simp: cache_ok_def intro: dict_wf_suffix [OF evict_suffix])
  moreover have "\<forall>(k, d, t) \<in> set (evict (denial_cache_max c) ?e). \<not> allowed d"
    using assms False evict_suffix [of "denial_cache_max c" ?e]
    by (fastforce simp: cache_ok_def dest: set_mono_suffix dict_mem_move dict_mem_set)
  ultimately show ?thesis
    using False by (simp add: cache_store_def cache_ok_def length_evict)
qed (use assms in \<open>simp add: cache_store_def\<close>)

lemma cache_ok_invalidate: "cache_ok c \<Longrightarrow> cache_ok (snd (invalidate_principal u c))"
  by (rule cache_ok_shrink)
     (auto simp: cache_ok_def invalidate_principal_def fold_dict_pop Let_def)

section \<open>Soundness of a grant\<close>

abbreviation query_of :: "string \<Rightarrow> string \<Rightarrow> string \<Rightarrow> string \<Rightarrow> check_query" where
  "query_of who rtype rurn perm \<equiv>
     \<lparr>q_resource_type = rtype, q_resource_id = spicedb_object_id rurn, q_permission = perm,
      q_subject_id = spicedb_object_id who\<rparr>"

abbreviation has_permission :: "string option" where
  "has_permission \<equiv> Some ''PERMISSIONSHIP_HAS_PERMISSION''"

lemma check_rebac_value:
  assumes "check_rebac ups ts who rtype rurn perm (c, w) = (Inr b, c', w')"
  obtains pm bk where "spicedb_check ups (query_of who rtype rurn perm) w = (Inr pm, w')"
    "b = (pm = has_permission)" "c' = c\<lparr>rebac_breaker := bk\<rparr>"
proof -
  obtain r bk w0 where call: "breaker_call service_breaker_cfg (Some upstream_failure) (fst ts) (snd ts)
      (spicedb_check ups (query_of who rtype rurn perm)) (rebac_breaker c) w = (r, bk, w0)"
    by (metis prod.exhaust)
  with assms obtain pm where "r = Inr pm" "b = (pm = has_permission)" "c' = c\<lparr>rebac_breaker := bk\<rparr>" "w' = w0"
    by (cases r) (auto simp: check_rebac_def)
  moreover from this call have "spicedb_check ups (query_of who rtype rurn perm) w = (Inr pm, w0)"
    by (intro service_breaker.call_value) simp
  ultimately show thesis using that by simp
qed

lemma check_abac_value:
  assumes "check_abac ups ts p res (c, w) = (Inr v, c', w')"
  obtains a bk where "opa_allow ups (p_country p) res w = (Inr a, w')"
    "v = (case a of None \<Rightarrow> JBool False | Some x \<Rightarrow> x)" "c' = c\<lparr>abac_breaker := bk\<rparr>"
proof -
  obtain r bk w0 where call: "breaker_call service_breaker_cfg (Some upstream_failure) (fst ts) (snd ts)
      (opa_allow ups (p_country p) res) (abac_breaker c) w = (r, bk, w0)"
    by (metis prod.exhaust)
  with assms obtain a where "r = Inr a" "v = (case a of None \<Rightarrow> JBool False | Some x \<Rightarrow> x)"
      "c' = c\<lparr>abac_breaker := bk\<rparr>" "w' = w0"
    by (cases r) (auto simp: check_abac_def)
  moreover from this call have "opa_allow ups (p_country p) res w = (Inr a, w0)"
    by (intro service_breaker.call_value) simp
  ultimately show thesis using that by simp
qed

lemma abac_stage_allowed:
  assumes "abac_stage ups clk p rtype rurn perm attrs (c, w) = (Inr d, c', w')" "allowed d"
  shows "\<exists>v. opa_allow ups (p_country p) (case attrs of None \<Rightarrow> [] | Some a \<Rightarrow> a) w = (Inr (Some v), w') \<and>
    truthy v \<and> d = granted_decision p rurn perm"
proof -
  obtain v c1 where ab: "check_abac ups (clk 4, clk 5) p (case attrs of None \<Rightarrow> [] | Some a \<Rightarrow> a) (c, w) = (Inr v, c1, w')"
    and "truthy v" "d = granted_decision p rurn perm"
    using assms by (auto simp: abac_stage_def Let_def decision_defs split: prod.splits sum.splits if_splits)
  from ab \<open>truthy v\<close> \<open>d = _\<close> show ?thesis
    by (auto elim!: check_abac_value split: option.splits)
qed

text \<open>What \<open>authorize\<close> promises about a grant: who has been asked, in which order, and what they said.\<close>

definition granted_by_upstreams ::
  "'w upstreams \<Rightarrow> principal \<Rightarrow> string \<Rightarrow> string \<Rightarrow> string \<Rightarrow> payload option \<Rightarrow> 'w \<Rightarrow> 'w \<Rightarrow> bool" where
  "granted_by_upstreams ups p rtype rurn perm attrs w w' \<longleftrightarrow> (\<exists>w1 w2 v.
     spicedb_check ups (query_of (p_urn p) rtype rurn perm) w = (Inr has_permission, w1) \<and>
     (case p_on_behalf_of p of
        None \<Rightarrow> w2 = w1
      | Some m \<Rightarrow> spicedb_check ups (query_of m rtype rurn perm) w1 = (Inr has_permission, w2)) \<and>
     opa_allow ups (p_country p) (case attrs of None \<Rightarrow> [] | Some a \<Rightarrow> a) w2 = (Inr (Some v), w') \<and> truthy v)"

lemma authorize_uncached_allowed:
  assumes "authorize_uncached ups clk p rtype rurn perm attrs (c, w) = (Inr d, c', w')" "allowed d"
  shows "granted_by_upstreams ups p rtype rurn perm attrs w w'"
proof -
  obtain g c1 w1 where r1: "check_rebac ups (clk 0, clk 1) (p_urn p) rtype rurn perm (c, w) = (Inr g, c1, w1)"
    using assms by (cases "check_rebac ups (clk 0, clk 1) (p_urn p) rtype rurn perm (c, w)")
      (auto simp: authorize_uncached_def split: sum.splits)
  with assms have g: g by (auto simp: authorize_uncached_def decision_defs split: if_splits)
  with r1 have s1: "spicedb_check ups (query_of (p_urn p) rtype rurn perm) w = (Inr has_permission, w1)"
    by (auto elim: check_rebac_value)
  show ?thesis
  proof (cases "p_on_behalf_of p")
    case None
    with assms r1 g have "abac_stage ups clk p rtype rurn perm attrs (c1, w1) = (Inr d, c', w')"
      by (simp add: authorize_uncached_def)
    from abac_stage_allowed [OF this assms(2)] s1 None show ?thesis
      by (auto simp: granted_by_upstreams_def)
  next
    case (Some m)
    obtain g2 c2 w2 where r2: "check_rebac ups (clk 2, clk 3) m rtype rurn perm (c1, w1) = (Inr g2, c2, w2)"
      using assms r1 g Some by (cases "check_rebac ups (clk 2, clk 3) m rtype rurn perm (c1, w1)")
        (auto simp: authorize_uncached_def split: sum.splits)
    have g2: g2 using assms r1 g Some r2 by (auto simp: authorize_uncached_def decision_defs split: if_splits)
    with r2 have s2: "spicedb_check ups (query_of m rtype rurn perm) w1 = (Inr has_permission, w2)"
      by (auto elim: check_rebac_value)
    from assms r1 g Some r2 g2 have "abac_stage ups clk p rtype rurn perm attrs (c2, w2) = (Inr d, c', w')"
      by (simp add: authorize_uncached_def)
    from abac_stage_allowed [OF this assms(2)] s1 s2 Some show ?thesis
      by (auto simp: granted_by_upstreams_def)
  qed
qed

section \<open>Interleaved authorizations\<close>

text \<open>
  Between two awaits of one call any other call may run: the reachable clients are those of
  every interleaving of the atomic pieces. A piece may be given any decision to store and any
  state of the breakers, so the steps over-approximate the pieces of concurrent calls.
\<close>

inductive pdp_step :: "permission_client \<Rightarrow> permission_client \<Rightarrow> bool" where
  lookup: "pdp_step c (snd (cache_lookup now p rtype rurn perm key c))"
| store: "pdp_step c (cache_store now key d c)"
| settle_rebac: "pdp_step c (c\<lparr>rebac_breaker := b\<rparr>)"
| settle_abac: "pdp_step c (c\<lparr>abac_breaker := b\<rparr>)"
| audit: "pdp_step c (audit_decision d p rtype rurn perm hit c)"
| invalidate: "pdp_step c (snd (invalidate_principal u c))"
| clear: "pdp_step c (clear_cache c)"

inductive pdp_reachable :: "permission_client \<Rightarrow> bool" where
  init: "pdp_reachable (new_permission_client ttl)"
| step: "pdp_reachable c \<Longrightarrow> pdp_step c c' \<Longrightarrow> pdp_reachable c'"

lemma pdp_step_cache_ok:
  assumes "pdp_step c c'" "cache_ok c"
  shows "cache_ok c'"
  using assms
proof cases
  case (lookup now p rtype rurn perm key)
  then show ?thesis using cache_ok_lookup assms(2) by (metis prod.collapse)
qed (use assms(2) in \<open>auto simp: cache_ok_store cache_ok_invalidate, auto simp: cache_ok_def audit_decision_def clear_cache_def\<close>)

lemma pdp_reachable_cache_ok: "pdp_reachable c \<Longrightarrow> cache_ok c"
proof (induction rule: pdp_reachable.induct)
  case (init ttl)
  show ?case by (simp add: cache_ok_def new_permission_client_def)
qed (blast intro: pdp_step_cache_ok)

lemma cache_hit:
  assumes "cache_ok c" "cache_lookup now p rtype rurn perm key c = (Some d, c')"
  shows "\<not> allowed d \<and> (\<exists>t. dict_get (decision_cache c) key = Some (d, t) \<and> now < t)"
proof -
  from assms(2) obtain t where "dict_get (decision_cache c) key = Some (d, t)" "now < t"
    by (auto simp: cache_lookup_def split: option.splits if_splits)
  with cache_okD [OF assms(1)] show ?thesis by blast
qed

lemma invalidate_principal_filter:
  "decision_cache (snd (invalidate_principal u c)) = filter (\<lambda>x. \<not> stale_key u (fst x)) (decision_cache c)"
  by (auto simp: invalidate_principal_def fold_dict_pop Let_def intro!: filter_cong)

lemma invalidate_principal_count:
  "fst (invalidate_principal u c) = length (filter (\<lambda>x. stale_key u (fst x)) (decision_cache c))"
  by (simp add: invalidate_principal_def Let_def filter_map comp_def)

text \<open>
  C28. Only denials are ever cached, whatever calls are interleaved: a hit answers with the
  unexpired denial stored under exactly that key, the cache never outgrows its bound, and
  invalidating a principal removes the entries in which it acts or mandates, all of them and
  no others, and reports how many.
\<close>

theorem denial_cache_safe:
  assumes "pdp_reachable c"
  shows "length (decision_cache c) \<le> denial_cache_max c \<and>
    (cache_lookup now p rtype rurn perm key c = (Some d, c') \<longrightarrow>
       \<not> allowed d \<and> (\<exists>t. dict_get (decision_cache c) key = Some (d, t) \<and> now < t)) \<and>
    (invalidate_principal u c = (n, c2) \<longrightarrow>
       dict_get (decision_cache c2) key = (if stale_key u key then None else dict_get (decision_cache c) key) \<and>
       length (decision_cache c) = n + length (decision_cache c2))"
proof -
  have ok: "cache_ok c" using assms by (rule pdp_reachable_cache_ok)
  have "dict_get (decision_cache c2) key = (if stale_key u key then None else dict_get (decision_cache c) key) \<and>
      length (decision_cache c) = n + length (decision_cache c2)" if "invalidate_principal u c = (n, c2)"
  proof -
    have n: "n = fst (invalidate_principal u c)" and c2: "c2 = snd (invalidate_principal u c)" using that by simp_all
    show ?thesis
      unfolding n c2 invalidate_principal_filter invalidate_principal_count
      using sum_length_filter_compl [of "\<lambda>x. stale_key u (fst x)" "decision_cache c"]
      by (simp add: dict_get_filter_key [where P = "\<lambda>k. \<not> stale_key u k"])
  qed
  with ok cache_hit [OF ok] show ?thesis by (auto simp: cache_ok_def)
qed

text \<open>
  C1. A grant is never an echo: \<open>authorize\<close> allows only if in this very call SpiceDB answered
  that the principal has the permission, then, under delegation, that its mandant has it too,
  and then OPA answered with a truthy value; whatever the cache holds and the breakers do.
\<close>

theorem authorize_sound:
  assumes "pdp_reachable c" "authorize ups now clk p rtype rurn perm attrs (c, w) = (Inr d, c', w')" "allowed d"
  shows "granted_by_upstreams ups p rtype rurn perm attrs w w'"
proof -
  let ?look = "cache_lookup now p rtype rurn perm (cache_key_of p rtype rurn perm attrs) c"
  have miss: "fst ?look = None"
  proof (rule ccontr)
    assume "fst ?look \<noteq> None"
    then obtain d0 c0 where hit: "?look = (Some d0, c0)" by (metis option.exhaust prod.collapse)
    with assms(2) have "d0 = d" by (simp add: authorize_def)
    with assms(3) cache_hit [OF pdp_reachable_cache_ok [OF assms(1)] hit] show False by simp
  qed
  then obtain c0 where look: "?look = (None, c0)" by (metis prod.collapse)
  obtain r c2 w2 where unc: "authorize_uncached ups clk p rtype rurn perm attrs (c0, w) = (r, c2, w2)"
    by (metis prod.exhaust)
  with assms(2) look have "r = Inr d" "w2 = w'" by (auto simp: authorize_def split: sum.splits)
  with unc assms(3) show ?thesis by (auto intro: authorize_uncached_allowed)
qed

section \<open>Completeness of a grant\<close>

lemma closed_breaker_call:
  assumes "state b = Closed" "fn s = (Inr v, s')"
  shows "breaker_call cfg counts now now' fn b s = (Inr v, b\<lparr>failures := 0, state := Closed\<rparr>, s')"
  using assms by (simp add: breaker_call_def breaker_admit_def breaker_settle_def)

lemma check_rebac_closed:
  assumes "state (rebac_breaker c) = Closed" "spicedb_check ups (query_of who rtype rurn perm) w = (Inr pm, w')"
  shows "check_rebac ups ts who rtype rurn perm (c, w) =
    (Inr (pm = has_permission), c\<lparr>rebac_breaker := (rebac_breaker c)\<lparr>failures := 0, state := Closed\<rparr>\<rparr>, w')"
  using assms by (simp add: check_rebac_def closed_breaker_call)

lemma abac_stage_closed:
  assumes "state (abac_breaker c) = Closed" "truthy v"
    "opa_allow ups (p_country p) (case attrs of None \<Rightarrow> [] | Some a \<Rightarrow> a) w = (Inr (Some v), w')"
  shows "\<exists>c'. abac_stage ups clk p rtype rurn perm attrs (c, w) = (Inr (granted_decision p rurn perm), c', w')"
  using assms by (simp add: abac_stage_def check_abac_def closed_breaker_call Let_def)

lemma authorize_uncached_complete:
  assumes "state (rebac_breaker c) = Closed" "state (abac_breaker c) = Closed"
    "granted_by_upstreams ups p rtype rurn perm attrs w w'"
  shows "\<exists>c'. authorize_uncached ups clk p rtype rurn perm attrs (c, w) =
    (Inr (granted_decision p rurn perm), c', w')"
  using assms
  by (cases "p_on_behalf_of p")
     (auto simp: granted_by_upstreams_def authorize_uncached_def check_rebac_closed intro!: abac_stage_closed)

text \<open>
  With both breakers closed and no live denial in the cache, a request that SpiceDB grants to
  the principal and, under delegation, to its mandant, and that OPA does not restrict, is
  allowed; the decision names principal, permission and resource, and is not cached.
\<close>

theorem authorize_complete:
  assumes "state (rebac_breaker c) = Closed" "state (abac_breaker c) = Closed"
    "fst (cache_lookup now p rtype rurn perm (cache_key_of p rtype rurn perm attrs) c) = None"
    "granted_by_upstreams ups p rtype rurn perm attrs w w'"
  shows "\<exists>c'. authorize ups now clk p rtype rurn perm attrs (c, w) =
    (Inr \<lparr>allowed = True, reason = ''granted: '' @ p_urn p @ '' -> '' @ perm @ '' on '' @ rurn\<rparr>, c', w')"
proof -
  from assms(3) obtain c0 where look: "cache_lookup now p rtype rurn perm (cache_key_of p rtype rurn perm attrs) c = (None, c0)"
    by (metis prod.collapse)
  then have "rebac_breaker c0 = rebac_breaker c" "abac_breaker c0 = abac_breaker c"
    by (auto simp: cache_lookup_def split: option.splits if_splits)
  with authorize_uncached_complete [of c0] assms obtain c' where
    "authorize_uncached ups clk p rtype rurn perm attrs (c0, w) = (Inr (granted_decision p rurn perm), c', w')"
    by metis
  with look show ?thesis by (simp add: authorize_def granted_decision_def)
qed

section \<open>Witnesses\<close>

text \<open>SpiceDB counts its calls and grants; OPA allows.\<close>

definition counting_upstreams :: "nat upstreams" where
  "counting_upstreams = \<lparr>spicedb_check = \<lambda>q w. (Inr has_permission, Suc w),
     opa_allow = \<lambda>country res w. (Inr (Some (JBool True)), w)\<rparr>"

definition bot_principal :: principal where
  "bot_principal = \<lparr>p_urn = ''hl:acme:global:agent:bot'', p_type = ''agent'', p_tenant_id = ''acme'',
     p_display_name = ''Bot'', p_on_behalf_of = Some ''hl:acme:global:user:ada'', p_country = Some ''FR'',
     p_jti = None\<rparr>"

definition denial_stored :: permission_client where
  "denial_stored = cache_store 10 (cache_key_of bot_principal ''dataset'' ''hl:acme:eu:dataset:d1'' ''read'' None)
     (rebac_denied bot_principal ''hl:acme:eu:dataset:d1'' ''read'') (new_permission_client 5)"

theorem denial_cache_safe_witness:
  "fst (cache_lookup 12 bot_principal ''dataset'' ''hl:acme:eu:dataset:d1'' ''read''
     (cache_key_of bot_principal ''dataset'' ''hl:acme:eu:dataset:d1'' ''read'' None) denial_stored) =
     Some (rebac_denied bot_principal ''hl:acme:eu:dataset:d1'' ''read'') \<and>
   \<not> allowed (rebac_denied bot_principal ''hl:acme:eu:dataset:d1'' ''read'')"
proof -
  let ?look = "cache_lookup 12 bot_principal ''dataset'' ''hl:acme:eu:dataset:d1'' ''read''
     (cache_key_of bot_principal ''dataset'' ''hl:acme:eu:dataset:d1'' ''read'' None) denial_stored"
  have r: "pdp_reachable denial_stored"
    unfolding denial_stored_def by (rule pdp_reachable.step [OF pdp_reachable.init pdp_step.store])
  have hit: "fst ?look = Some (rebac_denied bot_principal ''hl:acme:eu:dataset:d1'' ''read'')"
    by (simp add: denial_stored_def cache_store_def cache_lookup_def new_permission_client_def decision_defs
        dict_get_def dict_set_def move_to_end_def)
  then have "?look = (Some (rebac_denied bot_principal ''hl:acme:eu:dataset:d1'' ''read''), snd ?look)"
    by (metis prod.collapse)
  with denial_cache_safe [OF r] hit show ?thesis by blast
qed

theorem authorize_sound_witness:
  "granted_by_upstreams counting_upstreams bot_principal ''dataset'' ''hl:acme:eu:dataset:d1'' ''read'' None 0 2"
proof -
  have "\<exists>c'. authorize counting_upstreams 10 (\<lambda>_. 10) bot_principal ''dataset'' ''hl:acme:eu:dataset:d1'' ''read'' None
      (new_permission_client 5, 0) = (Inr (granted_decision bot_principal ''hl:acme:eu:dataset:d1'' ''read''), c', 2)"
    by (simp add: authorize_def authorize_uncached_def cache_lookup_def new_permission_client_def check_rebac_def
        check_abac_def breaker_call_def breaker_admit_def breaker_settle_def breaker_init_def counting_upstreams_def
        abac_stage_def bot_principal_def Let_def)
  then obtain c' where "authorize counting_upstreams 10 (\<lambda>_. 10) bot_principal ''dataset'' ''hl:acme:eu:dataset:d1''
      ''read'' None (new_permission_client 5, 0) =
      (Inr (granted_decision bot_principal ''hl:acme:eu:dataset:d1'' ''read''), c', 2)" by blast
  from authorize_sound [OF pdp_reachable.init this] show ?thesis by (simp add: granted_decision_def)
qed

theorem authorize_complete_witness:
  "\<exists>c'. authorize counting_upstreams 10 (\<lambda>_. 10) bot_principal ''dataset'' ''d1'' ''read'' None
     (new_permission_client 5, 0) =
     (Inr \<lparr>allowed = True, reason = ''granted: hl:acme:global:agent:bot -> read on d1''\<rparr>, c', 2)"
proof -
  have "granted_by_upstreams counting_upstreams bot_principal ''dataset'' ''d1'' ''read'' None 0 2"
    by (simp add: granted_by_upstreams_def counting_upstreams_def bot_principal_def)
  from authorize_complete [OF _ _ _ this, of "new_permission_client 5" 10 "\<lambda>_. 10"] show ?thesis
    by (simp add: new_permission_client_def breaker_init_def cache_lookup_def bot_principal_def)
qed

end
