(* ===== verification/Holon_Events.thy ===== *)
theory Holon_Events
  imports Holon_Json Holon_Urn Holon_Resilience
begin

text \<open>
  The event bus: \<open>registry.py\<close> (payload schemas), \<open>events.py\<close> (envelopes, producer, consumer,
  dead letters) and \<open>outbox.py\<close> (the transactional outbox and its relay). Pydantic's decoding
  of raw JSON into an envelope and the validation of a payload by a schema are parameters; so
  are the broker and the success of a database update, as functions of a world of any type.
\<close>

section \<open>Registry\<close>

datatype registry_error =
    DuplicateRegistration string int
  | UnknownEventTypeError string
  | UnknownSchemaVersionError string "int list" int
  | ValidationError string

text \<open>A schema: \<open>None\<close> accepts the payload, \<open>Some\<close> is pydantic's complaint.\<close>

type_synonym schema = "payload \<Rightarrow> string option"

type_synonym registry = "(string \<times> int, schema) dict"

definition register :: "string \<Rightarrow> int \<Rightarrow> schema \<Rightarrow> registry \<Rightarrow> (registry_error, registry) result" where
  "register event_type v model reg =
     (if dict_get reg (event_type, v) \<noteq> None then Inl (DuplicateRegistration event_type v)
      else Inr (dict_set (event_type, v) model reg))"

definition validate :: "registry \<Rightarrow> string \<Rightarrow> int \<Rightarrow> payload \<Rightarrow> (registry_error, unit) result" where
  "validate reg event_type schema_version pl =
     (let versions = map (\<lambda>(k, m). snd k) (filter (\<lambda>(k, m). fst k = event_type) reg) in
      if versions = [] then Inl (UnknownEventTypeError event_type)
      else case dict_get reg (event_type, schema_version) of
             None \<Rightarrow> Inl (UnknownSchemaVersionError event_type (sort versions) schema_version)
           | Some model \<Rightarrow> (case model pl of None \<Rightarrow> Inr () | Some err \<Rightarrow> Inl (ValidationError err)))"

section \<open>Envelopes\<close>

definition name_segment :: "string \<Rightarrow> bool" where
  "name_segment s = list_all (\<lambda>q. q \<noteq> [] \<and> list_all (\<lambda>c. is_lower c \<or> is_digit c) q) (split_on (CHR ''_'') s)"

text \<open>\<open>_EVENT_TYPE_RE.match\<close>: the final \<open>$\<close> also matches before one trailing newline.\<close>

definition event_name :: "string \<Rightarrow> bool" where
  "event_name v = (length (split_on (CHR ''.'') v) = 3 \<and> list_all name_segment (split_on (CHR ''.'') v))"

definition event_type_ok :: "string \<Rightarrow> bool" where
  "event_type_ok v = (event_name v \<or> (v \<noteq> [] \<and> last v = newline \<and> event_name (butlast v)))"

record event_actor =
  actor_type :: string
  actor_urn :: string
  actor_on_behalf_of :: "string option"

record envelope =
  spec_version :: string
  event_id :: string
  event_type :: string
  schema_version :: int
  ev_tenant_id :: string
  workspace_id :: "string option"
  aggregate_type :: string
  aggregate_id :: string
  aggregate_version :: "int option"
  correlation_id :: string
  causation_id :: "string option"
  partition_key :: string
  occurred_at :: string
  producer :: string
  actor :: event_actor
  classification :: string
  ev_payload :: payload

text \<open>\<open>model_validate\<close>: field decoding, then the validator of \<open>event_type\<close>.\<close>

definition model_validate :: "('raw \<Rightarrow> (string, envelope) result) \<Rightarrow> 'raw \<Rightarrow> (string, envelope) result" where
  "model_validate typed raw =
     rbind (typed raw) (\<lambda>e. rbind (raise_if (\<not> event_type_ok (event_type e))
       (''event_type must follow {context}.{aggregate}.{fact_in_past_tense}: '' @ py_repr (event_type e))) (\<lambda>_. Inr e))"

definition topic :: "envelope \<Rightarrow> string" where
  "topic e = fst (partition_on (CHR ''.'') (event_type e))"

section \<open>Producer\<close>

datatype 'x publish_error = NotStarted | Rejected registry_error | SendFailed 'x

type_synonym ('x, 'w) broker = "string \<Rightarrow> string \<Rightarrow> envelope \<Rightarrow> 'w \<Rightarrow> ('x, unit) result \<times> 'w"

definition publish ::
  "registry \<Rightarrow> ('x, 'w) broker \<Rightarrow> bool \<Rightarrow> envelope \<Rightarrow> 'w \<Rightarrow> ('x publish_error, unit) result \<times> 'w" where
  "publish reg send started e w =
     (if \<not> started then (Inl NotStarted, w)
      else case validate reg (event_type e) (schema_version e) (ev_payload e) of
             Inl err \<Rightarrow> (Inl (Rejected err), w)
           | Inr _ \<Rightarrow> (case send (topic e) (partition_key e) e w of
                (Inl x, w') \<Rightarrow> (Inl (SendFailed x), w')
              | (Inr _, w') \<Rightarrow> (Inr (), w')))"

text \<open>\<open>_start_with_retry\<close> of producer and consumer.\<close>

definition start_with_retry ::
  "int \<Rightarrow> real \<Rightarrow> (nat \<Rightarrow> real) \<Rightarrow> ('x \<Rightarrow> bool) \<Rightarrow> ('w \<Rightarrow> ('x, unit) result \<times> 'w) \<Rightarrow> 'w
     \<Rightarrow> ('x, unit) retry_outcome \<times> 'w \<times> real list" where
  "start_with_retry attempts delay rnd connection_error start w =
     retry_with_backoff attempts \<lparr>base_delay = delay, max_delay = delay, jitter = True\<rparr> rnd connection_error start w"

section \<open>Dead letters\<close>

text \<open>
  The raw message may hold anything under \<open>tenant_id\<close> and \<open>event_type\<close>. The envelope's field is
  typed \<open>str\<close>, so building it raises unless the tenant is text; the payload is not looked at
  before \<open>publish\<close>. \<open>fresh\<close> is the new event id, \<open>fmt\<close> what an f-string shows of a value, \<open>now\<close>
  the clock.
\<close>

definition make_dlq_envelope ::
  "(json \<Rightarrow> string) \<Rightarrow> string \<Rightarrow> string \<Rightarrow> string \<Rightarrow> json \<Rightarrow> json \<Rightarrow> string \<Rightarrow> payload \<Rightarrow> (string, envelope) result" where
  "make_dlq_envelope fmt now fresh original_topic original_event_type tid err raw_payload =
     (case tid of
        JStr t \<Rightarrow> Inr
          \<lparr>spec_version = ''1.0'', event_id = fresh, event_type = ''platform.dlq.message_quarantined'',
           schema_version = 1, ev_tenant_id = t, workspace_id = None, aggregate_type = ''DeadLetterQueue'',
           aggregate_id = fresh, aggregate_version = None, correlation_id = fresh, causation_id = None,
           partition_key = t @ ''/dlq'', occurred_at = now, producer = ''holon_common.events'',
           actor = \<lparr>actor_type = ''service_account'',
             actor_urn = build_urn t ''global'' ''service-account'' ''platform-dlq'' None, actor_on_behalf_of = None\<rparr>,
           classification = ''internal'',
           ev_payload = [(''original_topic'', JStr original_topic), (''original_event_type'', original_event_type),
             (''error'', JStr err), (''raw_payload'', JObj raw_payload)]\<rparr>
      | other \<Rightarrow> Inl (''tenant_id: input should be a valid string: '' @ fmt other))"

text \<open>
  \<open>_quarantine\<close>: \<open>Inr b\<close> tells whether the caller may commit; \<open>Inl\<close> is an exception raised
  while building the envelope, which is not inside the \<open>try\<close>.
\<close>

definition quarantine ::
  "(json \<Rightarrow> string) \<Rightarrow> string \<Rightarrow> string \<Rightarrow> registry \<Rightarrow> ('x, 'w) broker option \<Rightarrow> string list \<Rightarrow> json \<Rightarrow> string \<Rightarrow> 'w
     \<Rightarrow> (string, bool) result \<times> 'w" where
  "quarantine fmt now fresh reg dlq topics raw err w =
     (case dlq of
        None \<Rightarrow> (Inr True, w)
      | Some send \<Rightarrow>
          let field = (\<lambda>k. case raw of
                 JObj d \<Rightarrow> (case dict_get d k of Some v \<Rightarrow> v | None \<Rightarrow> JStr ''unknown'')
               | _ \<Rightarrow> JStr ''unknown'');
              raw_payload = (case raw of JObj d \<Rightarrow> d | other \<Rightarrow> [(''_unparseable'', JStr (fmt other))])
          in case make_dlq_envelope fmt now fresh (join_with '','' topics) (field ''event_type'')
                 (field ''tenant_id'') err raw_payload of
               Inl e \<Rightarrow> (Inl e, w)
             | Inr env \<Rightarrow> (case publish reg send True env w of
                   (Inr _, w') \<Rightarrow> (Inr True, w')
                 | (Inl _, w') \<Rightarrow> (Inr False, w')))"

section \<open>Consumer\<close>

text \<open>
  The loop \<open>async for event in consumer: handle; await consumer.commit()\<close> with the generator
  \<open>__aiter__\<close> unfolded. The trace numbers the messages from the first one fetched: \<open>Commit i\<close> is
  a \<open>commit()\<close> issued when message \<open>i\<close> was the last one fetched. The result is \<open>Inl\<close> if the
  generator raises. \<open>exc_str\<close> renders a registry error.
\<close>

datatype consumer_op = Yield nat envelope | Commit nat

definition accept_message ::
  "(json \<Rightarrow> (string, envelope) result) \<Rightarrow> (registry_error \<Rightarrow> string) \<Rightarrow> registry \<Rightarrow> json \<Rightarrow> (string, envelope) result" where
  "accept_message typed exc_str reg raw =
     rbind (model_validate typed raw) (\<lambda>e.
       case validate reg (event_type e) (schema_version e) (ev_payload e) of
         Inl err \<Rightarrow> Inl (exc_str err) | Inr _ \<Rightarrow> Inr e)"

fun consume ::
  "(json \<Rightarrow> (string, envelope) result) \<Rightarrow> (registry_error \<Rightarrow> string) \<Rightarrow> (json \<Rightarrow> string) \<Rightarrow> string \<Rightarrow> (nat \<Rightarrow> string)
     \<Rightarrow> registry \<Rightarrow> ('x, 'w) broker option \<Rightarrow> string list \<Rightarrow> nat \<Rightarrow> json list \<Rightarrow> 'w
     \<Rightarrow> (string, unit) result \<times> consumer_op list \<times> 'w" where
  "consume typed exc_str fmt now fresh reg dlq topics i [] w = (Inr (), [], w)"
| "consume typed exc_str fmt now fresh reg dlq topics i (raw # rest) w =
     (case accept_message typed exc_str reg raw of
        Inr e \<Rightarrow>
          (let (r, ops, w') = consume typed exc_str fmt now fresh reg dlq topics (Suc i) rest w
           in (r, Yield i e # Commit i # ops, w'))
      | Inl err \<Rightarrow>
          (case quarantine fmt now (fresh i) reg dlq topics raw err w of
             (Inl e, w1) \<Rightarrow> (Inl e, [], w1)
           | (Inr may_commit, w1) \<Rightarrow>
               (let (r, ops, w') = consume typed exc_str fmt now fresh reg dlq topics (Suc i) rest w1
                in (r, (if may_commit then Commit i # ops else ops), w'))))"

definition yielded :: "consumer_op list \<Rightarrow> envelope list" where
  "yielded ops = List.map_filter (\<lambda>op. case op of Yield i e \<Rightarrow> Some e | Commit i \<Rightarrow> None) ops"

definition text_tenant :: "json \<Rightarrow> bool" where
  "text_tenant raw = (case raw of JObj d \<Rightarrow> (case dict_get d ''tenant_id'' of Some (JStr t) \<Rightarrow> True | None \<Rightarrow> True | _ \<Rightarrow> False)
     | _ \<Rightarrow> True)"

definition accepted :: "(json \<Rightarrow> (string, envelope) result) \<Rightarrow> json list \<Rightarrow> envelope list" where
  "accepted acc ms = List.map_filter (\<lambda>m. case acc m of Inr e \<Rightarrow> Some e | Inl _ \<Rightarrow> None) ms"

lemma yielded_simps [simp]:
  "yielded [] = []" "yielded (Commit i # ops) = yielded ops" "yielded (Yield i e # ops) = e # yielded ops"
  by (simp_all add: yielded_def List.map_filter_simps)

lemma accepted_simps [simp]:
  "accepted acc [] = []"
  "accepted acc (m # ms) = (case acc m of Inr e \<Rightarrow> e # accepted acc ms | Inl _ \<Rightarrow> accepted acc ms)"
  by (simp_all add: accepted_def List.map_filter_simps split: sum.splits)

lemma quarantine_text_tenant:
  "text_tenant raw \<Longrightarrow> \<exists>b w'. quarantine fmt now fresh reg dlq topics raw err w = (Inr b, w')"
  by (cases raw) (auto simp: quarantine_def text_tenant_def make_dlq_envelope_def Let_def
      split: option.splits json.splits prod.splits sum.splits)

lemma quarantine_untyped_tenant:
  "\<not> text_tenant raw \<Longrightarrow> \<exists>e. quarantine fmt now fresh reg (Some send) topics raw err w = (Inl e, w)"
  by (cases raw) (auto simp: quarantine_def text_tenant_def make_dlq_envelope_def Let_def
      split: option.splits json.splits)

text \<open>
  A message that fails validation never stops the consumer or the messages behind it, as long
  as its tenant, if it has one, is text: whatever the dead letter broker does, the loop runs
  to the end and hands out exactly the valid envelopes, in order.
\<close>

theorem consumer_delivers:
  assumes "\<forall>m \<in> set ms. is_ok (accept_message typed exc_str reg m) \<or> text_tenant m"
  shows "\<exists>ops w'. consume typed exc_str fmt now fresh reg dlq topics i ms w = (Inr (), ops, w') \<and>
    yielded ops = accepted (accept_message typed exc_str reg) ms"
  using assms
proof (induction ms arbitrary: i w)
  case (Cons m ms)
  show ?case
  proof (cases "accept_message typed exc_str reg m")
    case (Inr e)
    obtain ops w' where "consume typed exc_str fmt now fresh reg dlq topics (Suc i) ms w = (Inr (), ops, w')"
      "yielded ops = accepted (accept_message typed exc_str reg) ms"
      using Cons.IH [of "Suc i" w] Cons.prems by auto
    with Inr show ?thesis by simp
  next
    case (Inl err)
    with Cons.prems have "text_tenant m" by auto
    then obtain b w1 where q: "quarantine fmt now (fresh i) reg dlq topics m err w = (Inr b, w1)"
      using quarantine_text_tenant by metis
    obtain ops w' where "consume typed exc_str fmt now fresh reg dlq topics (Suc i) ms w1 = (Inr (), ops, w')"
      "yielded ops = accepted (accept_message typed exc_str reg) ms"
      using Cons.IH [of "Suc i" w1] Cons.prems by auto
    with Inl q show ?thesis by simp
  qed
qed simp

text \<open>
  Two ways to lose what the dead letter queue should keep. A poison message whose tenant is
  not text makes the generator itself raise, so nothing behind it is delivered; and one whose
  quarantine failed is passed by the commit of the next good message, although it was left
  uncommitted on purpose.
\<close>

theorem quarantine_gaps:
  assumes "accept_message typed exc_str reg poison = Inl err"
  shows "(\<not> text_tenant poison \<longrightarrow>
      (\<exists>e. consume typed exc_str fmt now fresh reg (Some send) topics i (poison # rest) w = (Inl e, [], w))) \<and>
    (quarantine fmt now (fresh i) reg dlq topics poison err w = (Inr False, w1) \<and>
       accept_message typed exc_str reg good = Inr e2 \<longrightarrow>
       fst (snd (consume typed exc_str fmt now fresh reg dlq topics i [poison, good] w)) =
         [Yield (Suc i) e2, Commit (Suc i)])"
  using assms quarantine_untyped_tenant [of poison fmt now "fresh i" reg send topics err w]
  by (auto split: prod.splits)

end
