(* ===== verification/Holon_Outbox.thy ===== *)
theory Holon_Outbox
  imports Holon_Events
begin

text \<open>
  \<open>outbox.py\<close>: the table \<open>event_outbox\<close>, \<open>enqueue\<close> and the relay. A pass of the relay is the body
  of \<open>relay_forever\<close>'s loop: it fetches up to fifty unpublished rows in the order of their ids
  and works through them until one fails. \<open>sent\<close> and \<open>dead_lettered\<close> record, in order, what the
  brokers have accepted. \<open>mark\<close> tells whether an \<open>UPDATE\<close> succeeds.
\<close>

record outbox_row =
  row_id :: nat
  row_event_id :: string
  row_envelope :: string
  row_published :: bool

record outbox =
  rows :: "outbox_row list"
  next_id :: nat
  sent :: "envelope list"
  dead_lettered :: "envelope list"

definition empty_outbox :: outbox where
  "empty_outbox = \<lparr>rows = [], next_id = 1, sent = [], dead_lettered = []\<rparr>"

datatype outbox_error = UniqueViolation

definition enqueue :: "(envelope \<Rightarrow> string) \<Rightarrow> envelope \<Rightarrow> outbox \<Rightarrow> (outbox_error, outbox) result" where
  "enqueue dump e ob =
     (if event_id e \<in> set (map row_event_id (rows ob)) then Inl UniqueViolation
      else Inr (ob\<lparr>rows := rows ob @ [\<lparr>row_id = next_id ob, row_event_id = event_id e, row_envelope = dump e,
                     row_published = False\<rparr>], next_id := Suc (next_id ob)\<rparr>))"

definition set_published :: "nat \<Rightarrow> outbox \<Rightarrow> outbox" where
  "set_published i ob =
     ob\<lparr>rows := map (\<lambda>r. if row_id r = i then r\<lparr>row_published := True\<rparr> else r) (rows ob)\<rparr>"

definition fetch_batch :: "outbox \<Rightarrow> outbox_row list" where
  "fetch_batch ob = take 50 (sort_key row_id (filter (\<lambda>r. \<not> row_published r) (rows ob)))"

text \<open>What the relay needs from outside: decoding, the registry, two brokers, the database, and the
  clock, fresh ids and rendering for dead letters.\<close>

record ('x, 'w) relay_env =
  decode_row :: "string \<Rightarrow> (string, envelope) result"
  relay_registry :: registry
  main_broker :: "('x, 'w) broker"
  dlq_broker :: "('x, 'w) broker option"
  mark :: "nat \<Rightarrow> 'w \<Rightarrow> bool \<times> 'w"
  dlq_now :: string
  dlq_fresh :: "nat \<Rightarrow> string"
  exc_text :: "registry_error \<Rightarrow> string"

definition poison :: "('x, 'w) relay_env \<Rightarrow> envelope \<Rightarrow> registry_error option" where
  "poison E e = (case validate (relay_registry E) (event_type e) (schema_version e) (ev_payload e) of
     Inl err \<Rightarrow> Some err | Inr _ \<Rightarrow> None)"

definition mark_published :: "('x, 'w) relay_env \<Rightarrow> nat \<Rightarrow> outbox \<times> 'w \<Rightarrow> bool \<times> outbox \<times> 'w" where
  "mark_published E i ow =
     (case ow of (ob, w) \<Rightarrow>
        case mark E i w of (ok, w') \<Rightarrow> (ok, (if ok then set_published i ob else ob), w'))"

definition dead_letter :: "('x, 'w) relay_env \<Rightarrow> outbox_row \<Rightarrow> envelope \<Rightarrow> registry_error \<Rightarrow> outbox \<times> 'w \<Rightarrow> outbox \<times> 'w" where
  "dead_letter E row e err ow =
     (case ow of (ob, w) \<Rightarrow>
        case dlq_broker E of
          None \<Rightarrow> (ob, w)
        | Some send \<Rightarrow>
            (case make_dlq_envelope (\<lambda>_. []) (dlq_now E) (dlq_fresh E (row_id row)) (topic e) (JStr (event_type e))
                    (JStr (ev_tenant_id e)) (exc_text E err) (ev_payload e) of
               Inl _ \<Rightarrow> (ob, w)
             | Inr d \<Rightarrow> (case publish (relay_registry E) send True d w of
                   (Inr _, w') \<Rightarrow> (ob\<lparr>dead_lettered := dead_lettered ob @ [d]\<rparr>, w')
                 | (Inl _, w') \<Rightarrow> (ob, w'))))"

text \<open>One iteration over a row; the first component is False if an exception ends the pass.\<close>

definition relay_row :: "('x, 'w) relay_env \<Rightarrow> outbox_row \<Rightarrow> outbox \<times> 'w \<Rightarrow> bool \<times> outbox \<times> 'w" where
  "relay_row E row ow =
     (case decode_row E (row_envelope row) of
        Inl _ \<Rightarrow> (False, ow)
      | Inr e \<Rightarrow>
          (case poison E e of
             Some err \<Rightarrow> mark_published E (row_id row) (dead_letter E row e err ow)
           | None \<Rightarrow>
               (case ow of (ob, w) \<Rightarrow>
                  case publish (relay_registry E) (main_broker E) True e w of
                    (Inl _, w') \<Rightarrow> (False, ob, w')
                  | (Inr _, w') \<Rightarrow> mark_published E (row_id row) (ob\<lparr>sent := sent ob @ [e]\<rparr>, w'))))"

fun relay_rows :: "('x, 'w) relay_env \<Rightarrow> outbox_row list \<Rightarrow> outbox \<times> 'w \<Rightarrow> outbox \<times> 'w" where
  "relay_rows E [] ow = ow"
| "relay_rows E (r # rs) ow =
     (case relay_row E r ow of (continue, ow') \<Rightarrow> if continue then relay_rows E rs ow' else ow')"

definition relay_pass :: "('x, 'w) relay_env \<Rightarrow> outbox \<times> 'w \<Rightarrow> outbox \<times> 'w" where
  "relay_pass E ow = relay_rows E (fetch_batch (fst ow)) ow"

fun relay_passes :: "nat \<Rightarrow> ('x, 'w) relay_env \<Rightarrow> outbox \<times> 'w \<Rightarrow> outbox \<times> 'w" where
  "relay_passes 0 E ow = ow"
| "relay_passes (Suc n) E ow = relay_passes n E (relay_pass E ow)"

section \<open>No event is lost\<close>

text \<open>
  Producers and the relays of several replicas run interleaved: at any moment a transaction
  commits an event, or some relay works on a row it fetched at some earlier time.
\<close>

inductive outbox_reachable :: "('x, 'w) relay_env \<Rightarrow> (envelope \<Rightarrow> string) \<Rightarrow> outbox \<Rightarrow> bool" for E dump where
  start: "outbox_reachable E dump empty_outbox"
| commit: "outbox_reachable E dump ob \<Longrightarrow> enqueue dump e ob = Inr ob' \<Longrightarrow> outbox_reachable E dump ob'"
| relay: "outbox_reachable E dump ob \<Longrightarrow> row_id row \<in> row_id ` set (rows ob) \<Longrightarrow>
    (\<forall>r \<in> set (rows ob). row_id r = row_id row \<longrightarrow> row_envelope r = row_envelope row) \<Longrightarrow>
    relay_row E row (ob, w) = (continue, ob', w') \<Longrightarrow> outbox_reachable E dump ob'"

definition accounted :: "('x, 'w) relay_env \<Rightarrow> outbox \<Rightarrow> outbox_row \<Rightarrow> bool" where
  "accounted E ob r \<longleftrightarrow> (row_published r \<longrightarrow>
     (\<exists>e. decode_row E (row_envelope r) = Inr e \<and> (poison E e = None \<longrightarrow> e \<in> set (sent ob))))"

lemma set_published_simps [simp]:
  "sent (set_published i ob) = sent ob" "next_id (set_published i ob) = next_id ob"
  "rows (set_published i ob) = map (\<lambda>r. if row_id r = i then r\<lparr>row_published := True\<rparr> else r) (rows ob)"
  by (simp_all add: set_published_def)

lemma mark_published_cases:
  "mark_published E i (ob, w) = (continue, ob', w') \<Longrightarrow> ob' = (if continue then set_published i ob else ob)"
  by (auto simp: mark_published_def split: prod.splits)

lemma dead_letter_frame:
  "dead_letter E row e err (ob, w) = (ob', w') \<Longrightarrow> rows ob' = rows ob \<and> sent ob' = sent ob"
  by (auto simp: dead_letter_def split: option.splits sum.splits prod.splits)

lemma relay_row_cases:
  assumes "relay_row E row (ob, w) = (continue, ob', w')"
  obtains (unmarked) "rows ob' = rows ob" "set (sent ob) \<subseteq> set (sent ob')"
  | (marked) e where "decode_row E (row_envelope row) = Inr e" "rows ob' = rows (set_published (row_id row) ob)"
      "set (sent ob) \<subseteq> set (sent ob')" "poison E e = None \<longrightarrow> e \<in> set (sent ob')"
proof (cases "decode_row E (row_envelope row)")
  case (Inl err)
  with assms unmarked show thesis by (simp add: relay_row_def)
next
  case (Inr e)
  show thesis
  proof (cases "poison E e")
    case None
    obtain r w1 where p: "publish (relay_registry E) (main_broker E) True e w = (r, w1)" by (metis prod.exhaust)
    with assms Inr None unmarked marked [OF Inr] show thesis
      by (cases r; cases continue) (auto simp: relay_row_def subset_insertI dest!: mark_published_cases)
  next
    case (Some err)
    obtain ob1 w1 where d: "dead_letter E row e err (ob, w) = (ob1, w1)" by (metis prod.exhaust)
    with assms Inr Some unmarked marked [OF Inr] show thesis
      by (cases continue) (auto simp: relay_row_def dest!: mark_published_cases dead_letter_frame)
  qed
qed

lemma accounted_mono: "accounted E ob r \<Longrightarrow> set (sent ob) \<subseteq> set (sent ob') \<Longrightarrow> accounted E ob' r"
  by (auto simp: accounted_def)

lemma reachable_accounted:
  "outbox_reachable E dump ob \<Longrightarrow> r \<in> set (rows ob) \<Longrightarrow> accounted E ob r"
proof (induction arbitrary: r rule: outbox_reachable.induct)
  case start
  then show ?case by (simp add: empty_outbox_def)
next
  case (commit ob e ob')
  from commit.hyps(2) have "sent ob' = sent ob"
    "set (rows ob') = insert \<lparr>row_id = next_id ob, row_event_id = event_id e, row_envelope = dump e, row_published = False\<rparr> (set (rows ob))"
    by (auto simp: enqueue_def split: if_splits)
  with commit show ?case by (auto simp: accounted_def)
next
  case (relay ob row w continue ob' w')
  from relay.hyps(4) show ?case
  proof (cases rule: relay_row_cases)
    case unmarked
    with relay show ?thesis by (auto intro: accounted_mono)
  next
    case (marked e)
    from relay.prems obtain r0 where r0: "r0 \<in> set (rows ob)"
      "r = (if row_id r0 = row_id row then r0\<lparr>row_published := True\<rparr> else r0)"
      using marked(2) by auto
    show ?thesis
    proof (cases "row_id r0 = row_id row")
      case True
      with r0 relay.hyps(3) marked show ?thesis by (auto simp: accounted_def)
    next
      case False
      with r0 relay.IH marked(3) show ?thesis by (auto intro: accounted_mono)
    qed
  qed
qed

lemma reachable_rows_dumped:
  "outbox_reachable E dump ob \<Longrightarrow> r \<in> set (rows ob) \<Longrightarrow>
   \<exists>e. row_event_id r = event_id e \<and> row_envelope r = dump e"
proof (induction arbitrary: r rule: outbox_reachable.induct)
  case (commit ob e ob')
  then have "r \<in> set (rows ob) \<or> (row_event_id r = event_id e \<and> row_envelope r = dump e)"
    by (auto simp: enqueue_def split: if_splits)
  with commit.IH show ?case by blast
next
  case (relay ob row w continue ob' w')
  from relay.hyps(4) relay.prems relay.IH show ?case
    by (cases rule: relay_row_cases) (auto split: if_splits)
qed (simp add: empty_outbox_def)

text \<open>
  C5. The outbox loses nothing: in every interleaving of committing transactions and of relays,
  with brokers and database failing at will, a row holds the event that was enqueued, and it
  is marked published only after the broker accepted that event, or if the registry rejects it.
  What is needed of pydantic is that the dumped envelope is read back.
\<close>

theorem outbox_no_loss:
  assumes "outbox_reachable E dump ob" "r \<in> set (rows ob)"
  shows "\<exists>e. row_event_id r = event_id e \<and> row_envelope r = dump e \<and>
    (decode_row E (dump e) = Inr e \<longrightarrow> row_published r \<longrightarrow> poison E e \<noteq> None \<or> e \<in> set (sent ob))"
  using reachable_rows_dumped [OF assms] reachable_accounted [OF assms]
  by (fastforce simp: accounted_def)

section \<open>A pass keeps the order, and passes drain the table\<close>

definition pending :: "outbox \<Rightarrow> outbox_row list" where
  "pending ob = sort_key row_id (filter (\<lambda>r. \<not> row_published r) (rows ob))"

definition publishable :: "('x, 'w) relay_env \<Rightarrow> outbox_row list \<Rightarrow> envelope list" where
  "publishable E rs = List.map_filter (\<lambda>r. case decode_row E (row_envelope r) of
     Inr e \<Rightarrow> (if poison E e = None then Some e else None) | Inl _ \<Rightarrow> None) rs"

definition healthy :: "('x, 'w) relay_env \<Rightarrow> bool" where
  "healthy E \<longleftrightarrow> (\<forall>t k e w. is_ok (fst (main_broker E t k e w))) \<and> (\<forall>i w. fst (mark E i w))"

definition publish_ids :: "nat set \<Rightarrow> outbox_row list \<Rightarrow> outbox_row list" where
  "publish_ids ids = map (\<lambda>r. if row_id r \<in> ids then r\<lparr>row_published := True\<rparr> else r)"

lemma publishable_simps [simp]:
  "publishable E [] = []"
  "publishable E (r # rs) = (case decode_row E (row_envelope r) of
     Inr e \<Rightarrow> (if poison E e = None then e # publishable E rs else publishable E rs) | Inl _ \<Rightarrow> publishable E rs)"
  by (simp_all add: publishable_def List.map_filter_simps split: sum.splits)

lemma publishable_append [simp]: "publishable E (xs @ ys) = publishable E xs @ publishable E ys"
  by (induction xs) (simp_all split: sum.splits)

lemma relay_row_healthy:
  assumes "healthy E" "decode_row E (row_envelope r) = Inr e"
  shows "\<exists>ob' w'. relay_row E r (ob, w) = (True, ob', w') \<and> rows ob' = publish_ids {row_id r} (rows ob) \<and>
    sent ob' = sent ob @ publishable E [r]"
proof (cases "poison E e")
  case None
  have "validate (relay_registry E) (event_type e) (schema_version e) (ev_payload e) = Inr ()"
    using None by (auto simp: poison_def split: sum.splits)
  moreover obtain r1 w1 where send: "main_broker E (topic e) (partition_key e) e w = (r1, w1)" by (metis prod.exhaust)
  moreover have "is_ok r1" using assms(1) send unfolding healthy_def by (metis fst_conv)
  ultimately have "publish (relay_registry E) (main_broker E) True e w = (Inr (), w1)"
    by (auto simp: publish_def is_ok_iff)
  moreover obtain w2 where "mark E (row_id r) w1 = (True, w2)"
    using assms(1) unfolding healthy_def by (metis prod.collapse)
  ultimately show ?thesis
    using assms(2) None by (simp add: relay_row_def mark_published_def publish_ids_def)
next
  case (Some err)
  obtain ob1 w1 where d: "dead_letter E r e err (ob, w) = (ob1, w1)" by (metis prod.exhaust)
  moreover obtain w2 where "mark E (row_id r) w1 = (True, w2)"
    using assms(1) unfolding healthy_def by (metis prod.collapse)
  ultimately show ?thesis
    using assms(2) Some dead_letter_frame [OF d] by (simp add: relay_row_def mark_published_def publish_ids_def)
qed

lemma publish_ids_compose: "publish_ids A (publish_ids B xs) = publish_ids (A \<union> B) xs"
  by (simp add: publish_ids_def)

lemma relay_rows_healthy:
  assumes "healthy E" "\<forall>r \<in> set rs. is_ok (decode_row E (row_envelope r))"
  shows "\<exists>ob' w'. relay_rows E rs (ob, w) = (ob', w') \<and> rows ob' = publish_ids (row_id ` set rs) (rows ob) \<and>
    sent ob' = sent ob @ publishable E rs"
  using assms(2)
proof (induction rs arbitrary: ob w)
  case Nil
  then show ?case by (simp add: publish_ids_def)
next
  case (Cons r rs)
  from Cons.prems obtain e where "decode_row E (row_envelope r) = Inr e" by (auto simp: is_ok_iff)
  from relay_row_healthy [OF assms(1) this, of ob w] obtain ob1 w1 where
    one: "relay_row E r (ob, w) = (True, ob1, w1)" "rows ob1 = publish_ids {row_id r} (rows ob)"
      "sent ob1 = sent ob @ publishable E [r]" by blast
  from Cons.IH [of ob1 w1] Cons.prems obtain ob' w' where
    rest: "relay_rows E rs (ob1, w1) = (ob', w')" "rows ob' = publish_ids (row_id ` set rs) (rows ob1)"
      "sent ob' = sent ob1 @ publishable E rs" by auto
  have "relay_rows E (r # rs) (ob, w) = (ob', w')" using one(1) rest(1) by simp
  moreover have "rows ob' = publish_ids (row_id ` set (r # rs)) (rows ob)"
    unfolding rest(2) one(2) publish_ids_compose by (simp add: Un_commute)
  moreover have "sent ob' = sent ob @ publishable E (r # rs)"
    unfolding rest(3) one(3) append_assoc publishable_append [symmetric] by simp
  ultimately show ?case by blast
qed

lemma distinct_ids_pending: "distinct (map row_id (rows ob)) \<Longrightarrow> distinct (map row_id (pending ob))"
  by (simp add: pending_def distinct_map distinct_filter inj_on_def)

lemma pending_publish_ids:
  assumes "rows ob' = publish_ids ids (rows ob)"
  shows "pending ob' = filter (\<lambda>r. row_id r \<notin> ids) (pending ob)"
proof -
  have "filter (\<lambda>r. \<not> row_published r) (publish_ids ids xs) =
      filter (\<lambda>r. row_id r \<notin> ids) (filter (\<lambda>r. \<not> row_published r) xs)" for xs
    by (induction xs) (auto simp: publish_ids_def)
  then show ?thesis by (simp add: pending_def assms filter_sort)
qed

lemma filter_take_ids:
  "distinct (map f xs) \<Longrightarrow> filter (\<lambda>x. f x \<notin> f ` set (take n xs)) xs = drop n xs"
proof (induction xs arbitrary: n)
  case (Cons x xs)
  show ?case
  proof (cases n)
    case (Suc m)
    have "filter (\<lambda>y. f y \<notin> f ` set (take n (x # xs))) (x # xs) = filter (\<lambda>y. f y \<notin> f ` set (take m xs)) xs"
      using Cons.prems by (auto simp: Suc image_iff intro!: filter_cong)
    with Cons show ?thesis by (simp add: Suc)
  qed simp
qed simp

lemma relay_pass_healthy:
  assumes "healthy E" "distinct (map row_id (rows ob))" "\<forall>r \<in> set (rows ob). is_ok (decode_row E (row_envelope r))"
  obtains ob' w' where "relay_pass E (ob, w) = (ob', w')"
    "pending ob' = drop 50 (pending ob)" "sent ob' = sent ob @ publishable E (take 50 (pending ob))"
    "rows ob' = publish_ids (row_id ` set (take 50 (pending ob))) (rows ob)"
proof -
  have "set (take 50 (pending ob)) \<subseteq> set (rows ob)" by (auto simp: pending_def dest: in_set_takeD)
  with assms(3) have "\<forall>r \<in> set (take 50 (pending ob)). is_ok (decode_row E (row_envelope r))" by blast
  from relay_rows_healthy [OF assms(1) this, of ob w] obtain ob' w' where
    "relay_pass E (ob, w) = (ob', w')" "sent ob' = sent ob @ publishable E (take 50 (pending ob))"
    and r: "rows ob' = publish_ids (row_id ` set (take 50 (pending ob))) (rows ob)"
    by (auto simp: relay_pass_def fetch_batch_def pending_def)
  moreover have "pending ob' = drop 50 (pending ob)"
    unfolding pending_publish_ids [OF r] by (rule filter_take_ids [OF distinct_ids_pending [OF assms(2)]])
  ultimately show thesis using that by blast
qed

text \<open>
  C32. With brokers and database up, the relay publishes the pending events in the order of their
  ids, skipping the poison ones, and a table of \<open>m\<close> unpublished rows is empty after any number
  of passes that is at least \<open>m\<close> divided by fifty.
\<close>

theorem relay_drains_in_order:
  assumes "healthy E" "distinct (map row_id (rows ob))" "\<forall>r \<in> set (rows ob). is_ok (decode_row E (row_envelope r))"
    and "length (pending ob) \<le> 50 * n"
  shows "pending (fst (relay_passes n E (ob, w))) = [] \<and>
    sent (fst (relay_passes n E (ob, w))) = sent ob @ publishable E (pending ob)"
  using assms(2-)
proof (induction n arbitrary: ob w)
  case (Suc n)
  from relay_pass_healthy [OF assms(1) Suc.prems(1,2)] obtain ob' w' where
    p: "relay_pass E (ob, w) = (ob', w')" "pending ob' = drop 50 (pending ob)"
      "sent ob' = sent ob @ publishable E (take 50 (pending ob))"
      "rows ob' = publish_ids (row_id ` set (take 50 (pending ob))) (rows ob)"
    by metis
  have "map row_id (rows ob') = map row_id (rows ob)" by (simp add: p(4) publish_ids_def)
  moreover have "\<forall>r \<in> set (rows ob'). is_ok (decode_row E (row_envelope r))"
    using Suc.prems(2) by (auto simp: p(4) publish_ids_def)
  moreover have "length (pending ob') \<le> 50 * n" using Suc.prems(3) by (simp add: p(2))
  ultimately have "pending (fst (relay_passes n E (ob', w'))) = [] \<and>
      sent (fst (relay_passes n E (ob', w'))) = sent ob' @ publishable E (pending ob')"
    using Suc.IH [of ob' w'] Suc.prems(1) by simp
  then show ?case by (simp add: p(1,2,3) flip: publishable_append)
qed simp

section \<open>Witnesses\<close>

definition dlq_schema :: schema where
  "dlq_schema pl = (if map fst pl = [''original_topic'', ''original_event_type'', ''error'', ''raw_payload''] then None
     else Some ''field required'')"

definition sample_registry :: registry where
  "sample_registry = [((''platform.dlq.message_quarantined'', 1), dlq_schema),
     ((''identity.token.revoked'', 1), \<lambda>pl. if map fst pl = [''jti''] then None else Some ''jti'')]"

definition sample_event :: "string \<Rightarrow> payload \<Rightarrow> envelope" where
  "sample_event i pl = \<lparr>spec_version = ''1.0'', event_id = i, event_type = ''identity.token.revoked'',
     schema_version = 1, ev_tenant_id = ''acme'', workspace_id = None, aggregate_type = ''Token'',
     aggregate_id = i, aggregate_version = None, correlation_id = i, causation_id = None,
     partition_key = ''acme/t'', occurred_at = ''2025-01-01'', producer = ''identity'',
     actor = \<lparr>actor_type = ''user'', actor_urn = ''hl:acme:global:user:ada'', actor_on_behalf_of = None\<rparr>,
     classification = ''internal'', ev_payload = pl\<rparr>"

definition dump_id :: "envelope \<Rightarrow> string" where
  "dump_id e = event_id e"

definition sample_relay :: "(string, nat) relay_env" where
  "sample_relay = \<lparr>decode_row = \<lambda>s. Inr (sample_event s (if s = ''bad'' then [] else [(''jti'', JStr s)])),
     relay_registry = sample_registry, main_broker = \<lambda>t k e w. (Inr (), Suc w), dlq_broker = None,
     mark = \<lambda>i w. (True, w), dlq_now = [], dlq_fresh = \<lambda>i. [], exc_text = \<lambda>e. []\<rparr>"

definition sample_outbox :: outbox where
  "sample_outbox = \<lparr>rows = [\<lparr>row_id = 1, row_event_id = ''a'', row_envelope = ''a'', row_published = False\<rparr>,
     \<lparr>row_id = 2, row_event_id = ''bad'', row_envelope = ''bad'', row_published = False\<rparr>,
     \<lparr>row_id = 3, row_event_id = ''b'', row_envelope = ''b'', row_published = False\<rparr>], next_id = 4,
     sent = [], dead_lettered = []\<rparr>"

theorem relay_drains_in_order_witness:
  "map event_id (sent (fst (relay_passes 1 sample_relay (sample_outbox, 0)))) = [''a'', ''b'']"
proof -
  have "healthy sample_relay" by (simp add: healthy_def sample_relay_def)
  moreover have "distinct (map row_id (rows sample_outbox))" by (simp add: sample_outbox_def)
  moreover have "\<forall>r \<in> set (rows sample_outbox). is_ok (decode_row sample_relay (row_envelope r))"
    by (simp add: sample_relay_def)
  moreover have "length (pending sample_outbox) \<le> 50 * 1" by (simp add: pending_def sample_outbox_def)
  ultimately have "sent (fst (relay_passes 1 sample_relay (sample_outbox, 0))) =
      sent sample_outbox @ publishable sample_relay (pending sample_outbox)"
    using relay_drains_in_order [of sample_relay sample_outbox 1 0] by blast
  moreover have "map event_id (sent sample_outbox @ publishable sample_relay (pending sample_outbox)) = [''a'', ''b'']"
    by (simp add: sample_outbox_def pending_def sample_relay_def poison_def sample_event_def sample_registry_def
        validate_def dict_get_def)
  ultimately show ?thesis by metis
qed

definition relayed_outbox :: outbox where
  "relayed_outbox = \<lparr>rows = [\<lparr>row_id = 1, row_event_id = ''a'', row_envelope = ''a'', row_published = True\<rparr>],
     next_id = 2, sent = [sample_event ''a'' [(''jti'', JStr ''a'')]], dead_lettered = []\<rparr>"

lemma relayed_outbox_reachable: "outbox_reachable sample_relay dump_id relayed_outbox"
proof -
  let ?ob = "\<lparr>rows = [\<lparr>row_id = 1, row_event_id = ''a'', row_envelope = ''a'', row_published = False\<rparr>],
     next_id = 2, sent = [], dead_lettered = []\<rparr>"
  have "enqueue dump_id (sample_event ''a'' [(''jti'', JStr ''a'')]) empty_outbox = Inr ?ob"
    by (simp add: enqueue_def empty_outbox_def dump_id_def sample_event_def)
  then have r: "outbox_reachable sample_relay dump_id ?ob" by (rule outbox_reachable.commit [OF outbox_reachable.start])
  have "relay_row sample_relay \<lparr>row_id = 1, row_event_id = ''a'', row_envelope = ''a'', row_published = False\<rparr> (?ob, 0) =
      (True, relayed_outbox, 1)"
    by (simp add: relay_row_def sample_relay_def poison_def validate_def sample_registry_def dict_get_def publish_def
        mark_published_def set_published_def relayed_outbox_def sample_event_def)
  then show ?thesis by (rule outbox_reachable.relay [OF r, rotated 2]) simp_all
qed

theorem outbox_no_loss_witness:
  "\<exists>e. ''a'' = event_id e \<and> ''a'' = dump_id e \<and>
    (decode_row sample_relay (dump_id e) = Inr e \<longrightarrow> poison sample_relay e \<noteq> None \<or> e \<in> set (sent relayed_outbox))"
  using outbox_no_loss [OF relayed_outbox_reachable,
      of "\<lparr>row_id = 1, row_event_id = ''a'', row_envelope = ''a'', row_published = True\<rparr>"]
  by (simp add: relayed_outbox_def)

definition decode_sample :: "json \<Rightarrow> (string, envelope) result" where
  "decode_sample raw = (case raw of JObj [(''jti'', JStr j)] \<Rightarrow> Inr (sample_event j [(''jti'', JStr j)]) | _ \<Rightarrow> Inl ''invalid'')"

theorem consumer_delivers_witness:
  "\<exists>ops w'. consume decode_sample (\<lambda>e. []) (\<lambda>j. []) [] (\<lambda>i. []) sample_registry
      (Some (\<lambda>t k e w. (Inl ''down'', w))) [''identity''] 0 [JInt 7, JObj [(''jti'', JStr ''j1'')]] () = (Inr (), ops, w') \<and>
    yielded ops = [sample_event ''j1'' [(''jti'', JStr ''j1'')]]"
proof -
  have acc: "accept_message decode_sample (\<lambda>e. []) sample_registry (JObj [(''jti'', JStr ''j1'')]) =
      Inr (sample_event ''j1'' [(''jti'', JStr ''j1'')])"
    by code_simp
  moreover have rej: "accept_message decode_sample (\<lambda>e. []) sample_registry (JInt 7) = Inl ''invalid''"
    by code_simp
  ultimately have "\<forall>m \<in> set [JInt 7, JObj [(''jti'', JStr ''j1'')]].
      is_ok (accept_message decode_sample (\<lambda>e. []) sample_registry m) \<or> text_tenant m"
    by (simp add: text_tenant_def)
  from consumer_delivers [OF this, of "\<lambda>j. []" "[]" "\<lambda>i. []" "Some (\<lambda>t k e w. (Inl ''down'', w))" "[''identity'']" 0 "()"]
  show ?thesis by (simp add: acc rej)
qed

theorem quarantine_gaps_witness:
  "\<exists>e. consume decode_sample (\<lambda>e. []) (\<lambda>j. []) [] (\<lambda>i. []) sample_registry (Some (\<lambda>t k e w. (Inr () :: (string, unit) result, w)))
     [''identity''] 0 [JObj [(''tenant_id'', JNull)], JObj [(''jti'', JStr ''j1'')]] () = (Inl e, [], ())"
proof -
  have "accept_message decode_sample (\<lambda>e. []) sample_registry (JObj [(''tenant_id'', JNull)]) = Inl ''invalid''"
    by code_simp
  moreover have "\<not> text_tenant (JObj [(''tenant_id'', JNull)])" by code_simp
  ultimately show ?thesis
    using quarantine_gaps [of decode_sample "\<lambda>e. []" sample_registry "JObj [(''tenant_id'', JNull)]" "''invalid''"
        "\<lambda>j. []" "[]" "\<lambda>i. []" "\<lambda>t k e w. (Inr () :: (string, unit) result, w)" "[''identity'']" 0
        "[JObj [(''jti'', JStr ''j1'')]]" "()" None] by blast
qed

end
