(* ===== verification/Holon_Principal_Status.thy ===== *)
theory Holon_Principal_Status
  imports Holon_Authz Holon_Events
begin

text \<open>
  \<open>principal_status.py\<close>: what an Identity event does to the denylists and the denial cache, and
  how the denylists are replaced by Identity's snapshot while events keep arriving. The
  signing keys (\<open>active_jwt\<close>) and Identity's answer are parameters; the events delivered during
  the request are an argument, applied at the await.
\<close>

section \<open>Events\<close>

datatype event_error = MissingPrincipalUrn

definition apply_identity_auth_event ::
  "string \<Rightarrow> (string, string) dict \<Rightarrow> denylists \<times> permission_client option
     \<Rightarrow> (event_error, denylists \<times> permission_client option) result" where
  "apply_identity_auth_event etype pl ctx =
     (case ctx of (dl, pdp) \<Rightarrow>
        if etype = ''identity.principal.status_changed'' then
          (let u = (case dict_get pl ''principal_urn'' of None \<Rightarrow> [] | Some v \<Rightarrow> v) in
           Inr (apply_principal_status_payload pl dl,
             (case pdp of Some c \<Rightarrow> if u \<noteq> [] then Some (snd (invalidate_principal u c)) else Some c | None \<Rightarrow> None)))
        else if etype = ''identity.token.revoked'' then Inr (apply_token_revoked_payload pl dl, pdp)
        else if etype \<in> {''identity.permission.granted'', ''identity.permission.revoked''} then
          (case pdp of
             None \<Rightarrow> Inr (dl, pdp)
           | Some c \<Rightarrow> (case dict_get pl ''principal_urn'' of
                None \<Rightarrow> Inl MissingPrincipalUrn
              | Some u \<Rightarrow> Inr (dl, Some (snd (invalidate_principal u c)))))
        else Inr (dl, pdp))"

text \<open>\<open>consume_identity_auth_events\<close>: an exception is logged and the event is committed all the same.\<close>

definition handle_identity_event ::
  "string \<Rightarrow> (string, string) dict \<Rightarrow> denylists \<times> permission_client option \<Rightarrow> denylists \<times> permission_client option" where
  "handle_identity_event etype pl ctx =
     (case apply_identity_auth_event etype pl ctx of Inl _ \<Rightarrow> ctx | Inr ctx' \<Rightarrow> ctx')"

section \<open>The snapshot\<close>

definition hydrate_principal :: "env \<Rightarrow> string \<Rightarrow> principal option" where
  "hydrate_principal env tid =
     (case env ''HOLON_MINTABLE_PRINCIPAL_URNS'' of
        None \<Rightarrow> None
      | Some raw \<Rightarrow>
          (case filter (\<lambda>p. p \<noteq> []) (map py_strip (split_on (CHR '','') raw)) of
             [] \<Rightarrow> None
           | loc # _ \<Rightarrow> Some
               \<lparr>p_urn = (if startswith loc ''hl:'' then loc else build_urn tid ''global'' ''service-account'' loc None),
                p_type = ''service_account'', p_tenant_id = tid, p_display_name = ''revocation-hydrate'',
                p_on_behalf_of = None, p_country = None, p_jti = None\<rparr>))"

definition hydrate_bearer ::
  "'tok jwt_encoder \<Rightarrow> env \<Rightarrow> (auth_error, string \<times> string \<times> (string, string) dict) result \<Rightarrow> int \<Rightarrow> string \<Rightarrow> string
     \<Rightarrow> (auth_error, 'tok option) result" where
  "hydrate_bearer enc env active now fresh tid =
     (case hydrate_principal env tid of
        None \<Rightarrow> Inr None
      | Some p \<Rightarrow> rbind active (\<lambda>(secret, kid, secrets).
          map_sum id Some (issue_token enc env now fresh p secret 120 (Some kid) (Some secrets) False)))"

datatype hydrate_outcome = Skipped | Hydrated

datatype 'x hydrate_error = BearerError auth_error | RequestError 'x

record snapshot =
  snap_disabled :: "string list"
  snap_jtis :: "string list"

text \<open>
  The \<open>with\<close> block and the replay behind it: \<open>answer\<close> is how the awaited request ends, \<open>during\<close>
  the denylist changes other tasks make meanwhile, in order. The capture is a context manager,
  so it is left on both ways out.
\<close>

definition replace_from_snapshot ::
  "('x, snapshot) result \<Rightarrow> (string \<times> string) list \<Rightarrow> denylists \<Rightarrow> ('x hydrate_error, hydrate_outcome) result \<times> denylists" where
  "replace_from_snapshot answer during st =
     (let st1 = fold replay_event during (capture_enter st);
          captured = last (revocation_captures st1)
      in case answer of
           Inl e \<Rightarrow> (Inl (RequestError e), capture_exit st1)
         | Inr snap \<Rightarrow>
             (Inr Hydrated,
              replay_revocation_events captured
                (capture_exit (replace_revoked_jtis (snap_jtis snap)
                   (replace_disabled_principal_urns (snap_disabled snap) st1)))))"

definition hydrate_revocation_snapshot ::
  "env \<Rightarrow> string option \<Rightarrow> (string \<Rightarrow> (auth_error, 'tok option) result) \<Rightarrow> (string \<Rightarrow> 'tok \<Rightarrow> ('x, snapshot) result)
     \<Rightarrow> (string \<times> string) list \<Rightarrow> denylists \<Rightarrow> ('x hydrate_error, hydrate_outcome) result \<times> denylists" where
  "hydrate_revocation_snapshot env identity_url bearer fetch during st =
     (let given = (case identity_url of Some s \<Rightarrow> s | None \<Rightarrow> []);
          url = rstrip_chars ''/'' (if given \<noteq> [] then given else env_get env ''HOLON_IDENTITY_URL'');
          tid = env_get env ''HOLON_TENANT_ID''
      in if url = [] \<or> tid = [] then (Inr Skipped, st)
         else case bearer tid of
           Inl e \<Rightarrow> (Inl (BearerError e), st)
         | Inr None \<Rightarrow> (Inr Skipped, st)
         | Inr (Some tok) \<Rightarrow> replace_from_snapshot (fetch url tok) during st)"

definition refresh_once ::
  "env \<Rightarrow> string option \<Rightarrow> (string \<Rightarrow> (auth_error, 'tok option) result) \<Rightarrow> (string \<Rightarrow> 'tok \<Rightarrow> ('x, snapshot) result)
     \<Rightarrow> (string \<times> string) list \<Rightarrow> denylists \<Rightarrow> denylists" where
  "refresh_once env identity_url bearer fetch during st =
     snd (hydrate_revocation_snapshot env identity_url bearer fetch during st)"

section \<open>No revocation is lost\<close>

definition known_event :: "string \<times> string \<Rightarrow> bool" where
  "known_event ev = (fst ev \<in> {''jti'', ''disabled'', ''enabled''} \<and> snd ev \<noteq> [])"

fun disabled_after :: "(string \<times> string) list \<Rightarrow> string \<Rightarrow> bool \<Rightarrow> bool" where
  "disabled_after [] u b = b"
| "disabled_after ((k, v) # es) u b =
     disabled_after es u (if v \<noteq> u then b else if k = ''disabled'' then True else if k = ''enabled'' then False else b)"

lemma note_revocation_sets [simp]:
  "disabled_principal_urns (note_revocation k v st) = disabled_principal_urns st"
  "revoked_jtis (note_revocation k v st) = revoked_jtis st"
  by (simp_all add: note_revocation_def)

lemma replay_event_sets:
  assumes "v \<noteq> []"
  shows "disabled_principal_urns (replay_event (k, v) st) =
      (if k = ''disabled'' then insert v (disabled_principal_urns st)
       else if k = ''enabled'' then disabled_principal_urns st - {v} else disabled_principal_urns st)"
    and "revoked_jtis (replay_event (k, v) st) = (if k = ''jti'' then insert v (revoked_jtis st) else revoked_jtis st)"
  using assms
  by (simp_all add: replay_event_def mark_jti_revoked_def mark_principal_disabled_def mark_principal_enabled_def)

lemma replay_disabled:
  "\<forall>ev \<in> set evs. snd ev \<noteq> [] \<Longrightarrow>
   u \<in> disabled_principal_urns (fold replay_event evs st) = disabled_after evs u (u \<in> disabled_principal_urns st)"
proof (induction evs arbitrary: st)
  case (Cons ev evs)
  obtain k v where ev: "ev = (k, v)" by (cases ev)
  with Cons.prems have "u \<in> disabled_principal_urns (replay_event ev st) \<longleftrightarrow>
      (if v \<noteq> u then u \<in> disabled_principal_urns st else if k = ''disabled'' then True
       else if k = ''enabled'' then False else u \<in> disabled_principal_urns st)"
    by (simp add: replay_event_sets)
  with Cons.IH [of "replay_event ev st"] Cons.prems show ?case unfolding ev by simp
qed simp

lemma replay_revoked:
  "\<forall>ev \<in> set evs. snd ev \<noteq> [] \<Longrightarrow>
   j \<in> revoked_jtis (fold replay_event evs st) \<longleftrightarrow> (''jti'', j) \<in> set evs \<or> j \<in> revoked_jtis st"
proof (induction evs arbitrary: st)
  case (Cons ev evs)
  obtain k v where ev: "ev = (k, v)" by (cases ev)
  with Cons.prems have "j \<in> revoked_jtis (replay_event ev st) \<longleftrightarrow> ev = (''jti'', j) \<or> j \<in> revoked_jtis st"
    by (auto simp add: replay_event_sets)
  with Cons.IH [of "replay_event ev st"] Cons.prems show ?case by auto
qed simp

lemma replay_captures:
  assumes "\<forall>ev \<in> set evs. known_event ev" "revocation_captures st = cs @ [c]"
  shows "revocation_captures (fold replay_event evs st) = cs @ [c @ evs]"
  using assms
proof (induction evs arbitrary: st c)
  case (Cons ev evs)
  obtain k v where ev: "ev = (k, v)" by (cases ev)
  have "revocation_captures (replay_event ev st) = cs @ [c @ [ev]]"
    using Cons.prems by (auto simp: ev denylist_defs known_event_def)
  with Cons show ?case by simp
qed simp

lemma replay_captures_Nil: "revocation_captures st = [] \<Longrightarrow> revocation_captures (fold replay_event evs st) = []"
proof (induction evs arbitrary: st)
  case (Cons ev evs)
  have "revocation_captures (replay_event ev st) = []" using Cons.prems by (auto simp: denylist_defs split: prod.splits)
  with Cons show ?case by simp
qed simp

text \<open>
  C20. Replacing the denylists by Identity's snapshot loses no revocation that arrives while the
  snapshot is being fetched: afterwards a token id is revoked if the snapshot or one of those
  events revoked it, and a principal is disabled as the last of those events about it says, or
  as the snapshot says if there is none. If the request fails, the previous denylists and the
  events stand.
\<close>

theorem hydrate_keeps_revocations:
  assumes "hydrate_revocation_snapshot env url bearer fetch during st = (r, st')"
    and "\<forall>ev \<in> set during. known_event ev" and "r \<noteq> Inr Skipped" and "\<And>e. r \<noteq> Inl (BearerError e)"
  shows "\<exists>base jtis.
    (case r of
       Inr _ \<Rightarrow> (\<exists>snap. (\<exists>full tok. fetch full tok = Inr snap) \<and> base = set (snap_disabled snap) - {[]} \<and>
         jtis = set (snap_jtis snap) - {[]})
     | Inl _ \<Rightarrow> base = disabled_principal_urns st \<and> jtis = revoked_jtis st) \<and>
    (\<forall>u. is_principal_disabled u st' = disabled_after during u (u \<in> base)) \<and>
    (\<forall>j. is_jti_revoked j st' \<longleftrightarrow> j \<noteq> [] \<and> (j \<in> jtis \<or> (''jti'', j) \<in> set during)) \<and>
    revocation_captures st' = revocation_captures st"
proof -
  let ?st1 = "fold replay_event during (capture_enter st)"
  have ne: "\<forall>ev \<in> set during. snd ev \<noteq> []" using assms(2) by (simp add: known_event_def)
  have cap: "revocation_captures ?st1 = revocation_captures st @ [during]"
    using replay_captures [OF assms(2), of "capture_enter st" "revocation_captures st" "[]"] by (simp add: capture_enter_def)
  from assms(1,3,4) obtain full tok where run: "replace_from_snapshot (fetch full tok) during st = (r, st')"
    by (auto simp: hydrate_revocation_snapshot_def Let_def split: if_splits sum.splits option.splits)
  show ?thesis
  proof (cases "fetch full tok")
    case (Inl e)
    then have "r = Inl (RequestError e)" "st' = capture_exit ?st1"
      using run by (simp_all add: replace_from_snapshot_def Let_def)
    with ne cap show ?thesis
      by (auto simp: is_principal_disabled_def is_jti_revoked_def capture_exit_def replay_disabled replay_revoked
          capture_enter_def)
  next
    case (Inr snap)
    then have "r = Inr Hydrated" "st' = replay_revocation_events during (capture_exit (replace_revoked_jtis
        (snap_jtis snap) (replace_disabled_principal_urns (snap_disabled snap) ?st1)))"
      using run cap by (simp_all add: replace_from_snapshot_def Let_def)
    with ne cap Inr show ?thesis
      by (intro exI [of _ "set (snap_disabled snap) - {[]}"] exI [of _ "set (snap_jtis snap) - {[]}"] conjI)
         (auto simp: is_principal_disabled_def is_jti_revoked_def capture_exit_def replay_disabled replay_revoked
          replay_revocation_events_def Let_def replace_revoked_jtis_def replace_disabled_principal_urns_def
          replay_captures_Nil)
  qed
qed

definition clean_denylists :: denylists where
  "clean_denylists = \<lparr>disabled_principal_urns = {''hl:acme:global:user:old''}, revoked_jtis = {}, revocation_captures = []\<rparr>"

theorem hydrate_keeps_revocations_witness:
  "is_jti_revoked ''j9'' (snd (hydrate_revocation_snapshot (\<lambda>v. if v = ''HOLON_TENANT_ID'' then Some ''acme'' else None)
     (Some ''http://identity/'') (\<lambda>t. Inr (Some t)) (\<lambda>u t. Inr \<lparr>snap_disabled = [], snap_jtis = [''j1'']\<rparr> :: (string, snapshot) result)
     [(''jti'', ''j9'')] clean_denylists))"
proof -
  let ?env = "\<lambda>v. if v = ''HOLON_TENANT_ID'' then Some ''acme'' else None" and ?during = "[(''jti'', ''j9'')]"
    and ?fetch = "\<lambda>(u :: string) (t :: string). Inr \<lparr>snap_disabled = [], snap_jtis = [''j1'']\<rparr> :: (string, snapshot) result"
  obtain r st' where run: "hydrate_revocation_snapshot ?env (Some ''http://identity/'') (\<lambda>t. Inr (Some t)) ?fetch ?during
      clean_denylists = (r, st')" by (metis prod.exhaust)
  have "fst (hydrate_revocation_snapshot ?env (Some ''http://identity/'') (\<lambda>t. Inr (Some t)) ?fetch ?during
      clean_denylists) = Inr Hydrated"
    by (simp add: hydrate_revocation_snapshot_def env_get_def replace_from_snapshot_def Let_def rstrip_chars_def)
  with run have "r = Inr Hydrated" by simp
  with hydrate_keeps_revocations [OF run] run show ?thesis by (auto simp: known_event_def)
qed

end
