(* ===== verification/Holon_Net.thy ===== *)
theory Holon_Net
  imports Holon_Prelude "HOL-Library.Word"
begin

text \<open>
  What the code uses of the standard library modules \<open>ipaddress\<close> and \<open>urllib.parse\<close>: parsing of
  address literals, the address classes as network memberships on 32- and 128-bit words (the
  tables of CPython 3.12), and \<open>urlsplit\<close> with the host name and port of its result. Text is
  limited to code points below 256, where the NFKC check of the network location never fires.
\<close>

unbundle bit_operations_syntax

section \<open>Addresses\<close>

datatype ip = V4 "32 word" | V6 "128 word" "string option"

definition in_net4 :: "32 word \<Rightarrow> 32 word \<times> nat \<Rightarrow> bool" where
  "in_net4 w net = (drop_bit (32 - snd net) w = drop_bit (32 - snd net) (fst net))"

definition in_net6 :: "128 word \<Rightarrow> 128 word \<times> nat \<Rightarrow> bool" where
  "in_net6 w net = (drop_bit (128 - snd net) w = drop_bit (128 - snd net) (fst net))"

fun ip_is_loopback :: "ip \<Rightarrow> bool" where
  "ip_is_loopback (V4 w) = in_net4 w (0x7F000000, 8)"
| "ip_is_loopback (V6 w s) = (w = 1)"

fun ip_is_link_local :: "ip \<Rightarrow> bool" where
  "ip_is_link_local (V4 w) = in_net4 w (0xA9FE0000, 16)"
| "ip_is_link_local (V6 w s) = in_net6 w (0xFE800000000000000000000000000000, 10)"

fun ip_is_multicast :: "ip \<Rightarrow> bool" where
  "ip_is_multicast (V4 w) = in_net4 w (0xE0000000, 4)"
| "ip_is_multicast (V6 w s) = in_net6 w (0xFF000000000000000000000000000000, 8)"

fun ip_is_unspecified :: "ip \<Rightarrow> bool" where
  "ip_is_unspecified (V4 w) = (w = 0)"
| "ip_is_unspecified (V6 w s) = (w = 0)"

definition private4 :: "(32 word \<times> nat) list" where
  "private4 = [(0, 8), (0x0A000000, 8), (0x7F000000, 8), (0xA9FE0000, 16), (0xAC100000, 12), (0xC0000000, 24),
     (0xC00000AA, 31), (0xC0000200, 24), (0xC0A80000, 16), (0xC6120000, 15), (0xC6336400, 24), (0xCB007100, 24),
     (0xF0000000, 4), (0xFFFFFFFF, 32)]"

definition private4_exceptions :: "(32 word \<times> nat) list" where
  "private4_exceptions = [(0xC0000009, 32), (0xC000000A, 32)]"

definition private6 :: "(128 word \<times> nat) list" where
  "private6 = [(1, 128), (0, 128), (0xFFFF00000000, 96), (0x0064FF9B000100000000000000000000, 48),
     (0x01000000000000000000000000000000, 64), (0x20010000000000000000000000000000, 23),
     (0x20010DB8000000000000000000000000, 32), (0x20020000000000000000000000000000, 16),
     (0x3FFF0000000000000000000000000000, 20), (0xFC000000000000000000000000000000, 7),
     (0xFE800000000000000000000000000000, 10)]"

definition private6_exceptions :: "(128 word \<times> nat) list" where
  "private6_exceptions = [(0x20010001000000000000000000000001, 128), (0x20010001000000000000000000000002, 128),
     (0x20010003000000000000000000000000, 32), (0x20010004011200000000000000000000, 48),
     (0x20010020000000000000000000000000, 28), (0x20010030000000000000000000000000, 28)]"

definition reserved6 :: "(128 word \<times> nat) list" where
  "reserved6 = [(0, 8), (0x01000000000000000000000000000000, 8), (0x02000000000000000000000000000000, 7),
     (0x04000000000000000000000000000000, 6), (0x08000000000000000000000000000000, 5),
     (0x10000000000000000000000000000000, 4), (0x40000000000000000000000000000000, 3),
     (0x60000000000000000000000000000000, 3), (0x80000000000000000000000000000000, 3),
     (0xA0000000000000000000000000000000, 3), (0xC0000000000000000000000000000000, 3),
     (0xE0000000000000000000000000000000, 4), (0xF0000000000000000000000000000000, 5),
     (0xF8000000000000000000000000000000, 6), (0xFE000000000000000000000000000000, 9)]"

fun ip_is_private :: "ip \<Rightarrow> bool" where
  "ip_is_private (V4 w) = (list_ex (in_net4 w) private4 \<and> \<not> list_ex (in_net4 w) private4_exceptions)"
| "ip_is_private (V6 w s) = (list_ex (in_net6 w) private6 \<and> \<not> list_ex (in_net6 w) private6_exceptions)"

fun ip_is_reserved :: "ip \<Rightarrow> bool" where
  "ip_is_reserved (V4 w) = in_net4 w (0xF0000000, 4)"
| "ip_is_reserved (V6 w s) = list_ex (in_net6 w) reserved6"

fun ipv4_mapped :: "ip \<Rightarrow> ip option" where
  "ipv4_mapped (V4 w) = None"
| "ipv4_mapped (V6 w s) = (if drop_bit 32 w = 0xFFFF then Some (V4 (ucast w)) else None)"

subsection \<open>Address literals\<close>

definition parse_octet :: "string \<Rightarrow> nat option" where
  "parse_octet s =
     (if s = [] \<or> \<not> list_all is_digit s \<or> 3 < length s \<or> (s \<noteq> ''0'' \<and> hd s = CHR ''0'') \<or> 255 < nat_of_digits s
      then None else Some (nat_of_digits s))"

definition parse_ipv4 :: "string \<Rightarrow> 32 word option" where
  "parse_ipv4 s =
     (let octets = map parse_octet (split_on (CHR ''.'') s) in
      if length octets = 4 \<and> None \<notin> set octets
      then Some (foldl (\<lambda>acc x. 256 * acc + of_nat (the x)) 0 octets) else None)"

definition hex_val :: "char \<Rightarrow> nat option" where
  "hex_val c = (if is_digit c then Some (digit_val c)
     else if 97 \<le> codept c \<and> codept c \<le> 102 then Some (codept c - 87)
     else if 65 \<le> codept c \<and> codept c \<le> 70 then Some (codept c - 55) else None)"

definition parse_hextet :: "string \<Rightarrow> nat option" where
  "parse_hextet s =
     (if s = [] \<or> 4 < length s \<or> None \<in> set (map hex_val s) then None
      else Some (foldl (\<lambda>acc c. 16 * acc + the (hex_val c)) 0 s))"

text \<open>The parts between colons; a dotted last part stands for two of them, given as numbers.\<close>

definition ipv6_parts :: "string \<Rightarrow> nat option list option" where
  "ipv6_parts s =
     (let parts = split_on (CHR '':'') s in
      if s = [] \<or> length parts < 3 then None
      else if CHR ''.'' \<in> set (last parts) then
        (case parse_ipv4 (last parts) of
           None \<Rightarrow> None
         | Some w \<Rightarrow> Some (map parse_hextet (butlast parts) @ [Some (unat w div 65536), Some (unat w mod 65536)]))
      else Some (map parse_hextet parts))"

definition empty_inner :: "string list \<Rightarrow> nat list" where
  "empty_inner parts = filter (\<lambda>i. parts ! i = []) [1..<length parts - 1]"

definition join_hextets :: "nat option list \<Rightarrow> nat \<Rightarrow> nat option list \<Rightarrow> 128 word option" where
  "join_hextets hi skipped lo =
     (let hs = hi @ replicate skipped (Some 0) @ lo in
      if None \<in> set hs then None else Some (foldl (\<lambda>acc x. 65536 * acc + of_nat (the x)) 0 hs))"

definition parse_ipv6_addr :: "string \<Rightarrow> 128 word option" where
  "parse_ipv6_addr s =
     (case ipv6_parts s of
        None \<Rightarrow> None
      | Some hs \<Rightarrow>
          let raw = split_on (CHR '':'') s;
              parts = (if length hs = length raw then raw else butlast raw @ [''0'', ''0'']);
              n = length parts
          in if 9 < n then None
             else case empty_inner parts of
               [] \<Rightarrow> (if n \<noteq> 8 \<or> hd parts = [] \<or> last parts = [] then None else join_hextets hs 0 [])
             | [skip] \<Rightarrow>
                 (let hi = (if hd parts = [] then skip - 1 else skip);
                      lo = (if last parts = [] then n - skip - 2 else n - skip - 1)
                  in if (hd parts = [] \<and> hi \<noteq> 0) \<or> (last parts = [] \<and> lo \<noteq> 0) \<or> 8 < hi + lo + 1 then None
                     else join_hextets (take hi hs) (8 - (hi + lo)) (drop (n - lo) hs))
             | _ \<Rightarrow> None)"

definition ip_address :: "string \<Rightarrow> ip option" where
  "ip_address s =
     (if CHR ''/'' \<in> set s then None
      else case parse_ipv4 s of
        Some w \<Rightarrow> Some (V4 w)
      | None \<Rightarrow>
          (case partition_on (CHR ''%'') s of (addr, sep, scope) \<Rightarrow>
             if sep \<and> (scope = [] \<or> CHR ''%'' \<in> set scope) then None
             else map_option (\<lambda>w. V6 w (if sep then Some scope else None)) (parse_ipv6_addr addr)))"

section \<open>URLs\<close>

record split_url =
  url_scheme :: string
  url_netloc :: string
  url_path :: string
  url_query :: string
  url_fragment :: string

definition scheme_char :: "char \<Rightarrow> bool" where
  "scheme_char c = (is_alnum c \<or> c \<in> set ''+-.'')"

text \<open>\<open>[vX.text]\<close> is a future address form; any other bracketed host has to be an IPv6 literal.\<close>

definition bracketed_host_ok :: "string \<Rightarrow> bool" where
  "bracketed_host_ok h =
     (if startswith h ''v'' then
        (case partition_on (CHR ''.'') (drop 1 h) of (ver, dot, rest) \<Rightarrow>
           dot \<and> ver \<noteq> [] \<and> list_all (\<lambda>c. hex_val c \<noteq> None) ver \<and> rest \<noteq> [] \<and>
           list_all (\<lambda>c. is_alnum c \<or> c \<in> set (CHR 0x27 # ''._~!$&()*+,;=:-'')) rest)
      else (case ip_address h of Some (V6 w s) \<Rightarrow> True | _ \<Rightarrow> False))"

definition urlsplit :: "string \<Rightarrow> split_url option" where
  "urlsplit raw =
     (let url0 = filter (\<lambda>c. codept c \<notin> {9, 10, 13}) (dropWhile (\<lambda>c. codept c \<le> 32) raw);
          (sch, colon, after) = partition_on (CHR '':'') url0;
          has_scheme = (colon \<and> sch \<noteq> [] \<and> (is_lower (hd sch) \<or> is_upper (hd sch)) \<and> list_all scheme_char sch);
          url1 = (if has_scheme then after else url0);
          authority = startswith url1 ''//'';
          is_delim = (\<lambda>c. c \<in> set ''/?#'');
          netloc = (if authority then takeWhile (\<lambda>c. \<not> is_delim c) (drop 2 url1) else []);
          rest = (if authority then dropWhile (\<lambda>c. \<not> is_delim c) (drop 2 url1) else url1);
          opened = CHR ''['' \<in> set netloc; closed = CHR '']'' \<in> set netloc;
          inner = fst (partition_on (CHR '']'') (snd (snd (partition_on (CHR ''['') netloc))));
          (body, _, fragment) = partition_on (CHR ''#'') rest;
          (path, _, query) = partition_on (CHR ''?'') body
      in if opened \<noteq> closed \<or> (opened \<and> \<not> bracketed_host_ok inner) then None
         else Some \<lparr>url_scheme = (if has_scheme then py_lower sch else []), url_netloc = netloc, url_path = path,
                    url_query = query, url_fragment = fragment\<rparr>)"

definition hostinfo :: "split_url \<Rightarrow> string \<times> string" where
  "hostinfo u =
     (let info = after_last (CHR ''@'') (url_netloc u);
          (_, open_br, bracketed) = partition_on (CHR ''['') info
      in if open_br then
           (let (h, _, p) = partition_on (CHR '']'') bracketed in (h, snd (snd (partition_on (CHR '':'') p))))
         else (let (h, _, p) = partition_on (CHR '':'') info in (h, p)))"

definition url_hostname :: "split_url \<Rightarrow> string option" where
  "url_hostname u =
     (let h = fst (hostinfo u); (name, percent, zone) = partition_on (CHR ''%'') h in
      if h = [] then None else Some (py_lower name @ (if percent then ''%'' else []) @ zone))"

text \<open>\<open>Inl\<close>: \<open>port\<close> raises.\<close>

definition url_port :: "split_url \<Rightarrow> (unit, nat option) result" where
  "url_port u =
     (let p = snd (hostinfo u) in
      if p = [] then Inr None
      else if list_all is_digit p \<and> nat_of_digits p \<le> 65535 then Inr (Some (nat_of_digits p)) else Inl ())"

end
