(* ===== verification/Holon_Connector_Safety.thy ===== *)
theory Holon_Connector_Safety
  imports Holon_Net Holon_Posture Holon_Urn
begin

text \<open>
  \<open>connector_safety.py\<close>, the guards of tenant-configured connectors against server-side request
  forgery, against reading platform or foreign secrets and against foreign bus topics, and the
  resolution of secret references in \<open>secrets.py\<close>. Name resolution is a parameter: a function
  of a world, so two lookups of one name may differ.
\<close>

section \<open>Hosts\<close>

datatype safety_error =
    HostRequired
  | HostNotAllowed string
  | BlockedAddress string
  | Rebinding string
  | Unresolved string
  | BadUrl string
  | PlaintextInProduction
  | TenantRequired
  | NameRequired
  | NoEnvSlug string
  | PlatformSecret
  | EnvOutsideTenant string
  | BadSecretKey string
  | BadVaultRef
  | BadK8sRef
  | BadAwsRef
  | UnsupportedScheme string
  | InlineSecret string
  | DestinationChanged
  | SecretRefRequired
  | TopicRequired
  | TopicReserved string
  | TopicForeign string

definition blocked_host_names :: "string list" where
  "blocked_host_names = [''spicedb'', ''opa'', ''minio'', ''opensearch'', ''qdrant'', ''redpanda'', ''iceberg-rest'',
     ''identity'', ''connectivity'', ''knowledge'', ''experience'', ''automation'', ''intelligence'',
     ''metadata.google.internal'', ''metadata.google.com'', ''instance-data'']"

definition hostname_of :: "string \<Rightarrow> string" where
  "hostname_of host = rstrip_chars ''.'' (py_lower (py_strip host))"

definition allowed_hosts :: "env \<Rightarrow> string set" where
  "allowed_hosts env =
     set (map hostname_of (filter (\<lambda>p. py_strip p \<noteq> []) (split_on (CHR '','') (env_get env ''HOLON_CONNECTOR_ALLOWED_HOSTS''))))"

definition service_url_vars :: "string list" where
  "service_url_vars = [''HOLON_SPICEDB_URL'', ''HOLON_OPA_URL'', ''HOLON_OPENSEARCH_URL'', ''HOLON_QDRANT_URL'',
     ''HOLON_KAFKA_BOOTSTRAP'', ''HOLON_S3_ENDPOINT'', ''HOLON_ICEBERG_CATALOG_URI'', ''HOLON_IDENTITY_URL'',
     ''HOLON_CONNECTIVITY_URL'', ''HOLON_KNOWLEDGE_URL'', ''HOLON_EXPERIENCE_URL'', ''HOLON_AUTOMATION_URL'',
     ''HOLON_INTELLIGENCE_URL'']"

text \<open>A malformed bracket in a deployment's URL makes \<open>urlsplit\<close> raise.\<close>

definition service_host :: "env \<Rightarrow> string \<Rightarrow> (safety_error, string option) result" where
  "service_host env var =
     (let raw = py_strip (env_get env var) in
      if raw = [] then Inr None
      else case urlsplit (if contains raw ''://'' then raw else ''//'' @ raw) of
             None \<Rightarrow> Inl (BadUrl ''Invalid IPv6 URL'')
           | Some u \<Rightarrow> Inr (map_option hostname_of (url_hostname u)))"

fun service_hosts :: "env \<Rightarrow> string list \<Rightarrow> (safety_error, string list) result" where
  "service_hosts env [] = Inr []"
| "service_hosts env (v # vs) =
     rbind (service_host env v) (\<lambda>h. rbind (service_hosts env vs) (\<lambda>hs.
       Inr (case h of None \<Rightarrow> hs | Some x \<Rightarrow> x # hs)))"

definition blocked_hosts :: "env \<Rightarrow> (safety_error, string list) result" where
  "blocked_hosts env = rbind (service_hosts env service_url_vars) (\<lambda>hs. Inr (blocked_host_names @ hs))"

definition unwrap_ip :: "ip \<Rightarrow> ip" where
  "unwrap_ip i = (case ipv4_mapped i of Some m \<Rightarrow> m | None \<Rightarrow> i)"

definition is_blocked_ip :: "bool \<Rightarrow> ip \<Rightarrow> bool" where
  "is_blocked_ip allow_private i0 =
     (let i = unwrap_ip i0 in
      if ip_is_loopback i \<or> ip_is_link_local i \<or> ip_is_multicast i \<or> ip_is_unspecified i then True
      else if \<not> allow_private \<and> (ip_is_private i \<or> ip_is_reserved i) then True
      else False)"

type_synonym 'w dns = "string \<Rightarrow> 'w \<Rightarrow> string list option \<times> 'w"

definition resolve_ips :: "'w dns \<Rightarrow> string \<Rightarrow> 'w \<Rightarrow> (safety_error, ip list) result \<times> 'w" where
  "resolve_ips getaddrinfo host w =
     (case getaddrinfo (hostname_of host) w of
        (None, w') \<Rightarrow> (Inl (Unresolved host), w')
      | (Some addrs, w') \<Rightarrow>
          (let ips = map unwrap_ip (List.map_filter ip_address addrs)
           in (if ips = [] then Inl (Unresolved host) else Inr ips, w')))"

fun resolve_all :: "'w dns \<Rightarrow> string list \<Rightarrow> 'w \<Rightarrow> ip set \<times> 'w" where
  "resolve_all dns [] w = ({}, w)"
| "resolve_all dns (h # hs) w =
     (case resolve_ips dns h w of (r, w1) \<Rightarrow>
        case resolve_all dns hs w1 of (S, w2) \<Rightarrow>
          ((case r of Inl _ \<Rightarrow> S | Inr ips \<Rightarrow> set ips \<union> S), w2))"

text \<open>The argument is what \<open>_blocked_hosts()\<close> returns a second time.\<close>

definition platform_blocked_ips :: "'w dns \<Rightarrow> string list \<Rightarrow> 'w \<Rightarrow> ip set \<times> 'w" where
  "platform_blocked_ips dns blocked w = resolve_all dns blocked w"

definition answers_blocked :: "bool \<Rightarrow> ip set \<Rightarrow> ip list \<Rightarrow> bool" where
  "answers_blocked allow_private platform_ips ips =
     list_ex (\<lambda>i. is_blocked_ip allow_private i \<or> i \<in> platform_ips) ips"

definition host_name_ok :: "env \<Rightarrow> string \<Rightarrow> (safety_error, string \<times> string list) result" where
  "host_name_ok env host =
     (let name = hostname_of host in
      if name = [] then Inl HostRequired
      else rbind (blocked_hosts env) (\<lambda>blocked.
        if name \<in> set blocked \<or> endswith name ''.internal'' then Inl (HostNotAllowed host)
        else Inr (name, blocked)))"

definition assert_connector_host ::
  "'w dns \<Rightarrow> env \<Rightarrow> string \<Rightarrow> bool \<Rightarrow> 'w \<Rightarrow> (safety_error, unit) result \<times> 'w" where
  "assert_connector_host dns env host resolve w =
     (case host_name_ok env host of
        Inl e \<Rightarrow> (Inl e, w)
      | Inr (name, blocked) \<Rightarrow>
          let allow_private = (name \<in> allowed_hosts env);
              (platform_ips, w1) = (if resolve then platform_blocked_ips dns blocked w else ({}, w))
          in case ip_address (strip_chars ''[]'' name) of
               Some literal \<Rightarrow>
                 (raise_if (answers_blocked allow_private platform_ips [unwrap_ip literal]) (BlockedAddress host), w1)
             | None \<Rightarrow>
                 if \<not> resolve then (Inr (), w1)
                 else case resolve_ips dns name w1 of
                   (Inl e, w2) \<Rightarrow> (Inl e, w2)
                 | (Inr ips, w2) \<Rightarrow>
                     (raise_if (answers_blocked allow_private platform_ips ips) (BlockedAddress host), w2))"

definition pin_connector_host :: "'w dns \<Rightarrow> env \<Rightarrow> string \<Rightarrow> 'w \<Rightarrow> (safety_error, ip) result \<times> 'w" where
  "pin_connector_host dns env host w =
     (case host_name_ok env host of
        Inl e \<Rightarrow> (Inl e, w)
      | Inr (name, blocked) \<Rightarrow>
          let allow_private = (name \<in> allowed_hosts env);
              (platform_ips, w1) = platform_blocked_ips dns blocked w
          in case map_option unwrap_ip (ip_address (strip_chars ''[]'' name)) of
               Some literal \<Rightarrow>
                 (if answers_blocked allow_private platform_ips [literal] then Inl (BlockedAddress host) else Inr literal, w1)
             | None \<Rightarrow>
                 case resolve_ips dns name w1 of
                   (Inl e, w2) \<Rightarrow> (Inl e, w2)
                 | (Inr first, w2) \<Rightarrow>
                     if answers_blocked allow_private platform_ips first then (Inl (BlockedAddress host), w2)
                     else case resolve_ips dns name w2 of
                       (Inl e, w3) \<Rightarrow> (Inl e, w3)
                     | (Inr second, w3) \<Rightarrow>
                         (if answers_blocked allow_private platform_ips second then Inl (Rebinding host)
                          else Inr (hd first), w3))"

definition assert_http_url :: "'w dns \<Rightarrow> env \<Rightarrow> string \<Rightarrow> bool \<Rightarrow> 'w \<Rightarrow> (safety_error, unit) result \<times> 'w" where
  "assert_http_url dns env url resolve w =
     (case urlsplit url of
        None \<Rightarrow> (Inl (BadUrl ''Invalid IPv6 URL''), w)
      | Some u \<Rightarrow>
          if url_scheme u \<notin> {''http'', ''https''} then (Inl (BadUrl ''URL must be http or https''), w)
          else case url_hostname u of
                 None \<Rightarrow> (Inl (BadUrl ''URL missing host''), w)
               | Some h \<Rightarrow> assert_connector_host dns env h resolve w)"

text \<open>\<open>same_origin\<close>; \<open>None\<close> if a URL is malformed or a port out of range, where Python raises.\<close>

definition url_origin :: "string \<Rightarrow> (string \<times> string \<times> nat option) option" where
  "url_origin url =
     (case urlsplit url of
        None \<Rightarrow> None
      | Some u \<Rightarrow> (case url_port u of Inl _ \<Rightarrow> None
          | Inr p \<Rightarrow> Some (url_scheme u, hostname_of (case url_hostname u of None \<Rightarrow> [] | Some h \<Rightarrow> h), p)))"

definition same_origin :: "string \<Rightarrow> string \<Rightarrow> bool option" where
  "same_origin left right =
     (case (url_origin left, url_origin right) of (Some a, Some b) \<Rightarrow> Some (a = b) | _ \<Rightarrow> None)"

section \<open>A pinned address is not a blocked one\<close>

lemma unwrap_not_mapped: "ipv4_mapped (unwrap_ip i) = None"
  by (cases i) (auto simp: unwrap_ip_def)

lemma unwrap_unwrap [simp]: "unwrap_ip (unwrap_ip i) = unwrap_ip i"
  by (simp add: unwrap_ip_def [of "unwrap_ip i"] unwrap_not_mapped)

lemma resolve_ips_unwrapped:
  "resolve_ips dns h w = (Inr ips, w') \<Longrightarrow> ips \<noteq> [] \<and> (\<forall>i \<in> set ips. unwrap_ip i = i)"
  by (auto simp: resolve_ips_def Let_def split: prod.splits option.splits if_splits)

lemma answers_blockedD:
  "\<not> answers_blocked ap pl ips \<Longrightarrow> i \<in> set ips \<Longrightarrow> \<not> is_blocked_ip ap i \<and> i \<notin> pl"
  by (auto simp: answers_blocked_def list_ex_iff)

text \<open>
  C33. The address a connector is pinned to is public: never loopback, link-local, multicast or
  unspecified, private or reserved only for a host name the deployment lists, never an address
  one of the platform's own host names resolves to, and an IPv4 address never hides in an IPv6
  one. The host name itself is not a platform service and not under \<open>.internal\<close>. This holds
  whatever the resolver answers, also if it changes its answer between the lookups.
\<close>

theorem pinned_address_public:
  assumes "pin_connector_host dns env host w = (Inr i, w')"
  shows "\<exists>blocked. blocked_hosts env = Inr blocked \<and>
    hostname_of host \<notin> set blocked \<and> \<not> endswith (hostname_of host) ''.internal'' \<and>
    \<not> ip_is_loopback i \<and> \<not> ip_is_link_local i \<and> \<not> ip_is_multicast i \<and> \<not> ip_is_unspecified i \<and>
    (hostname_of host \<in> allowed_hosts env \<or> \<not> ip_is_private i \<and> \<not> ip_is_reserved i) \<and>
    i \<notin> fst (platform_blocked_ips dns blocked w) \<and> ipv4_mapped i = None"
proof -
  let ?name = "hostname_of host" and ?ap = "hostname_of host \<in> allowed_hosts env"
  from assms obtain blocked where name: "host_name_ok env host = Inr (?name, blocked)" "blocked_hosts env = Inr blocked"
      "?name \<notin> set blocked" "\<not> endswith ?name ''.internal''"
    by (cases "blocked_hosts env") (auto simp: pin_connector_host_def host_name_ok_def Let_def split: if_splits)
  obtain pl w1 where pl: "platform_blocked_ips dns blocked w = (pl, w1)" by (metis prod.exhaust)
  have "\<exists>ips. \<not> answers_blocked ?ap pl ips \<and> i \<in> set ips \<and> unwrap_ip i = i"
  proof (cases "ip_address (strip_chars ''[]'' ?name)")
    case (Some literal)
    with assms name pl have "\<not> answers_blocked ?ap pl [unwrap_ip literal]" "i = unwrap_ip literal"
      by (auto simp: pin_connector_host_def split: if_splits)
    then show ?thesis by (intro exI [of _ "[i]"]) simp
  next
    case None
    obtain r w2 where r: "resolve_ips dns ?name w1 = (r, w2)" by (metis prod.exhaust)
    obtain r' w3 where r': "resolve_ips dns ?name w2 = (r', w3)" by (metis prod.exhaust)
    from assms name pl None r r' obtain first where f: "r = Inr first" "\<not> answers_blocked ?ap pl first" "i = hd first"
      by (cases r; cases r') (auto simp: pin_connector_host_def Let_def split: if_splits)
    from resolve_ips_unwrapped [of dns ?name w1 first w2] r f show ?thesis by (intro exI [of _ first]) auto
  qed
  then have i: "\<not> is_blocked_ip ?ap i" "i \<notin> pl" "unwrap_ip i = i" using answers_blockedD by blast+
  then have "ipv4_mapped i = None" by (metis unwrap_not_mapped)
  with i name pl show ?thesis
    by (intro exI [of _ blocked]) (auto simp: is_blocked_ip_def Let_def split: if_splits)
qed

definition public_dns :: "unit dns" where
  "public_dns name w = (if name = ''api.example.com'' then Some [''93.184.216.34''] else None, w)"

theorem pinned_address_public_witness:
  "\<not> ip_is_private (V4 0x5DB8D822) \<and> \<not> ip_is_loopback (V4 0x5DB8D822)"
proof -
  have "pin_connector_host public_dns (\<lambda>_. None) ''API.example.com.'' () = (Inr (V4 0x5DB8D822), ())"
    by code_simp
  from pinned_address_public [OF this] show ?thesis by (auto simp: allowed_hosts_def env_get_def py_strip_def)
qed

end
