(* ===== verification/Holon_Secrets.thy ===== *)
theory Holon_Secrets
  imports Holon_Connector_Safety
begin

text \<open>
  Secret references: the guards of \<open>connector_safety.py\<close> on references a tenant may use, and the
  place the providers of \<open>secrets.py\<close> read for a reference. The main result compares the two: in
  production no reference accepted for one tenant reads the place of another, with one
  exception that is proved too.
\<close>

section \<open>Guards\<close>

text \<open>\<open>re.match\<close> with a final \<open>$\<close>, which also matches before one trailing newline.\<close>

definition re_dollar :: "(string \<Rightarrow> bool) \<Rightarrow> string \<Rightarrow> bool" where
  "re_dollar P s = (P s \<or> (s \<noteq> [] \<and> last s = newline \<and> P (butlast s)))"

definition upper_alnum :: "char \<Rightarrow> bool" where
  "upper_alnum c = (is_upper c \<or> is_digit c)"

definition slug_segments :: "string \<Rightarrow> bool" where
  "slug_segments s = list_all (\<lambda>q. q \<noteq> [] \<and> list_all upper_alnum q) (split_on (CHR ''_'') s)"

definition tenant_env_slug :: "string \<Rightarrow> (safety_error, string) result" where
  "tenant_env_slug t =
     (let slug = replace_char (CHR ''-'') ''_'' (py_upper (py_strip t))
      in if re_dollar slug_segments slug then Inr slug else Inl (NoEnvSlug t))"

text \<open>The text before and after the first double underscore.\<close>

fun split_dunder :: "string \<Rightarrow> (string \<times> string) option" where
  "split_dunder (a # b # s) =
     (if a = CHR ''_'' \<and> b = CHR ''_'' then Some ([], s)
      else map_option (\<lambda>(x, y). (a # x, y)) (split_dunder (b # s)))"
| "split_dunder s = None"

text \<open>\<open>_TENANT_ENV_NAME_RE.match(u).group(1)\<close>: the first group cannot hold a double underscore.\<close>

definition env_name_group :: "string \<Rightarrow> string option" where
  "env_name_group u =
     (if startswith u ''HOLON_CONN_'' then
        (case split_dunder (drop 11 u) of
           None \<Rightarrow> None
         | Some (seg, key) \<Rightarrow>
             if slug_segments seg \<and>
                re_dollar (\<lambda>k. k \<noteq> [] \<and> upper_alnum (hd k) \<and> list_all (\<lambda>c. upper_alnum c \<or> c = CHR ''_'') k) key
             then Some seg else None)
      else None)"

definition blocked_env_prefixes :: "string list" where
  "blocked_env_prefixes = [''HOLON_JWT'', ''HOLON_SPICEDB'', ''HOLON_BOOTSTRAP'', ''HOLON_SCIM'', ''HOLON_OIDC'',
     ''HOLON_SAML'', ''HOLON_METRICS'', ''HOLON_DB'', ''HOLON_SOURCE'', ''HOLON_MONGO'', ''HOLON_S3'', ''HOLON_ICEBERG'',
     ''HOLON_KAFKA'', ''HOLON_OPENSEARCH'', ''HOLON_QDRANT'', ''HOLON_IDENTITY'', ''HOLON_CONNECTIVITY'',
     ''HOLON_KNOWLEDGE'', ''HOLON_EXPERIENCE'', ''HOLON_AUTOMATION'', ''HOLON_INTELLIGENCE'', ''POSTGRES'', ''DATABASE'',
     ''MONGO'', ''MYSQL'', ''REDIS'', ''AWS_SECRET'', ''AWS_ACCESS'', ''MINIO'', ''OPENSEARCH'', ''ANTHROPIC'', ''VOYAGE'',
     ''VAULT_'', ''K8S_'']"

definition assert_not_platform_secret_name :: "string \<Rightarrow> (safety_error, unit) result" where
  "assert_not_platform_secret_name name =
     (let upper = py_upper name in
      raise_if (list_ex (\<lambda>p. upper = rstrip_chars ''_'' p \<or> startswith upper p) blocked_env_prefixes) PlatformSecret)"

definition assert_env_secret_name :: "env \<Rightarrow> string \<Rightarrow> string \<Rightarrow> (safety_error, unit) result" where
  "assert_env_secret_name env name t =
     (let upper = py_upper (py_strip name) in
      if py_strip t = [] then Inl TenantRequired
      else if upper = [] then Inl NameRequired
      else rbind (tenant_env_slug t) (\<lambda>slug.
        if env_name_group upper = Some slug then Inr ()
        else if is_production env then Inl (EnvOutsideTenant name)
        else rbind (assert_not_platform_secret_name name) (\<lambda>_.
          raise_if (startswith upper ''HOLON_'') (EnvOutsideTenant name))))"

definition secret_key_chars :: "string \<Rightarrow> bool" where
  "secret_key_chars k = (k \<noteq> [] \<and> list_all (\<lambda>c. is_alnum c \<or> c \<in> set ''._-'') k)"

definition assert_secret_key :: "string \<Rightarrow> (safety_error, unit) result" where
  "assert_secret_key key =
     (if key = [] \<or> \<not> re_dollar secret_key_chars key \<or> key \<in> {''.'', ''..''} then Inl (BadSecretKey key)
      else assert_not_platform_secret_name key)"

definition bad_segment :: "string \<Rightarrow> bool" where
  "bad_segment seg = (seg \<in> {[], ''.'', ''..''})"

definition assert_vault_ref :: "string \<Rightarrow> string \<Rightarrow> (safety_error, unit) result" where
  "assert_vault_ref body t =
     (case partition_on (CHR ''#'') body of (path, sep, key) \<Rightarrow>
        if \<not> sep then Inl BadVaultRef
        else if \<not> startswith path (''connectors/'' @ t @ ''/'') \<or> list_ex bad_segment (split_on (CHR ''/'') path)
        then Inl BadVaultRef
        else assert_secret_key key)"

definition k8s_namespace :: "string \<Rightarrow> bool" where
  "k8s_namespace ns =
     (let ld = (\<lambda>c. is_lower c \<or> is_digit c) in
      ns \<noteq> [] \<and> length ns \<le> 63 \<and> ld (hd ns) \<and> ld (last ns) \<and> list_all (\<lambda>c. ld c \<or> c = CHR ''-'') ns)"

definition assert_k8s_ref :: "string \<Rightarrow> string \<Rightarrow> (safety_error, unit) result" where
  "assert_k8s_ref body t =
     (let expected = ''holon-connector-'' @ t in
      case split_on (CHR ''/'') body of
        [namespace, name, key] \<Rightarrow>
          if \<not> re_dollar k8s_namespace namespace then Inl BadK8sRef
          else if name \<noteq> expected \<and> \<not> (startswith name (expected @ ''.'') \<and> re_dollar secret_key_chars name)
          then Inl BadK8sRef
          else assert_secret_key key
      | _ \<Rightarrow> Inl BadK8sRef)"

definition assert_aws_ref :: "string \<Rightarrow> string \<Rightarrow> (safety_error, unit) result" where
  "assert_aws_ref body t =
     (case partition_on (CHR ''|'') body of (secret_id, sep, json_key) \<Rightarrow>
        if startswith secret_id ''arn:'' then Inl BadAwsRef
        else if \<not> (secret_id = ''holon-connector-'' @ t \<or> startswith secret_id (''connectors/'' @ t @ ''/'')) \<or>
          list_ex bad_segment (split_on (CHR ''/'') secret_id) then Inl BadAwsRef
        else if sep then assert_secret_key json_key else Inr ())"

text \<open>\<open>ref.split(":", 1)\<close> after the default scheme has been put in front.\<close>

definition scheme_of :: "string \<Rightarrow> string \<times> string" where
  "scheme_of ref =
     (case partition_on (CHR '':'') ref of (sch, sep, rest) \<Rightarrow> if sep then (sch, rest) else (''env'', ref))"

definition assert_connector_secret_ref :: "env \<Rightarrow> string option \<Rightarrow> string \<Rightarrow> (safety_error, unit) result" where
  "assert_connector_secret_ref env ref t =
     (case ref of
        None \<Rightarrow> Inr ()
      | Some r \<Rightarrow>
          if r = [] then Inr ()
          else case scheme_of r of (sch, rest) \<Rightarrow>
            if sch = ''env'' then assert_env_secret_name env (removeprefix rest ''env:'') t
            else if sch \<in> {''vault'', ''k8s'', ''aws''} then
              (if t = [] then Inl TenantRequired
               else if sch = ''vault'' then assert_vault_ref rest t
               else if sch = ''k8s'' then assert_k8s_ref rest t
               else assert_aws_ref rest t)
            else Inl (UnsupportedScheme sch))"

section \<open>Where the providers look\<close>

text \<open>
  The part of a reference that names the place: environment variable, Vault URL path, Secret
  name (its file is mounted under that name alone), AWS secret id. \<open>None\<close>: the form is refused,
  or the scheme is left to the configured default provider.
\<close>

datatype secret_place = EnvVar string | VaultPath string | K8sSecret string | AwsSecret string

definition vault_url :: "string \<Rightarrow> string" where
  "vault_url path =
     (if contains path ''/data/'' then ''/v1/'' @ path
      else (case partition_on (CHR ''/'') path of (mount, _, rest) \<Rightarrow> ''/v1/'' @ mount @ ''/data/'' @ rest))"

definition secret_place :: "string \<Rightarrow> secret_place option" where
  "secret_place ref =
     (case scheme_of ref of (sch, rest) \<Rightarrow>
        if sch = ''env'' then Some (EnvVar rest)
        else if sch = ''k8s'' then
          (case split_on (CHR ''/'') rest of [namespace, name, key] \<Rightarrow> Some (K8sSecret name) | _ \<Rightarrow> None)
        else if sch = ''vault'' then
          (case partition_on (CHR ''#'') rest of (path, sep, key) \<Rightarrow> if sep then Some (VaultPath (vault_url path)) else None)
        else if sch = ''aws'' then Some (AwsSecret (fst (partition_on (CHR ''|'') rest)))
        else None)"

definition resolve_connector_secret ::
  "(string \<Rightarrow> ('x, string) result) \<Rightarrow> env \<Rightarrow> string option \<Rightarrow> string \<Rightarrow> (safety_error + 'x, string option) result" where
  "resolve_connector_secret get_secret env ref t =
     (case ref of
        None \<Rightarrow> Inr None
      | Some r \<Rightarrow>
          if r = [] then Inr None
          else rbind (map_sum Inl id (assert_connector_secret_ref env ref t)) (\<lambda>_. map_sum Inr Some (get_secret r)))"

section \<open>Other connector guards\<close>

definition blank :: "string option \<Rightarrow> bool" where
  "blank v = (case v of None \<Rightarrow> True | Some s \<Rightarrow> py_strip s = [])"

definition connector_secret ::
  "env \<Rightarrow> string option \<Rightarrow> string option \<Rightarrow> string option \<Rightarrow> (safety_error, string option) result" where
  "connector_secret env secret_ref plaintext resolved =
     (if \<not> blank secret_ref then Inr resolved
      else rbind (raise_if (\<not> blank plaintext \<and> is_production env) PlaintextInProduction) (\<lambda>_. Inr plaintext))"

definition assert_no_inline_connector_secret :: "env \<Rightarrow> string option \<Rightarrow> string \<Rightarrow> (safety_error, unit) result" where
  "assert_no_inline_connector_secret env v field = raise_if (\<not> blank v \<and> is_production env) (InlineSecret field)"

definition assert_destination_change_requires_secret :: "bool \<Rightarrow> bool \<Rightarrow> bool \<Rightarrow> (safety_error, unit) result" where
  "assert_destination_change_requires_secret is_update destination_changed secret_provided =
     raise_if (is_update \<and> destination_changed \<and> \<not> secret_provided) DestinationChanged"

definition assert_production_requires_secret_ref :: "env \<Rightarrow> string option \<Rightarrow> bool \<Rightarrow> (safety_error, unit) result" where
  "assert_production_requires_secret_ref env ref is_update =
     raise_if (\<not> is_update \<and> blank ref \<and> is_production env) SecretRefRequired"

definition assert_kafka_topic :: "env \<Rightarrow> string \<Rightarrow> string \<Rightarrow> (safety_error, unit) result" where
  "assert_kafka_topic env topic tenant_id =
     (let t = py_strip tenant_id; name = py_strip topic; configured = py_strip (env_get env ''HOLON_KAFKA_TOPIC'');
          prefix = t @ ''.'' in
      if name = [] then Inl TopicRequired
      else if t = [] then Inl TenantRequired
      else if name \<in> {''holon.events'', ''__consumer_offsets''} \<or> startswith name ''holon.'' then Inl (TopicReserved topic)
      else if configured \<noteq> [] \<and> name = configured then Inl (TopicReserved topic)
      else raise_if (\<not> startswith name prefix \<or> name = prefix) (TopicForeign topic))"

section \<open>Tenants cannot reach each other's secrets\<close>

lemma sep_inject:
  assumes "c \<notin> set a" "c \<notin> set b" "a @ c # x = b @ c # y"
  shows "a = b \<and> x = y"
  using assms
proof (induction a arbitrary: b)
  case Nil
  then show ?case by (cases b) auto
next
  case (Cons z a)
  then show ?case by (cases b) auto
qed

lemma slug_chars: "is_slug t \<Longrightarrow> c \<in> set t \<Longrightarrow> is_lower c \<or> is_digit c \<or> c = CHR ''-''"
  by (cases t) (auto simp: is_slug_def slug_char_def list_all_iff)

lemma slug_absent: "is_slug t \<Longrightarrow> c \<in> {CHR ''/'', CHR ''.'', CHR ''#'', CHR ''|'', CHR '':''} \<Longrightarrow> c \<notin> set t"
proof
  assume "is_slug t" "c \<in> {CHR ''/'', CHR ''.'', CHR ''#'', CHR ''|'', CHR '':''}" "c \<in> set t"
  then have "is_lower c \<or> is_digit c \<or> c = CHR ''-''" "c \<in> {CHR ''/'', CHR ''.'', CHR ''#'', CHR ''|'', CHR '':''}"
    by (simp_all add: slug_chars)
  then show False by (auto simp: char_class)
qed

definition env_char :: "char \<Rightarrow> char" where
  "env_char c = (if c = CHR ''-'' then CHR ''_'' else if is_lower c then char_of (codept c - 32) else c)"

lemma lower_code: "is_lower c \<Longrightarrow> codept (char_of (codept c - 32)) = codept c - 32"
proof -
  assume "is_lower c"
  then have "of_char c - 32 < (256 :: nat)" by (auto simp: char_class)
  then show ?thesis by (simp add: codept_def)
qed

lemma codept_inject: "codept a = codept b \<longleftrightarrow> a = b"
  by (simp add: codept_def)

lemma env_char_inject:
  assumes "is_lower a \<or> is_digit a \<or> a = CHR ''-''" "is_lower b \<or> is_digit b \<or> b = CHR ''-''" "env_char a = env_char b"
  shows "a = b"
proof -
  have code: "codept (env_char c) = (if c = CHR ''-'' then 95 else if is_lower c then codept c - 32 else codept c)" for c
    by (simp add: env_char_def lower_code) (simp add: codept_def)
  have low: "97 \<le> codept c \<and> codept c \<le> 122" if "is_lower c" for c using that by (simp add: is_lower_def)
  have dig: "48 \<le> codept c \<and> codept c \<le> 57" if "is_digit c" for c using that by (simp add: is_digit_def)
  have "codept (env_char a) = codept (env_char b)" using assms(3) by simp
  with assms(1,2) low [of a] low [of b] dig [of a] dig [of b] have "codept a = codept b"
    unfolding code by (auto split: if_splits)
  then show ?thesis by (simp add: codept_inject)
qed

lemma upper_slug_char: "is_lower c \<or> is_digit c \<or> c = CHR ''-'' \<Longrightarrow>
  replace_char (CHR ''-'') ''_'' (upper_char c) = [env_char c]"
proof -
  assume c: "is_lower c \<or> is_digit c \<or> c = CHR ''-''"
  have "char_of (codept c - 32) \<noteq> CHR ''-''" if "is_lower c"
  proof
    assume "char_of (codept c - 32) = CHR ''-''"
    then have "codept c - 32 = codept (CHR ''-'')" using lower_code [OF that] by simp
    with that show False by (auto simp: char_class)
  qed
  moreover have "\<not> is_lower (CHR ''-'')" by (simp add: char_class)
  ultimately show ?thesis using c by (auto simp: upper_char_def env_char_def is_digit_def codept_def)
qed

lemma upper_slug:
  "\<forall>c \<in> set t. is_lower c \<or> is_digit c \<or> c = CHR ''-'' \<Longrightarrow> replace_char (CHR ''-'') ''_'' (py_upper t) = map env_char t"
  by (induction t) (simp_all add: py_upper_def upper_slug_char)

lemma slug_strip: "is_slug t \<Longrightarrow> py_strip t = t"
proof (rule py_strip_id)
  assume t: "is_slug t"
  then show "t \<noteq> []" by (simp add: is_slug_def)
  then have "hd t \<in> set t" "last t \<in> set t" by simp_all
  then show "\<not> is_space (hd t)" "\<not> is_space (last t)"
    using slug_chars [OF t] by (auto simp: char_class dest!: slug_chars [OF t])
qed

lemma tenant_env_slug_slug: "is_slug t \<Longrightarrow> tenant_env_slug t = Inr s \<Longrightarrow> s = map env_char t"
  using upper_slug [of t] slug_chars [of t] by (auto simp: tenant_env_slug_def slug_strip Let_def split: if_splits)

lemma tenant_env_slug_inject:
  assumes "is_slug t1" "is_slug t2" "tenant_env_slug t1 = Inr s" "tenant_env_slug t2 = Inr s"
  shows "t1 = t2"
proof -
  have "map env_char t1 = map env_char t2"
    using assms tenant_env_slug_slug by metis
  moreover have "inj_on env_char (set t1 \<union> set t2)"
    using slug_chars [OF assms(1)] slug_chars [OF assms(2)] env_char_inject by (intro inj_onI) (metis UnE)
  ultimately show ?thesis by (rule map_inj_on)
qed

lemma vault_place_tenant:
  assumes "assert_vault_ref rest t = Inr ()" "is_slug t"
  obtains r path key where "partition_on (CHR ''#'') rest = (path, True, key)" "path = ''connectors/'' @ t @ ''/'' @ r"
    "vault_url path = ''/v1/connectors/'' @ t @ ''/'' @ r \<or> vault_url path = ''/v1/connectors/data/'' @ t @ ''/'' @ r"
proof -
  from assms(1) obtain path key where p: "partition_on (CHR ''#'') rest = (path, True, key)"
    "startswith path (''connectors/'' @ t @ ''/'')"
    by (auto simp: assert_vault_ref_def split: prod.splits if_splits)
  then obtain r where r: "path = ''connectors/'' @ t @ ''/'' @ r" by (auto simp: startswith_iff)
  have "partition_on (CHR ''/'') path = (''connectors'', True, t @ ''/'' @ r)"
    using partition_on_found [of "CHR ''/''" "''connectors''" "t @ ''/'' @ r"] by (simp add: r)
  then have "vault_url path = ''/v1/connectors/'' @ t @ ''/'' @ r \<or> vault_url path = ''/v1/connectors/data/'' @ t @ ''/'' @ r"
    by (simp add: vault_url_def) (simp add: r)
  with that p(1) r show thesis by blast
qed

lemma k8s_place_tenant:
  assumes "assert_k8s_ref rest t = Inr ()"
  obtains ns name key where "split_on (CHR ''/'') rest = [ns, name, key]"
    "name = ''holon-connector-'' @ t \<or> (\<exists>r. name = ''holon-connector-'' @ t @ ''.'' @ r)"
  using assms
  by (auto simp: assert_k8s_ref_def Let_def startswith_iff split: list.splits if_splits)

lemma aws_place_tenant:
  assumes "assert_aws_ref rest t = Inr ()" "fst (partition_on (CHR ''|'') rest) = i"
  shows "i = ''holon-connector-'' @ t \<or> (\<exists>r. i = ''connectors/'' @ t @ ''/'' @ r)"
  using assms by (auto simp: assert_aws_ref_def startswith_iff split: prod.splits if_splits)

lemma vault_isolated:
  assumes "is_slug t1" "is_slug t2" "t1 \<noteq> ''data''" "t2 \<noteq> ''data''"
    and "u = ''/v1/connectors/'' @ t1 @ ''/'' @ r1 \<or> u = ''/v1/connectors/data/'' @ t1 @ ''/'' @ r1"
    and "u = ''/v1/connectors/'' @ t2 @ ''/'' @ r2 \<or> u = ''/v1/connectors/data/'' @ t2 @ ''/'' @ r2"
  shows "t1 = t2"
proof -
  have ns: "CHR ''/'' \<notin> set t1" "CHR ''/'' \<notin> set t2" using slug_absent assms(1,2) by auto
  have cut: "a = b" if "a @ CHR ''/'' # x = b @ CHR ''/'' # y" "CHR ''/'' \<notin> set a" "CHR ''/'' \<notin> set b" for a b x y
    using sep_inject that by metis
  from assms(5,6) show ?thesis
    using cut [of t1 r1 t2 r2] cut [of t1 r1 "''data''" "t2 @ ''/'' @ r2"] cut [of "''data''" "t1 @ ''/'' @ r1" t2 r2]
      ns assms(3,4) by auto
qed

lemma takeWhile_until: "c \<notin> set t \<Longrightarrow> takeWhile (\<lambda>x. x \<noteq> c) (t @ c # r) = t"
  by (induction t) auto

lemma k8s_isolated:
  assumes "is_slug t1" "is_slug t2"
    and "name = ''holon-connector-'' @ t1 \<or> (\<exists>r. name = ''holon-connector-'' @ t1 @ ''.'' @ r)"
    and "name = ''holon-connector-'' @ t2 \<or> (\<exists>r. name = ''holon-connector-'' @ t2 @ ''.'' @ r)"
  shows "t1 = t2"
proof -
  have ns: "CHR ''.'' \<notin> set t1" "CHR ''.'' \<notin> set t2" using slug_absent assms(1,2) by auto
  have "takeWhile (\<lambda>c. c \<noteq> CHR ''.'') (drop 16 name) = t" if
    "name = ''holon-connector-'' @ t \<or> (\<exists>r. name = ''holon-connector-'' @ t @ ''.'' @ r)" "CHR ''.'' \<notin> set t" for t
    using that by (auto simp: takeWhile_until takeWhile_eq_all_conv)
  with assms(3,4) ns show ?thesis by metis
qed

lemma aws_isolated:
  assumes "is_slug t1" "is_slug t2"
    and "i = ''holon-connector-'' @ t1 \<or> (\<exists>r. i = ''connectors/'' @ t1 @ ''/'' @ r)"
    and "i = ''holon-connector-'' @ t2 \<or> (\<exists>r. i = ''connectors/'' @ t2 @ ''/'' @ r)"
  shows "t1 = t2"
proof -
  have ns: "CHR ''/'' \<notin> set t1" "CHR ''/'' \<notin> set t2" using slug_absent assms(1,2) by auto
  from assms(3,4) show ?thesis
    using ns by (auto dest: sep_inject)
qed

lemma env_place_slug:
  assumes "assert_env_secret_name env name t = Inr ()" "is_production env"
  shows "\<exists>slug. tenant_env_slug t = Inr slug \<and> env_name_group (py_upper (py_strip name)) = Some slug"
  using assms by (auto simp: assert_env_secret_name_def res_simps Let_def split: if_splits)

text \<open>The places that belong to a tenant.\<close>

fun owned_by :: "string \<Rightarrow> secret_place \<Rightarrow> bool" where
  "owned_by t (EnvVar n) = (\<exists>slug. tenant_env_slug t = Inr slug \<and>
     env_name_group (py_upper (py_strip (removeprefix n ''env:''))) = Some slug)"
| "owned_by t (VaultPath u) = (\<exists>r. u = ''/v1/connectors/'' @ t @ ''/'' @ r \<or> u = ''/v1/connectors/data/'' @ t @ ''/'' @ r)"
| "owned_by t (K8sSecret name) = (name = ''holon-connector-'' @ t \<or> (\<exists>r. name = ''holon-connector-'' @ t @ ''.'' @ r))"
| "owned_by t (AwsSecret i) = (i = ''holon-connector-'' @ t \<or> (\<exists>r. i = ''connectors/'' @ t @ ''/'' @ r))"

lemma accepted_owned:
  assumes "assert_connector_secret_ref env (Some ref) t = Inr ()" "secret_place ref = Some p" "ref \<noteq> []"
    "is_production env" "is_slug t"
  shows "owned_by t p"
proof -
  obtain sch rest where sc: "scheme_of ref = (sch, rest)" by (cases "scheme_of ref")
  note sp = secret_place_def assert_connector_secret_ref_def
  from assms(2) sc consider (env) "sch = ''env''" | (k8s) "sch = ''k8s''" | (vault) "sch = ''vault''" | (aws) "sch = ''aws''"
    by (auto simp: sp split: if_splits)
  then show ?thesis
  proof cases
    case env
    with assms sc show ?thesis by (auto simp: sp dest: env_place_slug)
  next
    case k8s
    with assms sc have "assert_k8s_ref rest t = Inr ()" by (auto simp: sp split: if_splits)
    with k8s assms(2) sc show ?thesis by (auto simp: sp elim!: k8s_place_tenant)
  next
    case vault
    with assms sc have "assert_vault_ref rest t = Inr ()" by (auto simp: sp split: if_splits)
    then obtain r path key where "partition_on (CHR ''#'') rest = (path, True, key)"
      "vault_url path = ''/v1/connectors/'' @ t @ ''/'' @ r \<or> vault_url path = ''/v1/connectors/data/'' @ t @ ''/'' @ r"
      using assms(5) by (rule vault_place_tenant)
    with vault assms(2) sc show ?thesis by (auto simp: sp)
  next
    case aws
    with assms sc have "assert_aws_ref rest t = Inr ()" by (auto simp: sp split: if_splits)
    from aws_place_tenant [OF this refl] aws assms(2) sc show ?thesis by (auto simp: sp)
  qed
qed

lemma owned_unique:
  assumes "is_slug t1" "is_slug t2" "t1 \<noteq> ''data''" "t2 \<noteq> ''data''" "owned_by t1 p" "owned_by t2 p"
  shows "t1 = t2"
proof (cases p)
  case (EnvVar n)
  with assms tenant_env_slug_inject show ?thesis by (metis option.inject owned_by.simps(1))
next
  case (VaultPath u)
  with assms(5,6) vault_isolated [OF assms(1-4), of u] show ?thesis by auto
next
  case (K8sSecret name)
  with assms(5,6) k8s_isolated [OF assms(1,2), of name] show ?thesis by auto
next
  case (AwsSecret i)
  with assms(5,6) aws_isolated [OF assms(1,2), of i] show ?thesis by auto
qed

text \<open>
  C9. In production two different tenants never share a place: whatever references the guard
  accepts for them, the environment variables, Vault paths, Kubernetes secrets and AWS secrets
  they read are different. Tenant ids are slugs, and neither is the word \<open>data\<close>.
\<close>

theorem secret_places_isolated:
  assumes slugs: "is_slug t1" "is_slug t2" "t1 \<noteq> t2" "t1 \<noteq> ''data''" "t2 \<noteq> ''data''" and prod: "is_production env"
    and ok: "assert_connector_secret_ref env (Some r1) t1 = Inr ()" "assert_connector_secret_ref env (Some r2) t2 = Inr ()"
    and place: "secret_place r1 = Some p1" "secret_place r2 = Some p2" "r1 \<noteq> []" "r2 \<noteq> []"
  shows "p1 \<noteq> p2"
  using accepted_owned [OF ok(1) place(1,3) prod slugs(1)] accepted_owned [OF ok(2) place(2,4) prod slugs(2)]
    owned_unique [OF slugs(1,2,4,5)] slugs(3) by blast

definition production_env :: env where
  "production_env v = (if v = ''HOLON_ENV'' then Some ''production'' else None)"

theorem secret_places_isolated_witness:
  "VaultPath ''/v1/connectors/data/acme/erp'' \<noteq> VaultPath ''/v1/connectors/data/globex/erp''"
proof -
  have "is_slug ''acme''" "is_slug ''globex''" "is_production production_env" by code_simp+
  moreover have "assert_connector_secret_ref production_env (Some ''vault:connectors/acme/erp#password'') ''acme'' = Inr ()"
    "assert_connector_secret_ref production_env (Some ''vault:connectors/globex/erp#password'') ''globex'' = Inr ()"
    by code_simp+
  moreover have "secret_place ''vault:connectors/acme/erp#password'' = Some (VaultPath ''/v1/connectors/data/acme/erp'')"
    "secret_place ''vault:connectors/globex/erp#password'' = Some (VaultPath ''/v1/connectors/data/globex/erp'')"
    by code_simp+
  ultimately show ?thesis
    by (intro secret_places_isolated [of "''acme''" "''globex''" production_env
        "''vault:connectors/acme/erp#password''" "''vault:connectors/globex/erp#password''"]) simp_all
qed

text \<open>
  The exception: a tenant called \<open>data\<close> reads every other tenant's Vault secrets. Its reference
  \<open>vault:connectors/data/<peer>/<path>#<key>\<close> passes the guard in every environment, and
  since its path holds \<open>/data/\<close> the provider requests the very URL it builds for the peer's own
  reference \<open>vault:connectors/<peer>/<path>#<key>\<close>.
\<close>

theorem tenant_data_reads_peers:
  assumes "assert_connector_secret_ref env (Some (''vault:connectors/'' @ peer @ ''/'' @ path @ ''#'' @ key)) peer = Inr ()"
    and "is_slug peer" "CHR ''#'' \<notin> set path" "\<not> contains (''connectors/'' @ peer @ ''/'' @ path) ''/data/''"
  shows "assert_connector_secret_ref env (Some (''vault:connectors/data/'' @ peer @ ''/'' @ path @ ''#'' @ key)) ''data'' = Inr () \<and>
    secret_place (''vault:connectors/data/'' @ peer @ ''/'' @ path @ ''#'' @ key) =
    secret_place (''vault:connectors/'' @ peer @ ''/'' @ path @ ''#'' @ key)"
proof -
  let ?p = "peer @ ''/'' @ path"
  have sch: "scheme_of (''vault:'' @ x) = (''vault'', x)" for x
    using partition_on_found [of "CHR '':''" "''vault''" x] by (simp add: scheme_of_def)
  have h: "CHR ''#'' \<notin> set ?p" using assms(2,3) slug_absent by auto
  have part: "partition_on (CHR ''#'') (''connectors/'' @ ?p @ ''#'' @ key) = (''connectors/'' @ ?p, True, key)"
    "partition_on (CHR ''#'') (''connectors/data/'' @ ?p @ ''#'' @ key) = (''connectors/data/'' @ ?p, True, key)"
    using h partition_on_found [of "CHR ''#''" "''connectors/'' @ ?p" key]
      partition_on_found [of "CHR ''#''" "''connectors/data/'' @ ?p" key] by simp_all
  from assms(1) sch [of "''connectors/'' @ ?p @ ''#'' @ key"]
  have "assert_vault_ref (''connectors/'' @ ?p @ ''#'' @ key) peer = Inr ()"
    by (simp add: assert_connector_secret_ref_def split: if_splits)
  then have "\<not> list_ex bad_segment (split_on (CHR ''/'') (''connectors/'' @ ?p))" "assert_secret_key key = Inr ()"
    using part(1) by (simp_all add: assert_vault_ref_def split: if_splits)
  moreover have "split_on (CHR ''/'') (''connectors/'' @ ?p) = ''connectors'' # split_on (CHR ''/'') ?p"
    "split_on (CHR ''/'') (''connectors/data/'' @ ?p) = ''connectors'' # ''data'' # split_on (CHR ''/'') ?p"
    using split_on_append [of "CHR ''/''" "''connectors''"] split_on_append [of "CHR ''/''" "''data''"] by simp_all
  ultimately have "assert_vault_ref (''connectors/data/'' @ ?p @ ''#'' @ key) ''data'' = Inr ()"
    using part(2) by (simp add: assert_vault_ref_def bad_segment_def startswith_iff)
  moreover have "vault_url (''connectors/data/'' @ ?p) = ''/v1/connectors/data/'' @ ?p"
    by (simp add: vault_url_def)
  moreover have "vault_url (''connectors/'' @ ?p) = ''/v1/connectors/data/'' @ ?p"
    using assms(4) partition_on_found [of "CHR ''/''" "''connectors''" ?p] by (simp add: vault_url_def)
  ultimately show ?thesis
    using part sch [of "''connectors/'' @ ?p @ ''#'' @ key"] sch [of "''connectors/data/'' @ ?p @ ''#'' @ key"]
    by (simp add: assert_connector_secret_ref_def secret_place_def)
qed

theorem tenant_data_reads_peers_witness:
  "assert_connector_secret_ref production_env (Some ''vault:connectors/data/acme/erp#password'') ''data'' = Inr () \<and>
   secret_place ''vault:connectors/data/acme/erp#password'' = secret_place ''vault:connectors/acme/erp#password''"
proof -
  have "assert_connector_secret_ref production_env (Some (''vault:connectors/'' @ ''acme'' @ ''/'' @ ''erp'' @ ''#'' @ ''password'')) ''acme'' = Inr ()"
    "is_slug ''acme''" "CHR ''#'' \<notin> set ''erp''" "\<not> contains (''connectors/'' @ ''acme'' @ ''/'' @ ''erp'') ''/data/''"
    by code_simp+
  from tenant_data_reads_peers [OF this] show ?thesis by simp
qed

end
