(* ===== verification/Holon_Masking.thy ===== *)
theory Holon_Masking
  imports Holon_Authz
begin

text \<open>
  The read path of the Knowledge service: \<open>policy.py\<close> (may this country see confidential
  values, cached for five seconds), \<open>struct_values.py\<close> (struct and array columns) and
  \<open>masking.py\<close> (column masking, read-time coercion, row filtering by markings). Rows are
  dictionaries from source columns to JSON values; \<open>json.loads\<close> and the clock are parameters.
\<close>

section \<open>Confidential visibility\<close>

definition ttl_seconds :: real where
  "ttl_seconds = 5"

type_synonym visibility_cache = "(string option, bool \<times> real) dict"

text \<open>
  \<open>abac\<close> is \<open>None\<close> before \<open>bind_authz\<close>, otherwise \<open>check_abac\<close> with the confidential resource, for
  a country: it answers with a JSON value or raises.
\<close>

definition confidential_visible ::
  "(string option \<Rightarrow> 'w \<Rightarrow> ('x, json) result \<times> 'w) option \<Rightarrow> real \<Rightarrow> principal \<Rightarrow> visibility_cache \<times> 'w
     \<Rightarrow> bool \<times> visibility_cache \<times> 'w" where
  "confidential_visible abac now p cw =
     (case cw of (cache, w) \<Rightarrow>
        let country = p_country p;
            ask = (case abac of
                None \<Rightarrow> (False, cache, w)
              | Some check \<Rightarrow>
                  (case check country w of (r, w') \<Rightarrow>
                     let visible = (case r of Inl _ \<Rightarrow> False | Inr v \<Rightarrow> truthy v)
                     in (visible, dict_set country (visible, now + ttl_seconds) cache, w')))
        in case dict_get cache country of
             Some (visible, expires_at) \<Rightarrow> if now < expires_at then (visible, cache, w) else ask
           | None \<Rightarrow> ask)"

section \<open>Structs and arrays\<close>

text \<open>A rule is the JSON object of \<open>property_types\<close>.\<close>

definition rule_properties :: "payload \<Rightarrow> payload" where
  "rule_properties rule = (case obj_get rule ''properties'' of JObj d \<Rightarrow> d | _ \<Rightarrow> [])"

definition project_struct_to_declared_fields :: "payload \<Rightarrow> payload \<Rightarrow> payload" where
  "project_struct_to_declared_fields rule v =
     (if rule_properties rule = [] then v
      else List.map_filter (\<lambda>k. map_option (Pair k) (dict_get v k)) (map fst (rule_properties rule)))"

definition parse_struct_or_array :: "(string \<Rightarrow> json option) \<Rightarrow> payload \<Rightarrow> json \<Rightarrow> json" where
  "parse_struct_or_array loads rule raw =
     (let kind = obj_get rule ''kind'' in
      case raw of
        JNull \<Rightarrow> JNull
      | JObj d \<Rightarrow> if kind = JStr ''struct'' then JObj (project_struct_to_declared_fields rule d) else raw
      | JList xs \<Rightarrow> raw
      | JStr s \<Rightarrow>
          (case loads s of
             None \<Rightarrow> raw
           | Some (JObj d) \<Rightarrow> if kind = JStr ''struct'' then JObj (project_struct_to_declared_fields rule d) else raw
           | Some (JList xs) \<Rightarrow> if kind = JStr ''array'' then JList xs else raw
           | Some other \<Rightarrow> raw)
      | other \<Rightarrow> raw)"

definition field_column :: "json \<Rightarrow> string option" where
  "field_column field_rule =
     (case field_rule of
        JObj d \<Rightarrow> (case obj_get d ''column'' of JStr c \<Rightarrow> if c = [] then None else Some c | _ \<Rightarrow> None)
      | _ \<Rightarrow> None)"

definition overlay_field :: "payload \<Rightarrow> string \<times> json \<Rightarrow> payload \<Rightarrow> payload" where
  "overlay_field row fr base =
     (case field_column (snd fr) of
        None \<Rightarrow> base
      | Some col \<Rightarrow> (if obj_get row col \<noteq> JNull then dict_set (fst fr) (obj_get row col) base else base))"

definition assemble_struct_value :: "(string \<Rightarrow> json option) \<Rightarrow> payload \<Rightarrow> payload \<Rightarrow> string option \<Rightarrow> payload option" where
  "assemble_struct_value loads rule row source_col =
     (let base0 = (case source_col of
            Some c \<Rightarrow> (case dict_get row c of
                Some v \<Rightarrow> (case parse_struct_or_array loads rule v of JObj d \<Rightarrow> d | _ \<Rightarrow> [])
              | None \<Rightarrow> [])
          | None \<Rightarrow> []);
          base = fold (overlay_field row) (rule_properties rule) base0;
          projected = (if base = [] then [] else project_struct_to_declared_fields rule base)
      in if projected = [] then None else Some projected)"

section \<open>Masking\<close>

definition confidential_columns :: "(string, string) dict \<Rightarrow> string list" where
  "confidential_columns classifications = map fst (filter (\<lambda>(n, c). c = ''confidential'') classifications)"

definition masked_fields_of :: "string \<Rightarrow> string list \<Rightarrow> payload \<Rightarrow> string list" where
  "masked_fields_of key_prefix conf row =
     filter (\<lambda>n. obj_get row n \<noteq> JNull) (map (\<lambda>n. key_prefix @ n) conf)"

definition mask_row :: "string \<Rightarrow> string list \<Rightarrow> payload \<Rightarrow> payload" where
  "mask_row key_prefix conf row =
     (let masked = masked_fields_of key_prefix conf row;
          row1 = fold (\<lambda>n r. dict_set n JNull r) masked row
      in if masked = [] then row1
         else dict_set ''_maskedFields''
           (JList ((case dict_get row1 ''_maskedFields'' of Some (JList xs) \<Rightarrow> xs | _ \<Rightarrow> []) @ map JStr masked)) row1)"

text \<open>\<open>visible\<close> is the answer of \<open>confidential_visible\<close>; the iteration order of the Python set of
  confidential columns is the order of \<open>classifications\<close> here.\<close>

definition mask_confidential_properties ::
  "bool \<Rightarrow> (string, string) dict \<Rightarrow> string \<Rightarrow> payload list \<Rightarrow> payload list" where
  "mask_confidential_properties visible classifications key_prefix rows =
     (if visible then rows
      else let conf = confidential_columns classifications in
        if conf = [] then rows else map (mask_row key_prefix conf) rows)"

section \<open>Coercion\<close>

record object_type =
  property_types :: "(string, payload) dict"
  property_mapping :: "(string, string) dict"

definition structured_rules :: "object_type \<Rightarrow> (string \<times> payload) list" where
  "structured_rules ot =
     filter (\<lambda>(n, rule). obj_get rule ''kind'' \<in> {JStr ''struct'', JStr ''array''}) (property_types ot)"

definition coerce_property ::
  "(string \<Rightarrow> json option) \<Rightarrow> (string, string) dict \<Rightarrow> string \<times> payload \<Rightarrow> payload \<Rightarrow> payload" where
  "coerce_property loads mapping pr row =
     (case pr of (name, rule) \<Rightarrow>
        let source_col = dict_get mapping name in
        if obj_get rule ''kind'' = JStr ''struct'' then
          (case assemble_struct_value loads rule row source_col of
             None \<Rightarrow> row
           | Some v \<Rightarrow> dict_set (case source_col of Some c \<Rightarrow> c | None \<Rightarrow> name) (JObj v) row)
        else (case source_col of
                None \<Rightarrow> row
              | Some c \<Rightarrow> (case dict_get row c of
                    None \<Rightarrow> row
                  | Some v \<Rightarrow> dict_set c (parse_struct_or_array loads rule v) row)))"

definition coerce_property_types ::
  "(string \<Rightarrow> json option) \<Rightarrow> object_type option \<Rightarrow> payload list \<Rightarrow> payload list" where
  "coerce_property_types loads ot rows =
     (case ot of
        None \<Rightarrow> rows
      | Some t \<Rightarrow> if structured_rules t = [] then rows
          else map (fold (coerce_property loads (property_mapping t)) (structured_rules t)) rows)"

definition mask_and_derive ::
  "(payload list \<Rightarrow> 'r) \<Rightarrow> bool \<Rightarrow> (string, string) dict \<Rightarrow> (string \<Rightarrow> json option) \<Rightarrow> object_type option \<Rightarrow> payload list \<Rightarrow> 'r" where
  "mask_and_derive derive visible classifications loads ot rows =
     derive (coerce_property_types loads ot (mask_confidential_properties visible classifications [] rows))"

section \<open>Instance markings\<close>

text \<open>\<open>authorized\<close> decides whether the principal holds all markings of a list.\<close>

definition filter_by_instance_markings ::
  "(json \<Rightarrow> string) \<Rightarrow> (string list \<Rightarrow> bool) \<Rightarrow> (string, string list) dict \<Rightarrow> payload list \<Rightarrow> payload list" where
  "filter_by_instance_markings str authorized markings_by_instance rows =
     (if rows = [] \<or> markings_by_instance = [] then rows
      else filter (\<lambda>row. case dict_get markings_by_instance (str (obj_get row ''id'')) of
             None \<Rightarrow> True | Some ms \<Rightarrow> ms = [] \<or> authorized ms) rows)"

section \<open>Visibility is never older than five seconds\<close>

definition live_entry :: "real \<Rightarrow> string option \<Rightarrow> visibility_cache \<Rightarrow> bool" where
  "live_entry now country cache = (case dict_get cache country of Some (v, e) \<Rightarrow> now < e | None \<Rightarrow> False)"

text \<open>The grants seen so far: a call that finds no live entry asks, and a truthy answer is recorded with its time.\<close>

inductive visibility_run ::
  "(string option \<Rightarrow> 'w \<Rightarrow> ('x, json) result \<times> 'w) option \<Rightarrow> visibility_cache \<Rightarrow> (string option \<times> real) set \<Rightarrow> bool"
  for abac where
  start: "visibility_run abac [] {}"
| call: "visibility_run abac cache granted \<Longrightarrow> confidential_visible abac now p (cache, w) = (b, cache', w') \<Longrightarrow>
    visibility_run abac cache'
      (if b \<and> \<not> live_entry now (p_country p) cache then insert (p_country p, now) granted else granted)"

lemma visibility_run_entry:
  "visibility_run abac cache granted \<Longrightarrow> dict_get cache c = Some (True, e) \<Longrightarrow> \<exists>t. (c, t) \<in> granted \<and> e = t + ttl_seconds"
proof (induction arbitrary: c e rule: visibility_run.induct)
  case (call cache granted now p w b cache' w')
  show ?case
  proof (cases "live_entry now (p_country p) cache \<or> abac = None")
    case True
    with call.hyps(2) have "cache' = cache"
      by (auto simp: confidential_visible_def live_entry_def Let_def split: option.splits prod.splits if_splits)
    with call show ?thesis by auto
  next
    case False
    then obtain check where "abac = Some check" by auto
    moreover obtain r w1 where "check (p_country p) w = (r, w1)" by (metis prod.exhaust)
    ultimately have "cache' = dict_set (p_country p) (b, now + ttl_seconds) cache"
      using False call.hyps(2)
      by (auto simp: confidential_visible_def live_entry_def Let_def split: option.splits prod.splits)
    with False call show ?thesis by (cases "c = p_country p") auto
  qed
qed simp

text \<open>
  Confidential values are shown to a country only on the strength of a truthy OPA answer for
  that country less than five seconds old; an error, an open circuit or an unbound client
  never shows them.
\<close>

theorem visible_means_recent_grant:
  assumes "visibility_run abac cache granted" "confidential_visible abac now p (cache, w) = (True, cache', w')"
  shows "(\<exists>t. (p_country p, t) \<in> granted \<and> now < t + 5) \<or>
    (\<exists>check v w1. abac = Some check \<and> check (p_country p) w = (Inr v, w1) \<and> truthy v)"
proof (cases "live_entry now (p_country p) cache")
  case True
  with assms(2) obtain e where "dict_get cache (p_country p) = Some (True, e)" "now < e"
    by (auto simp: confidential_visible_def live_entry_def Let_def split: option.splits prod.splits)
  with visibility_run_entry [OF assms(1)] show ?thesis by (force simp: ttl_seconds_def)
next
  case False
  with assms(2) show ?thesis
    by (auto simp: confidential_visible_def live_entry_def Let_def split: option.splits prod.splits sum.splits if_splits)
qed

definition opa_only_fr :: "(string option \<Rightarrow> unit \<Rightarrow> (string, json) result \<times> unit) option" where
  "opa_only_fr = Some (\<lambda>c w. (if c = Some ''FR'' then Inr (JBool True) else Inl ''down'', w))"

theorem visible_means_recent_grant_witness:
  "(\<exists>t. (Some ''FR'', t) \<in> {} \<and> 1 < t + 5) \<or>
    (\<exists>check v w1. opa_only_fr = Some check \<and> check (Some ''FR'') () = (Inr v, w1) \<and> truthy v)"
proof -
  have "confidential_visible opa_only_fr 1 bot_principal ([], ()) = (True, [(Some ''FR'', (True, 6))], ())"
    by (simp add: confidential_visible_def opa_only_fr_def bot_principal_def ttl_seconds_def dict_set_def)
  from visible_means_recent_grant [OF visibility_run.start this] show ?thesis by (simp add: bot_principal_def)
qed

section \<open>Masked values have no influence\<close>

text \<open>Two rows a reader must not be able to tell apart: same columns, same values in the columns
  that are not confidential, and the same confidential columns filled.\<close>

definition low_equal :: "string list \<Rightarrow> payload \<Rightarrow> payload \<Rightarrow> bool" where
  "low_equal conf r r' = list_all2 (\<lambda>(k, v) (k', v'). k = k' \<and>
     (if k \<in> set conf then (v = JNull) = (v' = JNull) else v = v')) r r'"

lemma low_equal_keys: "low_equal conf r r' \<Longrightarrow> map fst r = map fst r'"
  unfolding low_equal_def by (induction rule: list_all2_induct) auto

lemma low_equal_null: "low_equal conf r r' \<Longrightarrow> n \<in> set conf \<Longrightarrow> (obj_get r n = JNull) = (obj_get r' n = JNull)"
  unfolding low_equal_def by (induction rule: list_all2_induct) (auto simp: obj_get_def dict_get_def)

lemma dict_set_present:
  "dict_wf d \<Longrightarrow> k \<in> fst ` set d \<Longrightarrow> dict_set k v d = map (\<lambda>(j, x). (j, if j = k then v else x)) d"
proof (induction d)
  case (Cons e d)
  obtain j x where e: "e = (j, x)" by (cases e)
  show ?case
  proof (cases "j = k")
    case True
    with Cons.prems have "\<forall>y \<in> set d. fst y \<noteq> k" by (force simp: dict_wf_def e)
    then have "map (\<lambda>(j, x). (j, if j = k then v else x)) d = d" by (intro map_idI) auto
    with True show ?thesis by (simp add: dict_set_def e)
  next
    case False
    with Cons show ?thesis by (simp add: dict_set_def dict_wf_def e)
  qed
qed simp

lemma mask_fold:
  assumes "dict_wf d" "set ns \<subseteq> fst ` set d"
  shows "fold (\<lambda>n r. dict_set n JNull r) ns d = map (\<lambda>(j, x). (j, if j \<in> set ns then JNull else x)) d"
  using assms
proof (induction ns arbitrary: d)
  case (Cons n ns)
  let ?d = "map (\<lambda>(j, x). (j, if j = n then JNull else x)) d"
  have keys: "map fst ?d = map fst d" by (simp add: comp_def case_prod_beta')
  then have "dict_wf ?d" using Cons.prems unfolding dict_wf_def by (simp only:)
  moreover have "fst ` set ?d = fst ` set d" by (simp add: image_image case_prod_beta')
  then have "set ns \<subseteq> fst ` set ?d" using Cons.prems by simp
  ultimately have "dict_wf ?d" "set ns \<subseteq> fst ` set ?d" by blast+
  from Cons.IH [OF this] Cons.prems show ?case
    by (auto simp: dict_set_present)
qed (simp add: case_prod_beta')

lemma masked_fields_present: "set (masked_fields_of [] conf r) \<subseteq> fst ` set r"
  by (auto simp: masked_fields_of_def obj_get_def dict_get_def split: option.splits dest!: map_of_SomeD)
     (metis fst_conv image_eqI)

lemma mask_row_low_equal:
  assumes "low_equal conf r r'" "dict_wf r"
  shows "mask_row [] conf r = mask_row [] conf r'"
proof -
  have wf': "dict_wf r'" using assms low_equal_keys by (simp add: dict_wf_def)
  have m: "masked_fields_of [] conf r' = masked_fields_of [] conf r"
    using low_equal_null [OF assms(1)] by (auto simp: masked_fields_of_def intro!: filter_cong)
  let ?g = "\<lambda>(j, x). (j, if j \<in> set (masked_fields_of [] conf r) then JNull else x)"
  have "map ?g r = map ?g r'"
  proof (rule nth_equalityI)
    show len: "length (map ?g r) = length (map ?g r')"
      using assms(1) by (simp add: low_equal_def list_all2_lengthD)
    fix i assume i: "i < length (map ?g r)"
    obtain k v where ri: "r ! i = (k, v)" by (cases "r ! i")
    obtain k' v' where ri': "r' ! i = (k', v')" by (cases "r' ! i")
    from assms(1) i ri ri' have eq: "k = k'" "if k \<in> set conf then (v = JNull) = (v' = JNull) else v = v'"
      by (auto simp: low_equal_def dest: list_all2_nthD)
    have "obj_get r k = v" using dict_mem_get [OF assms(2)] i ri by (metis length_map nth_mem obj_get_def option.simps(5))
    then have "k \<in> set conf \<Longrightarrow> v \<noteq> JNull \<Longrightarrow> k \<in> set (masked_fields_of [] conf r)"
      by (simp add: masked_fields_of_def)
    with eq i len ri ri' show "map ?g r ! i = map ?g r' ! i" by (auto split: if_splits)
  qed
  then have "fold (\<lambda>n r. dict_set n JNull r) (masked_fields_of [] conf r) r =
      fold (\<lambda>n r. dict_set n JNull r) (masked_fields_of [] conf r) r'"
    using mask_fold [OF assms(2) masked_fields_present, of conf] mask_fold [OF wf' masked_fields_present, of conf]
    by (simp only: m)
  then show ?thesis by (simp only: mask_row_def Let_def m)
qed



end
