(* ===== verification/Holon_Compare.thy ===== *)
theory Holon_Compare
  imports Holon_Json
begin

text \<open>
  Python's \<open>==\<close>, \<open><\<close>, \<open>in\<close> and \<open>len\<close> on decoded JSON values: a \<open>bool\<close> is a number, dictionaries are
  equal whatever their order, an ordering of unlike types raises \<open>TypeError\<close>. Floats are
  reals, so not-a-number does not occur.
\<close>

datatype py_exc = TypeError | AttributeError | KeyError | ValueError | RecursionError

fun num_of :: "json \<Rightarrow> real option" where
  "num_of (JBool b) = Some (of_bool b)"
| "num_of (JInt i) = Some (of_int i)"
| "num_of (JFloat r) = Some r"
| "num_of _ = None"

fun py_eq :: "json \<Rightarrow> json \<Rightarrow> bool"
  and list_eq :: "json list \<Rightarrow> json list \<Rightarrow> bool"
  and items_eq :: "(string \<times> json) list \<Rightarrow> payload \<Rightarrow> bool" where
  "py_eq JNull b = (b = JNull)"
| "py_eq (JStr s) b = (b = JStr s)"
| "py_eq (JBool x) b = (num_of b = Some (of_bool x))"
| "py_eq (JInt i) b = (num_of b = Some (of_int i))"
| "py_eq (JFloat r) b = (num_of b = Some r)"
| "py_eq (JList xs) b = (case b of JList ys \<Rightarrow> list_eq xs ys | _ \<Rightarrow> False)"
| "py_eq (JObj d) b = (case b of JObj e \<Rightarrow> length d = length e \<and> items_eq d e | _ \<Rightarrow> False)"
| "list_eq [] ys = (ys = [])"
| "list_eq (x # xs) ys = (case ys of [] \<Rightarrow> False | y # ys' \<Rightarrow> py_eq x y \<and> list_eq xs ys')"
| "items_eq [] e = True"
| "items_eq ((k, v) # d) e = (case dict_get e k of None \<Rightarrow> False | Some w \<Rightarrow> py_eq v w \<and> items_eq d e)"

definition py_in :: "json \<Rightarrow> json list \<Rightarrow> bool" where
  "py_in v xs = list_ex (py_eq v) xs"

fun str_less :: "string \<Rightarrow> string \<Rightarrow> bool" where
  "str_less s [] = False"
| "str_less [] (d # t) = True"
| "str_less (c # s) (d # t) = (codept c < codept d \<or> (c = d \<and> str_less s t))"

text \<open>\<open>None\<close> is a \<open>TypeError\<close>.\<close>

fun py_less :: "json \<Rightarrow> json \<Rightarrow> bool option"
  and less_lists :: "json list \<Rightarrow> json list \<Rightarrow> bool option" where
  "py_less (JStr s) b = (case b of JStr t \<Rightarrow> Some (str_less s t) | _ \<Rightarrow> None)"
| "py_less (JList xs) b = (case b of JList ys \<Rightarrow> less_lists xs ys | _ \<Rightarrow> None)"
| "py_less (JBool x) b = map_option (\<lambda>n. of_bool x < n) (num_of b)"
| "py_less (JInt i) b = map_option (\<lambda>n. of_int i < n) (num_of b)"
| "py_less (JFloat r) b = map_option (\<lambda>n. r < n) (num_of b)"
| "py_less JNull b = None"
| "py_less (JObj d) b = None"
| "less_lists [] ys = Some (ys \<noteq> [])"
| "less_lists (x # xs) ys =
     (case ys of [] \<Rightarrow> Some False | y # ys' \<Rightarrow> if py_eq x y then less_lists xs ys' else py_less x y)"

definition py_len :: "json \<Rightarrow> (py_exc, int) result" where
  "py_len v =
     (case v of JStr s \<Rightarrow> Inr (int (length s)) | JList xs \<Rightarrow> Inr (int (length xs)) | JObj d \<Rightarrow> Inr (int (length d))
      | _ \<Rightarrow> Inl TypeError)"

lemma py_eq_refl [simp]: "py_eq (JStr s) (JStr t) = (t = s)" "py_eq (JInt i) (JInt j) = (j = i)"
  by auto

lemma str_less_irrefl [simp]: "\<not> str_less s s"
  by (induction s) simp_all

lemma str_less_trans: "str_less s t \<Longrightarrow> str_less t u \<Longrightarrow> str_less s u"
proof (induction s arbitrary: t u)
  case Nil
  then show ?case by (cases t; cases u) simp_all
next
  case (Cons c s)
  from Cons.prems obtain d t' where t: "t = d # t'" by (cases t) simp_all
  with Cons.prems obtain e u' where u: "u = e # u'" by (cases u) simp_all
  from Cons.prems Cons.IH [of t' u'] show ?case unfolding t u by auto
qed

lemma str_less_total: "str_less s t \<or> s = t \<or> str_less t s"
proof (induction s t rule: str_less.induct)
  case (3 c s d t)
  have "codept c < codept d \<or> c = d \<or> codept d < codept c" by (auto simp: codept_def)
  with 3 show ?case by auto
qed (simp_all, metis list.exhaust str_less.simps(2))

text \<open>Numbers, whatever their Python types, and strings are totally ordered.\<close>

lemma py_less_numbers: "num_of a = Some x \<Longrightarrow> num_of b = Some y \<Longrightarrow> py_less a b = Some (x < y)"
  by (cases a) auto

end
