(* ===== verification/Holon_Value_Types.thy ===== *)
theory Holon_Value_Types
  imports Holon_Compare Holon_Urn
begin

text \<open>
  Value types of the ontology: \<open>value_type_validate.py\<close> (constraints at registration, values at
  run time) and \<open>typed_values.py\<close> (struct and array rules over them, rows, batches). The
  functions return \<open>None\<close> for a valid value, an error otherwise; a Python exception is \<open>Inl\<close>.
  Date parsing, regular expressions, UUIDs, \<open>str\<close> and the JSON codec are a record of library
  functions; the two registries of a tenant are a record of look-ups.
\<close>

section \<open>Data\<close>

record stdlib =
  date_fromisoformat :: "string \<Rightarrow> bool"
  datetime_fromisoformat :: "string \<Rightarrow> bool"
  re_search :: "string \<Rightarrow> string \<Rightarrow> bool"
  re_fullmatch :: "string \<Rightarrow> string \<Rightarrow> bool"
  uuid_text :: "string \<Rightarrow> bool"
  json_loads :: "string \<Rightarrow> json option"
  json_dumps :: "json \<Rightarrow> string"
  py_str :: "json \<Rightarrow> string"

record value_type =
  vt_name :: string
  vt_base_type :: string
  vt_format_regex :: "string option"
  vt_format_regex_match :: "string option"
  vt_constraints :: "json list"

record shared_property_type =
  sp_api_name :: string
  sp_value_type :: "string option"
  sp_struct_properties :: json

record type_registry =
  get_value_type :: "string option \<Rightarrow> value_type option"
  get_shared_property_type :: "string option \<Rightarrow> shared_property_type option"

datatype constraint_error =
    NotAnObject nat
  | UnknownKind nat
  | EmptyEnum nat
  | RangeNotMeaningful nat
  | RangeUnbounded nat
  | OnlyForStrings nat

datatype value_error =
    Expects string string
  | NotIso string
  | UnknownBaseType string
  | BadFormat string
  | NotAllowed string
  | BelowMinimum string
  | AboveMaximum string
  | NotRid string
  | NotUuid string
  | UnknownValueType string
  | UnknownSharedPropertyType string
  | UnsupportedNestedKind string
  | EmptyStruct string
  | UnknownFields string
  | InvalidRule string
  | DuplicateElements string

section \<open>Registration of constraints\<close>

definition base_types :: "string list" where
  "base_types = [''string'', ''integer'', ''double'', ''boolean'', ''date'', ''timestamp'',
     ''short'', ''byte'', ''long'', ''decimal'', ''float'', ''geopoint'', ''geoshape'', ''vector'']"

definition int_like :: "string list" where
  "int_like = [''integer'', ''short'', ''byte'', ''long'']"

definition float_like :: "string list" where
  "float_like = [''double'', ''decimal'', ''float'']"

definition range_applicable :: "string list" where
  "range_applicable = int_like @ float_like @ [''date'', ''timestamp'', ''string'']"

definition validate_constraint :: "string \<Rightarrow> nat \<Rightarrow> json \<Rightarrow> (constraint_error, unit) result" where
  "validate_constraint base_type index constraint =
     (case constraint of
        JObj c \<Rightarrow>
          (let kind = obj_get c ''kind'' in
           if kind = JStr ''enum'' then
             (case obj_get c ''values'' of JList (v # vs) \<Rightarrow> Inr () | _ \<Rightarrow> Inl (EmptyEnum index))
           else if kind = JStr ''range'' then
             (if base_type \<notin> set range_applicable then Inl (RangeNotMeaningful index)
              else raise_if (dict_get c ''min'' = None \<and> dict_get c ''max'' = None) (RangeUnbounded index))
           else if kind = JStr ''rid'' \<or> kind = JStr ''uuid'' then raise_if (base_type \<noteq> ''string'') (OnlyForStrings index)
           else Inl (UnknownKind index))
      | _ \<Rightarrow> Inl (NotAnObject index))"

fun validate_constraints_from :: "nat \<Rightarrow> string \<Rightarrow> json list \<Rightarrow> (constraint_error, unit) result" where
  "validate_constraints_from i base_type [] = Inr ()"
| "validate_constraints_from i base_type (c # cs) =
     rbind (validate_constraint base_type i c) (\<lambda>_. validate_constraints_from (Suc i) base_type cs)"

definition validate_constraints :: "string \<Rightarrow> json list \<Rightarrow> (constraint_error, unit) result" where
  "validate_constraints base_type cs = validate_constraints_from 0 base_type cs"

section \<open>Values\<close>

definition is_number :: "json \<Rightarrow> bool" where
  "is_number v = (case v of JInt _ \<Rightarrow> True | JFloat _ \<Rightarrow> True | _ \<Rightarrow> False)"

text \<open>\<open>-?\d+(\.\d+)?\<close>, and the pair of them before the end of the text.\<close>

definition skip_number :: "string \<Rightarrow> string option" where
  "skip_number s =
     (let s1 = (case s of c # r \<Rightarrow> if c = CHR ''-'' then r else s | [] \<Rightarrow> []);
          rest = dropWhile is_digit s1
      in if takeWhile is_digit s1 = [] then None
         else (case rest of
                 c # r \<Rightarrow> if c = CHR ''.'' \<and> takeWhile is_digit r \<noteq> [] then Some (dropWhile is_digit r) else Some rest
               | [] \<Rightarrow> Some []))"

definition geopoint_match :: "string \<Rightarrow> bool" where
  "geopoint_match s =
     (case skip_number s of
        Some (c # r) \<Rightarrow> c = CHR '','' \<and> (case skip_number r of Some e \<Rightarrow> at_end e | None \<Rightarrow> False)
      | _ \<Rightarrow> False)"

definition geojson_types :: "string list" where
  "geojson_types = [''Point'', ''LineString'', ''Polygon'', ''MultiPoint'', ''MultiLineString'', ''MultiPolygon'',
     ''GeometryCollection'']"

definition check_base_type :: "stdlib \<Rightarrow> json \<Rightarrow> string \<Rightarrow> string \<Rightarrow> value_error option" where
  "check_base_type lib v base_type name =
     (if base_type = ''string'' then (case v of JStr _ \<Rightarrow> None | _ \<Rightarrow> Some (Expects name ''a string''))
      else if base_type \<in> set int_like then (case v of JInt _ \<Rightarrow> None | _ \<Rightarrow> Some (Expects name ''an integer''))
      else if base_type \<in> set float_like then (if is_number v then None else Some (Expects name ''a number''))
      else if base_type = ''boolean'' then (case v of JBool _ \<Rightarrow> None | _ \<Rightarrow> Some (Expects name ''a boolean''))
      else if base_type = ''date'' \<or> base_type = ''timestamp'' then
        (case v of
           JStr s \<Rightarrow> if (if base_type = ''date'' then date_fromisoformat lib else datetime_fromisoformat lib) s then None
                     else Some (NotIso name)
         | _ \<Rightarrow> Some (Expects name ''an ISO-8601 string''))
      else if base_type = ''geopoint'' then
        (case v of JStr s \<Rightarrow> if geopoint_match s then None else Some (Expects name ''a geopoint'')
         | _ \<Rightarrow> Some (Expects name ''a geopoint''))
      else if base_type = ''geoshape'' then
        (case v of
           JStr s \<Rightarrow>
             (case json_loads lib s of
                None \<Rightarrow> Some (Expects name ''a valid GeoJSON geometry'')
              | Some (JObj d) \<Rightarrow> if obj_get d ''type'' \<in> JStr ` set geojson_types then None
                                 else Some (Expects name ''a recognized GeoJSON type'')
              | Some other \<Rightarrow> Some (Expects name ''a recognized GeoJSON type''))
         | _ \<Rightarrow> Some (Expects name ''a GeoJSON geometry string''))
      else if base_type = ''vector'' then
        (case v of JList (x # xs) \<Rightarrow> if list_all is_number (x # xs) then None else Some (Expects name ''an array of numbers'')
         | _ \<Rightarrow> Some (Expects name ''an array of numbers''))
      else Some (UnknownBaseType base_type))"

text \<open>\<open>constraint.get(k, True)\<close> for a flag: an absent key is true.\<close>

definition flag_default_true :: "payload \<Rightarrow> string \<Rightarrow> bool" where
  "flag_default_true c k = (case dict_get c k of None \<Rightarrow> True | Some v \<Rightarrow> truthy v)"

definition below :: "json \<Rightarrow> json \<Rightarrow> (py_exc, bool) result" where
  "below a b = (case py_less a b of None \<Rightarrow> Inl TypeError | Some x \<Rightarrow> Inr x)"

definition check_range :: "json \<Rightarrow> payload \<Rightarrow> string \<Rightarrow> (py_exc, value_error option) result" where
  "check_range subject c name =
     (let minimum = obj_get c ''min''; maximum = obj_get c ''max'' in
      rbind (if minimum = JNull then Inr False else below subject minimum) (\<lambda>low.
        if low then Inr (Some (BelowMinimum name))
        else rbind (if maximum = JNull then Inr False else below maximum subject) (\<lambda>high.
          Inr (if high then Some (AboveMaximum name) else None))))"

definition check_constraint :: "stdlib \<Rightarrow> json \<Rightarrow> json \<Rightarrow> string \<Rightarrow> string \<Rightarrow> (py_exc, value_error option) result" where
  "check_constraint lib v constraint base_type name =
     (case constraint of
        JObj c \<Rightarrow>
          (let kind = obj_get c ''kind'' in
           if kind = JStr ''enum'' then
             (let vals = (case dict_get c ''values'' of Some (JList xs) \<Rightarrow> xs | _ \<Rightarrow> []);
                  ok = (if flag_default_true c ''caseSensitive'' then py_in v vals
                        else (case v of JStr s \<Rightarrow> py_lower s \<in> (\<lambda>x. py_lower (py_str lib x)) ` set vals | _ \<Rightarrow> False))
              in Inr (if ok then None else Some (NotAllowed name)))
           else if kind = JStr ''range'' then
             rbind (if base_type = ''string'' then rbind (py_len v) (\<lambda>n. Inr (JInt n)) else Inr v)
               (\<lambda>subject. check_range subject c name)
           else if kind = JStr ''rid'' then
             (case v of JStr s \<Rightarrow> Inr (case parse s of Inl _ \<Rightarrow> Some (NotRid name) | Inr _ \<Rightarrow> None) | _ \<Rightarrow> Inl TypeError)
           else if kind = JStr ''uuid'' then Inr (if uuid_text lib (py_str lib v) then None else Some (NotUuid name))
           else Inr None)
      | _ \<Rightarrow> Inl AttributeError)"

fun check_constraints :: "stdlib \<Rightarrow> json \<Rightarrow> json list \<Rightarrow> string \<Rightarrow> string \<Rightarrow> (py_exc, value_error option) result" where
  "check_constraints lib v [] base_type name = Inr None"
| "check_constraints lib v (c # cs) base_type name =
     rbind (check_constraint lib v c base_type name) (\<lambda>e.
       case e of Some _ \<Rightarrow> Inr e | None \<Rightarrow> check_constraints lib v cs base_type name)"

definition format_matches :: "stdlib \<Rightarrow> value_type \<Rightarrow> json \<Rightarrow> bool" where
  "format_matches lib vt v =
     (case (vt_format_regex vt, v) of
        (Some (r # rs), JStr s) \<Rightarrow>
          if vt_format_regex_match vt = Some ''substring'' then re_search lib (r # rs) s else re_fullmatch lib (r # rs) s
      | _ \<Rightarrow> True)"

definition validate_value :: "stdlib \<Rightarrow> json \<Rightarrow> value_type \<Rightarrow> (py_exc, value_error option) result" where
  "validate_value lib v vt =
     (case check_base_type lib v (vt_base_type vt) (vt_name vt) of
        Some e \<Rightarrow> Inr (Some e)
      | None \<Rightarrow>
          if vt_base_type vt = ''string'' \<and> \<not> format_matches lib vt v then Inr (Some (BadFormat (vt_name vt)))
          else check_constraints lib v (vt_constraints vt) (vt_base_type vt) (vt_name vt))"

section \<open>Rules over value types\<close>

definition coerce_jsonish :: "stdlib \<Rightarrow> json \<Rightarrow> json" where
  "coerce_jsonish lib v =
     (case v of
        JStr s \<Rightarrow>
          (let stripped = py_strip s in
           if startswith stripped ''{'' \<or> startswith stripped ''[''
           then (case json_loads lib stripped of Some j \<Rightarrow> j | None \<Rightarrow> v) else v)
      | _ \<Rightarrow> v)"

text \<open>
  The batch cache, absent for a one-off call: what the two look-ups returned, by name, a
  missing name under the empty string. A name in a rule is a string or \<open>null\<close>.
\<close>

type_synonym type_cache = "(string, value_type option) dict \<times> (string, shared_property_type option) dict"

definition name_of :: "json \<Rightarrow> string option" where
  "name_of j = (case j of JStr s \<Rightarrow> Some s | _ \<Rightarrow> None)"

definition cached :: "(string option \<Rightarrow> 'v option) \<Rightarrow> string option \<Rightarrow> (string, 'v option) dict \<Rightarrow> 'v option \<times> (string, 'v option) dict" where
  "cached look name cache =
     (let key = (case name of Some s \<Rightarrow> s | None \<Rightarrow> []) in
      case dict_get cache key of
        Some v \<Rightarrow> (v, cache)
      | None \<Rightarrow> (look name, dict_set key (look name) cache))"

definition cached_get_value_type :: "type_registry \<Rightarrow> string option \<Rightarrow> type_cache option \<Rightarrow> value_type option \<times> type_cache option" where
  "cached_get_value_type reg name cache =
     (case cache of
        None \<Rightarrow> (get_value_type reg name, None)
      | Some (vts, spts) \<Rightarrow> (case cached (get_value_type reg) name vts of (v, vts') \<Rightarrow> (v, Some (vts', spts))))"

definition cached_get_shared_property_type ::
  "type_registry \<Rightarrow> string option \<Rightarrow> type_cache option \<Rightarrow> shared_property_type option \<times> type_cache option" where
  "cached_get_shared_property_type reg name cache =
     (case cache of
        None \<Rightarrow> (get_shared_property_type reg name, None)
      | Some (vts, spts) \<Rightarrow> (case cached (get_shared_property_type reg) name spts of (v, spts') \<Rightarrow> (v, Some (vts, spts'))))"

text \<open>A loop that stops at the first error or exception, threading the cache.\<close>

fun first_error :: "('a \<Rightarrow> 'c \<Rightarrow> (py_exc, value_error option) result \<times> 'c) \<Rightarrow> 'a list \<Rightarrow> 'c
    \<Rightarrow> (py_exc, value_error option) result \<times> 'c" where
  "first_error f [] c = (Inr None, c)"
| "first_error f (x # xs) c =
     (case f x c of (r, c') \<Rightarrow> if r = Inr None then first_error f xs c' else (r, c'))"

definition struct_fields :: "json \<Rightarrow> payload option" where
  "struct_fields j = (case j of JObj (f # fs) \<Rightarrow> Some (f # fs) | _ \<Rightarrow> None)"

text \<open>
  The bodies of \<open>_validate_leaf\<close> and \<open>validate_typed_property_value\<close>, over what they call;
  \<open>lenient\<close> is \<open>allow_unknown_struct_fields\<close>.
\<close>

type_synonym verdict = "(py_exc, value_error option) result \<times> type_cache option"

type_synonym leaf_check = "string \<Rightarrow> payload \<Rightarrow> json \<Rightarrow> type_cache option \<Rightarrow> verdict"

definition check_named_type ::
  "stdlib \<Rightarrow> type_registry \<Rightarrow> string \<Rightarrow> string option \<Rightarrow> json \<Rightarrow> type_cache option \<Rightarrow> verdict" where
  "check_named_type lib reg pname name v cache =
     (case cached_get_value_type reg name cache of (vt, cache1) \<Rightarrow>
        (case vt of None \<Rightarrow> Inr (Some (UnknownValueType pname)) | Some t \<Rightarrow> validate_value lib v t, cache1))"

definition struct_rule :: "payload \<Rightarrow> payload" where
  "struct_rule fs = [(''kind'', JStr ''struct''), (''properties'', JObj fs)]"

definition leaf_body :: "leaf_check \<Rightarrow> stdlib \<Rightarrow> type_registry \<Rightarrow> leaf_check" where
  "leaf_body typed lib reg pname rule v cache =
     (let kind = obj_get rule ''kind'' in
      if kind = JStr ''value_type'' then check_named_type lib reg pname (name_of (obj_get rule ''value_type'')) v cache
      else if kind = JStr ''shared_property_type'' then
        (case cached_get_shared_property_type reg (name_of (obj_get rule ''shared_property_type'')) cache of (spt, cache1) \<Rightarrow>
           case spt of
             None \<Rightarrow> (Inr (Some (UnknownSharedPropertyType pname)), cache1)
           | Some sp \<Rightarrow>
               (case struct_fields (sp_struct_properties sp) of
                  Some fs \<Rightarrow> typed pname (struct_rule fs) v cache1
                | None \<Rightarrow> check_named_type lib reg pname (sp_value_type sp) v cache1))
      else (Inr (Some (UnsupportedNestedKind pname)), cache))"

definition check_field :: "leaf_check \<Rightarrow> string \<Rightarrow> payload \<Rightarrow> string \<times> json \<Rightarrow> type_cache option \<Rightarrow> verdict" where
  "check_field leaf pname d field cache =
     (case dict_get d (fst field) of
        None \<Rightarrow> (Inr None, cache)
      | Some x \<Rightarrow>
          (case snd field of
             JObj fr \<Rightarrow> leaf (pname @ ''.'' @ fst field) fr x cache
           | _ \<Rightarrow> (Inr (Some (InvalidRule (pname @ ''.'' @ fst field))), cache)))"

definition check_struct :: "leaf_check \<Rightarrow> bool \<Rightarrow> leaf_check" where
  "check_struct leaf lenient pname rule v cache =
     (case v of
        JObj d \<Rightarrow>
          (case struct_fields (obj_get rule ''properties'') of
             None \<Rightarrow> (Inr (Some (EmptyStruct pname)), cache)
           | Some fs \<Rightarrow>
               if \<not> set (map fst d) \<subseteq> set (map fst fs) \<and> \<not> lenient
               then (Inr (Some (UnknownFields pname)), cache)
               else first_error (check_field leaf pname d) fs cache)
      | _ \<Rightarrow> (Inr (Some (Expects pname ''a struct object'')), cache))"

definition check_element :: "leaf_check \<Rightarrow> leaf_check \<Rightarrow> string \<Rightarrow> payload \<Rightarrow> nat \<times> json \<Rightarrow> type_cache option \<Rightarrow> verdict" where
  "check_element leaf typed pname el ix =
     (if obj_get el ''kind'' = JStr ''struct'' then typed else leaf)
       (pname @ ''['' @ show_nat (fst ix) @ '']'') el (snd ix)"

definition check_array :: "leaf_check \<Rightarrow> leaf_check \<Rightarrow> stdlib \<Rightarrow> leaf_check" where
  "check_array leaf typed lib pname rule v cache =
     (case v of
        JList xs \<Rightarrow>
          if truthy (obj_get rule ''unique_elements'') \<and> \<not> distinct (map (json_dumps lib) xs)
          then (Inr (Some (DuplicateElements pname)), cache)
          else (case obj_get rule ''element'' of
                  JObj el \<Rightarrow> first_error (check_element leaf typed pname el) (List.enumerate 0 xs) cache
                | _ \<Rightarrow> (Inr (Some (InvalidRule pname)), cache))
      | _ \<Rightarrow> (Inr (Some (Expects pname ''an array'')), cache))"

definition typed_body :: "leaf_check \<Rightarrow> leaf_check \<Rightarrow> stdlib \<Rightarrow> bool \<Rightarrow> leaf_check" where
  "typed_body leaf typed lib lenient pname rule raw cache =
     (let kind = obj_get rule ''kind''; v = coerce_jsonish lib raw in
      if raw = JNull \<or> kind = JNull then (Inr None, cache)
      else if kind = JStr ''value_type'' \<or> kind = JStr ''shared_property_type'' then leaf pname rule v cache
      else if kind = JStr ''struct'' then check_struct leaf lenient pname rule v cache
      else if kind = JStr ''array'' then check_array leaf typed lib pname rule v cache
      else (Inr None, cache))"

text \<open>The first argument counts the nested calls left before the interpreter's recursion limit.\<close>

fun validate_leaf :: "nat \<Rightarrow> stdlib \<Rightarrow> type_registry \<Rightarrow> leaf_check"
  and validate_typed_property_value :: "nat \<Rightarrow> stdlib \<Rightarrow> type_registry \<Rightarrow> bool \<Rightarrow> leaf_check" where
  "validate_leaf 0 lib reg = (\<lambda>pname rule v cache. (Inl RecursionError, cache))"
| "validate_leaf (Suc n) lib reg = leaf_body (validate_typed_property_value n lib reg False) lib reg"
| "validate_typed_property_value 0 lib reg lenient = (\<lambda>pname rule v cache. (Inl RecursionError, cache))"
| "validate_typed_property_value (Suc n) lib reg lenient =
     typed_body (validate_leaf n lib reg) (validate_typed_property_value n lib reg lenient) lib lenient"

section \<open>Rows and batches\<close>

definition row_error ::
  "nat \<Rightarrow> stdlib \<Rightarrow> type_registry \<Rightarrow> (string, string) dict \<Rightarrow> payload \<Rightarrow> string \<times> json \<Rightarrow> type_cache option
     \<Rightarrow> (py_exc, value_error option) result \<times> type_cache option" where
  "row_error n lib reg mapping row nr cache =
     (case nr of (pname, rule_json) \<Rightarrow>
        case rule_json of
          JObj rule \<Rightarrow>
            if \<not> truthy (obj_get rule ''kind'') then (Inr None, cache)
            else (case dict_get mapping pname of
                    None \<Rightarrow> (Inr None, cache)
                  | Some col \<Rightarrow>
                      (case dict_get row col of
                         None \<Rightarrow> (Inr None, cache)
                       | Some v \<Rightarrow> validate_typed_property_value n lib reg True pname rule v cache))
        | _ \<Rightarrow> (Inr None, cache))"

fun collect_errors ::
  "('a \<Rightarrow> 'c \<Rightarrow> (py_exc, value_error option) result \<times> 'c) \<Rightarrow> 'a list \<Rightarrow> 'c \<Rightarrow> (py_exc, value_error list) result \<times> 'c" where
  "collect_errors f [] c = (Inr [], c)"
| "collect_errors f (x # xs) c =
     (case f x c of
        (Inl e, c') \<Rightarrow> (Inl e, c')
      | (Inr err, c') \<Rightarrow>
          (case collect_errors f xs c' of
             (Inl e, c'') \<Rightarrow> (Inl e, c'')
           | (Inr es, c'') \<Rightarrow> (Inr (case err of None \<Rightarrow> es | Some e \<Rightarrow> e # es), c'')))"

definition validate_object_row ::
  "nat \<Rightarrow> stdlib \<Rightarrow> type_registry \<Rightarrow> (string, string) dict \<Rightarrow> payload \<Rightarrow> payload \<Rightarrow> type_cache option
     \<Rightarrow> (py_exc, value_error list) result \<times> type_cache option" where
  "validate_object_row n lib reg mapping ptypes row cache =
     collect_errors (row_error n lib reg mapping row) ptypes cache"

fun partition_loop ::
  "(payload \<Rightarrow> 'c \<Rightarrow> (py_exc, value_error list) result \<times> 'c) \<Rightarrow> payload list \<Rightarrow> 'c
     \<Rightarrow> (py_exc, payload list \<times> payload list) result" where
  "partition_loop check [] c = Inr ([], [])"
| "partition_loop check (row # rows) c =
     (case check row c of
        (Inl e, c') \<Rightarrow> Inl e
      | (Inr errs, c') \<Rightarrow>
          rbind (partition_loop check rows c') (\<lambda>(valid, invalid).
            Inr (if errs \<noteq> [] then (valid, row # invalid) else (row # valid, invalid))))"

definition partition_rows_by_property_types ::
  "nat \<Rightarrow> stdlib \<Rightarrow> type_registry \<Rightarrow> (string, string) dict \<Rightarrow> payload \<Rightarrow> payload list
     \<Rightarrow> (py_exc, payload list \<times> payload list) result" where
  "partition_rows_by_property_types n lib reg mapping ptypes rows =
     (if ptypes = [] \<or> rows = [] then Inr (rows, [])
      else partition_loop (validate_object_row n lib reg mapping ptypes) rows (Some ([], [])))"

text \<open>Pipeline casts: (row, column, detail), the detail \<open>UnknownValueType\<close> for an unknown name.\<close>

definition cast_error ::
  "stdlib \<Rightarrow> type_registry \<Rightarrow> payload \<Rightarrow> string \<times> string \<Rightarrow> (py_exc, value_error option) result" where
  "cast_error lib reg row cn =
     (case dict_get row (fst cn) of
        None \<Rightarrow> Inr None
      | Some v \<Rightarrow>
          (case get_value_type reg (Some (snd cn)) of
             None \<Rightarrow> Inr (Some (UnknownValueType (snd cn)))
           | Some vt \<Rightarrow> if v = JNull then Inr None else validate_value lib v vt))"

fun validate_value_type_casts ::
  "stdlib \<Rightarrow> type_registry \<Rightarrow> (string \<times> string) list \<Rightarrow> payload \<Rightarrow> nat \<Rightarrow> (py_exc, (nat \<times> string \<times> value_error) list) result" where
  "validate_value_type_casts lib reg [] row i = Inr []"
| "validate_value_type_casts lib reg (cn # cs) row i =
     rbind (cast_error lib reg row cn) (\<lambda>e.
     rbind (validate_value_type_casts lib reg cs row i) (\<lambda>es.
       Inr (case e of None \<Rightarrow> es | Some d \<Rightarrow> (i, fst cn, d) # es)))"

section \<open>The batch cache is transparent\<close>

text \<open>No type is named by the empty string: a missing name and the empty one find the same.\<close>

definition nameless_agree :: "type_registry \<Rightarrow> bool" where
  "nameless_agree reg \<longleftrightarrow> get_value_type reg None = get_value_type reg (Some []) \<and>
     get_shared_property_type reg None = get_shared_property_type reg (Some [])"

definition cache_ok :: "type_registry \<Rightarrow> type_cache option \<Rightarrow> bool" where
  "cache_ok reg cache \<longleftrightarrow>
     (case cache of
        None \<Rightarrow> True
      | Some (vts, spts) \<Rightarrow> (\<forall>k v. dict_get vts k = Some v \<longrightarrow> v = get_value_type reg (Some k)) \<and>
          (\<forall>k v. dict_get spts k = Some v \<longrightarrow> v = get_shared_property_type reg (Some k)))"

definition transparent :: "type_registry \<Rightarrow> (type_cache option \<Rightarrow> 'r \<times> type_cache option) \<Rightarrow> bool" where
  "transparent reg f \<longleftrightarrow> (\<forall>c. cache_ok reg c \<longrightarrow> fst (f c) = fst (f None) \<and> cache_ok reg (snd (f c)))"

lemma transparentI:
  "(\<And>c. cache_ok reg c \<Longrightarrow> fst (f c) = fst (f None)) \<Longrightarrow> (\<And>c. cache_ok reg c \<Longrightarrow> cache_ok reg (snd (f c))) \<Longrightarrow>
   transparent reg f"
  by (simp add: transparent_def)

lemma transparentD:
  "transparent reg f \<Longrightarrow> cache_ok reg c \<Longrightarrow> fst (f c) = fst (f None) \<and> cache_ok reg (snd (f c))"
  by (simp add: transparent_def)

lemma cache_ok_None [simp]: "cache_ok reg None"
  by (simp add: cache_ok_def)

lemma transparent_const [simp, intro]: "transparent reg (\<lambda>c. (r, c))"
  by (simp add: transparent_def)

lemma transparent_if:
  "transparent reg f \<Longrightarrow> transparent reg g \<Longrightarrow> transparent reg (\<lambda>c. if b then f c else g c)"
  by (cases b) simp_all

lemma transparent_option:
  "transparent reg f \<Longrightarrow> (\<And>x. transparent reg (g x)) \<Longrightarrow> transparent reg (\<lambda>c. case z of None \<Rightarrow> f c | Some x \<Rightarrow> g x c)"
  by (cases z) simp_all

lemma transparent_case:
  assumes "transparent reg f" "\<And>x. transparent reg (g x)"
  shows "transparent reg (\<lambda>c. case f c of (x, c') \<Rightarrow> g x c')"
proof (rule transparentI)
  fix c assume c: "cache_ok reg c"
  obtain x c' where fc: "f c = (x, c')" by fastforce
  obtain y c0 where f0: "f None = (y, c0)" by fastforce
  have xy: "x = y" "cache_ok reg c'" "cache_ok reg c0"
    using transparentD [OF assms(1) c] transparentD [OF assms(1) cache_ok_None] by (simp_all add: fc f0)
  show "fst (case f c of (x, c') \<Rightarrow> g x c') = fst (case f None of (x, c') \<Rightarrow> g x c')"
    using transparentD [OF assms(2) xy(2), of y] transparentD [OF assms(2) xy(3), of y] by (simp add: fc f0 xy(1))
  show "cache_ok reg (snd (case f c of (x, c') \<Rightarrow> g x c'))"
    using transparentD [OF assms(2) xy(2), of x] by (simp add: fc)
qed

lemma transparent_lookups:
  assumes "nameless_agree reg"
  shows "transparent reg (cached_get_value_type reg name)" "transparent reg (cached_get_shared_property_type reg name)"
  using assms
  by (auto simp: transparent_def cached_get_value_type_def cached_get_shared_property_type_def cached_def cache_ok_def
      nameless_agree_def Let_def split: option.splits prod.splits)

lemma transparent_first_error:
  "(\<And>x. x \<in> set xs \<Longrightarrow> transparent reg (f x)) \<Longrightarrow> transparent reg (first_error f xs)"
proof (induction xs)
  case Nil
  show ?case by (simp add: transparent_def)
next
  case (Cons x xs)
  then have "transparent reg (\<lambda>c. case f x c of (r, c') \<Rightarrow> (if r = Inr None then first_error f xs else Pair r) c')"
    by (intro transparent_case) auto
  moreover have "first_error f (x # xs) = (\<lambda>c. case f x c of (r, c') \<Rightarrow> (if r = Inr None then first_error f xs else Pair r) c')"
    by (rule ext) (simp split: prod.splits)
  ultimately show ?case by simp
qed

lemma transparent_named: "nameless_agree reg \<Longrightarrow> transparent reg (check_named_type lib reg pname name v)"
  unfolding check_named_type_def by (intro transparent_case transparent_lookups transparent_const) simp_all

lemma transparent_leaf_body:
  assumes "nameless_agree reg" "\<And>p r v. transparent reg (typed p r v)"
  shows "transparent reg (leaf_body typed lib reg pname rule v)"
proof -
  have spt: "transparent reg (\<lambda>c. case cached_get_shared_property_type reg nm c of (spt, c1) \<Rightarrow>
      (case spt of None \<Rightarrow> Pair (Inr (Some (UnknownSharedPropertyType pname)))
       | Some sp \<Rightarrow> (case struct_fields (sp_struct_properties sp) of
           Some fs \<Rightarrow> typed pname (struct_rule fs) v | None \<Rightarrow> check_named_type lib reg pname (sp_value_type sp) v)) c1)" for nm
    using assms by (intro transparent_case transparent_lookups) (auto intro: transparent_named split: option.splits)
  have "leaf_body typed lib reg pname rule v =
      (if obj_get rule ''kind'' = JStr ''value_type''
       then check_named_type lib reg pname (name_of (obj_get rule ''value_type'')) v
       else if obj_get rule ''kind'' = JStr ''shared_property_type''
       then (\<lambda>c. case cached_get_shared_property_type reg (name_of (obj_get rule ''shared_property_type'')) c of (spt, c1) \<Rightarrow>
          (case spt of None \<Rightarrow> Pair (Inr (Some (UnknownSharedPropertyType pname)))
           | Some sp \<Rightarrow> (case struct_fields (sp_struct_properties sp) of
               Some fs \<Rightarrow> typed pname (struct_rule fs) v | None \<Rightarrow> check_named_type lib reg pname (sp_value_type sp) v)) c1)
       else Pair (Inr (Some (UnsupportedNestedKind pname))))"
    by (rule ext) (simp add: leaf_body_def Let_def split: option.splits prod.splits)
  with spt transparent_named [OF assms(1)] show ?thesis by simp
qed

lemma transparent_field:
  "(\<And>p r v. transparent reg (leaf p r v)) \<Longrightarrow> transparent reg (check_field leaf pname d field)"
  unfolding check_field_def [abs_def] by (cases "dict_get d (fst field)"; cases "snd field") simp_all

lemma transparent_typed_body:
  assumes leaf: "\<And>p r v. transparent reg (leaf p r v)" and typed: "\<And>p r v. transparent reg (typed p r v)"
  shows "transparent reg (typed_body leaf typed lib lenient pname rule raw)"
proof -
  have s: "transparent reg (check_struct leaf lenient pname rule v)" for v
    unfolding check_struct_def [abs_def] using leaf
    by (cases v; cases "struct_fields (obj_get rule ''properties'')")
       (auto intro!: transparent_if transparent_first_error transparent_field)
  have "transparent reg (check_element leaf typed pname el ix)" for el ix
    using leaf typed by (simp add: check_element_def)
  then have "transparent reg (check_array leaf typed lib pname rule v)" for v
    unfolding check_array_def [abs_def]
    by (cases v; cases "obj_get rule ''element''") (auto intro!: transparent_if transparent_first_error)
  with s leaf show ?thesis
    unfolding typed_body_def [abs_def] Let_def by (intro transparent_if transparent_const)
qed

lemma transparent_validators:
  assumes "nameless_agree reg"
  shows "transparent reg (validate_leaf n lib reg pname rule v)"
    "transparent reg (validate_typed_property_value n lib reg lenient pname rule v)"
proof -
  have "(\<forall>pname rule v. transparent reg (validate_leaf n lib reg pname rule v)) \<and>
    (\<forall>lenient pname rule v. transparent reg (validate_typed_property_value n lib reg lenient pname rule v))"
  proof (induction n)
    case (Suc n)
    then show ?case using assms by (auto intro!: transparent_leaf_body transparent_typed_body)
  qed auto
  then show "transparent reg (validate_leaf n lib reg pname rule v)"
    "transparent reg (validate_typed_property_value n lib reg lenient pname rule v)" by blast+
qed

definition add_error :: "value_error option \<Rightarrow> (py_exc, value_error list) result \<Rightarrow> (py_exc, value_error list) result" where
  "add_error err q = rbind q (\<lambda>es. Inr (case err of None \<Rightarrow> es | Some e \<Rightarrow> e # es))"

lemma collect_errors_step:
  "collect_errors f (x # xs) = (\<lambda>c. case f x c of (r, c1) \<Rightarrow>
     (case r of Inl e \<Rightarrow> Pair (Inl e) | Inr err \<Rightarrow> (\<lambda>c1. case collect_errors f xs c1 of (q, c2) \<Rightarrow> (add_error err q, c2))) c1)"
  by (rule ext) (auto simp: add_error_def split: prod.splits sum.splits)

lemma transparent_collect:
  "(\<And>x. transparent reg (f x)) \<Longrightarrow> transparent reg (collect_errors f xs)"
proof (induction xs)
  case Nil
  show ?case by (simp add: transparent_def)
next
  case (Cons x xs)
  have "transparent reg (\<lambda>c. case collect_errors f xs c of (q, c2) \<Rightarrow> (add_error err q, c2))" for err
    by (intro transparent_case Cons transparent_const)
  then show ?case
    unfolding collect_errors_step by (intro transparent_case Cons.prems) (auto split: sum.splits)
qed

lemma transparent_row:
  assumes "nameless_agree reg"
  shows "transparent reg (validate_object_row n lib reg mapping ptypes row)"
proof -
  have "transparent reg (row_error n lib reg mapping row nr)" for nr
  proof (cases nr)
    case (Pair pname rj)
    show ?thesis
      unfolding row_error_def [abs_def] Pair
      by (cases rj) (auto intro!: transparent_if transparent_option transparent_validators [OF assms])
  qed
  then show ?thesis unfolding validate_object_row_def [abs_def] by (rule transparent_collect)
qed

definition row_valid :: "nat \<Rightarrow> stdlib \<Rightarrow> type_registry \<Rightarrow> (string, string) dict \<Rightarrow> payload \<Rightarrow> payload \<Rightarrow> bool" where
  "row_valid n lib reg mapping ptypes row = (fst (validate_object_row n lib reg mapping ptypes row None) = Inr [])"

lemma partition_loop_transparent:
  assumes "\<And>row. transparent reg (check row)" "\<forall>row \<in> set rows. is_ok (fst (check row None))" "cache_ok reg c"
  shows "partition_loop check rows c =
    Inr (filter (\<lambda>row. fst (check row None) = Inr []) rows, filter (\<lambda>row. fst (check row None) \<noteq> Inr []) rows)"
  using assms(2,3)
proof (induction rows arbitrary: c)
  case (Cons row rows)
  obtain r c' where rc: "check row c = (r, c')" by fastforce
  have r: "fst (check row None) = r" "cache_ok reg c'"
    using transparentD [OF assms(1) Cons.prems(2), of row] by (simp_all add: rc)
  from this(1) Cons.prems(1) obtain es where "r = Inr es" by (auto simp: is_ok_iff)
  with Cons.IH [of c'] Cons.prems(1) r show ?case by (simp add: rc)
qed simp

text \<open>
  C31. The batch partition, which shares one cache of type look-ups between all rows, gives what
  validating every row on its own without a cache gives: the valid rows and the invalid rows,
  each in their order, together all rows. This holds when no row makes a validator raise and
  nothing is registered under the empty name, which the cache does not tell from a missing one.
\<close>

theorem partition_cache_transparent:
  assumes "nameless_agree reg" "\<forall>row \<in> set rows. is_ok (fst (validate_object_row n lib reg mapping ptypes row None))"
  shows "partition_rows_by_property_types n lib reg mapping ptypes rows =
    Inr (filter (row_valid n lib reg mapping ptypes) rows, filter (\<lambda>row. \<not> row_valid n lib reg mapping ptypes row) rows)"
proof (cases "ptypes = [] \<or> rows = []")
  case True
  then have "row_valid n lib reg mapping ptypes row" if "row \<in> set rows" for row
    using that by (auto simp: row_valid_def validate_object_row_def)
  with True show ?thesis by (auto simp: partition_rows_by_property_types_def cong: filter_cong)
next
  case False
  have "cache_ok reg (Some ([], []))" by (simp add: cache_ok_def)
  with False partition_loop_transparent [OF transparent_row [OF assms(1)] assms(2)] show ?thesis
    by (simp add: partition_rows_by_property_types_def row_valid_def [abs_def])
qed

definition plain_lib :: stdlib where
  "plain_lib = \<lparr>date_fromisoformat = (\<lambda>s. length s = 10), datetime_fromisoformat = (\<lambda>s. 10 \<le> length s),
     re_search = (\<lambda>r s. contains s r), re_fullmatch = (\<lambda>r s. r = s), uuid_text = (\<lambda>s. length s = 36),
     json_loads = (\<lambda>s. if s = ''{}'' then Some (JObj []) else None), json_dumps = (\<lambda>_. ''''),
     py_str = (\<lambda>v. case v of JStr s \<Rightarrow> s | _ \<Rightarrow> '''')\<rparr>"

definition age_registry :: type_registry where
  "age_registry = \<lparr>get_value_type = (\<lambda>n. if n = Some ''age'' then Some \<lparr>vt_name = ''age'', vt_base_type = ''integer'',
       vt_format_regex = None, vt_format_regex_match = None,
       vt_constraints = [JObj [(''kind'', JStr ''range''), (''min'', JInt 0)]]\<rparr> else None),
     get_shared_property_type = (\<lambda>n. if n = Some ''years'' then Some \<lparr>sp_api_name = ''years'', sp_value_type = Some ''age'',
       sp_struct_properties = JNull\<rparr> else None)\<rparr>"

definition age_rules :: payload where
  "age_rules = [(''age'', JObj [(''kind'', JStr ''shared_property_type''), (''shared_property_type'', JStr ''years'')])]"

theorem partition_cache_transparent_witness:
  "partition_rows_by_property_types 3 plain_lib age_registry [(''age'', ''a'')] age_rules
     [[(''a'', JInt 3)], [(''a'', JInt (- 3))], [(''a'', JBool True)]] =
     Inr ([[(''a'', JInt 3)]], [[(''a'', JInt (- 3))], [(''a'', JBool True)]])"
proof -
  have "nameless_agree age_registry" by (simp add: nameless_agree_def age_registry_def)
  moreover have "\<forall>row \<in> set [[(''a'', JInt 3)], [(''a'', JInt (- 3))], [(''a'', JBool True)]].
      is_ok (fst (validate_object_row 3 plain_lib age_registry [(''age'', ''a'')] age_rules row None))"
    by code_simp
  moreover have "row_valid 3 plain_lib age_registry [(''age'', ''a'')] age_rules [(''a'', JInt 3)]"
    "\<not> row_valid 3 plain_lib age_registry [(''age'', ''a'')] age_rules [(''a'', JInt (- 3))]"
    "\<not> row_valid 3 plain_lib age_registry [(''age'', ''a'')] age_rules [(''a'', JBool True)]"
    by code_simp+
  ultimately show ?thesis by (subst partition_cache_transparent) simp_all
qed

end
