(* ===== verification/Holon_Shared_Types.thy ===== *)
theory Holon_Shared_Types
  imports Holon_Value_Types
begin

text \<open>
  The registry of shared property types (\<open>shared_property_types.py\<close>) and what deleting one does
  to the object types that use it (\<open>shared_property_detach.py\<close>). The database of one tenant
  holds the value types, the shared property types and the \<open>property_types\<close> of every object
  type. Presentation metadata (visibility, hints, classes, formats) and drafts are left out:
  validation does not read them.
\<close>

section \<open>The registry\<close>

record type_db =
  td_value_types :: "(string, value_type) dict"
  td_shared :: "(string, shared_property_type) dict"
  td_object_types :: "(string, payload) dict"

definition registry_of :: "type_db \<Rightarrow> type_registry" where
  "registry_of db =
     \<lparr>get_value_type = (\<lambda>n. case n of None \<Rightarrow> None | Some s \<Rightarrow> dict_get (td_value_types db) s),
      get_shared_property_type = (\<lambda>n. case n of None \<Rightarrow> None | Some s \<Rightarrow> dict_get (td_shared db) s)\<rparr>"

datatype shared_error =
    BothGiven
  | StructNotObject
  | EmptyStructProperties
  | EmptyFieldName
  | NotALeaf string
  | BadDescription string
  | BadMainField string
  | ColumnNotAllowed string
  | FieldUnknownValueType string
  | FieldUnknownShared string
  | NestedStruct string
  | ValueTypeRequired
  | NoSuchValueType string
  | AlreadyExists string
  | UnknownShared string
  | NoDefinition string
  | StructTypedLeaf string

definition is_JStr :: "json \<Rightarrow> bool" where
  "is_JStr j = (case j of JStr _ \<Rightarrow> True | _ \<Rightarrow> False)"

definition is_JBool :: "json \<Rightarrow> bool" where
  "is_JBool j = (case j of JBool _ \<Rightarrow> True | _ \<Rightarrow> False)"

definition validate_struct_field :: "string \<times> json \<Rightarrow> (shared_error, unit) result" where
  "validate_struct_field fr =
     (case fr of (fname, rule_json) \<Rightarrow>
        if py_strip fname = [] then Inl EmptyFieldName
        else (case rule_json of
                JObj rule \<Rightarrow>
                  if obj_get rule ''kind'' \<noteq> JStr ''value_type'' \<and> obj_get rule ''kind'' \<noteq> JStr ''shared_property_type''
                  then Inl (NotALeaf fname)
                  else rbind (raise_if (case dict_get rule ''description'' of None \<Rightarrow> False | Some d \<Rightarrow> \<not> is_JStr d) (BadDescription fname)) (\<lambda>_.
                       rbind (raise_if (case dict_get rule ''main_field'' of None \<Rightarrow> False | Some d \<Rightarrow> \<not> is_JBool d) (BadMainField fname)) (\<lambda>_.
                       raise_if (dict_get rule ''column'' \<noteq> None) (ColumnNotAllowed fname)))
              | _ \<Rightarrow> Inl (NotALeaf fname)))"

definition validate_struct_properties :: "payload \<Rightarrow> (shared_error, unit) result" where
  "validate_struct_properties sp = (if sp = [] then Inl EmptyStructProperties else each_ok validate_struct_field sp)"

text \<open>The names a field refers to must exist, and a shared one must not be a struct.\<close>

definition resolve_struct_field :: "type_db \<Rightarrow> string \<times> json \<Rightarrow> (shared_error, unit) result" where
  "resolve_struct_field db fr =
     (case fr of (fname, rule_json) \<Rightarrow>
        let rule = (case rule_json of JObj r \<Rightarrow> r | _ \<Rightarrow> []) in
        if obj_get rule ''kind'' = JStr ''value_type''
        then raise_if (get_value_type (registry_of db) (name_of (obj_get rule ''value_type'')) = None) (FieldUnknownValueType fname)
        else (case get_shared_property_type (registry_of db) (name_of (obj_get rule ''shared_property_type'')) of
                None \<Rightarrow> Inl (FieldUnknownShared fname)
              | Some nested \<Rightarrow> raise_if (truthy (sp_struct_properties nested)) (NestedStruct fname)))"

definition insert_shared :: "shared_property_type \<Rightarrow> type_db \<Rightarrow> (shared_error, type_db) result" where
  "insert_shared sp db =
     (if dict_get (td_shared db) (sp_api_name sp) \<noteq> None then Inl (AlreadyExists (sp_api_name sp))
      else Inr (db\<lparr>td_shared := dict_set (sp_api_name sp) sp (td_shared db)\<rparr>))"

definition create_shared_property_type ::
  "string \<Rightarrow> string option \<Rightarrow> json option \<Rightarrow> type_db \<Rightarrow> (shared_error, type_db) result" where
  "create_shared_property_type api_name vt struct_properties db =
     (let given = (vt \<noteq> None \<and> vt \<noteq> Some []) in
      case struct_properties of
        Some sj \<Rightarrow>
          if given then Inl BothGiven
          else (case sj of
                  JObj fs \<Rightarrow>
                    rbind (validate_struct_properties fs) (\<lambda>_.
                    rbind (each_ok (resolve_struct_field db) fs) (\<lambda>_.
                      insert_shared \<lparr>sp_api_name = api_name, sp_value_type = None, sp_struct_properties = JObj fs\<rparr> db))
                | _ \<Rightarrow> Inl StructNotObject)
      | None \<Rightarrow>
          if \<not> given then Inl ValueTypeRequired
          else if get_value_type (registry_of db) vt = None then Inl (NoSuchValueType (the vt))
          else insert_shared \<lparr>sp_api_name = api_name, sp_value_type = vt, sp_struct_properties = JNull\<rparr> db)"

section \<open>Detaching\<close>

definition leaf_names :: "string \<Rightarrow> json \<Rightarrow> bool" where
  "leaf_names a leaf =
     (case leaf of
        JObj r \<Rightarrow> obj_get r ''kind'' = JStr ''shared_property_type'' \<and> obj_get r ''shared_property_type'' = JStr a
      | _ \<Rightarrow> False)"

definition struct_names :: "string \<Rightarrow> json \<Rightarrow> bool" where
  "struct_names a rule_json =
     (case rule_json of
        JObj r \<Rightarrow> obj_get r ''kind'' = JStr ''struct'' \<and>
          (case obj_get r ''properties'' of JObj fs \<Rightarrow> list_ex (\<lambda>f. leaf_names a (snd f)) fs | _ \<Rightarrow> False)
      | _ \<Rightarrow> False)"

definition rule_references :: "string \<Rightarrow> json \<Rightarrow> bool" where
  "rule_references a rule_json \<longleftrightarrow>
     leaf_names a rule_json \<or> struct_names a rule_json \<or>
     (case rule_json of
        JObj r \<Rightarrow> obj_get r ''kind'' = JStr ''array'' \<and>
          (leaf_names a (obj_get r ''element'') \<or> struct_names a (obj_get r ''element''))
      | _ \<Rightarrow> False)"

definition property_types_reference_spt :: "payload \<Rightarrow> string \<Rightarrow> bool" where
  "property_types_reference_spt ptypes a = list_ex (\<lambda>p. rule_references a (snd p)) ptypes"

definition value_type_rule :: "string \<Rightarrow> payload" where
  "value_type_rule vt = [(''kind'', JStr ''value_type''), (''value_type'', JStr vt)]"

definition named_value_type :: "shared_property_type \<Rightarrow> string option" where
  "named_value_type sp = (case sp_value_type sp of Some (c # cs) \<Rightarrow> Some (c # cs) | _ \<Rightarrow> None)"

definition local_rule_from_spt :: "shared_property_type \<Rightarrow> (shared_error, json) result" where
  "local_rule_from_spt sp =
     (case struct_fields (sp_struct_properties sp) of
        Some fs \<Rightarrow> Inr (JObj (struct_rule fs))
      | None \<Rightarrow>
          (case named_value_type sp of
             Some vt \<Rightarrow> Inr (JObj (value_type_rule vt))
           | None \<Rightarrow> Inl (NoDefinition (sp_api_name sp))))"

text \<open>One field of a struct: a leaf naming the type becomes a value-type leaf with its description and main-field mark.\<close>

definition detach_field :: "string \<Rightarrow> shared_property_type \<Rightarrow> string \<times> json \<Rightarrow> (shared_error, string \<times> json) result" where
  "detach_field a sp fr =
     (if leaf_names a (snd fr) then
        (case named_value_type sp of
           None \<Rightarrow> Inl (StructTypedLeaf (fst fr))
         | Some vt \<Rightarrow>
             (let leaf = (case snd fr of JObj r \<Rightarrow> r | _ \<Rightarrow> []);
                  keep = (\<lambda>k v d. if truthy (obj_get leaf k) then d @ [(k, v)] else d)
              in Inr (fst fr, JObj (keep ''main_field'' (JBool True)
                   (keep ''description'' (obj_get leaf ''description'') (value_type_rule vt))))))
      else Inr fr)"

definition detach_struct :: "string \<Rightarrow> shared_property_type \<Rightarrow> payload \<Rightarrow> (shared_error, json) result" where
  "detach_struct a sp r =
     (let properties = obj_get r ''properties'' in
      case (if truthy properties then properties else JObj []) of
        JObj fs \<Rightarrow> rbind (each_result (detach_field a sp) fs) (\<lambda>fs'. Inr (JObj (dict_set ''properties'' (JObj fs') r)))
      | _ \<Rightarrow> Inr (JObj r))"

function detach_spt_from_rule :: "string \<Rightarrow> shared_property_type \<Rightarrow> json \<Rightarrow> (shared_error, json) result" where
  "detach_spt_from_rule a sp rule_json =
     (case rule_json of
        JObj r \<Rightarrow>
          if leaf_names a rule_json then local_rule_from_spt sp
          else if obj_get r ''kind'' = JStr ''struct'' then detach_struct a sp r
          else if obj_get r ''kind'' = JStr ''array'' then
            (case dict_get r ''element'' of
               Some (JObj el) \<Rightarrow>
                 rbind (detach_spt_from_rule a sp (JObj el)) (\<lambda>el'. Inr (JObj (dict_set ''element'' el' r)))
             | _ \<Rightarrow> Inr rule_json)
          else Inr rule_json
      | _ \<Rightarrow> Inr rule_json)"
  by auto
termination
  by (relation "measure (\<lambda>(a, sp, j). size j)") (use member_smaller in \<open>auto simp del: json.size(14)\<close>)

declare detach_spt_from_rule.simps [simp del]

definition detach_spt_from_property_types :: "string \<Rightarrow> shared_property_type \<Rightarrow> payload \<Rightarrow> (shared_error, payload) result" where
  "detach_spt_from_property_types a sp ptypes =
     each_result (\<lambda>(p, r). rbind (detach_spt_from_rule a sp r) (\<lambda>r'. Inr (p, r'))) ptypes"

definition apply_detach_to_object_type :: "string \<Rightarrow> shared_property_type \<Rightarrow> payload \<Rightarrow> (shared_error, payload) result" where
  "apply_detach_to_object_type a sp ptypes =
     (if property_types_reference_spt ptypes a then detach_spt_from_property_types a sp ptypes else Inr ptypes)"

definition delete_shared_property_type :: "string \<Rightarrow> type_db \<Rightarrow> (shared_error, type_db) result" where
  "delete_shared_property_type a db =
     (case dict_get (td_shared db) a of
        None \<Rightarrow> Inl (UnknownShared a)
      | Some sp \<Rightarrow>
          rbind (each_result (\<lambda>(ot, ptypes). rbind (apply_detach_to_object_type a sp ptypes) (\<lambda>ptypes'. Inr (ot, ptypes')))
                  (td_object_types db)) (\<lambda>ots.
            Inr (db\<lparr>td_object_types := ots, td_shared := dict_pop a (td_shared db)\<rparr>)))"

section \<open>Recursion depth\<close>

text \<open>The verdict of a check does not change when its callee is replaced by one that does not run out of stack.\<close>

definition extends :: "leaf_check \<Rightarrow> leaf_check \<Rightarrow> bool" where
  "extends f g \<longleftrightarrow> (\<forall>p r v c. fst (f p r v c) \<noteq> Inl RecursionError \<longrightarrow> g p r v c = f p r v c)"

lemma extendsD: "extends f g \<Longrightarrow> fst (f p r v c) \<noteq> Inl RecursionError \<Longrightarrow> g p r v c = f p r v c"
  by (simp add: extends_def)

lemma first_error_extends:
  assumes "\<And>x c. fst (f x c) \<noteq> Inl RecursionError \<Longrightarrow> g x c = f x c"
  shows "fst (first_error f xs c) \<noteq> Inl RecursionError \<Longrightarrow> first_error g xs c = first_error f xs c"
proof (induction xs arbitrary: c)
  case (Cons x xs)
  obtain r c' where fx: "f x c = (r, c')" by fastforce
  from Cons.prems have "fst (f x c) \<noteq> Inl RecursionError" by (auto simp: fx split: if_splits)
  then have "g x c = f x c" by (rule assms)
  with Cons show ?case by (simp add: fx split: if_splits)
qed simp

lemma leaf_body_extends: "extends f g \<Longrightarrow> extends (leaf_body f lib reg) (leaf_body g lib reg)"
  unfolding extends_def leaf_body_def by (simp add: Let_def split: option.splits prod.splits)

lemma check_struct_extends:
  "extends f g \<Longrightarrow> fst (check_struct f lenient p r v c) \<noteq> Inl RecursionError \<Longrightarrow>
   check_struct g lenient p r v c = check_struct f lenient p r v c"
  unfolding check_struct_def
  by (cases v; cases "struct_fields (obj_get r ''properties'')")
     (auto intro!: first_error_extends simp: check_field_def dest: extendsD split: option.splits json.splits if_splits)

lemma check_array_extends:
  "extends f g \<Longrightarrow> extends f' g' \<Longrightarrow> fst (check_array f f' lib p r v c) \<noteq> Inl RecursionError \<Longrightarrow>
   check_array g g' lib p r v c = check_array f f' lib p r v c"
  unfolding check_array_def
  by (cases v; cases "obj_get r ''element''")
     (auto intro!: first_error_extends simp: check_element_def dest: extendsD split: if_splits)

lemma typed_body_extends:
  "extends f g \<Longrightarrow> extends f' g' \<Longrightarrow> extends (typed_body f f' lib lenient) (typed_body g g' lib lenient)"
  unfolding extends_def [of "typed_body f f' lib lenient"]
  by (auto simp: typed_body_def Let_def intro!: check_struct_extends check_array_extends dest: extendsD)

lemma validators_extend:
  "extends (validate_leaf n lib reg) (validate_leaf (Suc n) lib reg) \<and>
   (\<forall>lenient. extends (validate_typed_property_value n lib reg lenient) (validate_typed_property_value (Suc n) lib reg lenient))"
proof (induction n)
  case 0
  show ?case by (simp add: extends_def)
next
  case (Suc n)
  have "extends (validate_leaf (Suc n) lib reg) (validate_leaf (Suc (Suc n)) lib reg)"
    using Suc.IH by (simp only: validate_leaf.simps) (blast intro: leaf_body_extends)
  moreover have "extends (validate_typed_property_value (Suc n) lib reg lenient) (validate_typed_property_value (Suc (Suc n)) lib reg lenient)"
    for lenient
    using Suc.IH by (simp only: validate_typed_property_value.simps) (blast intro: typed_body_extends)
  ultimately show ?case by blast
qed

lemma typed_fuel_mono:
  "fst (validate_typed_property_value n lib reg lenient p r v c) \<noteq> Inl RecursionError \<Longrightarrow> n \<le> m \<Longrightarrow>
   validate_typed_property_value m lib reg lenient p r v c = validate_typed_property_value n lib reg lenient p r v c"
proof (induction m)
  case (Suc m)
  then show ?case
    using extendsD [OF conjunct2 [OF validators_extend [of m lib reg], rule_format, of lenient]] by (cases "n = Suc m") auto
qed simp

lemma leaf_fuel_mono:
  "fst (validate_leaf n lib reg p r v c) \<noteq> Inl RecursionError \<Longrightarrow> n \<le> m \<Longrightarrow>
   validate_leaf m lib reg p r v c = validate_leaf n lib reg p r v c"
proof (induction m)
  case (Suc m)
  then show ?case
    using extendsD [OF conjunct1 [OF validators_extend [of m lib reg]]] by (cases "n = Suc m") auto
qed simp

lemma check_constraint_no_recursion: "check_constraint lib v c b nm \<noteq> Inl RecursionError"
  by (auto simp: check_constraint_def check_range_def below_def py_len_def Let_def res_simps
      split: json.splits option.splits if_splits sum.splits)

lemma check_constraints_no_recursion: "check_constraints lib v cs b nm \<noteq> Inl RecursionError"
  by (induction cs) (auto simp: res_simps check_constraint_no_recursion split: option.splits)

lemma validate_value_no_recursion: "validate_value lib v vt \<noteq> Inl RecursionError"
  by (simp add: validate_value_def check_constraints_no_recursion split: option.splits)

lemma first_error_None:
  "(\<And>x. x \<in> set xs \<Longrightarrow> snd (f x None) = None) \<Longrightarrow> snd (first_error f xs None) = (None :: 'c option)"
proof (induction xs)
  case (Cons x xs)
  obtain r where "f x None = (r, None)" using Cons.prems [of x] by (metis list.set_intros(1) prod.collapse)
  with Cons show ?case by simp
qed simp

lemma lookups_None [simp]:
  "cached_get_value_type reg nm None = (get_value_type reg nm, None)"
  "cached_get_shared_property_type reg nm None = (get_shared_property_type reg nm, None)"
  by (simp_all add: cached_get_value_type_def cached_get_shared_property_type_def)

lemma named_None [simp]: "snd (check_named_type lib reg p nm v None) = None"
  by (simp add: check_named_type_def)

lemma leaf_body_None: "(\<And>p r v. snd (typed p r v None) = None) \<Longrightarrow> snd (leaf_body typed lib reg p r v None) = None"
  by (simp add: leaf_body_def Let_def split: option.splits)

lemma typed_body_None:
  assumes "\<And>p r v. snd (leaf p r v None) = None" "\<And>p r v. snd (typed p r v None) = None"
  shows "snd (typed_body leaf typed lib lenient p r v None) = None"
proof -
  have "snd (check_field leaf p d f None) = None" for d f
    using assms by (auto simp: check_field_def split: option.splits json.splits)
  then have "snd (check_struct leaf lenient p r v None) = None" for v
    by (auto simp: check_struct_def intro!: first_error_None split: json.splits option.splits)
  moreover have "snd (check_element leaf typed p el x None) = None" for el x
    using assms by (simp add: check_element_def)
  then have "snd (check_array leaf typed lib p r v None) = None" for v
    by (auto simp: check_array_def intro!: first_error_None split: json.splits)
  ultimately show ?thesis using assms by (simp add: typed_body_def Let_def)
qed

lemma validators_None [simp]:
  "snd (validate_leaf n lib reg p r v None) = None"
  "snd (validate_typed_property_value n lib reg lenient p r v None) = None"
proof -
  have "(\<forall>p r v. snd (validate_leaf n lib reg p r v None) = None) \<and>
    (\<forall>lenient p r v. snd (validate_typed_property_value n lib reg lenient p r v None) = None)"
  proof (induction n)
    case (Suc n)
    then show ?case by (simp add: leaf_body_None typed_body_None)
  qed simp
  then show "snd (validate_leaf n lib reg p r v None) = None"
    "snd (validate_typed_property_value n lib reg lenient p r v None) = None" by blast+
qed

definition leaf_safe :: "nat \<Rightarrow> stdlib \<Rightarrow> type_registry \<Rightarrow> payload \<Rightarrow> bool" where
  "leaf_safe n lib reg r \<longleftrightarrow> (\<forall>p v. fst (validate_leaf n lib reg p r v None) \<noteq> Inl RecursionError)"

lemma leaf_safe_mono: "leaf_safe n lib reg r \<Longrightarrow> n \<le> m \<Longrightarrow> leaf_safe m lib reg r"
  unfolding leaf_safe_def using leaf_fuel_mono by metis

lemma first_error_safe:
  assumes "\<And>x. x \<in> set xs \<Longrightarrow> fst (f x None) \<noteq> Inl RecursionError" "\<And>x. x \<in> set xs \<Longrightarrow> snd (f x None) = (None :: 'c option)"
  shows "fst (first_error f xs None) \<noteq> Inl RecursionError"
  using assms
proof (induction xs)
  case (Cons x xs)
  obtain r where fx: "f x None = (r, None)" using Cons.prems(2) [of x] by (metis list.set_intros(1) prod.collapse)
  with Cons.prems(1) [of x] have "r \<noteq> Inl RecursionError" by simp
  with Cons fx show ?case by auto
qed simp

lemma check_struct_safe:
  assumes "\<And>fs f fr. struct_fields (obj_get r ''properties'') = Some fs \<Longrightarrow> f \<in> set fs \<Longrightarrow> snd f = JObj fr \<Longrightarrow> leaf_safe n lib reg fr"
  shows "fst (check_struct (validate_leaf n lib reg) lenient p r v None) \<noteq> Inl RecursionError"
proof (cases v)
  case (JObj d)
  show ?thesis
  proof (cases "struct_fields (obj_get r ''properties'')")
    case (Some fs)
    have "fst (first_error (check_field (validate_leaf n lib reg) p d) fs None) \<noteq> Inl RecursionError"
      by (rule first_error_safe)
         (use assms [OF Some] in \<open>auto simp: check_field_def leaf_safe_def split: option.splits json.splits\<close>)
    then show ?thesis by (simp add: check_struct_def JObj Some)
  qed (simp add: check_struct_def JObj)
qed (simp_all add: check_struct_def)

lemma check_array_safe:
  assumes "\<And>el x. fst (check_element leaf typed p el x None) \<noteq> Inl RecursionError" "\<And>el x. snd (check_element leaf typed p el x None) = None"
  shows "fst (check_array leaf typed lib p r v None) \<noteq> Inl RecursionError"
  unfolding check_array_def
  by (cases v; cases "obj_get r ''element''") (use assms in \<open>simp_all add: first_error_safe\<close>)

lemma leaf_safe_step:
  assumes "\<And>sp fs f fr. obj_get r ''kind'' = JStr ''shared_property_type'' \<Longrightarrow>
      get_shared_property_type reg (name_of (obj_get r ''shared_property_type'')) = Some sp \<Longrightarrow>
      struct_fields (sp_struct_properties sp) = Some fs \<Longrightarrow> f \<in> set fs \<Longrightarrow> snd f = JObj fr \<Longrightarrow> leaf_safe n lib reg fr"
  shows "leaf_safe (Suc (Suc n)) lib reg r"
proof -
  have "fst (typed_body (validate_leaf n lib reg) t lib False p (struct_rule fs) v None) \<noteq> Inl RecursionError"
    if "obj_get r ''kind'' = JStr ''shared_property_type''"
      "get_shared_property_type reg (name_of (obj_get r ''shared_property_type'')) = Some sp"
      "struct_fields (sp_struct_properties sp) = Some fs" for sp fs t p v
  proof -
    have "struct_fields (obj_get (struct_rule fs) ''properties'') = Some fs"
      using that(3) by (auto simp: struct_rule_def obj_get_def dict_get_def struct_fields_def split: json.splits list.splits)
    then have "fst (check_struct (validate_leaf n lib reg) False p (struct_rule fs) w None) \<noteq> Inl RecursionError" for w
      using assms [OF that] by (intro check_struct_safe) auto
    then show ?thesis by (simp add: typed_body_def Let_def struct_rule_def obj_get_def dict_get_def)
  qed
  then show ?thesis
    by (auto simp: leaf_safe_def leaf_body_def Let_def check_named_type_def validate_value_no_recursion split: option.splits)
qed

lemma leaf_safe_plain:
  assumes "\<And>sp. obj_get r ''kind'' = JStr ''shared_property_type'' \<Longrightarrow>
    get_shared_property_type reg (name_of (obj_get r ''shared_property_type'')) = Some sp \<Longrightarrow> struct_fields (sp_struct_properties sp) = None"
  shows "leaf_safe (Suc n) lib reg r"
  using assms
  by (auto simp: leaf_safe_def leaf_body_def Let_def check_named_type_def validate_value_no_recursion split: option.splits)

text \<open>
  A struct-typed entry that refers to another struct-typed entry comes before it in the table:
  \<open>create\<close> refuses to refer to a struct, but a value-typed name that is referred to may be
  deleted and created again as a struct.
\<close>

definition struct_refers :: "string \<times> shared_property_type \<Rightarrow> string \<times> shared_property_type \<Rightarrow> bool" where
  "struct_refers x y \<longleftrightarrow>
     (case struct_fields (sp_struct_properties (snd x)) of
        None \<Rightarrow> False
      | Some fs \<Rightarrow> (\<exists>f \<in> set fs. leaf_names (fst y) (snd f))) \<and> struct_fields (sp_struct_properties (snd y)) \<noteq> None"

definition refers_forward :: "(string, shared_property_type) dict \<Rightarrow> bool" where
  "refers_forward xs \<longleftrightarrow> dict_wf xs \<and> sorted_wrt (\<lambda>x y. \<not> struct_refers y x) xs \<and> (\<forall>x \<in> set xs. \<not> struct_refers x x)"

definition shared_reg :: "type_registry \<Rightarrow> (string, shared_property_type) dict \<Rightarrow> bool" where
  "shared_reg reg xs \<longleftrightarrow> get_shared_property_type reg None = None \<and> (\<forall>s. get_shared_property_type reg (Some s) = dict_get xs s)"

lemma shared_reg_registry_of [simp]: "shared_reg (registry_of db) (td_shared db)"
  by (simp add: shared_reg_def registry_of_def)

lemma forward_depth:
  assumes "refers_forward xs" "shared_reg reg xs" "xs = pre @ post"
  shows "(b, sp) \<in> set post \<Longrightarrow> leaf_names b (JObj r) \<Longrightarrow> leaf_safe (2 * length post + 1) lib reg r"
  using assms(3)
proof (induction post arbitrary: pre b sp r)
  case (Cons x post)
  show ?case
  proof (cases "(b, sp) \<in> set post")
    case True
    with Cons.IH [of b sp r "pre @ [x]"] Cons.prems(2,3) have "leaf_safe (2 * length post + 1) lib reg r" by simp
    then show ?thesis by (rule leaf_safe_mono) simp
  next
    case False
    with Cons.prems(1) have x: "x = (b, sp)" by simp
    have get: "get_shared_property_type reg (name_of (obj_get r ''shared_property_type'')) = Some sp"
      using assms(1,2) Cons.prems(2,3) x
      by (auto simp: leaf_names_def name_of_def shared_reg_def refers_forward_def intro!: dict_mem_get)
    have "leaf_safe (2 * length post + 1) lib reg fr"
      if fs: "struct_fields (sp_struct_properties sp) = Some fs" "f \<in> set fs" "snd f = JObj fr" for fs f fr
    proof (cases "\<exists>b' sp'. leaf_names b' (snd f) \<and> dict_get xs b' = Some sp' \<and> struct_fields (sp_struct_properties sp') \<noteq> None")
      case True
      then obtain b' sp' where b': "leaf_names b' (snd f)" "dict_get xs b' = Some sp'" "struct_fields (sp_struct_properties sp') \<noteq> None"
        by blast
      then have "\<exists>f \<in> set fs. leaf_names b' (snd f)" using fs(2) by blast
      with fs(1) b'(3) have "struct_refers x (b', sp')" by (simp add: struct_refers_def x)
      moreover have "(b', sp') \<in> set xs" using b'(2) by (rule dict_get_mem)
      ultimately have "(b', sp') \<in> set post"
        using assms(1) Cons.prems(3) by (auto simp: refers_forward_def sorted_wrt_append)
      with Cons.IH [of b' sp' fr "pre @ [x]"] b'(1) Cons.prems(3) fs(3) show ?thesis by simp
    next
      case False
      have "struct_fields (sp_struct_properties sp') = None"
        if "obj_get fr ''kind'' = JStr ''shared_property_type''"
          "get_shared_property_type reg (name_of (obj_get fr ''shared_property_type'')) = Some sp'" for sp'
        using False that assms(2) fs(3)
        by (cases "obj_get fr ''shared_property_type''") (auto simp: leaf_names_def name_of_def shared_reg_def)
      then have "leaf_safe (Suc (2 * length post)) lib reg fr" by (rule leaf_safe_plain)
      then show ?thesis by simp
    qed
    then have "leaf_safe (Suc (Suc (2 * length post + 1))) lib reg r"
      by (intro leaf_safe_step) (use get in auto)
    then show ?thesis by (simp add: numeral_2_eq_2)
  qed
qed simp

lemma forward_leaf_safe:
  assumes "refers_forward xs" "shared_reg reg xs" "2 * length xs + 1 \<le> n"
  shows "leaf_safe n lib reg r"
proof (cases "\<exists>b sp. leaf_names b (JObj r) \<and> dict_get xs b = Some sp")
  case True
  then obtain b sp where "leaf_names b (JObj r)" "(b, sp) \<in> set xs" using dict_get_mem by metis
  with forward_depth [OF assms(1,2), of "[]" xs] have "leaf_safe (2 * length xs + 1) lib reg r" by simp
  with assms(3) show ?thesis by (rule leaf_safe_mono [rotated])
next
  case False
  have "leaf_safe (Suc 0) lib reg r"
    by (rule leaf_safe_plain)
       (use False assms(2) in \<open>cases "obj_get r ''shared_property_type''"; auto simp: leaf_names_def name_of_def shared_reg_def\<close>)
  with assms(3) show ?thesis by (auto intro: leaf_safe_mono)
qed

lemma forward_typed_safe:
  assumes "refers_forward xs" "shared_reg reg xs" "2 * length xs + 3 \<le> n"
  shows "fst (validate_typed_property_value n lib reg lenient p r v None) \<noteq> Inl RecursionError"
proof -
  have safe: "leaf_safe m lib reg q" if "2 * length xs + 1 \<le> m" for m q
    using forward_leaf_safe [OF assms(1,2) that] .
  have struct: "fst (check_struct (validate_leaf m lib reg) len p q w None) \<noteq> Inl RecursionError"
    if "2 * length xs + 1 \<le> m" for m len p q w
    using safe [OF that] by (rule check_struct_safe)
  have styped: "fst (validate_typed_property_value (Suc m) lib reg len p q w None) \<noteq> Inl RecursionError"
    if "2 * length xs + 1 \<le> m" "obj_get q ''kind'' = JStr ''struct''" for m len p q w
    using struct [OF that(1)] that(2) by (simp add: typed_body_def Let_def)
  obtain m where n: "n = Suc (Suc m)" "2 * length xs + 1 \<le> m" using assms(3) by (cases n; cases "n - 1") auto
  have leaf: "fst (validate_leaf (Suc m) lib reg p q w None) \<noteq> Inl RecursionError" for p q w
    using safe [of "Suc m" q] n(2) by (simp add: leaf_safe_def)
  have "fst (check_element (validate_leaf (Suc m) lib reg) (validate_typed_property_value (Suc m) lib reg lenient) p el x None)
      \<noteq> Inl RecursionError" for el x p
    using leaf styped [OF n(2)] by (simp add: check_element_def)
  then have "fst (check_array (validate_leaf (Suc m) lib reg) (validate_typed_property_value (Suc m) lib reg lenient) lib p r w None)
      \<noteq> Inl RecursionError" for w
    by (intro check_array_safe) (simp_all add: check_element_def del: validate_leaf.simps validate_typed_property_value.simps)
  with leaf struct [of "Suc m"] n(2) show ?thesis unfolding n(1) by (simp add: typed_body_def Let_def del: validate_leaf.simps)
qed

section \<open>Registries that arise\<close>

text \<open>Other modules change value types and object types freely.\<close>

inductive reachable_types :: "type_db \<Rightarrow> bool" where
  init: "reachable_types \<lparr>td_value_types = vts, td_shared = [], td_object_types = ots\<rparr>"
| create: "reachable_types db \<Longrightarrow> create_shared_property_type a vt sj db = Inr db' \<Longrightarrow> reachable_types db'"
| delete: "reachable_types db \<Longrightarrow> delete_shared_property_type a db = Inr db' \<Longrightarrow> reachable_types db'"
| others: "reachable_types db \<Longrightarrow> reachable_types (db\<lparr>td_value_types := vts, td_object_types := ots\<rparr>)"

lemma resolve_not_struct:
  assumes "resolve_struct_field db f = Inr ()" "leaf_names b (snd f)"
  obtains sp where "dict_get (td_shared db) b = Some sp" "struct_fields (sp_struct_properties sp) = None"
proof -
  obtain fname r where f: "f = (fname, JObj r)" "obj_get r ''kind'' = JStr ''shared_property_type''"
      "obj_get r ''shared_property_type'' = JStr b"
    using assms(2) by (cases f) (auto simp: leaf_names_def split: json.splits)
  with assms(1) obtain sp where "dict_get (td_shared db) b = Some sp" "\<not> truthy (sp_struct_properties sp)"
    by (auto simp: resolve_struct_field_def registry_of_def name_of_def res_simps split: option.splits)
  moreover from this(2) have "struct_fields (sp_struct_properties sp) = None"
    by (auto simp: struct_fields_def split: json.splits list.splits)
  ultimately show thesis by (simp add: that)
qed

lemma insert_forward:
  assumes "refers_forward (td_shared db)" "insert_shared sp db = Inr db'"
    and "\<And>fs f b. struct_fields (sp_struct_properties sp) = Some fs \<Longrightarrow> f \<in> set fs \<Longrightarrow> leaf_names b (snd f) \<Longrightarrow>
      \<exists>sp'. dict_get (td_shared db) b = Some sp' \<and> struct_fields (sp_struct_properties sp') = None"
  shows "refers_forward (td_shared db')"
proof -
  let ?a = "sp_api_name sp" and ?xs = "td_shared db"
  have new: "dict_get ?xs ?a = None" and db': "td_shared db' = dict_set ?a sp ?xs"
    using assms(2) by (auto simp: insert_shared_def split: if_splits)
  from new have "td_shared db' = ?xs @ [(?a, sp)]" by (simp add: db' dict_set_new)
  moreover have "\<not> struct_refers (?a, sp) y" if "y \<in> set ?xs \<or> y = (?a, sp)" for y
  proof
    assume "struct_refers (?a, sp) y"
    then obtain fs f where f: "struct_fields (sp_struct_properties sp) = Some fs" "f \<in> set fs" "leaf_names (fst y) (snd f)"
      and y: "struct_fields (sp_struct_properties (snd y)) \<noteq> None"
      by (auto simp: struct_refers_def split: option.splits)
    from assms(3) [OF f] obtain sp' where sp': "dict_get ?xs (fst y) = Some sp'" "struct_fields (sp_struct_properties sp') = None"
      by blast
    with that new have "y \<in> set ?xs" by auto
    then have "dict_get ?xs (fst y) = Some (snd y)"
      using assms(1) by (intro dict_mem_get) (simp_all add: refers_forward_def)
    with sp' y show False by simp
  qed
  ultimately show ?thesis
    using assms(1) dict_wf_set [of ?xs ?a sp] db' by (auto simp: refers_forward_def sorted_wrt_append)
qed

lemma reachable_forward: "reachable_types db \<Longrightarrow> refers_forward (td_shared db)"
proof (induction rule: reachable_types.induct)
  case (create db a vt sj db')
  show ?case
  proof (cases sj)
    case None
    with create.hyps(2) have "insert_shared \<lparr>sp_api_name = a, sp_value_type = vt, sp_struct_properties = JNull\<rparr> db = Inr db'"
      by (auto simp: create_shared_property_type_def Let_def split: if_splits)
    from insert_forward [OF create.IH this] show ?thesis by (simp add: struct_fields_def)
  next
    case (Some j)
    with create.hyps(2) obtain fs where fs: "j = JObj fs" "\<forall>f \<in> set fs. resolve_struct_field db f = Inr ()"
      "insert_shared \<lparr>sp_api_name = a, sp_value_type = None, sp_struct_properties = JObj fs\<rparr> db = Inr db'"
      by (auto simp: create_shared_property_type_def Let_def res_simps split: if_splits json.splits)
    show ?thesis
    proof (rule insert_forward [OF create.IH fs(3)], goal_cases)
      case (1 fs' f b)
      then have "f \<in> set fs" by (auto simp: struct_fields_def split: list.splits)
      with fs(2) 1(3) resolve_not_struct show ?case by metis
    qed
  qed
next
  case (delete db a db')
  then have "td_shared db' = filter (\<lambda>x. fst x \<noteq> a) (td_shared db)"
    by (auto simp: delete_shared_property_type_def res_simps dict_pop_filter split: option.splits)
  with delete.IH show ?case by (auto simp: refers_forward_def sorted_wrt_filter)
qed (simp_all add: refers_forward_def)

text \<open>
  C12. Validation always returns: however shared property types have been created and deleted, a
  value is validated without exhausting the stack, within two nested calls per shared
  property type and three more, for every rule and every value (values may nest and carry
  JSON text to any depth).
\<close>

theorem typed_validation_terminates:
  assumes "reachable_types db" "2 * length (td_shared db) + 3 \<le> n"
  shows "\<exists>verdict. fst (validate_typed_property_value n lib (registry_of db) lenient p r v None) = verdict \<and>
    verdict \<noteq> Inl RecursionError \<and>
    (\<forall>m \<ge> n. fst (validate_typed_property_value m lib (registry_of db) lenient p r v None) = verdict)"
proof -
  have ok: "fst (validate_typed_property_value n lib (registry_of db) lenient p r v None) \<noteq> Inl RecursionError"
    using forward_typed_safe [OF reachable_forward [OF assms(1)] shared_reg_registry_of assms(2)] .
  have "fst (validate_typed_property_value m lib (registry_of db) lenient p r v None) =
      fst (validate_typed_property_value n lib (registry_of db) lenient p r v None)" if "n \<le> m" for m
    by (simp only: typed_fuel_mono [OF ok that])
  with ok show ?thesis by blast
qed

section \<open>Deleting a shared property type\<close>

text \<open>Documented behaviour of the decoder: a text that opens with a brace or bracket decodes to an object or array.\<close>

definition decodes_containers :: "stdlib \<Rightarrow> bool" where
  "decodes_containers lib \<longleftrightarrow>
     (\<forall>s j. (startswith s ''{'' \<or> startswith s ''['') \<and> json_loads lib s = Some j \<longrightarrow> (\<exists>d. j = JObj d) \<or> (\<exists>xs. j = JList xs))"

definition without :: "string \<Rightarrow> type_registry \<Rightarrow> type_registry" where
  "without a reg = reg\<lparr>get_shared_property_type := (get_shared_property_type reg)(Some a := None)\<rparr>"

text \<open>No struct-typed shared property has a field that names \<open>a\<close>.\<close>

definition not_nested :: "string \<Rightarrow> type_registry \<Rightarrow> bool" where
  "not_nested a reg \<longleftrightarrow>
     (\<forall>n sp fs f. get_shared_property_type reg n = Some sp \<and> struct_fields (sp_struct_properties sp) = Some fs \<and> f \<in> set fs
        \<longrightarrow> \<not> leaf_names a (snd f))"

lemma first_error_cong2:
  assumes "list_all2 (\<lambda>x y. f x None = g y None) xs ys" "\<And>x. snd (f x None) = (None :: 'c option)"
  shows "first_error f xs None = first_error g ys None"
  using assms(1)
proof (induction xs ys rule: list_all2_induct)
  case (Cons x xs y ys)
  then obtain r where "f x None = (r, None)" "g y None = (r, None)" using assms(2) by (metis prod.collapse)
  with Cons.IH show ?case by simp
qed simp

lemma check_field_None: "(\<And>p r v. snd (g p r v None) = None) \<Longrightarrow> snd (check_field g p d f None) = None"
  by (auto simp: check_field_def split: option.splits json.splits)

lemma check_named_without [simp]: "check_named_type lib (without a reg) p nm v None = check_named_type lib reg p nm v None"
  by (simp add: check_named_type_def without_def)

lemma leaf_names_conv:
  "leaf_names a (JObj r) \<longleftrightarrow> obj_get r ''kind'' = JStr ''shared_property_type'' \<and> name_of (obj_get r ''shared_property_type'') = Some a"
  by (auto simp: leaf_names_def name_of_def split: json.splits)

lemma struct_fields_struct_rule:
  "struct_fields j = Some fs \<Longrightarrow> struct_fields (obj_get (struct_rule fs) ''properties'') = Some fs"
  by (auto simp: struct_rule_def obj_get_def dict_get_def struct_fields_def split: json.splits list.splits)

lemma kind_struct_rule [simp]: "obj_get (struct_rule fs) ''kind'' = JStr ''struct''"
  by (simp add: struct_rule_def obj_get_def dict_get_def)

lemma check_struct_pointwise:
  assumes "struct_fields (obj_get r ''properties'') = map_option (\<lambda>_. fs) (struct_fields (obj_get r' ''properties''))"
    and "struct_fields (obj_get r' ''properties'') \<noteq> None \<Longrightarrow> struct_fields (obj_get r' ''properties'') = Some fs'"
    and "list_all2 (\<lambda>f f'. fst f = fst f' \<and> (\<forall>d p. check_field g p d f None = check_field g' p d f' None)) fs fs'"
    and "\<And>p r v. snd (g p r v None) = None"
  shows "check_struct g lenient p r v None = check_struct g' lenient p r' v None"
proof (cases v)
  case (JObj d)
  show ?thesis
  proof (cases "struct_fields (obj_get r' ''properties'')")
    case None
    then show ?thesis using assms(1) by (simp add: check_struct_def JObj)
  next
    case (Some z)
    have "map fst fs = map fst fs'" using assms(3) by (auto simp: list_all2_conv_all_nth intro: nth_equalityI)
    then have keys: "fst ` set fs = fst ` set fs'" by (metis list.set_map)
    have "list_all2 (\<lambda>f f'. check_field g p d f None = check_field g' p d f' None) fs fs'"
      using assms(3) by (rule list_all2_mono) simp
    then have "first_error (check_field g p d) fs None = first_error (check_field g' p d) fs' None"
      using assms(4) by (intro first_error_cong2 check_field_None)
    then show ?thesis using assms(1,2) Some keys by (simp add: check_struct_def JObj)
  qed
qed (simp_all add: check_struct_def)

lemma check_field_eqI:
  assumes "fst f = fst f'" "snd f = snd f' \<or> (\<exists>fr fr'. snd f = JObj fr \<and> snd f' = JObj fr')"
    and "\<And>fr fr' p v. snd f = JObj fr \<Longrightarrow> snd f' = JObj fr' \<Longrightarrow> g p fr v None = g' p fr' v None"
  shows "check_field g p d f None = check_field g' p d f' None"
  using assms by (auto simp: check_field_def split: option.splits json.splits)

lemma leaf_without:
  assumes "not_nested a reg" "\<not> leaf_names a (JObj r)"
  shows "validate_leaf n lib (without a reg) p r v None = validate_leaf n lib reg p r v None"
  using assms(2)
proof (induction n arbitrary: p r v rule: less_induct)
  case (less n)
  show ?case
  proof (cases n)
    case (Suc m)
    have same: "get_shared_property_type (without a reg) (name_of (obj_get r ''shared_property_type'')) =
        get_shared_property_type reg (name_of (obj_get r ''shared_property_type''))"
      if "obj_get r ''kind'' = JStr ''shared_property_type''"
      using less.prems that by (auto simp: leaf_names_conv without_def)
    have "validate_typed_property_value m lib (without a reg) False p (struct_rule fs) v None =
        validate_typed_property_value m lib reg False p (struct_rule fs) v None"
      if sp: "get_shared_property_type reg nm = Some sp" "struct_fields (sp_struct_properties sp) = Some fs" for nm sp fs
    proof (cases m)
      case (Suc k)
      have leq: "validate_leaf k lib (without a reg) p fr v None = validate_leaf k lib reg p fr v None"
        if "f \<in> set fs" "snd f = JObj fr" for f fr p v
        using less.IH [of k fr p v] assms(1) sp that \<open>n = Suc m\<close> Suc unfolding not_nested_def by fastforce
      have "check_field (validate_leaf k lib (without a reg)) p d f None = check_field (validate_leaf k lib reg) p d f None"
        if "f \<in> set fs" for f d p
        by (rule check_field_eqI) (simp_all add: leq [OF that])
      then have "check_struct (validate_leaf k lib (without a reg)) False p (struct_rule fs) w None =
          check_struct (validate_leaf k lib reg) False p (struct_rule fs) w None" for w
        by (intro check_struct_pointwise [of _ fs _ fs])
           (simp_all add: struct_fields_struct_rule [OF sp(2)] list_all2_same)
      then show ?thesis by (simp add: Suc typed_body_def Let_def)
    qed simp
    with same show ?thesis by (simp add: Suc leaf_body_def Let_def split: option.splits)
  qed simp
qed

text \<open>With ample stack the verdict of a leaf is the same at every depth.\<close>

lemma leaf_stable:
  assumes "refers_forward xs" "shared_reg reg xs" "2 * length xs + 1 \<le> n" "n \<le> m"
  shows "validate_leaf m lib reg p r v None = validate_leaf n lib reg p r v None"
  using forward_leaf_safe [OF assms(1-3), of lib r] assms(4) by (intro leaf_fuel_mono) (simp_all add: leaf_safe_def)

lemma coerce_idem: "decodes_containers lib \<Longrightarrow> coerce_jsonish lib (coerce_jsonish lib v) = coerce_jsonish lib v"
  by (auto simp: coerce_jsonish_def decodes_containers_def Let_def split: json.splits option.splits)

lemma coerce_not_null: "decodes_containers lib \<Longrightarrow> v \<noteq> JNull \<Longrightarrow> coerce_jsonish lib v \<noteq> JNull"
  by (auto simp: coerce_jsonish_def decodes_containers_def Let_def split: json.splits option.splits)

lemma named_value_typeD: "named_value_type sp = Some vt \<Longrightarrow> sp_value_type sp = Some vt"
  by (auto simp: named_value_type_def split: option.splits list.splits)

lemma detach_field_leaf:
  assumes "not_nested a reg" "get_shared_property_type reg (Some a) = Some sp" "detach_field a sp f = Inr f'"
    "struct_fields (sp_struct_properties sp) = None \<or> named_value_type sp = None"
  shows "fst f = fst f' \<and> (snd f = snd f' \<or> (\<exists>fr fr'. snd f = JObj fr \<and> snd f' = JObj fr')) \<and>
    (\<forall>fr fr' p v. snd f = JObj fr \<longrightarrow> snd f' = JObj fr' \<longrightarrow>
       validate_leaf (Suc n) lib reg p fr v None = validate_leaf (Suc n) lib (without a reg) p fr' v None)"
proof (cases "leaf_names a (snd f)")
  case True
  then obtain fr where fr: "snd f = JObj fr" by (auto simp: leaf_names_def split: json.splits)
  with True assms(3) obtain vt where vt: "named_value_type sp = Some vt" "sp_value_type sp = Some vt"
    using named_value_typeD by (auto simp: detach_field_def split: option.splits)
  with assms(4) have ns: "struct_fields (sp_struct_properties sp) = None" by simp
  from True fr assms(3) vt obtain ex where f': "f' = (fst f, JObj (value_type_rule vt @ ex))"
    by (auto simp: detach_field_def Let_def split: if_splits)
  have "obj_get (value_type_rule vt @ ex) ''kind'' = JStr ''value_type''" "obj_get (value_type_rule vt @ ex) ''value_type'' = JStr vt"
    by (simp_all add: value_type_rule_def obj_get_def dict_get_def)
  moreover have "obj_get fr ''kind'' = JStr ''shared_property_type''" "name_of (obj_get fr ''shared_property_type'') = Some a"
    using True by (simp_all add: fr leaf_names_conv)
  ultimately show ?thesis
    using assms(2) ns vt by (simp add: fr f' leaf_body_def Let_def name_of_def)
next
  case False
  then have "f' = f" using assms(3) by (simp add: detach_field_def)
  with False leaf_without [OF assms(1)] show ?thesis by (metis json.inject(6))
qed

text \<open>
  A shared property type whose deletion is studied: what the registry holds under its name, and that
  it is a struct or names a value type but not both.
\<close>

definition detaching ::
  "stdlib \<Rightarrow> type_registry \<Rightarrow> (string, shared_property_type) dict \<Rightarrow> string \<Rightarrow> shared_property_type \<Rightarrow> bool" where
  "detaching lib reg xs a sp \<longleftrightarrow>
     refers_forward xs \<and> shared_reg reg xs \<and> not_nested a reg \<and> get_shared_property_type reg (Some a) = Some sp \<and>
     (struct_fields (sp_struct_properties sp) = None \<or> named_value_type sp = None) \<and> decodes_containers lib"

lemma detachingD:
  assumes "detaching lib reg xs a sp"
  shows "refers_forward xs" "shared_reg reg xs" "not_nested a reg" "get_shared_property_type reg (Some a) = Some sp"
    "struct_fields (sp_struct_properties sp) = None \<or> named_value_type sp = None" "decodes_containers lib"
  using assms by (simp_all add: detaching_def)

lemma leaf_at:
  assumes "detaching lib reg xs a sp" "2 * length xs + 1 \<le> k" "2 * length xs + 1 \<le> m"
  shows "validate_leaf k lib reg p r v None = validate_leaf m lib reg p r v None"
  using assms(2,3) leaf_stable [OF detachingD(1,2) [OF assms(1)]] by (cases "k \<le> m") (metis nat_le_linear)+

lemma own_struct:
  assumes D: "detaching lib reg xs a sp" and "struct_fields (sp_struct_properties sp) = Some fs" "2 * length xs + 1 \<le> k" "2 * length xs + 1 \<le> m"
  shows "validate_typed_property_value (Suc k) lib reg False p (struct_rule fs) v None =
    validate_typed_property_value (Suc m) lib (without a reg) False p (struct_rule fs) v None"
proof -
  have leq: "validate_leaf k lib reg p fr v None = validate_leaf m lib (without a reg) p fr v None"
    if "f \<in> set fs" "snd f = JObj fr" for f fr p v
  proof -
    have "\<not> leaf_names a (JObj fr)" using detachingD(3,4) [OF D] assms(2) that unfolding not_nested_def by metis
    then show ?thesis using leaf_without [OF detachingD(3) [OF D]] leaf_at [OF D assms(3,4)] by metis
  qed
  have "check_field (validate_leaf k lib reg) p d f None = check_field (validate_leaf m lib (without a reg)) p d f None"
    if "f \<in> set fs" for f d p
    by (rule check_field_eqI) (simp_all add: leq [OF that])
  then have "check_struct (validate_leaf k lib reg) False p (struct_rule fs) w None =
      check_struct (validate_leaf m lib (without a reg)) False p (struct_rule fs) w None" for w
    by (intro check_struct_pointwise [of _ fs _ fs])
       (simp_all add: struct_fields_struct_rule [OF assms(2)] list_all2_same)
  then show ?thesis by (simp add: typed_body_def Let_def)
qed

lemma detached_struct:
  assumes D: "detaching lib reg xs a sp" and "detach_struct a sp r = Inr (JObj r')" "obj_get r ''kind'' = JStr ''struct''" "2 * length xs + 1 \<le> m"
  shows "obj_get r' ''kind'' = JStr ''struct'' \<and>
    validate_typed_property_value (Suc m) lib reg False p r v None = validate_typed_property_value (Suc m) lib (without a reg) False p r' v None"
proof -
  obtain k where m: "m = Suc k" using assms(4) by (cases m) auto
  have fields: "check_struct (validate_leaf m lib reg) False p r w None = check_struct (validate_leaf m lib (without a reg)) False p r' w None"
    if "list_all2 (\<lambda>f f'. detach_field a sp f = Inr f') fs fs'" "obj_get r ''properties'' = JObj fs \<or> fs = [] \<and> \<not> truthy (obj_get r ''properties'')"
      "r' = dict_set ''properties'' (JObj fs') r" for fs fs' w
  proof (rule check_struct_pointwise [of _ fs _ fs'])
    have "length fs = length fs'" using that(1) by (rule list_all2_lengthD)
    then show "struct_fields (obj_get r ''properties'') = map_option (\<lambda>_. fs) (struct_fields (obj_get r' ''properties''))"
      "struct_fields (obj_get r' ''properties'') \<noteq> None \<Longrightarrow> struct_fields (obj_get r' ''properties'') = Some fs'"
      using that(2,3) by (cases fs; cases fs'; auto simp: struct_fields_def split: json.splits list.splits)+
    show "list_all2 (\<lambda>f f'. fst f = fst f' \<and> (\<forall>d p. check_field (validate_leaf m lib reg) p d f None =
        check_field (validate_leaf m lib (without a reg)) p d f' None)) fs fs'"
      using that(1)
    proof (rule list_all2_mono)
      fix f f' assume d: "detach_field a sp f = Inr f'"
      from detach_field_leaf [OF detachingD(3,4) [OF D] d detachingD(5) [OF D], of k lib]
      show "fst f = fst f' \<and> (\<forall>d p. check_field (validate_leaf m lib reg) p d f None =
          check_field (validate_leaf m lib (without a reg)) p d f' None)"
        unfolding m by (intro conjI allI check_field_eqI) blast+
    qed
  qed simp
  show ?thesis
  proof (cases "\<exists>fs fs'. list_all2 (\<lambda>f f'. detach_field a sp f = Inr f') fs fs' \<and>
      (obj_get r ''properties'' = JObj fs \<or> fs = [] \<and> \<not> truthy (obj_get r ''properties'')) \<and> r' = dict_set ''properties'' (JObj fs') r")
    case True
    then show ?thesis using fields assms(3) by (auto simp: typed_body_def Let_def)
  next
    case False
    then have "r' = r" "struct_fields (obj_get r ''properties'') = None"
      using assms(2)
      by (auto simp: detach_struct_def Let_def res_simps each_result_list struct_fields_def split: json.splits if_splits list.splits)
    then show ?thesis using assms(3) by (simp add: typed_body_def Let_def check_struct_def split: json.splits)
  qed
qed

lemma leaf_own:
  assumes "detaching lib reg xs a sp" "leaf_names a (JObj r)"
  shows "validate_leaf (Suc k) lib reg p r v None =
    (case struct_fields (sp_struct_properties sp) of
       Some fs \<Rightarrow> validate_typed_property_value k lib reg False p (struct_rule fs) v None
     | None \<Rightarrow> check_named_type lib reg p (sp_value_type sp) v None)"
  using assms(2) detachingD(4) [OF assms(1)] by (simp add: leaf_names_conv leaf_body_def Let_def)

lemma typed_struct_coerced:
  assumes "decodes_containers lib" "raw \<noteq> JNull"
  shows "validate_typed_property_value (Suc m) lib reg lenient p (struct_rule fs) (coerce_jsonish lib raw) None =
    validate_typed_property_value (Suc m) lib reg lenient p (struct_rule fs) raw None"
  using assms by (simp add: typed_body_def Let_def coerce_idem coerce_not_null)

lemma local_ruleE:
  assumes "local_rule_from_spt sp = Inr j"
  obtains (struct) fs where "struct_fields (sp_struct_properties sp) = Some fs" "j = JObj (struct_rule fs)"
  | (plain) vt where "struct_fields (sp_struct_properties sp) = None" "sp_value_type sp = Some vt" "j = JObj (value_type_rule vt)"
  using assms named_value_typeD by (auto simp: local_rule_from_spt_def split: option.splits)

lemma leaf_value_type_rule:
  "validate_leaf (Suc k) lib reg p (value_type_rule vt) v None = check_named_type lib reg p (Some vt) v None"
  by (simp add: leaf_body_def Let_def value_type_rule_def obj_get_def dict_get_def name_of_def)

lemma kind_value_type_rule [simp]: "obj_get (value_type_rule vt) ''kind'' = JStr ''value_type''"
  by (simp add: value_type_rule_def obj_get_def dict_get_def)

lemma detached_leaf:
  assumes D: "detaching lib reg xs a sp" and "leaf_names a (JObj r)" "local_rule_from_spt sp = Inr (JObj r')" "2 * length xs + 4 \<le> m"
  shows "validate_typed_property_value (Suc m) lib reg False p r v None =
      validate_typed_property_value (Suc m) lib (without a reg) False p r' v None \<and>
    check_element (validate_leaf m lib reg) (validate_typed_property_value m lib reg False) q r ix None =
      check_element (validate_leaf m lib (without a reg)) (validate_typed_property_value m lib (without a reg) False) q r' ix None"
proof -
  obtain k where m: "m = Suc (Suc (Suc k))" "2 * length xs + 1 \<le> k"
    by (rule that [of "m - 3"]) (use assms(4) in arith)+
  have kind: "obj_get r ''kind'' = JStr ''shared_property_type''" using assms(2) by (simp add: leaf_names_conv)
  from assms(3) show ?thesis
  proof (cases rule: local_ruleE)
    case (struct fs)
    have own: "validate_typed_property_value (Suc (Suc k)) lib reg False p (struct_rule fs) v None =
        validate_typed_property_value (Suc l) lib (without a reg) False p (struct_rule fs) v None" if "2 * length xs + 1 \<le> l" for l p v
      using own_struct [OF D struct(1), of "Suc k" l] m(2) that by simp
    have "validate_typed_property_value (Suc m) lib reg False p r v None =
        (if v = JNull then (Inr None, None) else validate_leaf m lib reg p r (coerce_jsonish lib v) None)"
      by (simp add: typed_body_def Let_def kind)
    also have "\<dots> = validate_typed_property_value (Suc m) lib (without a reg) False p (struct_rule fs) v None"
    proof (cases "v = JNull")
      case False
      have "validate_leaf m lib reg p r (coerce_jsonish lib v) None =
          validate_typed_property_value (Suc (Suc k)) lib reg False p (struct_rule fs) (coerce_jsonish lib v) None"
        unfolding m(1) leaf_own [OF D assms(2)] by (simp add: struct(1))
      also have "\<dots> = validate_typed_property_value (Suc m) lib (without a reg) False p (struct_rule fs) v None"
        using own [of m] m typed_struct_coerced [OF detachingD(6) [OF D] False, of m "without a reg" False p fs] by simp
      finally show ?thesis using False by simp
    qed (simp add: typed_body_def)
    finally have t: "validate_typed_property_value (Suc m) lib reg False p r v None =
      validate_typed_property_value (Suc m) lib (without a reg) False p (struct_rule fs) v None" .
    have "validate_leaf m lib reg w r y None = validate_typed_property_value m lib (without a reg) False w (struct_rule fs) y None" for w y
      using own [of "Suc (Suc k)" w y] m(2) unfolding m(1) leaf_own [OF D assms(2)] by (simp add: struct(1))
    then have "check_element (validate_leaf m lib reg) (validate_typed_property_value m lib reg False) q r ix None =
      check_element (validate_leaf m lib (without a reg)) (validate_typed_property_value m lib (without a reg) False) q (struct_rule fs) ix None"
      by (simp add: check_element_def kind)
    with t struct(2) show ?thesis by simp
  next
    case (plain vt)
    have l: "validate_leaf m lib reg w r y None = validate_leaf m lib (without a reg) w (value_type_rule vt) y None" for w y
      unfolding m(1) leaf_own [OF D assms(2)] leaf_value_type_rule by (simp add: plain(1,2))
    then have "validate_typed_property_value (Suc m) lib reg False p r v None =
        validate_typed_property_value (Suc m) lib (without a reg) False p (value_type_rule vt) v None"
      by (simp add: typed_body_def Let_def kind)
    with l plain(3) show ?thesis by (simp add: check_element_def kind)
  qed
qed

lemma detach_not_named:
  assumes "\<not> leaf_names a (JObj r)"
  shows "detach_spt_from_rule a sp (JObj r) =
    (if obj_get r ''kind'' = JStr ''struct'' then detach_struct a sp r
     else if obj_get r ''kind'' = JStr ''array'' then
       (case dict_get r ''element'' of
          Some (JObj el) \<Rightarrow> rbind (detach_spt_from_rule a sp (JObj el)) (\<lambda>el'. Inr (JObj (dict_set ''element'' el' r)))
        | _ \<Rightarrow> Inr (JObj r))
     else Inr (JObj r))"
  using assms by (subst detach_spt_from_rule.simps) simp

lemma detach_struct_obj: "detach_struct a sp r = Inr j \<Longrightarrow> \<exists>r'. j = JObj r'"
  by (auto simp: detach_struct_def Let_def res_simps split: json.splits if_splits)

lemma detach_obj: "detach_spt_from_rule a sp (JObj r) = Inr j \<Longrightarrow> \<exists>r'. j = JObj r'"
proof (cases "leaf_names a (JObj r)")
  case True
  assume "detach_spt_from_rule a sp (JObj r) = Inr j"
  with True show ?thesis
    by (subst (asm) detach_spt_from_rule.simps) (auto simp: local_rule_from_spt_def split: option.splits)
next
  case False
  assume "detach_spt_from_rule a sp (JObj r) = Inr j"
  with False detach_struct_obj show ?thesis
    by (auto simp: detach_not_named res_simps split: if_splits option.splits json.splits)
qed

text \<open>The element of an array: whatever its rule, it is checked as before.\<close>

lemma detached_element:
  assumes D: "detaching lib reg xs a sp" and "detach_spt_from_rule a sp (JObj el) = Inr (JObj el')" "2 * length xs + 4 \<le> m"
  shows "check_element (validate_leaf m lib reg) (validate_typed_property_value m lib reg False) q el ix None =
    check_element (validate_leaf m lib (without a reg)) (validate_typed_property_value m lib (without a reg) False) q el' ix None"
proof (cases "leaf_names a (JObj el)")
  case True
  with assms(2) have "local_rule_from_spt sp = Inr (JObj el')" by (simp add: detach_spt_from_rule.simps)
  with detached_leaf [OF D True _ assms(3)] show ?thesis by blast
next
  case False
  obtain k where m: "m = Suc k" "2 * length xs + 1 \<le> k" by (rule that [of "m - 1"]) (use assms(3) in arith)+
  consider "obj_get el ''kind'' = JStr ''struct''" | "obj_get el ''kind'' = JStr ''array''" "obj_get el' ''kind'' = JStr ''array''"
    | "el' = el" "obj_get el ''kind'' \<noteq> JStr ''struct''"
    using assms(2) False by (auto simp: detach_not_named res_simps split: if_splits option.splits json.splits)
  then show ?thesis
  proof cases
    case 1
    with assms(2) False have "detach_struct a sp el = Inr (JObj el')" by (simp add: detach_not_named)
    from detached_struct [OF D this 1 m(2)] 1 show ?thesis
      by (simp add: check_element_def m(1) del: validate_typed_property_value.simps)
  next
    case 2
    then show ?thesis by (simp add: check_element_def m(1) leaf_body_def)
  next
    case 3
    with leaf_without [OF detachingD(3) [OF D] False] show ?thesis by (simp add: check_element_def)
  qed
qed

lemma detached_rule:
  assumes D: "detaching lib reg xs a sp" and "detach_spt_from_rule a sp (JObj r) = Inr (JObj r')" "2 * length xs + 5 \<le> n"
  shows "validate_typed_property_value n lib reg False p r v None = validate_typed_property_value n lib (without a reg) False p r' v None"
proof -
  obtain m where n: "n = Suc m" "2 * length xs + 4 \<le> m" "2 * length xs + 1 \<le> m" by (rule that [of "n - 1"]) (use assms(3) in arith)+
  show ?thesis
  proof (cases "leaf_names a (JObj r)")
    case True
    with assms(2) have "local_rule_from_spt sp = Inr (JObj r')" by (simp add: detach_spt_from_rule.simps)
    with detached_leaf [OF D True _ n(2)] show ?thesis unfolding n(1) by blast
  next
    case False
    consider "obj_get r ''kind'' = JStr ''struct''"
      | el el' where "obj_get r ''kind'' = JStr ''array''" "dict_get r ''element'' = Some (JObj el)"
        "detach_spt_from_rule a sp (JObj el) = Inr el'" "r' = dict_set ''element'' el' r"
      | "r' = r" "obj_get r ''kind'' \<noteq> JStr ''struct''" "obj_get r ''kind'' = JStr ''array'' \<longrightarrow> \<not> is_dict (obj_get r ''element'')"
      using assms(2) False by (auto simp: detach_not_named res_simps obj_get_def split: if_splits option.splits json.splits)
    then show ?thesis
    proof cases
      case 1
      with assms(2) False have "detach_struct a sp r = Inr (JObj r')" by (simp add: detach_not_named)
      from detached_struct [OF D this 1 n(3)] show ?thesis unfolding n(1) by blast
    next
      case (2 el el')
      with detach_obj obtain e where e: "el' = JObj e" by blast
      have "first_error (check_element (validate_leaf m lib reg) (validate_typed_property_value m lib reg False) p el) ys None =
          first_error (check_element (validate_leaf m lib (without a reg)) (validate_typed_property_value m lib (without a reg) False) p e) ys None" for ys
        by (rule first_error_cong2)
           (simp_all add: list_all2_same detached_element [OF D 2(3) [unfolded e] n(2)], simp add: check_element_def)
      then have "check_array (validate_leaf m lib reg) (validate_typed_property_value m lib reg False) lib p r w None =
          check_array (validate_leaf m lib (without a reg)) (validate_typed_property_value m lib (without a reg) False) lib p r' w None" for w
        using 2 by (simp add: check_array_def e obj_get_def split: json.splits)
      with 2 show ?thesis by (simp add: n(1) typed_body_def Let_def)
    next
      case 3
      have "check_array l1 t1 lib p r w None = check_array l2 t2 lib p r w None" if "obj_get r ''kind'' = JStr ''array''" for l1 t1 l2 t2 w
        using 3(3) that by (auto simp: check_array_def split: json.splits)
      with 3 leaf_without [OF detachingD(3) [OF D] False] show ?thesis by (simp add: n(1) typed_body_def Let_def)
    qed
  qed
qed

text \<open>A rule that does not mention the name is checked as before.\<close>

lemma struct_without:
  assumes "not_nested a reg" "obj_get r ''kind'' = JStr ''struct''" "\<not> struct_names a (JObj r)"
  shows "validate_typed_property_value n lib (without a reg) lenient p r v None = validate_typed_property_value n lib reg lenient p r v None"
proof (cases n)
  case (Suc m)
  have leq: "validate_leaf m lib (without a reg) p fr v None = validate_leaf m lib reg p fr v None"
    if "struct_fields (obj_get r ''properties'') = Some fs" "f \<in> set fs" "snd f = JObj fr" for fs f fr p v
  proof -
    from that(1) have "obj_get r ''properties'' = JObj fs" by (auto simp: struct_fields_def split: json.splits list.splits)
    with that(2) assms(2,3) have "\<not> leaf_names a (snd f)" by (simp add: struct_names_def list_ex_iff)
    then show ?thesis by (simp add: leaf_without [OF assms(1)] that(3))
  qed
  have "check_struct (validate_leaf m lib (without a reg)) lenient p r w None = check_struct (validate_leaf m lib reg) lenient p r w None" for w
  proof (cases "struct_fields (obj_get r ''properties'')")
    case None
    then show ?thesis by (simp add: check_struct_def split: json.splits)
  next
    case (Some fs)
    have "check_field (validate_leaf m lib (without a reg)) p d f None = check_field (validate_leaf m lib reg) p d f None"
      if "f \<in> set fs" for f d p
      by (rule check_field_eqI) (simp_all add: leq [OF Some that])
    then show ?thesis by (intro check_struct_pointwise [of _ fs _ fs]) (simp_all add: Some list_all2_same)
  qed
  with assms(2) show ?thesis by (simp add: Suc typed_body_def Let_def)
qed simp

lemma rule_without:
  assumes "not_nested a reg" "\<not> rule_references a (JObj r)"
  shows "validate_typed_property_value n lib (without a reg) lenient p r v None = validate_typed_property_value n lib reg lenient p r v None"
proof (cases n)
  case (Suc m)
  have leaf: "validate_leaf m lib (without a reg) p r w None = validate_leaf m lib reg p r w None" for w
    using assms(2) by (intro leaf_without [OF assms(1)]) (simp add: rule_references_def)
  have arr: "check_array (validate_leaf m lib (without a reg)) (validate_typed_property_value m lib (without a reg) lenient) lib p r w None =
      check_array (validate_leaf m lib reg) (validate_typed_property_value m lib reg lenient) lib p r w None"
    if "obj_get r ''kind'' = JStr ''array''" for w
  proof (cases "obj_get r ''element''")
    case (JObj el)
    with assms(2) that have el: "\<not> leaf_names a (JObj el)" "\<not> struct_names a (JObj el)" by (simp_all add: rule_references_def)
    have "first_error (check_element (validate_leaf m lib (without a reg)) (validate_typed_property_value m lib (without a reg) lenient) p el) ys None =
        first_error (check_element (validate_leaf m lib reg) (validate_typed_property_value m lib reg lenient) p el) ys None" for ys
      by (rule first_error_cong2)
         (simp_all add: list_all2_same check_element_def leaf_without [OF assms(1) el(1)] struct_without [OF assms(1) _ el(2)])
    then show ?thesis by (simp add: check_array_def JObj split: json.splits)
  qed (simp_all add: check_array_def split: json.splits)
  show ?thesis
  proof (cases "obj_get r ''kind'' = JStr ''struct''")
    case True
    with assms struct_without show ?thesis by (simp add: rule_references_def)
  next
    case False
    with leaf arr show ?thesis by (simp add: Suc typed_body_def Let_def)
  qed
qed simp

lemma reachable_exclusive:
  "reachable_types db \<Longrightarrow> (k, sp) \<in> set (td_shared db) \<Longrightarrow> struct_fields (sp_struct_properties sp) = None \<or> named_value_type sp = None"
proof (induction arbitrary: k sp rule: reachable_types.induct)
  case (create db a vt sj db')
  from create.hyps(2) obtain sp0 where "insert_shared sp0 db = Inr db'" "sp_struct_properties sp0 = JNull \<or> sp_value_type sp0 = None"
    by (auto simp: create_shared_property_type_def Let_def res_simps split: option.splits if_splits json.splits)
  then have "db' = db\<lparr>td_shared := dict_set (sp_api_name sp0) sp0 (td_shared db)\<rparr>"
    "struct_fields (sp_struct_properties sp0) = None \<or> named_value_type sp0 = None"
    by (auto simp: insert_shared_def struct_fields_def named_value_type_def split: if_splits)
  with create.IH [of k sp] create.prems dict_mem_set [of "(k, sp)"] show ?case by fastforce
next
  case (delete db a db')
  then have "td_shared db' = dict_pop a (td_shared db)"
    by (auto simp: delete_shared_property_type_def res_simps split: option.splits)
  with delete.prems have "(k, sp) \<in> set (td_shared db)" using dict_mem_pop by fastforce
  then show ?case by (rule delete.IH)
qed simp_all


text \<open>
  Deletion does not rewrite the struct-typed shared properties that have the deleted one as a
  field: afterwards every value with that field is rejected wherever such a struct is used,
  although it may have been valid before.
\<close>

theorem delete_leaves_dangling_field:
  assumes "delete_shared_property_type a db = Inr db'" "dict_get (td_shared db) s = Some sp" "s \<noteq> a"
    "struct_fields (sp_struct_properties sp) = Some [(f, JObj fr)]" "leaf_names a (JObj fr)"
  shows "dict_get (td_shared db') s = Some sp \<and>
    fst (validate_typed_property_value (Suc (Suc (Suc (Suc n)))) lib (registry_of db') lenient p
      [(''kind'', JStr ''shared_property_type''), (''shared_property_type'', JStr s)] (JObj [(f, v)]) None) =
    Inr (Some (UnknownSharedPropertyType (p @ ''.'' @ f)))"
proof -
  have db': "td_shared db' = dict_pop a (td_shared db)"
    using assms(1) by (auto simp: delete_shared_property_type_def res_simps split: option.splits)
  have fr: "obj_get fr ''kind'' = JStr ''shared_property_type''" "name_of (obj_get fr ''shared_property_type'') = Some a"
    using assms(5) by (simp_all add: leaf_names_conv)
  have sf: "struct_fields (obj_get (struct_rule [(f, JObj fr)]) ''properties'') = Some [(f, JObj fr)]"
    using struct_fields_struct_rule [OF assms(4)] .
  have "fst (check_struct (validate_leaf (Suc n) lib (registry_of db')) False p (struct_rule [(f, JObj fr)]) (JObj [(f, v)]) None) =
      Inr (Some (UnknownSharedPropertyType (p @ ''.'' @ f)))"
    by (simp add: check_struct_def sf check_field_def dict_get_def leaf_body_def Let_def fr registry_of_def db' dict_pop_def delete_conv')
  moreover have "get_shared_property_type (registry_of db') (Some s) = Some sp"
    using assms(2,3) by (simp add: registry_of_def db')
  moreover have "obj_get [(''kind'', JStr ''shared_property_type''), (''shared_property_type'', JStr s)] ''kind'' = JStr ''shared_property_type''"
    "name_of (obj_get [(''kind'', JStr ''shared_property_type''), (''shared_property_type'', JStr s)] ''shared_property_type'') = Some s"
    by (simp_all add: obj_get_def dict_get_def name_of_def)
  ultimately show ?thesis
    using assms(2-4) by (simp add: db' typed_body_def Let_def leaf_body_def coerce_jsonish_def)
qed

text \<open>
  Row validation tolerates undeclared keys of a struct (they are projected away on read), but
  not when the struct is a shared property: the same value under the same fields is accepted
  with a local rule and rejected, so not indexed, with a shared one.
\<close>

theorem shared_struct_rejects_extra_keys:
  assumes "get_shared_property_type reg (Some s) = Some sp" "struct_fields (sp_struct_properties sp) = Some fs" "k \<notin> set (map fst fs)"
  shows "fst (validate_typed_property_value (Suc (Suc (Suc n))) lib reg True p
      [(''kind'', JStr ''shared_property_type''), (''shared_property_type'', JStr s)] (JObj [(k, v)]) None) = Inr (Some (UnknownFields p)) \<and>
    fst (validate_typed_property_value (Suc (Suc (Suc n))) lib reg True p (struct_rule fs) (JObj [(k, v)]) None) = Inr None"
proof -
  have sf: "struct_fields (obj_get (struct_rule fs) ''properties'') = Some fs"
    using struct_fields_struct_rule [OF assms(2)] .
  have keys: "fst f \<noteq> k" if "f \<in> set fs" for f using assms(3) that by auto
  have skip: "check_field g p [(k, v)] f c = (Inr None, c)" if "f \<in> set fs" for f g and c :: "type_cache option"
    using keys [OF that] by (simp add: check_field_def dict_get_def)
  have "first_error (check_field g p [(k, v)]) fs' c = (Inr None, c)" if "set fs' \<subseteq> set fs" for fs' g and c :: "type_cache option"
    using that by (induction fs') (simp_all add: skip)
  then have lenient: "fst (check_struct g True p (struct_rule fs) (JObj [(k, v)]) None) = Inr None" for g
    by (simp add: check_struct_def sf)
  have strict: "fst (check_struct g False p (struct_rule fs) (JObj [(k, v)]) None) = Inr (Some (UnknownFields p))" for g
    using assms(3) by (simp add: check_struct_def sf)
  have "obj_get [(''kind'', JStr ''shared_property_type''), (''shared_property_type'', JStr s)] ''kind'' = JStr ''shared_property_type''"
    "name_of (obj_get [(''kind'', JStr ''shared_property_type''), (''shared_property_type'', JStr s)] ''shared_property_type'') = Some s"
    by (simp_all add: obj_get_def dict_get_def name_of_def)
  with assms(1,2) lenient strict show ?thesis
    by (simp add: typed_body_def Let_def leaf_body_def coerce_jsonish_def)
qed

section \<open>Witnesses\<close>

definition spt_rule :: "string \<Rightarrow> json" where
  "spt_rule s = JObj [(''kind'', JStr ''shared_property_type''), (''shared_property_type'', JStr s)]"

definition age_type :: value_type where
  "age_type = \<lparr>vt_name = ''age'', vt_base_type = ''integer'', vt_format_regex = None, vt_format_regex_match = None, vt_constraints = []\<rparr>"

definition empty_types :: type_db where
  "empty_types = \<lparr>td_value_types = [(''age'', age_type)], td_shared = [], td_object_types = [(''Person'', [(''years'', spt_rule ''years'')])]\<rparr>"

definition years_db :: type_db where
  "years_db = empty_types\<lparr>td_shared := [(''years'', \<lparr>sp_api_name = ''years'', sp_value_type = Some ''age'', sp_struct_properties = JNull\<rparr>)]\<rparr>"

definition bio_db :: type_db where
  "bio_db = years_db\<lparr>td_shared := td_shared years_db @ [(''bio'', \<lparr>sp_api_name = ''bio'', sp_value_type = None,
     sp_struct_properties = JObj [(''y'', spt_rule ''years'')]\<rparr>)]\<rparr>"

definition local_db :: type_db where
  "local_db = empty_types\<lparr>td_object_types := [(''Person'', [(''years'', JObj (value_type_rule ''age''))])]\<rparr>"

lemma years_created: "create_shared_property_type ''years'' (Some ''age'') None empty_types = Inr years_db"
  by (simp add: create_shared_property_type_def empty_types_def years_db_def registry_of_def insert_shared_def dict_get_def
      dict_set_def)

lemma bio_created: "create_shared_property_type ''bio'' None (Some (JObj [(''y'', spt_rule ''years'')])) years_db = Inr bio_db"
proof -
  have "validate_struct_properties [(''y'', spt_rule ''years'')] = Inr ()" by code_simp
  then show ?thesis
    by (simp add: create_shared_property_type_def bio_db_def years_db_def empty_types_def registry_of_def insert_shared_def dict_get_def
        dict_set_def resolve_struct_field_def spt_rule_def obj_get_def name_of_def)
qed

lemma reachable_witness: "reachable_types years_db" "reachable_types bio_db"
proof -
  have "reachable_types empty_types" unfolding empty_types_def by (rule reachable_types.init)
  then show "reachable_types years_db" using years_created by (rule reachable_types.create)
  then show "reachable_types bio_db" using bio_created by (rule reachable_types.create)
qed

lemma years_deleted: "delete_shared_property_type ''years'' years_db = Inr local_db"
proof -
  have "leaf_names ''years'' (spt_rule ''years'')" by (simp add: leaf_names_def spt_rule_def obj_get_def dict_get_def)
  then show ?thesis
    by (simp add: delete_shared_property_type_def years_db_def local_db_def empty_types_def apply_detach_to_object_type_def
        property_types_reference_spt_def rule_references_def detach_spt_from_property_types_def detach_spt_from_rule.simps
        dict_get_def dict_pop_def local_rule_from_spt_def struct_fields_def named_value_type_def spt_rule_def)
qed

theorem typed_validation_terminates_witness:
  "fst (validate_typed_property_value 7 plain_lib (registry_of bio_db) True ''b''
     [(''kind'', JStr ''shared_property_type''), (''shared_property_type'', JStr ''bio'')] (JObj [(''y'', JInt 3)]) None) \<noteq> Inl RecursionError"
proof -
  have "2 * length (td_shared bio_db) + 3 \<le> 7" by (simp add: bio_db_def years_db_def)
  from typed_validation_terminates [OF reachable_witness(2) this] show ?thesis by blast
qed


lemma bio_fields:
  "dict_get (td_shared bio_db) ''bio'' = Some \<lparr>sp_api_name = ''bio'', sp_value_type = None,
     sp_struct_properties = JObj [(''y'', spt_rule ''years'')]\<rparr>"
  by (simp add: bio_db_def years_db_def dict_get_def)

theorem delete_leaves_dangling_field_witness:
  "\<exists>db'. delete_shared_property_type ''years'' bio_db = Inr db' \<and>
    fst (validate_typed_property_value 5 plain_lib (registry_of bio_db) False ''b''
      [(''kind'', JStr ''shared_property_type''), (''shared_property_type'', JStr ''bio'')] (JObj [(''y'', JInt 3)]) None) = Inr None \<and>
    fst (validate_typed_property_value 5 plain_lib (registry_of db') False ''b''
      [(''kind'', JStr ''shared_property_type''), (''shared_property_type'', JStr ''bio'')] (JObj [(''y'', JInt 3)]) None) =
      Inr (Some (UnknownSharedPropertyType ''b.y''))"
proof -
  have ln: "leaf_names ''years'' (spt_rule ''years'')" by (simp add: leaf_names_def spt_rule_def obj_get_def dict_get_def)
  then obtain db' where db': "delete_shared_property_type ''years'' bio_db = Inr db'"
    by (simp add: delete_shared_property_type_def bio_db_def years_db_def empty_types_def apply_detach_to_object_type_def
        property_types_reference_spt_def rule_references_def detach_spt_from_property_types_def detach_spt_from_rule.simps
        dict_get_def local_rule_from_spt_def struct_fields_def named_value_type_def spt_rule_def)
  have five: "(5 :: nat) = Suc (Suc (Suc (Suc (Suc 0))))" by simp
  have "fst (validate_typed_property_value 5 plain_lib (registry_of bio_db) False ''b''
      [(''kind'', JStr ''shared_property_type''), (''shared_property_type'', JStr ''bio'')] (JObj [(''y'', JInt 3)]) None) = Inr None"
    by code_simp
  with db' delete_leaves_dangling_field [OF db' bio_fields, of "''y''" "[(''kind'', JStr ''shared_property_type''), (''shared_property_type'', JStr ''years'')]"
      "Suc 0" plain_lib False "''b''" "JInt 3"] ln
  show ?thesis unfolding five by (auto simp: struct_fields_def spt_rule_def simp del: validate_typed_property_value.simps)
qed

theorem shared_struct_rejects_extra_keys_witness:
  "fst (validate_typed_property_value 3 plain_lib (registry_of bio_db) True ''b''
      [(''kind'', JStr ''shared_property_type''), (''shared_property_type'', JStr ''bio'')] (JObj [(''z'', JInt 3)]) None) = Inr (Some (UnknownFields ''b''))"
proof -
  have "get_shared_property_type (registry_of bio_db) (Some ''bio'') = Some \<lparr>sp_api_name = ''bio'', sp_value_type = None,
      sp_struct_properties = JObj [(''y'', spt_rule ''years'')]\<rparr>"
    using bio_fields by (simp add: registry_of_def)
  from shared_struct_rejects_extra_keys [OF this, of "[(''y'', spt_rule ''years'')]" "''z''" 0 plain_lib "''b''" "JInt 3"]
  show ?thesis by (simp add: struct_fields_def numeral_3_eq_3 del: validate_typed_property_value.simps)
qed

end
