(* ===== verification/Holon_Criteria.thy ===== *)
theory Holon_Criteria
  imports Holon_Compare Holon_Auth
begin

text \<open>
  Submission criteria of Action Types: the structural check at registration
  (\<open>validate_submission_criterion\<close> in \<open>ontology/action_types.py\<close>) and the evaluation against an
  instance and a principal (\<open>actions/declarative_criteria.py\<close>). A criterion is the JSON value the
  registry stores.
\<close>

section \<open>Operators\<close>

text \<open>\<open>_OPERATORS[op](actual, expected)\<close>: \<open>Inl\<close> is the exception it raises.\<close>

definition ordered :: "json \<Rightarrow> bool option \<Rightarrow> (py_exc, bool) result" where
  "ordered actual r =
     (if actual = JNull then Inr False else case r of None \<Rightarrow> Inl TypeError | Some b \<Rightarrow> Inr b)"

definition contained :: "json \<Rightarrow> json \<Rightarrow> (py_exc, bool) result" where
  "contained actual expected =
     (if \<not> truthy expected then Inr False
      else case expected of
        JList xs \<Rightarrow> Inr (py_in actual xs)
      | JStr t \<Rightarrow> (case actual of JStr s \<Rightarrow> Inr (contains t s) | _ \<Rightarrow> Inl TypeError)
      | JObj d \<Rightarrow> (case actual of JStr s \<Rightarrow> Inr (s \<in> set (map fst d)) | JList _ \<Rightarrow> Inl TypeError | JObj _ \<Rightarrow> Inl TypeError | _ \<Rightarrow> Inr False)
      | _ \<Rightarrow> Inl TypeError)"

definition apply_operator :: "json \<Rightarrow> json \<Rightarrow> json \<Rightarrow> (py_exc, bool) result" where
  "apply_operator operator actual expected =
     (case operator of
        JStr op \<Rightarrow>
          if op = ''eq'' then Inr (py_eq actual expected)
          else if op = ''neq'' then Inr (\<not> py_eq actual expected)
          else if op = ''gt'' then ordered actual (py_less expected actual)
          else if op = ''gte'' then ordered actual (map_option Not (py_less actual expected))
          else if op = ''lt'' then ordered actual (py_less actual expected)
          else if op = ''lte'' then ordered actual (map_option Not (py_less expected actual))
          else if op = ''in'' then contained actual expected
          else Inl KeyError
      | JList _ \<Rightarrow> Inl TypeError
      | JObj _ \<Rightarrow> Inl TypeError
      | _ \<Rightarrow> Inl KeyError)"

definition principal_attr :: "principal \<Rightarrow> string \<Rightarrow> json" where
  "principal_attr p field =
     (if field = ''urn'' then JStr (p_urn p) else if field = ''type'' then JStr (p_type p)
      else if field = ''tenant_id'' then JStr (p_tenant_id p) else if field = ''display_name'' then JStr (p_display_name p)
      else if field = ''on_behalf_of'' then jopt (p_on_behalf_of p) else if field = ''country'' then jopt (p_country p)
      else if field = ''jti'' then jopt (p_jti p) else JNull)"

section \<open>Evaluation\<close>

datatype criterion_error =
    Custom json
  | AnyFailed
  | PrincipalUnavailable
  | PrincipalFailed json json json
  | PropertyFailed json json json

definition custom_or :: "json \<Rightarrow> criterion_error \<Rightarrow> criterion_error" where
  "custom_or custom e = (if truthy custom then Custom custom else e)"

definition need :: "payload \<Rightarrow> string \<Rightarrow> (py_exc, json) result" where
  "need d k = (case dict_get d k of None \<Rightarrow> Inl KeyError | Some v \<Rightarrow> Inr v)"

definition eval_principal :: "principal option \<Rightarrow> payload \<Rightarrow> (py_exc, criterion_error option) result" where
  "eval_principal pr c =
     (let custom = obj_get c ''message'' in
      case pr of
        None \<Rightarrow> Inr (Some (custom_or custom PrincipalUnavailable))
      | Some p \<Rightarrow>
          rbind (case obj_get c ''principal'' of JStr f \<Rightarrow> Inr f | _ \<Rightarrow> Inl TypeError) (\<lambda>field.
          rbind (need c ''operator'') (\<lambda>operator.
          rbind (need c ''value'') (\<lambda>expected.
            let passed = (case apply_operator operator (principal_attr p field) expected of Inr b \<Rightarrow> b | Inl _ \<Rightarrow> False)
            in Inr (if passed then None else Some (custom_or custom (PrincipalFailed (JStr field) operator expected)))))))"

definition row_value :: "payload \<Rightarrow> json \<Rightarrow> (py_exc, json) result" where
  "row_value row name = (case name of JStr s \<Rightarrow> Inr (obj_get row s) | JList _ \<Rightarrow> Inl TypeError | JObj _ \<Rightarrow> Inl TypeError | _ \<Rightarrow> Inr JNull)"

definition eval_property :: "payload \<Rightarrow> payload \<Rightarrow> (py_exc, criterion_error option) result" where
  "eval_property row c =
     (let custom = obj_get c ''message'' in
      rbind (need c ''property'') (\<lambda>name.
      rbind (need c ''operator'') (\<lambda>operator.
      rbind (need c ''value'') (\<lambda>expected.
      rbind (row_value row name) (\<lambda>actual.
      rbind (case apply_operator operator actual expected of Inl TypeError \<Rightarrow> Inr False | r \<Rightarrow> r) (\<lambda>passed.
        Inr (if passed then None else Some (custom_or custom (PropertyFailed name operator expected)))))))))"

text \<open>What a \<open>for\<close> loop over a group visits: a non-object child has no \<open>get\<close>.\<close>

definition group_children :: "json \<Rightarrow> (py_exc, json list) result" where
  "group_children j =
     (case j of
        JList xs \<Rightarrow> Inr xs
      | JStr s \<Rightarrow> if s = [] then Inr [] else Inl AttributeError
      | JObj d \<Rightarrow> if d = [] then Inr [] else Inl AttributeError
      | _ \<Rightarrow> Inl TypeError)"

lemma children_smaller: "dict_get (d :: payload) k = Some j \<Longrightarrow> group_children j = Inr xs \<Longrightarrow> size_list size xs < size_list (size_prod (\<lambda>_. 0) size) d + 1"
  using member_smaller [of d k j] by (auto simp: group_children_def split: json.splits if_splits)

function (sequential) evaluate_one_criterion :: "payload \<Rightarrow> principal option \<Rightarrow> json \<Rightarrow> (py_exc, criterion_error option) result"
  and evaluate_all :: "payload \<Rightarrow> principal option \<Rightarrow> json list \<Rightarrow> (py_exc, criterion_error option) result"
  and evaluate_any :: "payload \<Rightarrow> principal option \<Rightarrow> criterion_error option \<Rightarrow> json list \<Rightarrow> (py_exc, criterion_error option) result" where
  "evaluate_one_criterion row pr (JObj c) =
     (let custom = obj_get c ''message'' in
      case dict_get c ''all'' of
        Some j \<Rightarrow>
          (case group_children j of
             Inl e \<Rightarrow> Inl e
           | Inr xs \<Rightarrow> rbind (evaluate_all row pr xs) (\<lambda>e. Inr (map_option (custom_or custom) e)))
      | None \<Rightarrow>
          (case dict_get c ''any'' of
             Some j \<Rightarrow>
               (case group_children j of
                  Inl e \<Rightarrow> Inl e
                | Inr xs \<Rightarrow> rbind (evaluate_any row pr None xs) (\<lambda>e. Inr (map_option (custom_or custom) e)))
           | None \<Rightarrow> if dict_get c ''principal'' \<noteq> None then eval_principal pr c else eval_property row c))"
| "evaluate_one_criterion row pr other = Inl AttributeError"
| "evaluate_all row pr [] = Inr None"
| "evaluate_all row pr (x # xs) =
     (case evaluate_one_criterion row pr x of
        Inl e \<Rightarrow> Inl e | Inr (Some e) \<Rightarrow> Inr (Some e) | Inr None \<Rightarrow> evaluate_all row pr xs)"
| "evaluate_any row pr first [] = Inr (Some (case first of Some e \<Rightarrow> e | None \<Rightarrow> AnyFailed))"
| "evaluate_any row pr first (x # xs) =
     (case evaluate_one_criterion row pr x of
        Inl e \<Rightarrow> Inl e
      | Inr None \<Rightarrow> Inr None
      | Inr (Some e) \<Rightarrow> evaluate_any row pr (case first of None \<Rightarrow> Some e | Some e0 \<Rightarrow> Some e0) xs)"
  by pat_completeness auto
termination
  by (relation "measure (\<lambda>x. case x of Inl (_, _, j) \<Rightarrow> size j | Inr (Inl (_, _, xs)) \<Rightarrow> size_list size xs
       | Inr (Inr (_, _, _, xs)) \<Rightarrow> size_list size xs)")
     (auto dest: children_smaller)

definition evaluate_criteria :: "payload \<Rightarrow> json list \<Rightarrow> principal option \<Rightarrow> (py_exc, criterion_error option) result" where
  "evaluate_criteria row criteria pr = evaluate_all row pr criteria"

section \<open>Registration\<close>

datatype criterion_malformed =
    NotObject
  | MessageNotString
  | BothGroups
  | EmptyGroup
  | BadPrincipalField
  | UnknownOperator
  | MissingKey
  | InNeedsList

definition allowed_operators :: "string list" where
  "allowed_operators = [''eq'', ''neq'', ''gt'', ''gte'', ''lt'', ''lte'']"

definition known_operator :: "json \<Rightarrow> bool" where
  "known_operator op = (op \<in> JStr ` set (allowed_operators @ [''in'']))"

definition is_list :: "json \<Rightarrow> bool" where
  "is_list j = (case j of JList _ \<Rightarrow> True | _ \<Rightarrow> False)"

definition check_comparison :: "payload \<Rightarrow> bool \<Rightarrow> (criterion_malformed, unit) result" where
  "check_comparison c missing =
     (let op = obj_get c ''operator'' in
      rbind (raise_if (\<not> known_operator op) UnknownOperator) (\<lambda>_.
      rbind (raise_if missing MissingKey) (\<lambda>_.
        raise_if (op = JStr ''in'' \<and> \<not> is_list (obj_get c ''value'')) InNeedsList)))"

function (sequential) validate_submission_criterion :: "json \<Rightarrow> (criterion_malformed, unit) result"
  and validate_children :: "json list \<Rightarrow> (criterion_malformed, unit) result" where
  "validate_submission_criterion (JObj c) =
     (if (case obj_get c ''message'' of JNull \<Rightarrow> False | JStr _ \<Rightarrow> False | _ \<Rightarrow> True) then Inl MessageNotString
      else if dict_get c ''all'' \<noteq> None \<and> dict_get c ''any'' \<noteq> None then Inl BothGroups
      else case (case dict_get c ''all'' of Some j \<Rightarrow> Some j | None \<Rightarrow> dict_get c ''any'') of
        Some (JList (x # xs)) \<Rightarrow> validate_children (x # xs)
      | Some _ \<Rightarrow> Inl EmptyGroup
      | None \<Rightarrow>
          if dict_get c ''principal'' \<noteq> None then
            (if obj_get c ''principal'' \<notin> {JStr ''urn'', JStr ''type''} then Inl BadPrincipalField
             else check_comparison c (dict_get c ''value'' = None))
          else check_comparison c (dict_get c ''property'' = None \<or> dict_get c ''value'' = None))"
| "validate_submission_criterion other = Inl NotObject"
| "validate_children [] = Inr ()"
| "validate_children (x # xs) = rbind (validate_submission_criterion x) (\<lambda>_. validate_children xs)"
  by pat_completeness auto
termination
proof (relation "measure (\<lambda>x. case x of Inl j \<Rightarrow> size j | Inr xs \<Rightarrow> size_list size xs)", goal_cases)
  case (2 c j xs y ys)
  then obtain k where "dict_get c k = Some (JList (y # ys))" by (auto split: option.splits)
  from member_smaller [OF this] 2 show ?case by simp
qed auto

section \<open>Evaluation refines the boolean reading\<close>

text \<open>
  What a comparison says, independently of how the operators are coded: numbers compare by value
  whatever their Python types, strings by code points, lists lexicographically, membership is
  equality with an element, being a substring, or being a key; nothing else holds.
\<close>

inductive precedes :: "json \<Rightarrow> json \<Rightarrow> bool" where
  precedes_number: "num_of a = Some x \<Longrightarrow> num_of b = Some y \<Longrightarrow> x < y \<Longrightarrow> precedes a b"
| precedes_text: "str_less s t \<Longrightarrow> precedes (JStr s) (JStr t)"
| precedes_list: "less_lists xs ys = Some True \<Longrightarrow> precedes (JList xs) (JList ys)"

inductive at_most :: "json \<Rightarrow> json \<Rightarrow> bool" where
  at_most_number: "num_of a = Some x \<Longrightarrow> num_of b = Some y \<Longrightarrow> x \<le> y \<Longrightarrow> at_most a b"
| at_most_text: "s = t \<or> str_less s t \<Longrightarrow> at_most (JStr s) (JStr t)"
| at_most_list: "less_lists ys xs = Some False \<Longrightarrow> at_most (JList xs) (JList ys)"

inductive comparison_holds :: "json \<Rightarrow> json \<Rightarrow> json \<Rightarrow> bool" where
  is_equal: "py_eq actual expected \<Longrightarrow> comparison_holds (JStr ''eq'') actual expected"
| is_unequal: "\<not> py_eq actual expected \<Longrightarrow> comparison_holds (JStr ''neq'') actual expected"
| is_greater: "precedes expected actual \<Longrightarrow> comparison_holds (JStr ''gt'') actual expected"
| is_at_least: "at_most expected actual \<Longrightarrow> comparison_holds (JStr ''gte'') actual expected"
| is_smaller: "precedes actual expected \<Longrightarrow> comparison_holds (JStr ''lt'') actual expected"
| is_at_most: "at_most actual expected \<Longrightarrow> comparison_holds (JStr ''lte'') actual expected"
| is_element: "x \<in> set xs \<Longrightarrow> py_eq actual x \<Longrightarrow> comparison_holds (JStr ''in'') actual (JList xs)"
| is_substring: "t \<noteq> [] \<Longrightarrow> contains t s \<Longrightarrow> comparison_holds (JStr ''in'') (JStr s) (JStr t)"
| is_key: "(k, v) \<in> set d \<Longrightarrow> comparison_holds (JStr ''in'') (JStr k) (JObj d)"

lemma str_less_asym: "str_less s t \<Longrightarrow> \<not> str_less t s"
  using str_less_trans [of s t s] by auto

lemma py_less_precedes: "py_less a b = Some True \<longleftrightarrow> precedes a b"
  by (cases a; cases b) (auto simp: precedes.simps)

lemma py_less_at_most: "py_less a b = Some False \<longleftrightarrow> at_most b a"
proof (cases "\<exists>s t. a = JStr s \<and> b = JStr t")
  case True
  then obtain s t where ab: "a = JStr s" "b = JStr t" by blast
  have "\<not> str_less s t \<longleftrightarrow> t = s \<or> str_less t s"
    using str_less_total [of s t] str_less_asym [of s t] by auto
  with ab show ?thesis by (auto simp: at_most.simps)
qed (cases a; cases b; auto simp: at_most.simps not_less)

lemma negated_less: "map_option Not (py_less a b) = Some True \<longleftrightarrow> at_most b a"
  by (auto simp flip: py_less_at_most)

lemma null_incomparable [simp]:
  "\<not> precedes JNull b" "\<not> precedes a JNull" "\<not> at_most JNull b" "\<not> at_most a JNull"
  by (auto simp: precedes.simps at_most.simps)

lemma ordered_iff: "ordered actual r = Inr True \<longleftrightarrow> actual \<noteq> JNull \<and> r = Some True"
  by (auto simp: ordered_def split: option.splits)

lemma ordered_holds:
  "ordered actual (py_less actual b) = Inr True \<longleftrightarrow> precedes actual b"
  "ordered actual (py_less b actual) = Inr True \<longleftrightarrow> precedes b actual"
  "ordered actual (map_option Not (py_less actual b)) = Inr True \<longleftrightarrow> at_most b actual"
  "ordered actual (map_option Not (py_less b actual)) = Inr True \<longleftrightarrow> at_most actual b"
  unfolding ordered_iff py_less_precedes negated_less by auto

lemma contained_iff: "contained actual expected = Inr True \<longleftrightarrow> comparison_holds (JStr ''in'') actual expected"
proof (cases expected)
  case (JList xs)
  then show ?thesis by (auto simp: contained_def comparison_holds.simps py_in_def list_ex_iff)
next
  case (JStr t)
  then show ?thesis by (cases actual) (auto simp: contained_def comparison_holds.simps)
next
  case (JObj d)
  then show ?thesis by (cases actual) (force simp: contained_def comparison_holds.simps)+
qed (auto simp: contained_def comparison_holds.simps)

lemma operator_meaning: "apply_operator op actual expected = Inr True \<longleftrightarrow> comparison_holds op actual expected"
proof (cases "known_operator op \<and> op \<noteq> JStr ''in''")
  case True
  then consider "op = JStr ''eq''" | "op = JStr ''neq''" | "op = JStr ''gt''" | "op = JStr ''gte''"
    | "op = JStr ''lt''" | "op = JStr ''lte''"
    by (auto simp: known_operator_def allowed_operators_def)
  then show ?thesis
    by cases (simp_all add: apply_operator_def comparison_holds.simps ordered_holds)
next
  case False
  have other: "apply_operator op actual expected \<noteq> Inr True \<and> \<not> comparison_holds op actual expected"
    if "\<not> known_operator op"
    using that by (cases op)
      (auto simp: known_operator_def allowed_operators_def apply_operator_def comparison_holds.simps)
  show ?thesis
  proof (cases "op = JStr ''in''")
    case True
    then show ?thesis using contained_iff [of actual expected] by (simp add: apply_operator_def)
  next
    case False
    with \<open>\<not> (known_operator op \<and> op \<noteq> JStr ''in'')\<close> other show ?thesis by blast
  qed
qed

text \<open>What a criterion says: groups are conjunction and disjunction, a leaf holds when its comparison does.\<close>

inductive satisfied :: "payload \<Rightarrow> principal \<Rightarrow> json \<Rightarrow> bool" for row p where
  all_of: "dict_get c ''all'' = Some (JList xs) \<Longrightarrow> (\<And>x. x \<in> set xs \<Longrightarrow> satisfied row p x) \<Longrightarrow> satisfied row p (JObj c)"
| any_of: "dict_get c ''all'' = None \<Longrightarrow> dict_get c ''any'' = Some (JList xs) \<Longrightarrow> x \<in> set xs \<Longrightarrow> satisfied row p x
    \<Longrightarrow> satisfied row p (JObj c)"
| principal: "dict_get c ''all'' = None \<Longrightarrow> dict_get c ''any'' = None \<Longrightarrow> dict_get c ''principal'' = Some (JStr f)
    \<Longrightarrow> comparison_holds (obj_get c ''operator'') (principal_attr p f) (obj_get c ''value'') \<Longrightarrow> satisfied row p (JObj c)"
| of_property: "dict_get c ''all'' = None \<Longrightarrow> dict_get c ''any'' = None \<Longrightarrow> dict_get c ''principal'' = None \<Longrightarrow>
    row_value row (obj_get c ''property'') = Inr v \<Longrightarrow>
    comparison_holds (obj_get c ''operator'') v (obj_get c ''value'') \<Longrightarrow> satisfied row p (JObj c)"

inductive_simps satisfied_obj: "satisfied row p (JObj c)"

lemma validate_children_iff: "validate_children xs = Inr () \<longleftrightarrow> (\<forall>x \<in> set xs. validate_submission_criterion x = Inr ())"
  by (induction xs) (auto simp: res_simps)

lemma group_validated:
  assumes "validate_submission_criterion (JObj c) = Inr ()" "dict_get c k = Some (JList xs)"
    "k = ''all'' \<or> k = ''any'' \<and> dict_get c ''all'' = None"
  shows "\<forall>x \<in> set xs. validate_submission_criterion x = Inr ()"
proof -
  have "validate_children xs = Inr ()"
    using assms by (auto simp del: validate_children.simps split: if_splits list.splits)
  then show ?thesis by (simp add: validate_children_iff)
qed

lemma known_operator_no_key: "known_operator op \<Longrightarrow> apply_operator op a b \<noteq> Inl KeyError"
  by (auto simp: known_operator_def allowed_operators_def apply_operator_def ordered_def contained_def split: option.splits json.splits)

text \<open>The name of a property is a string or another scalar (registration does not look at it).\<close>

inductive well_named :: "json \<Rightarrow> bool" where
  "(\<And>k xs x. k = ''all'' \<or> k = ''any'' \<Longrightarrow> dict_get c k = Some (JList xs) \<Longrightarrow> x \<in> set xs \<Longrightarrow> well_named x) \<Longrightarrow>
   \<not> is_list (obj_get c ''property'') \<and> \<not> is_dict (obj_get c ''property'') \<Longrightarrow> well_named (JObj c)"

inductive_cases well_named_objE: "well_named (JObj c)"

lemma comparison_keys:
  "check_comparison c m = Inr () \<Longrightarrow> known_operator (obj_get c ''operator'') \<and> \<not> m \<and> dict_get c ''operator'' \<noteq> None"
  by (auto simp: check_comparison_def Let_def res_simps known_operator_def allowed_operators_def obj_get_def split: option.splits)

lemma eval_principal_refines:
  assumes "check_comparison c (dict_get c ''value'' = None) = Inr ()" "dict_get c ''principal'' = Some (JStr f)"
  shows "\<exists>e. eval_principal (Some p) c = Inr e \<and>
    (e = None \<longleftrightarrow> comparison_holds (obj_get c ''operator'') (principal_attr p f) (obj_get c ''value''))"
  unfolding operator_meaning [symmetric] using comparison_keys [OF assms(1)] assms(2)
  by (auto simp: eval_principal_def Let_def need_def obj_get_def split: sum.splits option.splits)

lemma eval_property_refines:
  assumes "check_comparison c (dict_get c ''property'' = None \<or> dict_get c ''value'' = None) = Inr ()"
    "\<not> is_list (obj_get c ''property'')" "\<not> is_dict (obj_get c ''property'')"
  shows "\<exists>e v. eval_property row c = Inr e \<and> row_value row (obj_get c ''property'') = Inr v \<and>
    (e = None \<longleftrightarrow> comparison_holds (obj_get c ''operator'') v (obj_get c ''value''))"
proof -
  let ?op = "obj_get c ''operator''" and ?val = "obj_get c ''value''" and ?prp = "obj_get c ''property''"
  obtain v where v: "row_value row ?prp = Inr v"
    using assms(2,3) by (cases ?prp) (simp_all add: row_value_def is_list_def)
  have keys: "need c ''property'' = Inr ?prp" "need c ''operator'' = Inr ?op" "need c ''value'' = Inr ?val" "known_operator ?op"
    using comparison_keys [OF assms(1)] by (auto simp: need_def obj_get_def)
  have "\<exists>b. (case apply_operator ?op v ?val of Inl TypeError \<Rightarrow> Inr False | r \<Rightarrow> r) = Inr b \<and>
      (b \<longleftrightarrow> apply_operator ?op v ?val = Inr True)"
    using known_operator_no_key [OF keys(4), of v ?val]
    by (auto simp: apply_operator_def ordered_def contained_def split: sum.splits py_exc.splits option.splits json.splits if_splits)
  then show ?thesis using v keys by (auto simp: eval_property_def Let_def operator_meaning)
qed

lemma satisfied_all: "dict_get c ''all'' = Some (JList xs) \<Longrightarrow> satisfied row p (JObj c) \<longleftrightarrow> (\<forall>x \<in> set xs. satisfied row p x)"
  by (subst satisfied_obj) auto

lemma satisfied_any:
  "dict_get c ''all'' = None \<Longrightarrow> dict_get c ''any'' = Some (JList xs) \<Longrightarrow> satisfied row p (JObj c) \<longleftrightarrow> (\<exists>x \<in> set xs. satisfied row p x)"
  by (subst satisfied_obj) auto

lemma evaluation_refines:
  shows "pr = Some p \<Longrightarrow> validate_submission_criterion j = Inr () \<Longrightarrow> well_named j \<Longrightarrow>
      \<exists>e. evaluate_one_criterion row pr j = Inr e \<and> (e = None \<longleftrightarrow> satisfied row p j)"
    and "pr = Some p \<Longrightarrow> \<forall>x \<in> set xs. validate_submission_criterion x = Inr () \<and> well_named x \<Longrightarrow>
      \<exists>e. evaluate_all row pr xs = Inr e \<and> (e = None \<longleftrightarrow> (\<forall>x \<in> set xs. satisfied row p x))"
    and "pr = Some p \<Longrightarrow> \<forall>x \<in> set xs. validate_submission_criterion x = Inr () \<and> well_named x \<Longrightarrow>
      \<exists>e. evaluate_any row pr first xs = Inr e \<and> (e = None \<longleftrightarrow> (\<exists>x \<in> set xs. satisfied row p x))"
proof (induction row pr j and row pr xs and row pr first xs rule: evaluate_one_criterion_evaluate_all_evaluate_any.induct)
  case (1 row pr c)
  have kids: "\<forall>x \<in> set xs. validate_submission_criterion x = Inr () \<and> well_named x"
    if "dict_get c k = Some (JList xs)" "k = ''all'' \<or> k = ''any'' \<and> dict_get c ''all'' = None" for k xs
    using group_validated [OF "1.prems"(2) that] "1.prems"(3) that by (blast elim: well_named_objE)
  consider j where "dict_get c ''all'' = Some j" | j where "dict_get c ''all'' = None" "dict_get c ''any'' = Some j"
    | "dict_get c ''all'' = None" "dict_get c ''any'' = None" by blast
  then show ?case
  proof cases
    case (1 j)
    from 1 "1.prems"(2) obtain xs where j: "j = JList xs" by (auto split: if_splits json.splits list.splits option.splits)
    with 1 "1.IH"(2) [OF refl 1, of xs] kids [of "''all''" xs] "1.prems"(1) obtain e where
      "evaluate_all row pr xs = Inr e" "e = None \<longleftrightarrow> (\<forall>x \<in> set xs. satisfied row p x)" by (auto simp: group_children_def)
    with 1 j show ?thesis by (simp add: satisfied_all group_children_def)
  next
    case (2 j)
    from 2 "1.prems"(2) obtain xs where j: "j = JList xs" by (auto split: if_splits json.splits list.splits option.splits)
    with 2 "1.IH"(1) [OF refl 2, of xs] kids [of "''any''" xs] "1.prems"(1) obtain e where
      "evaluate_any row pr None xs = Inr e" "e = None \<longleftrightarrow> (\<exists>x \<in> set xs. satisfied row p x)" by (auto simp: group_children_def)
    with 2 j show ?thesis by (simp add: satisfied_any group_children_def)
  next
    case 3
    show ?thesis
    proof (cases "dict_get c ''principal''")
      case (Some f)
      with 3 "1.prems"(2) obtain s where s: "f = JStr s" "check_comparison c (dict_get c ''value'' = None) = Inr ()"
        by (auto simp: obj_get_def split: if_splits)
      with Some eval_principal_refines [of c s p] 3 "1.prems"(1) show ?thesis by (auto simp: satisfied_obj)
    next
      case None
      with 3 "1.prems"(2) have "check_comparison c (dict_get c ''property'' = None \<or> dict_get c ''value'' = None) = Inr ()"
        by (auto split: if_splits)
      with None eval_property_refines [of c row] 3 "1.prems"(3) show ?thesis
        by (auto simp: satisfied_obj elim!: well_named_objE)
    qed
  qed
next
  case (4 row pr x xs)
  then show ?case by (auto split: sum.splits option.splits)
next
  case (6 row pr first x xs)
  then show ?case by (auto split: sum.splits option.splits)
qed simp_all

text \<open>
  C10. The evaluator of submission criteria refines their declarative reading: for every list of
  criteria that registration accepts and whose property names are not lists or objects,
  evaluation for a principal returns (it neither raises nor loops), and it reports no failure
  exactly when every criterion is satisfied, where the meaning of the comparisons is given
  by rules that do not mention the evaluator's operators. Registration does not look at the
  property names; \<open>unhashable_property_raises\<close> shows that the condition on them is needed.
\<close>

theorem criteria_evaluation_refines:
  assumes "\<forall>c \<in> set criteria. validate_submission_criterion c = Inr () \<and> well_named c"
  shows "\<exists>e. evaluate_criteria row criteria (Some p) = Inr e \<and> (e = None \<longleftrightarrow> (\<forall>c \<in> set criteria. satisfied row p c))"
  unfolding evaluate_criteria_def using evaluation_refines(2) [OF refl assms] .

text \<open>A property name that registration lets through but that cannot be looked up makes the evaluator raise.\<close>

lemma unhashable_property_raises:
  "validate_submission_criterion (JObj [(''property'', JList []), (''operator'', JStr ''eq''), (''value'', JInt 1)]) = Inr () \<and>
   evaluate_criteria row [JObj [(''property'', JList []), (''operator'', JStr ''eq''), (''value'', JInt 1)]] pr = Inl TypeError"
  by (simp add: evaluate_criteria_def check_comparison_def known_operator_def allowed_operators_def obj_get_def dict_get_def
      eval_property_def need_def row_value_def Let_def)

definition adult_and_user :: json where
  "adult_and_user = JObj [(''all'', JList [
     JObj [(''property'', JStr ''age''), (''operator'', JStr ''gte''), (''value'', JInt 18)],
     JObj [(''any'', JList [JObj [(''principal'', JStr ''type''), (''operator'', JStr ''in''), (''value'', JList [JStr ''user''])]])]])]"

lemma adult_and_user_ok: "validate_submission_criterion adult_and_user = Inr ()" "well_named adult_and_user"
proof -
  show "validate_submission_criterion adult_and_user = Inr ()" by code_simp
  show "well_named adult_and_user"
    unfolding adult_and_user_def
    by (auto intro!: well_named.intros simp: dict_get_def obj_get_def is_list_def split: if_splits)
qed

theorem criteria_evaluation_refines_witness:
  "satisfied [(''age'', JInt 20)] \<lparr>p_urn = ''u'', p_type = ''user'', p_tenant_id = ''t'',
      p_display_name = ''d'', p_on_behalf_of = None, p_country = None, p_jti = None\<rparr> adult_and_user \<and>
   \<not> satisfied [(''age'', JInt 17)] \<lparr>p_urn = ''u'', p_type = ''user'', p_tenant_id = ''t'',
      p_display_name = ''d'', p_on_behalf_of = None, p_country = None, p_jti = None\<rparr> adult_and_user"
proof -
  let ?p = "\<lparr>p_urn = ''u'', p_type = ''user'', p_tenant_id = ''t'', p_display_name = ''d'', p_on_behalf_of = None,
    p_country = None, p_jti = None\<rparr>"
  have ok: "\<forall>c \<in> set [adult_and_user]. validate_submission_criterion c = Inr () \<and> well_named c"
    using adult_and_user_ok by simp
  have "evaluate_criteria [(''age'', JInt 20)] [adult_and_user] (Some ?p) = Inr None" by code_simp
  moreover have "case evaluate_criteria [(''age'', JInt 17)] [adult_and_user] (Some ?p) of Inr (Some _) \<Rightarrow> True | _ \<Rightarrow> False"
    by code_simp
  ultimately show ?thesis
    using criteria_evaluation_refines [OF ok, of "[(''age'', JInt 20)]" ?p] criteria_evaluation_refines [OF ok, of "[(''age'', JInt 17)]" ?p]
    by (auto split: option.splits)
qed

end
