(* ===== verification/Holon_Metadata.thy ===== *)
theory Holon_Metadata
  imports Holon_Json
begin

text \<open>
  Metadata helpers of the ontology: type classes (\<open>ontology/type_classes.py\<close>) and lifecycle
  statuses with their deprecation data (\<open>ontology/lifecycle.py\<close>). Dates are a type parameter;
  \<open>date.fromisoformat\<close> is a function argument.
\<close>

section \<open>Type classes\<close>

datatype metadata_error =
    EmptyTypeClass
  | InvalidTypeClass string
  | TypeClassesNotStrings
  | InvalidLifecycle string
  | PromotedNotAllowed
  | ReasonRequired
  | ReasonTooLong
  | DeadlineRequired
  | DeadlineNotIso
  | ReplacementTooLong

definition tag_char :: "char \<Rightarrow> bool" where
  "tag_char c = (is_lower c \<or> is_digit c \<or> c = CHR ''_'' \<or> c = CHR ''-'')"

definition is_tag :: "string \<Rightarrow> bool" where
  "is_tag s = (s \<noteq> [] \<and> is_lower (hd s) \<and> list_all tag_char (tl s) \<and> length s \<le> 64)"

definition class_name_char :: "char \<Rightarrow> bool" where
  "class_name_char c = (is_alnum c \<or> c \<in> set ''_.:-'')"

definition type_class_match :: "string \<Rightarrow> bool" where
  "type_class_match s =
     (case partition_on (CHR '':'') s of (kind, sep, name) \<Rightarrow>
        is_tag kind \<and> (sep \<longrightarrow> name \<noteq> [] \<and> length name \<le> 128 \<and> list_all class_name_char name))"

definition normalize_type_class :: "string \<Rightarrow> (metadata_error, string) result" where
  "normalize_type_class raw =
     (let cleaned = py_strip raw in
      if cleaned = [] then Inl EmptyTypeClass
      else if \<not> type_class_match cleaned then Inl (InvalidTypeClass cleaned)
      else Inr cleaned)"

fun normalize_each :: "string list \<Rightarrow> (metadata_error, string list) result" where
  "normalize_each [] = Inr []"
| "normalize_each (c # cs) = rbind (normalize_type_class c) (\<lambda>x. rbind (normalize_each cs) (\<lambda>xs. Inr (x # xs)))"

definition all_strings :: "json list \<Rightarrow> bool" where
  "all_strings xs = list_all (\<lambda>j. case j of JStr _ \<Rightarrow> True | _ \<Rightarrow> False) xs"

definition string_of :: "json \<Rightarrow> string" where
  "string_of j = (case j of JStr s \<Rightarrow> s | _ \<Rightarrow> [])"

definition normalize_type_classes :: "json \<Rightarrow> (metadata_error, string list) result" where
  "normalize_type_classes j =
     (case j of
        JNull \<Rightarrow> Inr []
      | JList xs \<Rightarrow> if all_strings xs then normalize_each (map string_of xs) else Inl TypeClassesNotStrings
      | _ \<Rightarrow> Inl TypeClassesNotStrings)"

definition parse_type_class :: "string \<Rightarrow> (metadata_error, string \<times> string) result" where
  "parse_type_class raw =
     rbind (normalize_type_class raw) (\<lambda>cleaned.
       case partition_on (CHR '':'') cleaned of (kind, sep, name) \<Rightarrow>
         Inr (if sep then (kind, name) else (''custom'', cleaned)))"

text \<open>A falsy value has no items; other values are lists here.\<close>

definition class_items :: "json \<Rightarrow> json list" where
  "class_items j = (case j of JList xs \<Rightarrow> xs | _ \<Rightarrow> [])"

definition has_type_class :: "json \<Rightarrow> string \<Rightarrow> string \<Rightarrow> bool" where
  "has_type_class type_classes kind name =
     list_ex (\<lambda>item. case item of JStr s \<Rightarrow> normalize_type_class s = Inr (kind @ '':'' @ name) | _ \<Rightarrow> False) (class_items type_classes)"

fun find_property_with_type_class :: "payload \<Rightarrow> string \<Rightarrow> string \<Rightarrow> string option" where
  "find_property_with_type_class [] kind name = None"
| "find_property_with_type_class ((prp, rule) # rest) kind name =
     (case rule of
        JObj r \<Rightarrow> if has_type_class (obj_get r ''type_classes'') kind name then Some prp
                  else find_property_with_type_class rest kind name
      | _ \<Rightarrow> find_property_with_type_class rest kind name)"

section \<open>Lifecycle\<close>

datatype lifecycle_target = TargetObjectType | TargetProperty | TargetRegistry

definition valid_lifecycle_statuses :: "string list" where
  "valid_lifecycle_statuses = [''experimental'', ''active'', ''deprecated'', ''example'', ''promoted'']"

definition normalize_lifecycle_status :: "string \<Rightarrow> (metadata_error, string) result" where
  "normalize_lifecycle_status s = (if s \<notin> set valid_lifecycle_statuses then Inl (InvalidLifecycle s) else Inr s)"

definition assert_lifecycle_for_target :: "string \<Rightarrow> lifecycle_target \<Rightarrow> (metadata_error, string) result" where
  "assert_lifecycle_for_target lifecycle_status target =
     rbind (normalize_lifecycle_status lifecycle_status) (\<lambda>status.
       if status = ''promoted'' \<and> target \<noteq> TargetObjectType then Inl PromotedNotAllowed
       else if target \<noteq> TargetObjectType \<and> status \<notin> {''experimental'', ''active'', ''deprecated'', ''example''}
       then Inl (InvalidLifecycle status)
       else Inr status)"

datatype 'd raw_deadline = RawNone | RawDate 'd | RawDatetime 'd | RawStr string | RawOther

definition parse_deadline :: "(string \<Rightarrow> 'd option) \<Rightarrow> 'd raw_deadline \<Rightarrow> (metadata_error, 'd option) result" where
  "parse_deadline fromisoformat raw =
     (case raw of
        RawNone \<Rightarrow> Inr None
      | RawDate d \<Rightarrow> Inr (Some d)
      | RawDatetime d \<Rightarrow> Inr (Some d)
      | RawStr s \<Rightarrow>
          (let cleaned = py_strip s in
           if cleaned = [] then Inr None
           else (case fromisoformat (take 10 cleaned) of None \<Rightarrow> Inl DeadlineNotIso | Some d \<Rightarrow> Inr (Some d)))
      | RawOther \<Rightarrow> Inl DeadlineNotIso)"

record 'd deprecation =
  lifecycle_status :: string
  deprecation_reason :: "string option"
  deprecation_deadline :: "'d option"
  replacement_urn :: "string option"

definition or_empty :: "string option \<Rightarrow> string" where
  "or_empty s = (case s of Some x \<Rightarrow> x | None \<Rightarrow> [])"

definition normalize_deprecation_metadata ::
  "(string \<Rightarrow> 'd option) \<Rightarrow> string \<Rightarrow> string option \<Rightarrow> 'd raw_deadline \<Rightarrow> string option \<Rightarrow> lifecycle_target
     \<Rightarrow> (metadata_error, 'd deprecation) result" where
  "normalize_deprecation_metadata fromisoformat status0 reason0 deadline0 repl0 target =
     rbind (assert_lifecycle_for_target status0 target) (\<lambda>status.
       if status \<noteq> ''deprecated'' then
         Inr \<lparr>lifecycle_status = status, deprecation_reason = None, deprecation_deadline = None, replacement_urn = None\<rparr>
       else
         let reason = py_strip (or_empty reason0) in
         rbind (raise_if (reason = []) ReasonRequired) (\<lambda>_.
         rbind (raise_if (length reason > 2000) ReasonTooLong) (\<lambda>_.
         rbind (parse_deadline fromisoformat deadline0) (\<lambda>deadline.
         rbind (raise_if (deadline = None) DeadlineRequired) (\<lambda>_.
           let r = py_strip (or_empty repl0); repl = (if r = [] then None else Some r) in
           rbind (raise_if (length r > 512) ReplacementTooLong) (\<lambda>_.
             Inr \<lparr>lifecycle_status = status, deprecation_reason = Some reason, deprecation_deadline = deadline, replacement_urn = repl\<rparr>))))))"

section \<open>Properties\<close>

lemma py_strip_Nil [simp]: "py_strip [] = []"
  by (simp add: py_strip_def)

lemma normalize_type_class_idem: "normalize_type_class raw = Inr c \<Longrightarrow> normalize_type_class c = Inr c"
  by (auto simp: normalize_type_class_def Let_def split: if_splits)

lemma normalize_again: "normalize_each xs = Inr ys \<Longrightarrow> normalize_each ys = Inr ys"
  by (induction xs arbitrary: ys) (auto simp: rbind_Inr_iff normalize_type_class_idem)

lemma parse_type_class_parts:
  "parse_type_class raw = Inr (kind, name) \<Longrightarrow>
   normalize_type_class raw = Inr (kind @ '':'' @ name) \<or> kind = ''custom'' \<and> normalize_type_class raw = Inr name"
proof -
  assume p: "parse_type_class raw = Inr (kind, name)"
  then obtain c where c: "normalize_type_class raw = Inr c" by (auto simp: parse_type_class_def res_simps)
  obtain k sep n where "partition_on (CHR '':'') c = (k, sep, n)" by (metis prod.exhaust)
  with p c partition_on_True [of "CHR '':''" c k n] show ?thesis by (cases sep) (auto simp: parse_type_class_def)
qed

lemma assert_lifecycle_iff:
  "assert_lifecycle_for_target st target = Inr s \<longleftrightarrow>
   s = st \<and> st \<in> set valid_lifecycle_statuses \<and> (st = ''promoted'' \<longrightarrow> target = TargetObjectType)"
  by (auto simp: assert_lifecycle_for_target_def normalize_lifecycle_status_def valid_lifecycle_statuses_def split: if_splits)

text \<open>
  The bounds of deprecation metadata: what \<open>normalize_deprecation_metadata\<close> returns has a valid
  status for its target, no deprecation data unless deprecated, and then a reason of 1 to 2000
  characters without surrounding space, a deadline, and a replacement of 1 to 512 characters if
  any; and normalising the result again returns it unchanged.
\<close>

theorem deprecation_metadata_bounds:
  assumes "normalize_deprecation_metadata fmt st reason dl repl target = Inr d"
  shows "lifecycle_status d \<in> set valid_lifecycle_statuses \<and> (lifecycle_status d = ''promoted'' \<longrightarrow> target = TargetObjectType) \<and>
    (lifecycle_status d \<noteq> ''deprecated'' \<longrightarrow> deprecation_reason d = None \<and> deprecation_deadline d = None \<and> replacement_urn d = None) \<and>
    (lifecycle_status d = ''deprecated'' \<longrightarrow>
       (\<exists>r. deprecation_reason d = Some r \<and> 1 \<le> length r \<and> length r \<le> 2000 \<and> py_strip r = r) \<and> deprecation_deadline d \<noteq> None \<and>
       (\<forall>u. replacement_urn d = Some u \<longrightarrow> 1 \<le> length u \<and> length u \<le> 512)) \<and>
    normalize_deprecation_metadata fmt (lifecycle_status d) (deprecation_reason d)
      (case deprecation_deadline d of None \<Rightarrow> RawNone | Some x \<Rightarrow> RawDate x) (replacement_urn d) target = Inr d"
proof (cases "st = ''deprecated''")
  case False
  with assms have d: "d = \<lparr>lifecycle_status = st, deprecation_reason = None, deprecation_deadline = None, replacement_urn = None\<rparr>"
    and st: "assert_lifecycle_for_target st target = Inr st"
    by (auto simp: normalize_deprecation_metadata_def assert_lifecycle_iff res_simps)
  from st have "st \<in> set valid_lifecycle_statuses \<and> (st = ''promoted'' \<longrightarrow> target = TargetObjectType)"
    by (simp add: assert_lifecycle_iff)
  with False st show ?thesis by (simp add: d normalize_deprecation_metadata_def)
next
  case True
  let ?r = "py_strip (or_empty reason)" and ?u = "py_strip (or_empty repl)"
  have st: "assert_lifecycle_for_target ''deprecated'' target = Inr ''deprecated''"
    by (simp add: assert_lifecycle_iff valid_lifecycle_statuses_def)
  from assms True obtain x where r: "?r \<noteq> []" "length ?r \<le> 2000" "length ?u \<le> 512" and
    d: "d = \<lparr>lifecycle_status = ''deprecated'', deprecation_reason = Some ?r, deprecation_deadline = Some x,
       replacement_urn = (if ?u = [] then None else Some ?u)\<rparr>"
    by (auto simp: normalize_deprecation_metadata_def st Let_def res_simps)
  have "1 \<le> length ?r" using r(1) by (simp add: Suc_le_eq)
  moreover have "?u \<noteq> [] \<Longrightarrow> 1 \<le> length ?u" by (simp add: Suc_le_eq)
  moreover have "normalize_deprecation_metadata fmt ''deprecated'' (Some ?r) (RawDate x) (if ?u = [] then None else Some ?u) target = Inr d"
    using r by (simp add: d normalize_deprecation_metadata_def st Let_def parse_deadline_def or_empty_def [of "Some _"] or_empty_def [of None])
  ultimately show ?thesis using r by (simp add: d valid_lifecycle_statuses_def)
qed

theorem deprecation_metadata_bounds_witness:
  "\<exists>d. normalize_deprecation_metadata (\<lambda>s. if s = ''2030-01-01'' then Some (1 :: nat) else None) ''deprecated'' (Some '' old '')
     (RawStr ''2030-01-01T00:00'') None TargetRegistry = Inr d \<and> deprecation_reason d = Some ''old'' \<and>
   normalize_deprecation_metadata (\<lambda>s. if s = ''2030-01-01'' then Some (1 :: nat) else None) (lifecycle_status d) (deprecation_reason d)
      (case deprecation_deadline d of None \<Rightarrow> RawNone | Some x \<Rightarrow> RawDate x) (replacement_urn d) TargetRegistry = Inr d"
proof -
  let ?d = "\<lparr>lifecycle_status = ''deprecated'', deprecation_reason = Some ''old'', deprecation_deadline = Some 1, replacement_urn = None\<rparr>"
  have "normalize_deprecation_metadata (\<lambda>s. if s = ''2030-01-01'' then Some (1 :: nat) else None) ''deprecated'' (Some '' old '')
     (RawStr ''2030-01-01T00:00'') None TargetRegistry = Inr ?d"
    by code_simp
  from deprecation_metadata_bounds [OF this] this show ?thesis by auto
qed

end
