(* ===== verification/Holon_Action_Rules.thy ===== *)
theory Holon_Action_Rules
  imports Holon_Criteria Holon_Shared_Types Holon_Metadata
begin

text \<open>
  Action Types: their structural validation at registration (\<open>ontology/action_types.py\<close>,
  \<open>action_structural.validate_edit_declaration\<close>) and the validation of a request against live
  state (\<open>actions/declarative.validate_generic_action\<close>, \<open>ontology/object_sets.py\<close>). Declarations are
  JSON objects, as the registry stores them. Membership tests on a set with an unhashable value,
  which raise in Python, are refusals here.
\<close>

section \<open>Edit declarations\<close>

datatype declaration_error =
    Malformed string
  | BadCriterion criterion_malformed
  | BadMetadata metadata_error

definition edit_kind :: "payload \<Rightarrow> json" where
  "edit_kind edit = (if truthy (obj_get edit ''kind'') then obj_get edit ''kind'' else JStr ''modify_property'')"

definition is_property_edit :: "payload \<Rightarrow> bool" where
  "is_property_edit edit = (edit_kind edit = JStr ''modify_property'')"

definition names_parameter :: "string list \<Rightarrow> json \<Rightarrow> bool" where
  "names_parameter names j = (j \<in> JStr ` set names)"

definition validate_source :: "string list \<Rightarrow> payload \<Rightarrow> string \<Rightarrow> (declaration_error, unit) result" where
  "validate_source names m what =
     rbind (raise_if (obj_get m ''source'' = JStr ''parameter'' \<and> \<not> names_parameter names (obj_get m ''parameter_name'')) (Malformed what)) (\<lambda>_.
       raise_if (obj_get m ''source'' = JStr ''literal'' \<and> dict_get m ''value'' = None) (Malformed what))"

definition validate_property_edit :: "string list \<Rightarrow> payload \<Rightarrow> (declaration_error, unit) result" where
  "validate_property_edit names edit =
     rbind (raise_if (dict_get edit ''property'' = None \<or> dict_get edit ''source'' = None) (Malformed ''property and source'')) (\<lambda>_.
     rbind (raise_if (obj_get edit ''source'' \<notin> {JStr ''parameter'', JStr ''literal''}) (Malformed ''unknown source'')) (\<lambda>_.
       validate_source names edit ''edit source''))"

definition end_mode :: "payload \<Rightarrow> string \<Rightarrow> json" where
  "end_mode edit e =
     (if truthy (obj_get edit (e @ ''_from'')) then obj_get edit (e @ ''_from'')
      else if e = ''source'' then JStr ''target_instance'' else JStr ''parameter'')"

definition validate_link_end :: "string list \<Rightarrow> payload \<Rightarrow> string \<Rightarrow> (declaration_error, unit) result" where
  "validate_link_end names edit e =
     (let mode = end_mode edit e in
      rbind (raise_if (mode \<notin> {JStr ''target_instance'', JStr ''parameter'', JStr ''literal''}) (Malformed ''link end'')) (\<lambda>_.
      rbind (raise_if (mode = JStr ''parameter'' \<and> \<not> names_parameter names (obj_get edit (e @ ''_parameter''))) (Malformed ''link parameter'')) (\<lambda>_.
        raise_if (mode = JStr ''literal'' \<and> dict_get edit (e @ ''_value'') = None) (Malformed ''link literal''))))"

definition as_obj :: "json \<Rightarrow> payload" where
  "as_obj j = (case j of JObj d \<Rightarrow> d | _ \<Rightarrow> [])"

definition as_list :: "json \<Rightarrow> json list" where
  "as_list j = (case j of JList xs \<Rightarrow> xs | _ \<Rightarrow> [])"

definition validate_object_property :: "string list \<Rightarrow> json \<Rightarrow> (declaration_error, unit) result" where
  "validate_object_property names j =
     (let m = as_obj j in
      rbind (raise_if (dict_get m ''property'' = None \<or> dict_get m ''source'' = None) (Malformed ''property mapping'')) (\<lambda>_.
        validate_source names m ''property mapping''))"

definition validate_create_object :: "string list \<Rightarrow> payload \<Rightarrow> (declaration_error, unit) result" where
  "validate_create_object names edit =
     (let pk = as_obj (obj_get edit ''primary_key'');
          pk_source = (case dict_get pk ''source'' of None \<Rightarrow> JStr ''parameter'' | Some v \<Rightarrow> v) in
      rbind (raise_if (\<not> truthy (obj_get edit ''object_type'')) (Malformed ''object_type'')) (\<lambda>_.
      rbind (raise_if (pk_source \<notin> {JStr ''parameter'', JStr ''generate_uuid'', JStr ''literal''}) (Malformed ''primary_key'')) (\<lambda>_.
      rbind (raise_if (pk_source = JStr ''parameter'' \<and> \<not> names_parameter names (obj_get pk ''parameter_name'')) (Malformed ''primary_key'')) (\<lambda>_.
      rbind (raise_if (pk_source = JStr ''literal'' \<and> dict_get pk ''value'' = None) (Malformed ''primary_key'')) (\<lambda>_.
        each_ok (validate_object_property names) (as_list (obj_get edit ''properties'')))))))"

definition validate_edit_declaration :: "string list \<Rightarrow> payload \<Rightarrow> (declaration_error, unit) result" where
  "validate_edit_declaration names edit =
     (let kind = edit_kind edit in
      if kind = JStr ''modify_property'' then validate_property_edit names edit
      else if kind = JStr ''create_link'' \<or> kind = JStr ''delete_link'' then
        rbind (raise_if (\<not> truthy (obj_get edit ''relation_type'')) (Malformed ''relation_type'')) (\<lambda>_.
        rbind (validate_link_end names edit ''source'') (\<lambda>_. validate_link_end names edit ''target''))
      else if kind = JStr ''create_object'' then validate_create_object names edit
      else if kind = JStr ''delete_object'' then
        (let mode = (if truthy (obj_get edit ''target_from'') then obj_get edit ''target_from'' else JStr ''target_instance'') in
         rbind (raise_if (mode \<notin> {JStr ''target_instance'', JStr ''parameter''}) (Malformed ''target_from'')) (\<lambda>_.
           raise_if (mode = JStr ''parameter'' \<and> \<not> names_parameter names (obj_get edit ''parameter_name'')) (Malformed ''parameter_name'')))
      else Inl (Malformed ''unknown kind''))"

section \<open>Parameters\<close>

definition is_str :: "json \<Rightarrow> bool" where
  "is_str j = (case j of JStr _ \<Rightarrow> True | _ \<Rightarrow> False)"

definition validate_parameter_default :: "payload \<Rightarrow> string list \<Rightarrow> (declaration_error, unit) result" where
  "validate_parameter_default parameter earlier =
     (case obj_get parameter ''default'' of
        JNull \<Rightarrow> Inr ()
      | JObj d \<Rightarrow>
          (let kind = obj_get d ''kind'' in
           if kind = JStr ''static'' then raise_if (dict_get d ''value'' = None) (Malformed ''default value'')
           else if kind = JStr ''current_object'' then Inr ()
           else if kind = JStr ''object_property'' then
             (let source = (case dict_get d ''object'' of None \<Rightarrow> JStr ''current'' | Some v \<Rightarrow> v) in
              rbind (raise_if (\<not> truthy (obj_get d ''property'') \<or> \<not> is_str (obj_get d ''property'')) (Malformed ''default property'')) (\<lambda>_.
              rbind (raise_if (\<not> is_str source \<or> \<not> truthy source) (Malformed ''default object'')) (\<lambda>_.
                raise_if (source \<noteq> JStr ''current'' \<and> \<not> names_parameter earlier source) (Malformed ''default order''))))
           else Inl (Malformed ''default kind''))
      | _ \<Rightarrow> Inl (Malformed ''default''))"

definition param_kind :: "payload \<Rightarrow> json" where
  "param_kind p = (case dict_get p ''kind'' of None \<Rightarrow> JStr ''value_type'' | Some k \<Rightarrow> k)"

definition check_object_set :: "payload \<Rightarrow> (declaration_error, payload) result" where
  "check_object_set p =
     (case obj_get p ''object_set'' of
        JNull \<Rightarrow> Inr p
      | JStr s \<Rightarrow> if param_kind p \<noteq> JStr ''object_reference'' \<or> py_strip s = [] then Inl (Malformed ''object_set'')
                  else Inr (dict_set ''object_set'' (JStr (py_strip s)) p)
      | _ \<Rightarrow> Inl (Malformed ''object_set''))"

definition check_type_classes :: "payload \<Rightarrow> (declaration_error, payload) result" where
  "check_type_classes p =
     (case dict_get p ''type_classes'' of
        None \<Rightarrow> Inr p
      | Some j \<Rightarrow> (case normalize_type_classes j of
          Inl e \<Rightarrow> Inl (BadMetadata e) | Inr cs \<Rightarrow> Inr (dict_set ''type_classes'' (JList (map JStr cs)) p)))"

definition check_parameter :: "string list \<Rightarrow> payload \<Rightarrow> (declaration_error, payload) result" where
  "check_parameter earlier p =
     (let kind = param_kind p in
      rbind (raise_if (dict_get p ''name'' = None) (Malformed ''name'')) (\<lambda>_.
      rbind (raise_if (kind \<notin> {JStr ''value_type'', JStr ''object_reference''}) (Malformed ''parameter kind'')) (\<lambda>_.
      rbind (raise_if (kind = JStr ''value_type'' \<and> dict_get p ''value_type'' = None) (Malformed ''value_type'')) (\<lambda>_.
      rbind (raise_if (kind = JStr ''object_reference'' \<and> dict_get p ''object_type'' = None) (Malformed ''object_type'')) (\<lambda>_.
      rbind (check_object_set p) (\<lambda>p1.
      rbind (check_type_classes p1) (\<lambda>p2.
      rbind (validate_parameter_default p2 earlier) (\<lambda>_. Inr p2))))))))"

definition param_name :: "payload \<Rightarrow> string" where
  "param_name p = string_of (obj_get p ''name'')"

fun check_parameters :: "string list \<Rightarrow> payload list \<Rightarrow> (declaration_error, payload list) result" where
  "check_parameters earlier [] = Inr []"
| "check_parameters earlier (p # ps) =
     rbind (check_parameter earlier p) (\<lambda>p'.
     rbind (check_parameters (if param_kind p = JStr ''object_reference'' then param_name p # earlier else earlier) ps) (\<lambda>ps'.
       Inr (p' # ps')))"

section \<open>Registration\<close>

record action_type =
  at_target_object_type :: "string option"
  at_target_interface :: "string option"
  at_risk_level :: string
  at_description :: string
  at_parameters :: "payload list"
  at_edit_list :: "payload list"
  at_criteria :: "json list"
  at_writeback_dataset :: "string option"
  at_edit_function :: "string option"
  at_sections :: "payload list"
  at_type_classes :: "string list"
  at_notify_webhook :: "string option"

text \<open>The arguments of \<open>create_action_type\<close>: an action type whose type classes are still raw, and a status.\<close>

record 'd action_request = action_type +
  rq_type_classes :: json
  rq_lifecycle_status :: string
  rq_deprecation_reason :: "string option"
  rq_deprecation_deadline :: "'d raw_deadline"
  rq_replacement_urn :: "string option"

definition reserved_response_keys :: "string list" where
  "reserved_response_keys = [''status'', ''action'', ''riskLevel'', ''approvalId'', ''sagaStatus'', ''invocationId'']"

definition edit_property :: "payload \<Rightarrow> string" where
  "edit_property edit = string_of (obj_get edit ''property'')"

definition top_property :: "string \<Rightarrow> string" where
  "top_property s = hd (split_on (CHR ''.'') s)"

definition dotted :: "string \<Rightarrow> bool" where
  "dotted s = (CHR ''.'' \<in> set s)"

definition check_edit :: "string list \<Rightarrow> payload \<Rightarrow> (declaration_error, unit) result" where
  "check_edit names edit =
     rbind (validate_edit_declaration (names @ [''reason'']) edit) (\<lambda>_.
       raise_if (is_property_edit edit \<and> top_property (edit_property edit) \<in> set reserved_response_keys) (Malformed ''reserved response field''))"

text \<open>A property replaced as a whole and also edited by a dotted path.\<close>

definition mixes_kinds :: "payload list \<Rightarrow> bool" where
  "mixes_kinds edits =
     list_ex (\<lambda>e. list_ex (\<lambda>f. is_property_edit e \<and> is_property_edit f \<and>
       top_property (edit_property e) = top_property (edit_property f) \<and>
       dotted (edit_property e) \<and> \<not> dotted (edit_property f)) edits) edits"

fun check_section_parameters :: "string list \<Rightarrow> json list \<Rightarrow> string list \<Rightarrow> (declaration_error, string list) result" where
  "check_section_parameters names [] seen = Inr seen"
| "check_section_parameters names (j # js) seen =
     (if \<not> names_parameter names j then Inl (Malformed ''section parameter'')
      else if string_of j \<in> set seen then Inl (Malformed ''parameter in two sections'')
      else check_section_parameters names js (string_of j # seen))"

fun check_sections :: "string list \<Rightarrow> payload list \<Rightarrow> string list \<Rightarrow> (declaration_error, unit) result" where
  "check_sections names [] seen = Inr ()"
| "check_sections names (s # ss) seen =
     (if \<not> truthy (obj_get s ''name'') then Inl (Malformed ''section name'')
      else rbind (check_section_parameters names (as_list (obj_get s ''parameter_names'')) seen) (check_sections names ss))"

definition check_webhook :: "string option \<Rightarrow> (declaration_error, string option) result" where
  "check_webhook w =
     (case w of
        None \<Rightarrow> Inr None
      | Some s \<Rightarrow>
          let t = py_strip s in
          if t = [] \<or> \<not> (startswith t ''http://'' \<or> startswith t ''https://'') then Inl (Malformed ''notify_webhook'')
          else Inr (Some t))"

definition wrap :: "('e \<Rightarrow> 'f) \<Rightarrow> ('e, 'a) result \<Rightarrow> ('f, 'a) result" where
  "wrap f r = (case r of Inl e \<Rightarrow> Inl (f e) | Inr x \<Rightarrow> Inr x)"

lemma wrap_Inr_iff [res_simps]: "wrap f r = Inr x \<longleftrightarrow> r = Inr x"
  by (simp add: wrap_def split: sum.splits)

definition given :: "string option \<Rightarrow> bool" where
  "given s = (case s of Some (c # cs) \<Rightarrow> True | _ \<Rightarrow> False)"

definition check_action_header :: "'d action_request \<Rightarrow> (declaration_error, unit) result" where
  "check_action_header q =
     rbind (raise_if ((at_target_object_type q = None) = (at_target_interface q = None)) (Malformed ''target'')) (\<lambda>_.
     rbind (raise_if (at_risk_level q \<notin> {''low'', ''high''}) (Malformed ''risk_level'')) (\<lambda>_.
     rbind (raise_if (at_description q = []) (Malformed ''description'')) (\<lambda>_.
     rbind (raise_if ((at_edit_list q \<noteq> []) = given (at_edit_function q)) (Malformed ''edits or edit_function'')) (\<lambda>_.
       raise_if (at_writeback_dataset q \<noteq> None \<and> at_risk_level q \<noteq> ''high'') (Malformed ''writeback_dataset'')))))"

type_synonym action_table = "string \<times> string \<Rightarrow> action_type option"

definition create_action_type ::
  "(string \<Rightarrow> 'd option) \<Rightarrow> string \<Rightarrow> string \<Rightarrow> 'd action_request \<Rightarrow> action_table \<Rightarrow> (declaration_error, action_table) result" where
  "create_action_type fromisoformat tid name q table =
     rbind (check_action_header q) (\<lambda>_.
     rbind (check_webhook (at_notify_webhook q)) (\<lambda>webhook.
     rbind (wrap BadMetadata (normalize_type_classes (rq_type_classes q))) (\<lambda>classes.
     rbind (wrap BadMetadata (normalize_deprecation_metadata fromisoformat (rq_lifecycle_status q) (rq_deprecation_reason q)
              (rq_deprecation_deadline q) (rq_replacement_urn q) TargetRegistry)) (\<lambda>_.
     rbind (check_parameters [] (at_parameters q)) (\<lambda>ps.
     rbind (each_ok (check_edit (map param_name ps)) (at_edit_list q)) (\<lambda>_.
     rbind (raise_if (mixes_kinds (at_edit_list q)) (Malformed ''plain and dotted edits'')) (\<lambda>_.
     rbind (each_ok (\<lambda>c. wrap BadCriterion (validate_submission_criterion c)) (at_criteria q)) (\<lambda>_.
     rbind (check_sections (map param_name ps) (at_sections q) []) (\<lambda>_.
       Inr (table((tid, name) \<mapsto> (action_type.truncate q)\<lparr>at_parameters := ps, at_type_classes := classes, at_notify_webhook := webhook\<rparr>)))))))))))"

text \<open>The property edits of an action type, in order: a property and where its value comes from.\<close>

datatype edit_source = FromParameter string | Static json

definition property_edit :: "payload \<Rightarrow> string \<times> edit_source" where
  "property_edit edit =
     (edit_property edit,
      if obj_get edit ''source'' = JStr ''parameter'' then FromParameter (string_of (obj_get edit ''parameter_name''))
      else Static (obj_get edit ''value''))"

definition at_edits :: "action_type \<Rightarrow> (string \<times> edit_source) list" where
  "at_edits def = map property_edit (filter is_property_edit (at_edit_list def))"

section \<open>Object sets\<close>

record object_set =
  os_object_type :: string
  os_definition :: payload

definition split_struct_path :: "string \<Rightarrow> (py_exc, (string \<times> string) option) result" where
  "split_struct_path prp =
     (case partition_on (CHR ''.'') prp of (tp, sep, field) \<Rightarrow>
        if \<not> sep then Inr None
        else if tp = [] \<or> field = [] \<or> CHR ''.'' \<in> set field then Inl ValueError
        else Inr (Some (tp, field)))"

definition mapped_value :: "payload \<Rightarrow> (string, string) dict \<Rightarrow> string \<Rightarrow> json" where
  "mapped_value inst mapping prp =
     (if obj_get inst prp \<noteq> JNull then obj_get inst prp
      else case dict_get mapping prp of Some (c # cs) \<Rightarrow> obj_get inst (c # cs) | _ \<Rightarrow> JNull)"

definition resolve_predicate_value :: "payload \<Rightarrow> string \<Rightarrow> (string, string) dict \<Rightarrow> (py_exc, json) result" where
  "resolve_predicate_value inst prp mapping =
     rbind (split_struct_path prp) (\<lambda>path.
       case path of
         Some (tp, field) \<Rightarrow> Inr (case mapped_value inst mapping tp of JObj d \<Rightarrow> obj_get d field | _ \<Rightarrow> JNull)
       | None \<Rightarrow> Inr (mapped_value inst mapping prp))"

definition predicate_holds :: "(json \<Rightarrow> string) \<Rightarrow> json \<Rightarrow> json \<Rightarrow> json \<Rightarrow> (py_exc, bool) result" where
  "predicate_holds str op actual expected =
     (if op = JStr ''in'' then
        (case expected of
           JList xs \<Rightarrow> Inr (py_in actual xs)
         | JStr t \<Rightarrow> (case actual of JStr s \<Rightarrow> Inr (contains t s) | _ \<Rightarrow> Inl TypeError)
         | JObj d \<Rightarrow> (case actual of JStr s \<Rightarrow> Inr (s \<in> set (map fst d)) | JList _ \<Rightarrow> Inl TypeError | JObj _ \<Rightarrow> Inl TypeError | _ \<Rightarrow> Inr False)
         | _ \<Rightarrow> Inl TypeError)
      else if op = JStr ''contains'' then
        (if actual = JNull then Inr False
         else case expected of JStr t \<Rightarrow> Inr (contains (str actual) t) | _ \<Rightarrow> Inl TypeError)
      else if op \<in> {JStr ''eq'', JStr ''neq'', JStr ''gt'', JStr ''gte'', JStr ''lt'', JStr ''lte''} then apply_operator op actual expected
      else Inr True)"

fun matches_all :: "(json \<Rightarrow> string) \<Rightarrow> payload \<Rightarrow> (string, string) dict \<Rightarrow> json list \<Rightarrow> (py_exc, bool) result" where
  "matches_all str inst mapping [] = Inr True"
| "matches_all str inst mapping (j # js) =
     (case j of
        JObj pred \<Rightarrow>
          rbind (need pred ''property'') (\<lambda>prp.
          rbind (need pred ''op'') (\<lambda>op.
          rbind (need pred ''value'') (\<lambda>expected.
          rbind (case prp of JStr s \<Rightarrow> resolve_predicate_value inst s mapping | _ \<Rightarrow> Inl TypeError) (\<lambda>actual.
          rbind (predicate_holds str op actual expected) (\<lambda>b.
            if b then matches_all str inst mapping js else Inr False)))))
      | _ \<Rightarrow> Inl TypeError)"

definition matches_predicates :: "(json \<Rightarrow> string) \<Rightarrow> payload \<Rightarrow> payload \<Rightarrow> (string, string) dict \<Rightarrow> (py_exc, bool) result" where
  "matches_predicates str inst def mapping = matches_all str inst mapping (as_list (obj_get def ''all''))"

section \<open>Validation of a request\<close>

record object_def =
  od_implements :: "string list"
  od_property_types :: payload
  od_property_mapping :: "(string, string) dict"

text \<open>What the validator reads: definitions, the unmasked instances, the types of the tenant, and the library.\<close>

record ontology_view =
  ov_object_type :: "string \<Rightarrow> object_def option"
  ov_interface :: "string \<Rightarrow> string list option"
  ov_types :: type_registry
  ov_instance :: "string \<Rightarrow> string \<Rightarrow> payload option"
  ov_object_set :: "string \<Rightarrow> object_set option"
  ov_lib :: stdlib
  ov_stack :: nat

datatype report_message =
    NotImplementing string
  | StructuralNotAllowed
  | NotInInterface string
  | WrongTarget
  | MissingParameter string
  | NoSuchReference string
  | UnknownObjectSet string
  | SetTargetsOther string
  | NotInSet string
  | NoSuchType string
  | BadValue string value_error
  | UnknownParameter string
  | NotEditable string
  | RequiredNull string
  | BadEdit value_error
  | CriteriaFailed criterion_error

datatype validation_exc = LookupError string | PyRaise py_exc

record report =
  rp_messages :: "report_message list"
  rp_parameters :: "(string, bool) dict"

definition interface_edit_messages :: "string list \<Rightarrow> payload \<Rightarrow> report_message list" where
  "interface_edit_messages allowed edit =
     (if \<not> is_property_edit edit then [StructuralNotAllowed]
      else if top_property (edit_property edit) \<notin> set allowed \<and> edit_property edit \<notin> set allowed
      then [NotInInterface (edit_property edit)] else [])"

definition target_messages :: "ontology_view \<Rightarrow> action_type \<Rightarrow> string \<Rightarrow> report_message list" where
  "target_messages env def ot =
     (if given (at_target_interface def) then
        (let iface = the (at_target_interface def) in
         if iface \<notin> set (case ov_object_type env ot of Some d \<Rightarrow> od_implements d | None \<Rightarrow> []) then [NotImplementing iface]
         else concat (map (interface_edit_messages (case ov_interface env iface of Some rs \<Rightarrow> rs | None \<Rightarrow> [])) (at_edit_list def)))
      else if at_target_object_type def \<noteq> Some ot then [WrongTarget] else [])"

definition check_reference :: "ontology_view \<Rightarrow> payload \<Rightarrow> json \<Rightarrow> (py_exc, report_message option) result" where
  "check_reference env decl v =
     (let name = param_name decl; rt = string_of (obj_get decl ''object_type'') in
      case ov_instance env rt (py_str (ov_lib env) v) of
        None \<Rightarrow> Inr (Some (NoSuchReference name))
      | Some inst \<Rightarrow>
          if \<not> truthy (obj_get decl ''object_set'') then Inr None
          else (case ov_object_set env (string_of (obj_get decl ''object_set'')) of
                  None \<Rightarrow> Inr (Some (UnknownObjectSet name))
                | Some os \<Rightarrow>
                    if os_object_type os \<noteq> rt then Inr (Some (SetTargetsOther name))
                    else rbind (matches_predicates (py_str (ov_lib env)) inst (os_definition os)
                           (case ov_object_type env (os_object_type os) of Some d \<Rightarrow> od_property_mapping d | None \<Rightarrow> [])) (\<lambda>b.
                         Inr (if b then None else Some (NotInSet name)))))"

definition check_value_parameter :: "ontology_view \<Rightarrow> payload \<Rightarrow> json \<Rightarrow> (py_exc, report_message option) result" where
  "check_value_parameter env decl v =
     (let name = param_name decl in
      case get_value_type (ov_types env) (name_of (obj_get decl ''value_type'')) of
        None \<Rightarrow> Inr (Some (NoSuchType name))
      | Some vt \<Rightarrow> rbind (validate_value (ov_lib env) v vt) (\<lambda>e. Inr (map_option (BadValue name) e)))"

definition param_required :: "payload \<Rightarrow> bool" where
  "param_required decl = flag_default_true decl ''required''"

definition check_submitted :: "ontology_view \<Rightarrow> payload \<Rightarrow> payload \<Rightarrow> (py_exc, report_message option) result" where
  "check_submitted env params decl =
     (case dict_get params (param_name decl) of
        None \<Rightarrow> Inr (if param_required decl then Some (MissingParameter (param_name decl)) else None)
      | Some v \<Rightarrow> if param_kind decl = JStr ''object_reference'' then check_reference env decl v else check_value_parameter env decl v)"

text \<open>\<open>declared_parameters\<close> is a dictionary: of two declarations with one name the later counts, in the earlier's place.\<close>

definition declared_parameters :: "action_type \<Rightarrow> (string, payload) dict" where
  "declared_parameters def = fold (\<lambda>p. dict_set (param_name p) p) (at_parameters def) []"

fun parameter_messages :: "ontology_view \<Rightarrow> payload \<Rightarrow> (string \<times> payload) list \<Rightarrow> (py_exc, report_message list) result" where
  "parameter_messages env params [] = Inr []"
| "parameter_messages env params (d # ds) =
     rbind (check_submitted env params (snd d)) (\<lambda>m.
     rbind (parameter_messages env params ds) (\<lambda>ms. Inr (case m of Some x \<Rightarrow> x # ms | None \<Rightarrow> ms)))"

definition unknown_parameters :: "action_type \<Rightarrow> payload \<Rightarrow> string list" where
  "unknown_parameters def params =
     filter (\<lambda>n. n \<noteq> ''reason'' \<and> dict_get (declared_parameters def) n = None) (map fst params)"

definition edit_value :: "payload \<Rightarrow> edit_source \<Rightarrow> json" where
  "edit_value params src = (case src of FromParameter p \<Rightarrow> obj_get params p | Static v \<Rightarrow> v)"

definition typed_kinds :: "json set" where
  "typed_kinds = {JStr ''value_type'', JStr ''shared_property_type'', JStr ''struct'', JStr ''array''}"

definition check_edit_value :: "ontology_view \<Rightarrow> payload \<Rightarrow> payload \<Rightarrow> string \<times> edit_source \<Rightarrow> (py_exc, report_message option) result" where
  "check_edit_value env ptypes params ed =
     (let prp = fst ed; v = edit_value params (snd ed) in
      case dict_get ptypes (top_property prp) of
        None \<Rightarrow> Inr None
      | Some JNull \<Rightarrow> Inr None
      | Some (JObj rule) \<Rightarrow>
          if obj_get rule ''editable'' = JBool False then Inr (Some (NotEditable (top_property prp)))
          else if dotted prp then Inr None
          else if truthy (obj_get rule ''required'') \<and> v = JNull then Inr (Some (RequiredNull prp))
          else if v \<noteq> JNull \<and> obj_get rule ''kind'' \<in> typed_kinds then
            rbind (fst (validate_typed_property_value (ov_stack env) (ov_lib env) (ov_types env) False prp rule v None)) (\<lambda>e.
              Inr (map_option BadEdit e))
          else Inr None
      | Some _ \<Rightarrow> Inl AttributeError)"

fun edit_messages :: "ontology_view \<Rightarrow> payload \<Rightarrow> payload \<Rightarrow> (string \<times> edit_source) list \<Rightarrow> (py_exc, report_message list) result" where
  "edit_messages env ptypes params [] = Inr []"
| "edit_messages env ptypes params (e # es) =
     rbind (check_edit_value env ptypes params e) (\<lambda>m.
     rbind (edit_messages env ptypes params es) (\<lambda>ms. Inr (case m of Some x \<Rightarrow> x # ms | None \<Rightarrow> ms)))"

definition validate_generic_action ::
  "ontology_view \<Rightarrow> action_type option \<Rightarrow> string \<Rightarrow> string \<Rightarrow> string \<Rightarrow> principal \<Rightarrow> payload \<Rightarrow> (validation_exc, report) result" where
  "validate_generic_action env entry name ot iid p params =
     (case entry of
        None \<Rightarrow> Inl (LookupError name)
      | Some def \<Rightarrow>
          let ptypes = (case ov_object_type env ot of Some d \<Rightarrow> od_property_types d | None \<Rightarrow> []); ds = declared_parameters def in
          rbind (wrap PyRaise (parameter_messages env params ds)) (\<lambda>pm.
          rbind (wrap PyRaise (edit_messages env ptypes params (at_edits def))) (\<lambda>em.
            case ov_instance env ot iid of
              None \<Rightarrow> Inl (LookupError (ot @ ''/'' @ iid))
            | Some row \<Rightarrow>
                rbind (wrap PyRaise (evaluate_criteria row (at_criteria def) (Some p))) (\<lambda>ce.
                  Inr \<lparr>rp_messages = target_messages env def ot @ pm @ map UnknownParameter (unknown_parameters def params) @ em @
                         (case ce of None \<Rightarrow> [] | Some e \<Rightarrow> [CriteriaFailed e]),
                       rp_parameters = map (\<lambda>d. (fst d, check_submitted env params (snd d) = Inr None)) ds @
                         map (\<lambda>n. (n, False)) (unknown_parameters def params)\<rparr>))))"

definition report_valid :: "report \<Rightarrow> bool" where
  "report_valid r = (rp_messages r = [] \<and> list_all snd (rp_parameters r))"

section \<open>What a valid report means\<close>

lemma created_criteria:
  assumes "create_action_type iso_date tid name q table = Inr table'"
  shows "\<exists>def. table' (tid, name) = Some def \<and> at_criteria def = at_criteria q \<and> at_edit_list def = at_edit_list q \<and>
    (\<forall>c \<in> set (at_criteria def). validate_submission_criterion c = Inr ()) \<and> \<not> mixes_kinds (at_edit_list def)"
  using assms by (auto simp: create_action_type_def res_simps action_type.truncate_def)

lemma declared_names: "(n, d) \<in> set (declared_parameters def) \<Longrightarrow> param_name d = n"
proof -
  have "(n, d) \<in> set (fold (\<lambda>p. dict_set (param_name p) p) ps acc) \<Longrightarrow> (\<forall>(m, e) \<in> set acc. param_name e = m) \<Longrightarrow> param_name d = n" for ps acc
  proof (induction ps arbitrary: acc)
    case (Cons p ps)
    have "\<forall>(m, e) \<in> set (dict_set (param_name p) p acc). param_name e = m"
      using Cons.prems(2) by (auto dest!: dict_mem_set)
    with Cons show ?case by simp
  qed auto
  then show "(n, d) \<in> set (declared_parameters def) \<Longrightarrow> param_name d = n" by (simp add: declared_parameters_def)
qed

lemma parameter_messages_Nil:
  "parameter_messages env params ds = Inr [] \<longleftrightarrow> (\<forall>d \<in> set ds. check_submitted env params (snd d) = Inr None)"
  by (induction ds) (auto simp: res_simps split: option.splits)

lemma edit_messages_Nil:
  "edit_messages env ptypes params es = Inr [] \<longleftrightarrow> (\<forall>e \<in> set es. check_edit_value env ptypes params e = Inr None)"
  by (induction es) (auto simp: res_simps split: option.splits)

lemma validate_generic_actionE:
  assumes "validate_generic_action env (Some def) name ot iid p params = Inr r" "rp_messages r = []"
  obtains row where "ov_instance env ot iid = Some row" "evaluate_criteria row (at_criteria def) (Some p) = Inr None"
    "target_messages env def ot = []" "unknown_parameters def params = []"
    "\<forall>d \<in> set (declared_parameters def). check_submitted env params (snd d) = Inr None"
    "\<forall>e \<in> set (at_edits def). check_edit_value env (case ov_object_type env ot of Some d \<Rightarrow> od_property_types d | None \<Rightarrow> []) params e = Inr None"
  using assms
  by (auto simp: validate_generic_action_def Let_def res_simps parameter_messages_Nil [symmetric] edit_messages_Nil [symmetric]
      split: option.splits)

lemma check_value_parameter_None:
  "check_value_parameter env decl v = Inr None \<Longrightarrow>
   \<exists>vt. get_value_type (ov_types env) (name_of (obj_get decl ''value_type'')) = Some vt \<and> validate_value (ov_lib env) v vt = Inr None"
  by (auto simp: check_value_parameter_def Let_def res_simps split: option.splits)

text \<open>
  The specification: what a submitted parameter and an edit have to satisfy. A reference names an
  existing instance, which is a member of the declared object set if there is one; any other
  parameter is of its declared value type. An edit leaves properties marked not editable alone,
  gives a required property a value and a typed property a value of its type.
\<close>

definition reference_allowed :: "ontology_view \<Rightarrow> payload \<Rightarrow> json \<Rightarrow> bool" where
  "reference_allowed env decl v \<longleftrightarrow>
     (\<exists>inst. ov_instance env (string_of (obj_get decl ''object_type'')) (py_str (ov_lib env) v) = Some inst \<and>
        (truthy (obj_get decl ''object_set'') \<longrightarrow>
           (\<exists>os. ov_object_set env (string_of (obj_get decl ''object_set'')) = Some os \<and>
              os_object_type os = string_of (obj_get decl ''object_type'') \<and>
              matches_predicates (py_str (ov_lib env)) inst (os_definition os)
                (case ov_object_type env (os_object_type os) of Some d \<Rightarrow> od_property_mapping d | None \<Rightarrow> []) = Inr True)))"

definition value_allowed :: "ontology_view \<Rightarrow> payload \<Rightarrow> json \<Rightarrow> bool" where
  "value_allowed env decl v \<longleftrightarrow>
     (if param_kind decl = JStr ''object_reference'' then reference_allowed env decl v
      else \<exists>vt. get_value_type (ov_types env) (name_of (obj_get decl ''value_type'')) = Some vt \<and>
        validate_value (ov_lib env) v vt = Inr None)"

definition edit_allowed :: "ontology_view \<Rightarrow> payload \<Rightarrow> string \<Rightarrow> json \<Rightarrow> bool" where
  "edit_allowed env rule prp v \<longleftrightarrow>
     obj_get rule ''editable'' \<noteq> JBool False \<and>
     (\<not> dotted prp \<longrightarrow> (truthy (obj_get rule ''required'') \<longrightarrow> v \<noteq> JNull) \<and>
        (v \<noteq> JNull \<and> obj_get rule ''kind'' \<in> typed_kinds \<longrightarrow>
           fst (validate_typed_property_value (ov_stack env) (ov_lib env) (ov_types env) False prp rule v None) = Inr None))"

lemma check_reference_None: "check_reference env decl v = Inr None \<Longrightarrow> reference_allowed env decl v"
  by (auto simp: check_reference_def reference_allowed_def Let_def res_simps split: option.splits if_splits)

lemma check_submitted_allowed:
  assumes "check_submitted env params d = Inr None" "dict_get params (param_name d) = Some v"
  shows "value_allowed env d v"
  using assms check_reference_None [of env d v] check_value_parameter_None [of env d v]
  by (auto simp: check_submitted_def value_allowed_def split: if_splits)

lemma check_edit_value_allowed:
  assumes "check_edit_value env ptypes params (prp, src) = Inr None"
    "dict_get ptypes (top_property prp) = Some (JObj rule)"
  shows "edit_allowed env rule prp (edit_value params src)"
  using assms
  by (auto simp: check_edit_value_def edit_allowed_def Let_def res_simps split: if_splits)

lemma target_messages_Nil:
  assumes "target_messages env def ot = []"
  shows "case at_target_interface def of
      Some (c # cs) \<Rightarrow> (\<exists>od. ov_object_type env ot = Some od \<and> c # cs \<in> set (od_implements od)) \<and>
        (\<forall>e \<in> set (at_edit_list def). is_property_edit e \<and>
           (\<exists>rs. ov_interface env (c # cs) = Some rs \<and> (top_property (edit_property e) \<in> set rs \<or> edit_property e \<in> set rs)))
    | _ \<Rightarrow> at_target_object_type def = Some ot"
proof (cases "given (at_target_interface def)")
  case False
  then show ?thesis using assms by (auto simp: target_messages_def given_def split: option.splits list.splits if_splits)
next
  case True
  then obtain c cs where i: "at_target_interface def = Some (c # cs)"
    by (auto simp: given_def split: option.splits list.splits)
  obtain od where od: "ov_object_type env ot = Some od" "c # cs \<in> set (od_implements od)"
    using assms True i by (cases "ov_object_type env ot") (auto simp: target_messages_def Let_def split: if_splits)
  have "interface_edit_messages (case ov_interface env (c # cs) of Some rs \<Rightarrow> rs | None \<Rightarrow> []) e = []"
    if "e \<in> set (at_edit_list def)" for e
    using assms True i od that by (auto simp: target_messages_def Let_def)
  then have "\<forall>e \<in> set (at_edit_list def). is_property_edit e \<and>
      (\<exists>rs. ov_interface env (c # cs) = Some rs \<and> (top_property (edit_property e) \<in> set rs \<or> edit_property e \<in> set rs))"
    by (fastforce simp: interface_edit_messages_def split: option.splits if_splits)
  with i od show ?thesis by simp
qed


text \<open>
  The reason of an invocation does not count as a value at validation: an Action that fills a
  required property from the reason is invalid for every request that does not also carry a
  parameter named \<open>reason\<close>, although applying it would write the given reason.
\<close>

theorem required_reason_edit_invalid:
  assumes "(prp, FromParameter ''reason'') \<in> set (at_edits def)" "\<not> dotted prp"
    "ov_object_type env ot = Some od" "dict_get (od_property_types od) prp = Some (JObj rule)"
    "truthy (obj_get rule ''required'')" "dict_get params ''reason'' = None"
    "validate_generic_action env (Some def) name ot iid p params = Inr r"
  shows "\<not> report_valid r"
proof
  assume "report_valid r"
  then have "rp_messages r = []" by (simp add: report_valid_def)
  with assms(7) show False
  proof (rule validate_generic_actionE, goal_cases)
    case (1 row)
    have "top_property prp = prp" using assms(2) by (simp add: top_property_def dotted_def)
    with 1(6) assms(1-6) show ?case
      by (fastforce simp: check_edit_value_def edit_value_def obj_get_def [of params] Let_def split: if_splits)
  qed
qed

section \<open>Witnesses\<close>

definition note_request :: "nat action_request" where
  "note_request = \<lparr>at_target_object_type = Some ''Order'', at_target_interface = None, at_risk_level = ''high'', at_description = ''note'',
     at_parameters = [[(''name'', JStr ''text''), (''value_type'', JStr ''age'')]],
     at_edit_list = [[(''property'', JStr ''note''), (''source'', JStr ''parameter''), (''parameter_name'', JStr ''text'')]],
     at_criteria = [adult_and_user], at_writeback_dataset = None, at_edit_function = None, at_sections = [], at_type_classes = [],
     at_notify_webhook = None, rq_type_classes = JNull, rq_lifecycle_status = ''active'', rq_deprecation_reason = None,
     rq_deprecation_deadline = RawNone, rq_replacement_urn = None\<rparr>"

definition note_type :: action_type where
  "note_type = action_type.truncate note_request"

definition note_view :: ontology_view where
  "note_view = \<lparr>ov_object_type = (\<lambda>ot. Some \<lparr>od_implements = [], od_property_types = [(''note'', JObj [(''required'', JBool True)])],
       od_property_mapping = []\<rparr>),
     ov_interface = (\<lambda>_. None), ov_types = age_registry,
     ov_instance = (\<lambda>ot iid. if iid = ''7'' then Some [(''age'', JInt 20)] else None),
     ov_object_set = (\<lambda>_. None), ov_lib = plain_lib, ov_stack = 9\<rparr>"

definition user_u :: principal where
  "user_u = \<lparr>p_urn = ''u'', p_type = ''user'', p_tenant_id = ''t'', p_display_name = ''d'', p_on_behalf_of = None, p_country = None,
     p_jti = None\<rparr>"

lemma note_created: "create_action_type (\<lambda>_. None) ''t'' ''annotate'' note_request (\<lambda>_. None) = Inr [(''t'', ''annotate'') \<mapsto> note_type]"
proof -
  have "check_action_header note_request = Inr ()" "check_webhook (at_notify_webhook note_request) = Inr None"
    "normalize_type_classes (rq_type_classes note_request) = Inr []"
    "normalize_deprecation_metadata (\<lambda>_. None) (rq_lifecycle_status note_request) (rq_deprecation_reason note_request)
       (rq_deprecation_deadline note_request) (rq_replacement_urn note_request) TargetRegistry =
     Inr \<lparr>lifecycle_status = ''active'', deprecation_reason = None, deprecation_deadline = None, replacement_urn = None\<rparr>"
    "check_parameters [] (at_parameters note_request) = Inr (at_parameters note_request)"
    "each_ok (check_edit (map param_name (at_parameters note_request))) (at_edit_list note_request) = Inr ()"
    "\<not> mixes_kinds (at_edit_list note_request)"
    "each_ok (\<lambda>c. wrap BadCriterion (validate_submission_criterion c)) (at_criteria note_request) = Inr ()"
    "check_sections (map param_name (at_parameters note_request)) (at_sections note_request) [] = Inr ()"
    by code_simp+
  then show ?thesis
    by (simp add: create_action_type_def wrap_def [of BadMetadata] note_type_def action_type.truncate_def)
       (simp add: note_request_def)
qed


definition reason_type :: action_type where
  "reason_type = note_type\<lparr>at_parameters := [], at_edit_list := [[(''property'', JStr ''note''), (''source'', JStr ''parameter''),
     (''parameter_name'', JStr ''reason'')]]\<rparr>"

theorem required_reason_edit_invalid_witness:
  "\<exists>r. validate_generic_action note_view (Some reason_type) ''annotate'' ''Order'' ''7'' user_u [] = Inr r \<and> \<not> report_valid r"
proof -
  have "is_ok (validate_generic_action note_view (Some reason_type) ''annotate'' ''Order'' ''7'' user_u [])" by code_simp
  then obtain r where r: "validate_generic_action note_view (Some reason_type) ''annotate'' ''Order'' ''7'' user_u [] = Inr r"
    by (auto simp: is_ok_iff)
  have "at_edits reason_type = [(''note'', FromParameter ''reason'')]" by code_simp
  then have "\<not> report_valid r"
    by (intro required_reason_edit_invalid [OF _ _ _ _ _ _ r, where prp = "''note''" and rule = "[(''required'', JBool True)]" and
        od = "\<lparr>od_implements = [], od_property_types = [(''note'', JObj [(''required'', JBool True)])], od_property_mapping = []\<rparr>"])
       (simp_all add: dotted_def note_view_def dict_get_def obj_get_def)
  with r show ?thesis by blast
qed

end
