(* ===== verification/Holon_Actions.thy ===== *)
theory Holon_Actions
  imports Holon_Action_Rules
begin

text \<open>
  Actions of the Knowledge service (\<open>actions/\<close>): edits of an instance are rows of an overlay
  table, every application is recorded as an invocation with the prior values, a high-risk
  request waits as an approval until it is approved, rejected, expired or, after a failed
  write-back, compensated. The database is a record; an operation is a transaction, which
  returns an error or the new database. A request is validated first (theory
  \<open>Holon_Action_Rules\<close>); a function-backed action type runs a plugin, which is an argument.
  Structural edits (objects and links) are applied in \<open>Holon_Structural\<close>.
\<close>

section \<open>The database\<close>

record edit_row =
  ed_value :: json
  ed_action :: string
  ed_actor :: string
  ed_at :: real

type_synonym edit_key = "string \<times> string \<times> string \<times> string"

type_synonym overlay = "edit_key \<Rightarrow> edit_row option"

datatype approval_status = Pending | Approved | Rejected | Expired | Failed

record approval =
  ap_id :: nat
  ap_tenant :: string
  ap_action :: string
  ap_instance :: string
  ap_requested_by :: string
  ap_reason :: string
  ap_expires_at :: real
  ap_parameters :: payload
  ap_status :: approval_status
  ap_decided_by :: "string option"
  ap_decided_at :: "real option"
  ap_note :: "string option"

record invocation =
  iv_id :: nat
  iv_tenant :: string
  iv_action :: string
  iv_instance :: string
  iv_actor :: string
  iv_actor_type :: string
  iv_reason :: string
  iv_edits :: "payload option"
  iv_prior :: "(string, json option) dict"
  iv_reverted_at :: "real option"

datatype action_event =
    ActionRequested string string string
  | ActionInvoked string string string "nat option" "payload option"
  | ActionRejected string string "string option"
  | ApprovalExpired string string nat
  | ActionCompensated string string nat string
  | ActionReverted string string nat

record action_db =
  db_overlay :: overlay
  db_invocations :: "invocation list"
  db_approvals :: "approval list"
  db_events :: "action_event list"
  db_next_invocation :: nat
  db_next_approval :: nat

definition empty_db :: action_db where
  "empty_db = \<lparr>db_overlay = (\<lambda>_. None), db_invocations = [], db_approvals = [], db_events = [],
     db_next_invocation = 1, db_next_approval = 1\<rparr>"

datatype action_error =
    NotFound string
  | Refused string
  | Invalid report
  | Raised py_exc

section \<open>Writing edits\<close>

text \<open>\<open>_deep_set\<close>; the path is never empty.\<close>

fun deep_set :: "payload \<Rightarrow> string list \<Rightarrow> json \<Rightarrow> payload" where
  "deep_set d [] v = d"
| "deep_set d [k] v = dict_set k v d"
| "deep_set d (k # k2 # ks) v =
     dict_set k (JObj (deep_set (case dict_get d k of Some (JObj x) \<Rightarrow> x | _ \<Rightarrow> []) (k2 # ks) v)) d"

definition as_dict :: "json \<Rightarrow> payload" where
  "as_dict j = (case j of JObj d \<Rightarrow> d | _ \<Rightarrow> [])"

definition stored_value :: "overlay \<Rightarrow> string \<Rightarrow> string \<Rightarrow> string \<Rightarrow> string \<Rightarrow> json option" where
  "stored_value ov tid ot iid prop = map_option ed_value (ov (tid, ot, iid, prop))"

text \<open>One key of \<open>resolved\<close>: a dotted key is merged into the struct stored under its first segment.\<close>

definition merge_key :: "overlay \<Rightarrow> string \<Rightarrow> string \<Rightarrow> string \<Rightarrow> string \<times> json \<Rightarrow> payload \<Rightarrow> payload" where
  "merge_key ov tid ot iid kv top_level =
     (case kv of (key, v) \<Rightarrow>
        if CHR ''.'' \<notin> set key then dict_set key v top_level
        else let parts = split_on (CHR ''.'') key; top = hd parts; rest = tl parts;
                 existing = obj_get top_level top;
                 base = (if existing \<noteq> JNull then as_dict existing
                         else as_dict (case stored_value ov tid ot iid top of Some x \<Rightarrow> x | None \<Rightarrow> JNull))
             in dict_set top (JObj (deep_set base rest v)) top_level)"

definition merged_edits :: "overlay \<Rightarrow> string \<Rightarrow> string \<Rightarrow> string \<Rightarrow> payload \<Rightarrow> payload" where
  "merged_edits ov tid ot iid resolved = fold (merge_key ov tid ot iid) resolved []"

definition upsert_edit ::
  "string \<Rightarrow> string \<Rightarrow> string \<Rightarrow> string \<Rightarrow> string \<Rightarrow> real \<Rightarrow> string \<times> json \<Rightarrow> overlay \<Rightarrow> overlay" where
  "upsert_edit tid ot iid act who ts kv ov =
     ov((tid, ot, iid, fst kv) \<mapsto> \<lparr>ed_value = snd kv, ed_action = act, ed_actor = who, ed_at = ts\<rparr>)"

text \<open>Result, prior values and new overlay; the keys of the merged edits are distinct, so the prior of
  a property is what the overlay held before the call.\<close>

definition write_instance_edits ::
  "overlay \<Rightarrow> string \<Rightarrow> string \<Rightarrow> string \<Rightarrow> payload \<Rightarrow> string \<Rightarrow> string \<Rightarrow> real
     \<Rightarrow> payload \<times> (string, json option) dict \<times> overlay" where
  "write_instance_edits ov tid ot iid resolved act who ts =
     (let top_level = merged_edits ov tid ot iid resolved
      in (top_level, map (\<lambda>(p, v). (p, stored_value ov tid ot iid p)) top_level,
          fold (upsert_edit tid ot iid act who ts) top_level ov))"

definition resolve_edits :: "(string \<times> edit_source) list \<Rightarrow> payload \<Rightarrow> string \<Rightarrow> payload" where
  "resolve_edits edits params why =
     fold (\<lambda>(prop, src). dict_set prop
       (case src of
          FromParameter p \<Rightarrow> if p = ''reason'' then JStr why else obj_get params p
        | Static v \<Rightarrow> v)) edits []"

definition apply_declarative_edits ::
  "overlay \<Rightarrow> string \<Rightarrow> string \<Rightarrow> string \<Rightarrow> (string \<times> edit_source) list \<Rightarrow> payload \<Rightarrow> string \<Rightarrow> string \<Rightarrow> real \<Rightarrow> string
     \<Rightarrow> payload \<times> (string, json option) dict \<times> overlay" where
  "apply_declarative_edits ov tid ot iid edits params act who ts why =
     write_instance_edits ov tid ot iid (resolve_edits edits params why) act who ts"

definition instance_parts :: "string \<Rightarrow> (action_error, string \<times> string) result" where
  "instance_parts iurn =
     (case partition_on (CHR ''/'') (after_last (CHR '':'') iurn) of (ot, sep, iid) \<Rightarrow>
        if sep then Inr (ot, iid) else Inl (Refused ''not enough values to unpack''))"

definition apply_instance_edit_rows :: "payload \<Rightarrow> (string \<times> json) list \<Rightarrow> payload" where
  "apply_instance_edit_rows row edit_rows = fold (\<lambda>(p, v). dict_set p v) edit_rows row"

section \<open>Applying edits\<close>

definition action_urn_of :: "string \<Rightarrow> string \<Rightarrow> string" where
  "action_urn_of tid name = build_urn tid ''global'' ''action-type'' name None"

section \<open>Function-backed action types\<close>

text \<open>What a call sees of the ontology, and the plugin registered under the name of the edit function, if any.\<close>

record fn_env =
  fe_view :: ontology_view
  fe_plugin :: "(payload \<Rightarrow> json) option"

definition in_interface :: "ontology_view \<Rightarrow> action_type \<Rightarrow> string \<times> json \<Rightarrow> (action_error, unit) result" where
  "in_interface env def kv =
     raise_if (given (at_target_interface def) \<and>
       fst kv \<notin> set (case ov_interface env (the (at_target_interface def)) of Some rs \<Rightarrow> rs | None \<Rightarrow> [])) (Refused ''not in the interface'')"

definition check_function_edit :: "ontology_view \<Rightarrow> payload \<Rightarrow> string \<times> json \<Rightarrow> (action_error, unit) result" where
  "check_function_edit env ptypes kv =
     (case dict_get ptypes (fst kv) of
        None \<Rightarrow> Inr ()
      | Some JNull \<Rightarrow> Inr ()
      | Some (JObj rule) \<Rightarrow>
          if obj_get rule ''editable'' = JBool False then Inl (Refused ''not editable'')
          else if truthy (obj_get rule ''required'') \<and> snd kv = JNull then Inl (Refused ''required'')
          else if snd kv \<noteq> JNull \<and> obj_get rule ''kind'' \<in> typed_kinds then
            (case fst (validate_typed_property_value (ov_stack env) (ov_lib env) (ov_types env) False (fst kv) rule (snd kv) None) of
               Inl e \<Rightarrow> Inl (Raised e)
             | Inr (Some _) \<Rightarrow> Inl (Refused ''type error'')
             | Inr None \<Rightarrow> Inr ())
          else Inr ()
      | Some _ \<Rightarrow> Inl (Raised AttributeError))"

definition resolve_function_backed_edits ::
  "fn_env \<Rightarrow> action_type \<Rightarrow> string \<Rightarrow> string \<Rightarrow> payload \<Rightarrow> (action_error, payload) result" where
  "resolve_function_backed_edits fn def ot iid params =
     (let env = fe_view fn in
      case fe_plugin fn of
        None \<Rightarrow> Inl (Refused ''edit_function is not registered'')
      | Some plugin \<Rightarrow>
          (case ov_object_type env ot of
             None \<Rightarrow> Inl (NotFound ot)
           | Some od \<Rightarrow>
               (case ov_instance env ot iid of
                  None \<Rightarrow> Inl (NotFound (ot @ ''/'' @ iid))
                | Some row \<Rightarrow>
                    let translated = map (\<lambda>(camel, col). (camel, obj_get row col)) (od_property_mapping od) in
                    (case plugin (fold (\<lambda>(k, v). dict_set k v) params translated) of
                       JObj (e # es) \<Rightarrow>
                         rbind (each_ok (in_interface env def) (e # es)) (\<lambda>_.
                         rbind (each_ok (check_function_edit env (od_property_types od)) (e # es)) (\<lambda>_. Inr (e # es)))
                     | _ \<Rightarrow> Inl (Refused ''edit_function must return edits'')))))"

definition function_edits :: "fn_env \<Rightarrow> action_type \<Rightarrow> string \<Rightarrow> string \<Rightarrow> payload \<Rightarrow> (action_error, payload option) result" where
  "function_edits fn def ot iid params =
     (if given (at_edit_function def) then rbind (resolve_function_backed_edits fn def ot iid params) (\<lambda>r. Inr (Some r)) else Inr None)"

section \<open>Operations\<close>

text \<open>\<open>resolved_fn\<close>: the edits a function-backed action type returned, if it is one.\<close>

definition edits_of_action ::
  "overlay \<Rightarrow> string \<Rightarrow> string \<Rightarrow> string \<Rightarrow> action_type \<Rightarrow> payload option \<Rightarrow> payload \<Rightarrow> string \<Rightarrow> string \<Rightarrow> real \<Rightarrow> string
     \<Rightarrow> payload \<times> (string, json option) dict \<times> overlay" where
  "edits_of_action ov tid ot iid def resolved_fn params act who ts why =
     (case resolved_fn of
        Some r \<Rightarrow> write_instance_edits ov tid ot iid r act who ts
      | None \<Rightarrow> apply_declarative_edits ov tid ot iid (at_edits def) params act who ts why)"

definition record_invocation ::
  "string \<Rightarrow> string \<Rightarrow> string \<Rightarrow> principal \<Rightarrow> string \<Rightarrow> payload \<Rightarrow> (string, json option) dict \<Rightarrow> action_db \<Rightarrow> action_db" where
  "record_invocation tid name iurn p why res prior db =
     db\<lparr>db_invocations := db_invocations db @
          [\<lparr>iv_id = db_next_invocation db, iv_tenant = tid, iv_action = name, iv_instance = iurn, iv_actor = p_urn p,
            iv_actor_type = p_type p, iv_reason = why, iv_edits = Some res, iv_prior = prior, iv_reverted_at = None\<rparr>],
        db_next_invocation := Suc (db_next_invocation db)\<rparr>"

definition emit_event :: "action_event \<Rightarrow> action_db \<Rightarrow> action_db" where
  "emit_event ev db = db\<lparr>db_events := db_events db @ [ev]\<rparr>"

type_synonym registry_of_actions = "string \<Rightarrow> string \<Rightarrow> action_type option"

definition apply_now ::
  "registry_of_actions \<Rightarrow> string \<Rightarrow> string \<Rightarrow> string \<Rightarrow> string \<Rightarrow> string \<Rightarrow> principal \<Rightarrow> string \<Rightarrow> payload \<Rightarrow> fn_env \<Rightarrow> real
     \<Rightarrow> action_db \<Rightarrow> (action_error, nat \<times> action_db) result" where
  "apply_now reg name tid iurn ot iid p why params fn ts db =
     (case reg tid name of
        None \<Rightarrow> Inl (NotFound (''unknown Action: '' @ name))
      | Some def \<Rightarrow>
          rbind (function_edits fn def ot iid params) (\<lambda>resolved_fn.
            let (res, prior, ov) = edits_of_action (db_overlay db) tid ot iid def resolved_fn params
                  (action_urn_of tid name) (p_urn p) ts why
            in Inr (db_next_invocation db,
                 emit_event (ActionInvoked name iurn why None None)
                   (record_invocation tid name iurn p why res prior (db\<lparr>db_overlay := ov\<rparr>)))))"

definition approval_ttl :: real where
  "approval_ttl = 24 * 3600"

text \<open>The branch of \<open>request_generic_action\<close> for a validated action that is not low-risk.\<close>

definition request_approval ::
  "string \<Rightarrow> string \<Rightarrow> string \<Rightarrow> principal \<Rightarrow> string \<Rightarrow> payload \<Rightarrow> real option \<Rightarrow> real \<Rightarrow> action_db \<Rightarrow> nat \<times> action_db" where
  "request_approval name tid iurn p why params ttl now db =
     (db_next_approval db,
      emit_event (ActionRequested name iurn why)
        (db\<lparr>db_approvals := db_approvals db @
             [\<lparr>ap_id = db_next_approval db, ap_tenant = tid, ap_action = name, ap_instance = iurn,
               ap_requested_by = p_urn p, ap_reason = why,
               ap_expires_at = now + (case ttl of Some s \<Rightarrow> s | None \<Rightarrow> approval_ttl),
               ap_parameters = params, ap_status = Pending, ap_decided_by = None, ap_decided_at = None, ap_note = None\<rparr>],
            db_next_approval := Suc (db_next_approval db)\<rparr>))"

definition request_generic_action ::
  "registry_of_actions \<Rightarrow> string \<Rightarrow> string \<Rightarrow> string \<Rightarrow> string \<Rightarrow> string \<Rightarrow> principal \<Rightarrow> string \<Rightarrow> payload \<Rightarrow> fn_env
     \<Rightarrow> real option \<Rightarrow> real \<Rightarrow> action_db \<Rightarrow> (action_error, (nat + nat) \<times> action_db) result" where
  "request_generic_action reg name tid ws ot iid p why params fn ttl now db =
     (case validate_generic_action (fe_view fn) (reg tid name) name ot iid p params of
        Inl (LookupError m) \<Rightarrow> Inl (NotFound m)
      | Inl (PyRaise e) \<Rightarrow> Inl (Raised e)
      | Inr rep \<Rightarrow>
          if \<not> report_valid rep then Inl (Invalid rep)
          else let iurn = build_urn tid ws ''instance'' (ot @ ''/'' @ iid) None in
            (case reg tid name of
               None \<Rightarrow> Inl (NotFound name)
             | Some def \<Rightarrow>
                 if at_risk_level def = ''low'' then
                   rbind (apply_now reg name tid iurn ot iid p why params fn now db) (\<lambda>(i, db'). Inr (Inr i, db'))
                 else (case request_approval name tid iurn p why params ttl now db of (i, db') \<Rightarrow> Inr (Inl i, db'))))"

definition find_approval :: "nat \<Rightarrow> action_db \<Rightarrow> approval option" where
  "find_approval i db = find (\<lambda>a. ap_id a = i) (db_approvals db)"

definition update_approval :: "nat \<Rightarrow> (approval \<Rightarrow> approval) \<Rightarrow> action_db \<Rightarrow> action_db" where
  "update_approval i f db = db\<lparr>db_approvals := map (\<lambda>a. if ap_id a = i then f a else a) (db_approvals db)\<rparr>"

text \<open>The row lock and the two checks both deciders make.\<close>

definition open_approval :: "nat \<Rightarrow> real \<Rightarrow> action_db \<Rightarrow> (action_error, approval) result" where
  "open_approval i now db =
     (case find_approval i db of
        None \<Rightarrow> Inl (NotFound ''approval not found'')
      | Some a \<Rightarrow>
          if ap_status a \<noteq> Pending then Inl (Refused ''approval is already decided'')
          else if ap_expires_at a < now then Inl (Refused ''approval has expired'')
          else Inr a)"

definition reject_action :: "nat \<Rightarrow> principal \<Rightarrow> string option \<Rightarrow> real \<Rightarrow> action_db \<Rightarrow> (action_error, action_db) result" where
  "reject_action i decider note now db =
     rbind (open_approval i now db) (\<lambda>a.
       Inr (emit_event (ActionRejected (ap_action a) (ap_instance a) note)
         (update_approval i (\<lambda>x. x\<lparr>ap_status := Rejected, ap_decided_by := Some (p_urn decider),
            ap_decided_at := Some now, ap_note := note\<rparr>) db)))"

definition approve_action ::
  "registry_of_actions \<Rightarrow> nat \<Rightarrow> principal \<Rightarrow> string option \<Rightarrow> fn_env \<Rightarrow> real \<Rightarrow> action_db
     \<Rightarrow> (action_error, nat \<times> action_db) result" where
  "approve_action reg i decider note fn now db =
     (case find_approval i db of
        None \<Rightarrow> Inl (NotFound ''approval not found'')
      | Some preview \<Rightarrow>
          (case reg (ap_tenant preview) (ap_action preview) of
             None \<Rightarrow> Inl (NotFound (''unknown Action: '' @ ap_action preview))
           | Some def \<Rightarrow>
               rbind (if given (at_edit_function def)
                      then rbind (instance_parts (ap_instance preview)) (\<lambda>(ot, iid). function_edits fn def ot iid (ap_parameters preview))
                      else Inr None) (\<lambda>resolved_fn.
               rbind (open_approval i now db) (\<lambda>a.
               rbind (instance_parts (ap_instance a)) (\<lambda>(ot, iid).
                 let (res, prior, ov) = edits_of_action (db_overlay db) (ap_tenant a) ot iid def resolved_fn
                       (ap_parameters a) (action_urn_of (ap_tenant a) (ap_action a)) (p_urn decider) now (ap_reason a);
                     writeback = (if given (at_writeback_dataset def) then Some res else None)
                 in Inr (db_next_invocation db,
                      emit_event (ActionInvoked (ap_action a) (ap_instance a) (ap_reason a) (Some i) writeback)
                        (record_invocation (ap_tenant a) (ap_action a) (ap_instance a) decider (ap_reason a) res prior
                          (update_approval i (\<lambda>x. x\<lparr>ap_status := Approved, ap_decided_by := Some (p_urn decider),
                             ap_decided_at := Some now, ap_note := note\<rparr>)
                            (db\<lparr>db_overlay := ov\<rparr>)))))))))"

definition overdue :: "real \<Rightarrow> approval \<Rightarrow> bool" where
  "overdue now a = (ap_status a = Pending \<and> ap_expires_at a < now)"

definition sweep_expired_approvals :: "real \<Rightarrow> action_db \<Rightarrow> nat \<times> action_db" where
  "sweep_expired_approvals now db =
     (let hit = filter (overdue now) (db_approvals db)
      in (length hit,
          db\<lparr>db_approvals := map (\<lambda>a. if overdue now a then a\<lparr>ap_status := Expired\<rparr> else a) (db_approvals db),
             db_events := db_events db @ map (\<lambda>a. ApprovalExpired (ap_action a) (ap_instance a) (ap_id a)) hit\<rparr>))"

definition delete_edits :: "string \<Rightarrow> string \<Rightarrow> string \<Rightarrow> string list \<Rightarrow> overlay \<Rightarrow> overlay" where
  "delete_edits tid ot iid props ov =
     (\<lambda>k. if k \<in> (\<lambda>p. (tid, ot, iid, p)) ` set props then None else ov k)"

text \<open>The most recent invocation of this action on this instance, whichever approval it came from.\<close>

definition latest_invocation :: "string \<Rightarrow> string \<Rightarrow> string \<Rightarrow> action_db \<Rightarrow> invocation option" where
  "latest_invocation tid name iurn db =
     find (\<lambda>v. iv_tenant v = tid \<and> iv_action v = name \<and> iv_instance v = iurn) (rev (db_invocations db))"

definition compensate_from_workflow_engine :: "nat \<Rightarrow> string \<Rightarrow> action_db \<Rightarrow> (action_error, action_db) result" where
  "compensate_from_workflow_engine i err db =
     (case find_approval i db of
        None \<Rightarrow> Inl (NotFound ''approval not found'')
      | Some a \<Rightarrow>
          if ap_status a \<noteq> Approved then Inl (Refused ''approval is not approved'')
          else rbind (instance_parts (ap_instance a)) (\<lambda>(ot, iid).
            let edits = (case latest_invocation (ap_tenant a) (ap_action a) (ap_instance a) db of
                  Some v \<Rightarrow> (case iv_edits v of Some e \<Rightarrow> e | None \<Rightarrow> []) | None \<Rightarrow> [])
            in Inr (emit_event (ActionCompensated (ap_action a) (ap_instance a) i err)
                 (update_approval i (\<lambda>x. x\<lparr>ap_status := Failed, ap_note := Some (''compensated: '' @ err)\<rparr>)
                   (db\<lparr>db_overlay := delete_edits (ap_tenant a) ot iid (map fst edits) (db_overlay db)\<rparr>)))))"

definition find_invocation :: "nat \<Rightarrow> string \<Rightarrow> action_db \<Rightarrow> invocation option" where
  "find_invocation n tid db = find (\<lambda>v. iv_id v = n \<and> iv_tenant v = tid) (db_invocations db)"

definition restore_prior :: "string \<Rightarrow> string \<Rightarrow> string \<Rightarrow> string \<Rightarrow> real \<Rightarrow> string \<times> json option \<Rightarrow> overlay \<Rightarrow> overlay" where
  "restore_prior tid ot iid who ts pv ov =
     (case pv of
        (prop, Some v) \<Rightarrow>
          (case ov (tid, ot, iid, prop) of
             None \<Rightarrow> ov
           | Some r \<Rightarrow> ov((tid, ot, iid, prop) \<mapsto> \<lparr>ed_value = v, ed_action = ''revert'', ed_actor = who, ed_at = ts\<rparr>))
      | (prop, None) \<Rightarrow> ov((tid, ot, iid, prop) := None))"

definition revert_declarative_action ::
  "registry_of_actions \<Rightarrow> nat \<Rightarrow> string \<Rightarrow> principal \<Rightarrow> real \<Rightarrow> action_db \<Rightarrow> (action_error, action_db) result" where
  "revert_declarative_action reg n tid p ts db =
     (case find_invocation n tid db of
        None \<Rightarrow> Inl (NotFound ''action invocation not found'')
      | Some v \<Rightarrow>
          if iv_edits v = None then Inl (Refused ''this invocation made no declarative edits'')
          else if iv_reverted_at v \<noteq> None then Inl (Refused ''already reverted'')
          else if iv_actor v \<noteq> p_urn p then Inl (Refused ''only the user who applied this action can revert it'')
          else if (case reg tid (iv_action v) of Some def \<Rightarrow> given (at_writeback_dataset def) | None \<Rightarrow> False)
          then Inl (Refused ''this Action writes back to an external dataset'')
          else if list_ex (\<lambda>x. iv_tenant x = tid \<and> iv_instance x = iv_instance v \<and> iv_edits x \<noteq> None \<and>
                 iv_reverted_at x = None \<and> n < iv_id x) (db_invocations db)
          then Inl (Refused ''a later action has been applied to this object since'')
          else rbind (instance_parts (iv_instance v)) (\<lambda>(ot, iid).
            Inr (emit_event (ActionReverted (iv_action v) (iv_instance v) n)
              (db\<lparr>db_overlay := fold (restore_prior tid ot iid (p_urn p) ts) (iv_prior v) (db_overlay db),
                 db_invocations := map (\<lambda>x. if iv_id x = n then x\<lparr>iv_reverted_at := Some ts\<rparr> else x) (db_invocations db)\<rparr>))))"

section \<open>Approvals as a state machine\<close>

inductive action_step :: "registry_of_actions \<Rightarrow> action_db \<Rightarrow> action_db \<Rightarrow> bool" for reg where
  request: "request_generic_action reg name tid ws ot iid p why params fn ttl now db = Inr (r, db') \<Longrightarrow> action_step reg db db'"
| reject: "reject_action i p note now db = Inr db' \<Longrightarrow> action_step reg db db'"
| approve: "approve_action reg i p note fn now db = Inr (n, db') \<Longrightarrow> action_step reg db db'"
| sweep: "sweep_expired_approvals now db = (n, db') \<Longrightarrow> action_step reg db db'"
| compensate: "compensate_from_workflow_engine i err db = Inr db' \<Longrightarrow> action_step reg db db'"
| revert: "revert_declarative_action reg n tid p ts db = Inr db' \<Longrightarrow> action_step reg db db'"

inductive action_reachable :: "registry_of_actions \<Rightarrow> action_db \<Rightarrow> bool" for reg where
  init: "action_reachable reg empty_db"
| step: "action_reachable reg db \<Longrightarrow> action_step reg db db' \<Longrightarrow> action_reachable reg db'"

definition applied_count :: "nat \<Rightarrow> action_db \<Rightarrow> nat" where
  "applied_count i db = length (filter (\<lambda>ev. case ev of ActionInvoked _ _ _ (Some j) _ \<Rightarrow> j = i | _ \<Rightarrow> False) (db_events db))"

definition status_of :: "nat \<Rightarrow> action_db \<Rightarrow> approval_status option" where
  "status_of i db = map_option ap_status (find_approval i db)"

fun allowed_next :: "approval_status \<Rightarrow> approval_status \<Rightarrow> bool" where
  "allowed_next Pending s = (s \<in> {Pending, Approved, Rejected, Expired})"
| "allowed_next Approved s = (s \<in> {Approved, Failed})"
| "allowed_next s s' = (s' = s)"

definition applied_status :: "approval_status option \<Rightarrow> nat" where
  "applied_status s = (if s = Some Approved \<or> s = Some Failed then 1 else 0)"

lemma find_map_id:
  "(\<And>a. ap_id (g a) = ap_id a) \<Longrightarrow>
   find (\<lambda>a. ap_id a = i) (map g xs) = map_option g (find (\<lambda>a. ap_id a = i) xs)"
  by (induction xs) auto

lemma status_of_update:
  assumes "\<And>a. ap_id (f a) = ap_id a" "db_approvals db' = map (\<lambda>a. if ap_id a = j then f a else a) (db_approvals db)"
  shows "status_of i db' = (if i = j then map_option (\<lambda>a. ap_status (f a)) (find_approval i db) else status_of i db)"
proof -
  have "find_approval i db' = map_option (\<lambda>a. if ap_id a = j then f a else a) (find_approval i db)"
    unfolding find_approval_def assms(2) by (rule find_map_id) (simp add: assms(1))
  moreover have "ap_id a = i" if "find_approval i db = Some a" for a
    using that by (simp add: find_approval_def find_Some_iff) blast
  ultimately show ?thesis by (cases "find_approval i db") (auto simp: status_of_def)
qed

text \<open>What a step does to one approval: its status, how often it has been applied, and whether the id exists.\<close>

definition status_move :: "nat \<Rightarrow> action_db \<Rightarrow> action_db \<Rightarrow> bool" where
  "status_move i db db' \<longleftrightarrow>
     (case status_of i db of
        Some s \<Rightarrow> (\<exists>s'. status_of i db' = Some s' \<and> allowed_next s s' \<and>
          applied_count i db' + applied_status (Some s) = applied_count i db + applied_status (Some s'))
      | None \<Rightarrow> status_of i db' \<in> {None, Some Pending} \<and> applied_count i db' = applied_count i db)"

lemma open_approvalD:
  "open_approval i now db = Inr a \<Longrightarrow> find_approval i db = Some a \<and> ap_status a = Pending \<and> now \<le> ap_expires_at a"
  by (auto simp: open_approval_def split: option.splits if_splits)

lemma allowed_next_refl [simp]: "allowed_next s s"
  by (cases s) simp_all

lemma status_move_same:
  "db_approvals db' = db_approvals db \<Longrightarrow> applied_count i db' = applied_count i db \<Longrightarrow> status_move i db db'"
  by (simp add: status_move_def status_of_def find_approval_def split: option.splits)

lemma applied_count_emit:
  "applied_count i (emit_event ev db) = applied_count i db + (case ev of ActionInvoked _ _ _ (Some j) _ \<Rightarrow> if j = i then 1 else 0 | _ \<Rightarrow> 0)"
  by (simp add: applied_count_def emit_event_def split: action_event.splits option.splits)

lemma db_frame [simp]:
  "db_approvals (emit_event ev db) = db_approvals db"
  "db_approvals (record_invocation tid name iurn p why res prior db) = db_approvals db"
  "db_events (record_invocation tid name iurn p why res prior db) = db_events db"
  "db_events (update_approval j f db) = db_events db"
  "db_approvals (update_approval j f db) = map (\<lambda>a. if ap_id a = j then f a else a) (db_approvals db)"
  by (simp_all add: emit_event_def record_invocation_def update_approval_def)

lemma apply_nowE:
  assumes "apply_now reg name tid iurn ot iid p why params fn now db = Inr (n, db')"
  obtains def resolved res prior ov where "reg tid name = Some def" "function_edits fn def ot iid params = Inr resolved"
    "edits_of_action (db_overlay db) tid ot iid def resolved params (action_urn_of tid name) (p_urn p) now why = (res, prior, ov)"
    "n = db_next_invocation db"
    "db' = emit_event (ActionInvoked name iurn why None None) (record_invocation tid name iurn p why res prior (db\<lparr>db_overlay := ov\<rparr>))"
proof -
  from assms obtain def resolved where d: "reg tid name = Some def" "function_edits fn def ot iid params = Inr resolved"
    by (auto simp: apply_now_def res_simps split: option.splits)
  obtain res prior ov where e: "edits_of_action (db_overlay db) tid ot iid def resolved params (action_urn_of tid name)
      (p_urn p) now why = (res, prior, ov)"
    by (metis prod.exhaust)
  from assms d e that [OF d e] show thesis by (simp add: apply_now_def)
qed

lemma move_apply_now:
  assumes "apply_now reg name tid iurn ot iid p why params fn now db = Inr (n, db')"
  shows "status_move i db db'"
  using assms
  by (rule apply_nowE) (rule status_move_same, simp, simp add: applied_count_emit, simp add: applied_count_def)

lemma find_append: "find P (xs @ ys) = (case find P xs of None \<Rightarrow> find P ys | Some x \<Rightarrow> Some x)"
  by (induction xs) simp_all

lemma move_request_approval:
  assumes "request_approval name tid iurn p why params ttl now db = (n, db')"
  shows "status_move i db db'"
proof -
  have "applied_count i db' = applied_count i db"
    using assms by (auto simp: request_approval_def applied_count_emit) (simp add: applied_count_def)
  moreover have "status_of i db' = (case status_of i db of Some s \<Rightarrow> Some s | None \<Rightarrow> if i = n then Some Pending else None)"
    using assms by (auto simp: request_approval_def status_of_def find_approval_def find_append split: option.splits)
  ultimately show ?thesis by (auto simp: status_move_def split: option.splits)
qed

lemma move_decide:
  assumes "find_approval j db = Some a" "\<And>x. ap_id (f x) = ap_id x" "\<And>x. ap_status (f x) = s'"
    and "db_approvals db' = map (\<lambda>x. if ap_id x = j then f x else x) (db_approvals db)"
    and "allowed_next (ap_status a) s'"
    and "applied_count i db' + (if i = j then applied_status (Some (ap_status a)) else 0) =
      applied_count i db + (if i = j then applied_status (Some s') else 0)"
  shows "status_move i db db'"
proof (cases "i = j")
  case True
  with assms show ?thesis
    using status_of_update [of f db' j db i] by (auto simp: status_move_def status_of_def)
next
  case False
  with assms show ?thesis
    using status_of_update [of f db' j db i] by (auto simp: status_move_def split: option.splits)
qed

lemma approve_actionE:
  assumes "approve_action reg i p nt fn now db = Inr (n, db')"
  obtains a def ot iid resolved res prior ov where "open_approval i now db = Inr a" "reg (ap_tenant a) (ap_action a) = Some def"
    "instance_parts (ap_instance a) = Inr (ot, iid)"
    "edits_of_action (db_overlay db) (ap_tenant a) ot iid def resolved (ap_parameters a)
       (action_urn_of (ap_tenant a) (ap_action a)) (p_urn p) now (ap_reason a) = (res, prior, ov)"
    "n = db_next_invocation db"
    "db' = emit_event (ActionInvoked (ap_action a) (ap_instance a) (ap_reason a) (Some i)
         (if given (at_writeback_dataset def) then Some res else None))
       (record_invocation (ap_tenant a) (ap_action a) (ap_instance a) p (ap_reason a) res prior
         (update_approval i (\<lambda>x. x\<lparr>ap_status := Approved, ap_decided_by := Some (p_urn p), ap_decided_at := Some now,
            ap_note := nt\<rparr>) (db\<lparr>db_overlay := ov\<rparr>)))"
proof -
  from assms obtain a0 def where f: "find_approval i db = Some a0" "reg (ap_tenant a0) (ap_action a0) = Some def"
    by (auto simp: approve_action_def split: option.splits)
  with assms obtain resolved where r: "(if given (at_edit_function def)
      then rbind (instance_parts (ap_instance a0)) (\<lambda>(ot, iid). function_edits fn def ot iid (ap_parameters a0)) else Inr None) = Inr resolved"
    by (auto simp: approve_action_def res_simps)
  with assms f obtain a where o: "open_approval i now db = Inr a" by (auto simp: approve_action_def res_simps)
  with f open_approvalD have "a0 = a" by fastforce
  from assms f r o obtain ot iid where ip: "instance_parts (ap_instance a) = Inr (ot, iid)"
    by (auto simp: approve_action_def res_simps)
  obtain res prior ov where e: "edits_of_action (db_overlay db) (ap_tenant a) ot iid def resolved (ap_parameters a)
       (action_urn_of (ap_tenant a) (ap_action a)) (p_urn p) now (ap_reason a) = (res, prior, ov)"
    by (metis prod.exhaust)
  have d: "reg (ap_tenant a) (ap_action a) = Some def" using f(2) \<open>a0 = a\<close> by simp
  from assms f o ip e that [OF o d ip e] show thesis
    by (simp only: approve_action_def r f option.case) (simp add: \<open>a0 = a\<close> Let_def)
qed

lemma action_step_move: "action_step reg db db' \<Longrightarrow> status_move i db db'"
proof (induction rule: action_step.induct)
  case (request name tid ws ot iid p why params fn ttl now db r db')
  then show ?case
    by (auto simp: request_generic_action_def Let_def res_simps
        split: option.splits if_splits prod.splits sum.splits validation_exc.splits
        intro: move_apply_now move_request_approval)
next
  case (reject j p nt now db db')
  then obtain a where a: "open_approval j now db = Inr a" by (auto simp: reject_action_def res_simps)
  with reject show ?case
    by (intro move_decide [of j db a "\<lambda>x. x\<lparr>ap_status := Rejected, ap_decided_by := Some (p_urn p),
          ap_decided_at := Some now, ap_note := nt\<rparr>" Rejected])
       (auto simp: reject_action_def applied_count_emit applied_status_def dest: open_approvalD,
        simp_all add: applied_count_def)
next
  case (approve j p nt fn now db n db')
  from approve show ?case
  proof (rule approve_actionE, goal_cases)
    case (1 a def ot iid resolved res prior ov)
    show ?case
      by (rule move_decide [of j db a "\<lambda>x. x\<lparr>ap_status := Approved, ap_decided_by := Some (p_urn p),
            ap_decided_at := Some now, ap_note := nt\<rparr>" Approved])
         (use open_approvalD [OF 1(1)] in
           \<open>simp_all add: 1(6) applied_count_emit applied_status_def, simp_all add: applied_count_def\<close>)
  qed
next
  case (sweep now db n db')
  let ?g = "\<lambda>a. if overdue now a then a\<lparr>ap_status := Expired\<rparr> else a"
  have c: "applied_count i db' = applied_count i db"
    using sweep by (auto simp: sweep_expired_approvals_def Let_def applied_count_def filter_map comp_def)
  have "find_approval i db' = map_option ?g (find_approval i db)"
    using sweep by (auto simp: sweep_expired_approvals_def Let_def find_approval_def intro!: find_map_id)
  then show ?case
    using c by (auto simp: status_move_def status_of_def overdue_def applied_status_def split: option.splits)
next
  case (compensate j err db db')
  then obtain a where a: "find_approval j db = Some a" "ap_status a = Approved"
    by (auto simp: compensate_from_workflow_engine_def split: option.splits if_splits)
  with compensate show ?case
    by (intro move_decide [of j db a "\<lambda>x. x\<lparr>ap_status := Failed, ap_note := Some (''compensated: '' @ err)\<rparr>" Failed])
       (auto simp: compensate_from_workflow_engine_def applied_count_emit applied_status_def res_simps Let_def
          split: prod.splits,
        simp_all add: applied_count_def)
next
  case (revert n tid p ts db db')
  then show ?case
    by (intro status_move_same)
       (auto simp: revert_declarative_action_def res_simps applied_count_emit split: option.splits if_splits prod.splits,
        simp_all add: applied_count_def emit_event_def)
qed

text \<open>
  C2. An approval is decided once and applied at most once: in every reachable database it has
  been applied exactly once if it stands approved or failed and never otherwise, its status
  only moves from pending to approved, rejected or expired and from approved to failed, and it
  is approved only while pending and not past its expiry.
\<close>

theorem approvals_applied_once:
  assumes "action_reachable reg db"
  shows "applied_count i db = (if status_of i db \<in> {Some Approved, Some Failed} then 1 else 0) \<and>
    (action_step reg db db' \<and> status_of i db = Some s \<longrightarrow> (\<exists>s'. status_of i db' = Some s' \<and> allowed_next s s')) \<and>
    (approve_action reg i p note fn now db = Inr (n, db2) \<longrightarrow>
       (\<exists>a. find_approval i db = Some a \<and> ap_status a = Pending \<and> now \<le> ap_expires_at a) \<and> status_of i db2 = Some Approved)"
proof -
  have "applied_count i db = applied_status (status_of i db)"
    using assms
  proof (induction rule: action_reachable.induct)
    case init
    show ?case by (simp add: applied_count_def empty_db_def status_of_def find_approval_def applied_status_def)
  next
    case (step db db')
    from action_step_move [OF step.hyps(2), of i] step.IH show ?case
      by (auto simp: status_move_def applied_status_def split: option.splits if_splits)
  qed
  moreover have "\<exists>s'. status_of i db' = Some s' \<and> allowed_next s s'"
    if "action_step reg db db'" "status_of i db = Some s"
    using action_step_move [OF that(1), of i] that(2) by (auto simp: status_move_def)
  moreover have "(\<exists>a. find_approval i db = Some a \<and> ap_status a = Pending \<and> now \<le> ap_expires_at a) \<and>
      status_of i db2 = Some Approved" if "approve_action reg i p note fn now db = Inr (n, db2)"
    using that
  proof (rule approve_actionE, goal_cases)
    case (1 a def ot iid resolved res prior ov)
    from open_approvalD [OF 1(1)] have a: "find_approval i db = Some a" "ap_status a = Pending" "now \<le> ap_expires_at a"
      by simp_all
    moreover have "status_of i db2 = Some Approved"
      using a(1) status_of_update [of "\<lambda>x. x\<lparr>ap_status := Approved, ap_decided_by := Some (p_urn p),
          ap_decided_at := Some now, ap_note := note\<rparr>" db2 i db i] by (simp add: 1(6))
    ultimately show ?case by blast
  qed
  ultimately show ?thesis by (auto simp: applied_status_def)
qed

section \<open>Reverting restores the values\<close>

definition visible_value :: "overlay \<Rightarrow> edit_key \<Rightarrow> json option" where
  "visible_value ov k = map_option ed_value (ov k)"

lemma merged_edits_wf: "dict_wf (merged_edits ov tid ot iid resolved)"
proof -
  have "dict_wf d \<Longrightarrow> dict_wf (fold (merge_key ov tid ot iid) resolved d)" for d
  proof (induction resolved arbitrary: d)
    case (Cons kv kvs)
    have "dict_wf (merge_key ov tid ot iid kv d)"
      using Cons.prems by (auto simp: merge_key_def Let_def split: prod.splits)
    with Cons.IH show ?case by simp
  qed simp
  then show ?thesis by (simp add: merged_edits_def)
qed

lemma fold_upsert:
  "dict_wf d \<Longrightarrow> fold (upsert_edit tid ot iid act who ts) d ov k =
     (case k of (a, b, c, p) \<Rightarrow> if (a, b, c) = (tid, ot, iid) then
        (case dict_get d p of Some v \<Rightarrow> Some \<lparr>ed_value = v, ed_action = act, ed_actor = who, ed_at = ts\<rparr> | None \<Rightarrow> ov k)
      else ov k)"
proof (induction d arbitrary: ov)
  case (Cons kv d)
  obtain q v where kv: "kv = (q, v)" by (cases kv)
  obtain a b c p where k: "k = (a, b, c, p)" by (cases k)
  have "dict_get d q = None" using Cons.prems by (auto simp: kv dict_wf_def dict_get_def map_of_eq_None_iff)
  with Cons show ?case
    by (auto simp: kv k upsert_edit_def dict_wf_def dict_get_def split: option.splits)
qed (auto split: prod.splits)

lemma restore_prior_other:
  "k \<noteq> (tid, ot, iid, fst pv) \<Longrightarrow> restore_prior tid ot iid who ts pv ov k = ov k"
  by (cases pv) (auto simp: restore_prior_def split: option.splits)

lemma restore_prior_same:
  "ov (tid, ot, iid, p) \<noteq> None \<Longrightarrow>
   visible_value (restore_prior tid ot iid who ts (p, x) ov) (tid, ot, iid, p) = x"
  by (cases x) (auto simp: restore_prior_def visible_value_def)

lemma fold_restore:
  assumes "distinct ps" "\<forall>p \<in> set ps. ov (tid, ot, iid, p) \<noteq> None"
  shows "visible_value (fold (restore_prior tid ot iid who ts) (map (\<lambda>p. (p, f p)) ps) ov) k =
    (case k of (a, b, c, p) \<Rightarrow> if (a, b, c) = (tid, ot, iid) \<and> p \<in> set ps then f p else visible_value ov k)"
  using assms
proof (induction ps arbitrary: ov)
  case (Cons q ps)
  let ?ov = "restore_prior tid ot iid who ts (q, f q) ov"
  have "?ov (tid, ot, iid, p) \<noteq> None" if "p \<in> set ps" for p
  proof -
    have "p \<noteq> q" using that Cons.prems(1) by auto
    with that Cons.prems(2) show ?thesis by (simp add: restore_prior_other)
  qed
  with Cons.IH [of ?ov] Cons.prems have "visible_value (fold (restore_prior tid ot iid who ts) (map (\<lambda>p. (p, f p)) (q # ps)) ov) k =
      (case k of (a, b, c, p) \<Rightarrow> if (a, b, c) = (tid, ot, iid) \<and> p \<in> set ps then f p else visible_value ?ov k)" by simp
  moreover have "visible_value ?ov k = (if k = (tid, ot, iid, q) then f q else visible_value ov k)"
    using Cons.prems restore_prior_same [of ov tid ot iid q who ts "f q"] restore_prior_other [of k tid ot iid "(q, f q)" who ts ov]
    by (auto simp: visible_value_def)
  ultimately show ?case using Cons.prems by (auto split: prod.splits)
qed (auto split: prod.splits)

text \<open>What a write leaves: the prior of every property it sets, and the other rows.\<close>

lemma write_parts:
  assumes "write_instance_edits ov tid ot iid resolved act who ts = (res, prior, ov')"
  shows "\<exists>ps. distinct ps \<and> prior = map (\<lambda>p. (p, stored_value ov tid ot iid p)) ps \<and>
    (\<forall>p \<in> set ps. ov' (tid, ot, iid, p) \<noteq> None) \<and> (\<forall>k. k \<notin> (\<lambda>p. (tid, ot, iid, p)) ` set ps \<longrightarrow> ov' k = ov k)"
proof -
  let ?d = "merged_edits ov tid ot iid resolved"
  have parts: "prior = map (\<lambda>p. (p, stored_value ov tid ot iid p)) (map fst ?d)" "ov' = fold (upsert_edit tid ot iid act who ts) ?d ov"
    using assms by (auto simp: write_instance_edits_def Let_def case_prod_beta')
  have wf: "dict_wf ?d" by (rule merged_edits_wf)
  have in_dom: "p \<in> set (map fst ?d) \<longleftrightarrow> dict_get ?d p \<noteq> None" for p
    by (simp add: dict_get_def map_of_eq_None_iff)
  have "ov' (tid, ot, iid, p) \<noteq> None" if "p \<in> set (map fst ?d)" for p
  proof -
    from that in_dom obtain v where "dict_get ?d p = Some v" by blast
    then show ?thesis by (simp add: parts(2) fold_upsert [OF wf])
  qed
  moreover have "ov' k = ov k" if "k \<notin> (\<lambda>p. (tid, ot, iid, p)) ` set (map fst ?d)" for k
    using that in_dom by (auto simp: parts(2) fold_upsert [OF wf] split: prod.splits option.splits)
  ultimately show ?thesis using wf parts(1) by (intro exI [of _ "map fst ?d"]) (simp add: dict_wf_def)
qed

lemma write_then_restore:
  assumes "write_instance_edits ov tid ot iid resolved act who ts = (res, prior, ov')"
  shows "visible_value (fold (restore_prior tid ot iid who2 ts2) prior ov') k = visible_value ov k"
proof -
  from write_parts [OF assms] obtain ps where ps: "distinct ps" "prior = map (\<lambda>p. (p, stored_value ov tid ot iid p)) ps"
    "\<forall>p \<in> set ps. ov' (tid, ot, iid, p) \<noteq> None" and frame: "\<And>k. k \<notin> (\<lambda>p. (tid, ot, iid, p)) ` set ps \<Longrightarrow> ov' k = ov k"
    by blast
  have "visible_value (fold (restore_prior tid ot iid who2 ts2) prior ov') k =
      (if k \<in> (\<lambda>p. (tid, ot, iid, p)) ` set ps then visible_value ov k else visible_value ov' k)"
    using fold_restore [OF ps(1,3)] by (auto simp: ps(2) visible_value_def stored_value_def split: prod.splits)
  then show ?thesis using frame [of k] by (simp add: visible_value_def)
qed

lemma edits_then_restore:
  "edits_of_action ov tid ot iid def fn params act who ts why = (res, prior, ov') \<Longrightarrow>
   visible_value (fold (restore_prior tid ot iid who2 ts2) prior ov') k = visible_value ov k"
  by (auto simp: edits_of_action_def apply_declarative_edits_def split: option.splits intro: write_then_restore)

definition invocation_ids_ok :: "action_db \<Rightarrow> bool" where
  "invocation_ids_ok db = list_all (\<lambda>v. iv_id v < db_next_invocation db) (db_invocations db)"

lemma invocation_ids_apply_now:
  assumes "apply_now reg name tid iurn ot iid p why params fn now db = Inr (n, db')" "invocation_ids_ok db"
  shows "invocation_ids_ok db'"
  using assms(1)
  by (rule apply_nowE)
     (use assms(2) in \<open>auto simp: invocation_ids_ok_def list_all_iff emit_event_def record_invocation_def less_Suc_eq\<close>)

lemma invocation_ids_reachable: "action_reachable reg db \<Longrightarrow> invocation_ids_ok db"
proof (induction rule: action_reachable.induct)
  case (step db db')
  note ids = invocation_ids_ok_def list_all_iff emit_event_def record_invocation_def update_approval_def
  from step.hyps(2) step.IH show ?case
  proof (induction rule: action_step.induct)
    case (request name tid ws ot iid p why params fn ttl now db r db')
    have "invocation_ids_ok db2" if "request_approval name tid (build_urn tid ws ''instance'' (ot @ ''/'' @ iid) None) p why params ttl now db = (i, db2)"
      for i db2 using that request.prems by (auto simp: request_approval_def ids)
    with request show ?case
      by (auto simp: request_generic_action_def Let_def res_simps intro: invocation_ids_apply_now
          split: option.splits if_splits prod.splits sum.splits validation_exc.splits)
  next
    case (approve i p nt fn now db n db')
    from approve.hyps show ?case
      by (rule approve_actionE) (use approve.prems in \<open>auto simp: ids less_Suc_eq\<close>)
  next
    case (compensate i err db db')
    then show ?case
      by (auto simp: compensate_from_workflow_engine_def ids res_simps Let_def split: option.splits if_splits prod.splits)
  next
    case (revert n tid p ts db db')
    then show ?case
      by (auto simp: revert_declarative_action_def ids res_simps split: option.splits if_splits prod.splits)
  qed (auto simp: reject_action_def sweep_expired_approvals_def ids res_simps Let_def)
qed (simp add: invocation_ids_ok_def empty_db_def)


section \<open>Compensation\<close>

lemma compensation_effect:
  assumes "compensate_from_workflow_engine i err db = Inr db'" "find_approval i db = Some a"
    and "latest_invocation (ap_tenant a) (ap_action a) (ap_instance a) db = Some v" "iv_edits v = Some e"
    and "instance_parts (ap_instance a) = Inr (ot, iid)"
  shows "\<forall>prp \<in> set (map fst e). db_overlay db' (ap_tenant a, ot, iid, prp) = None"
    and "status_of i db' = Some Failed" and "i \<noteq> j \<Longrightarrow> status_of j db' = status_of j db"
proof -
  let ?f = "\<lambda>x. x\<lparr>ap_status := Failed, ap_note := Some (''compensated: '' @ err)\<rparr>"
  from assms have db': "db' = emit_event (ActionCompensated (ap_action a) (ap_instance a) i err) (update_approval i ?f
      (db\<lparr>db_overlay := delete_edits (ap_tenant a) ot iid (map fst e) (db_overlay db)\<rparr>))"
    by (auto simp: compensate_from_workflow_engine_def Let_def split: if_splits)
  then have ap: "db_approvals db' = map (\<lambda>x. if ap_id x = i then ?f x else x) (db_approvals db)" by simp
  from status_of_update [of ?f, OF _ ap] assms(2)
  show "status_of i db' = Some Failed" "i \<noteq> j \<Longrightarrow> status_of j db' = status_of j db" by auto
  show "\<forall>prp \<in> set (map fst e). db_overlay db' (ap_tenant a, ot, iid, prp) = None"
    by (auto simp: db' emit_event_def update_approval_def delete_edits_def)
qed

text \<open>
  Compensating an approval removes the edits of the latest invocation of the same action on the
  same instance, whichever approval that was: of two approvals of one action, compensating the
  first deletes what the second wrote, and the second stays approved.
\<close>

theorem compensation_hits_latest_invocation:
  assumes "compensate_from_workflow_engine i err db = Inr db'" "find_approval i db = Some a"
    and "latest_invocation (ap_tenant a) (ap_action a) (ap_instance a) db = Some v" "iv_edits v = Some e"
    and "instance_parts (ap_instance a) = Inr (ot, iid)" "i \<noteq> j"
  shows "(\<forall>prp \<in> set (map fst e). db_overlay db' (ap_tenant a, ot, iid, prp) = None) \<and>
    status_of i db' = Some Failed \<and> status_of j db' = status_of j db"
  using compensation_effect [OF assms(1-5)] assms(6) by blast

text \<open>
  An edit of a nested field starts from the stored overlay alone: as long as no earlier action
  wrote the struct, the new overlay value holds the edited field and nothing else, whatever the
  other fields of the instance are, so reads of the instance lose them.
\<close>

theorem nested_edit_drops_siblings:
  assumes "stored_value ov tid ot iid prp = None" "CHR ''.'' \<notin> set prp" "CHR ''.'' \<notin> set fld"
  shows "fst (write_instance_edits ov tid ot iid [(prp @ ''.'' @ fld, v)] act who ts) = [(prp, JObj [(fld, v)])]"
proof -
  have "split_on (CHR ''.'') (prp @ ''.'' @ fld) = [prp, fld]"
    using split_on_append [of "CHR ''.''" prp fld] assms(2,3) by simp
  then show ?thesis
    using assms(1) by (simp add: write_instance_edits_def merged_edits_def merge_key_def Let_def as_dict_def dict_set_def)
qed

section \<open>Witnesses\<close>

definition annotate_type :: action_type where
  "annotate_type = \<lparr>at_target_object_type = Some ''Order'', at_target_interface = None, at_risk_level = ''high'', at_description = ''note'',
     at_parameters = [[(''name'', JStr ''text''), (''value_type'', JStr ''words'')]],
     at_edit_list = [[(''property'', JStr ''note''), (''source'', JStr ''parameter''), (''parameter_name'', JStr ''text'')]],
     at_criteria = [], at_writeback_dataset = None, at_edit_function = None, at_sections = [], at_type_classes = [],
     at_notify_webhook = None\<rparr>"

definition note_action :: registry_of_actions where
  "note_action tid name = (if name = ''annotate'' then Some annotate_type else None)"

definition order_env :: fn_env where
  "order_env = \<lparr>fe_view = \<lparr>ov_object_type = (\<lambda>_. None), ov_interface = (\<lambda>_. None),
       ov_types = \<lparr>get_value_type = (\<lambda>n. if n = Some ''words'' then Some \<lparr>vt_name = ''words'', vt_base_type = ''string'',
           vt_format_regex = None, vt_format_regex_match = None, vt_constraints = []\<rparr> else None),
         get_shared_property_type = (\<lambda>_. None)\<rparr>,
       ov_instance = (\<lambda>ot iid. Some []), ov_object_set = (\<lambda>_. None), ov_lib = plain_lib, ov_stack = 3\<rparr>, fe_plugin = None\<rparr>"

definition ada :: principal where
  "ada = \<lparr>p_urn = ''hl:acme:global:user:ada'', p_type = ''user'', p_tenant_id = ''acme'', p_display_name = ''Ada'',
     p_on_behalf_of = None, p_country = None, p_jti = None\<rparr>"

definition order_urn :: string where
  "order_urn = ''hl:acme:eu:instance:Order/7''"

definition requested_db :: action_db where
  "requested_db = snd (request_approval ''annotate'' ''acme'' order_urn ada ''why'' [(''text'', JStr ''hi'')] None 0 empty_db)"

lemma requested_db_reachable: "action_reachable note_action requested_db"
proof -
  have "case validate_generic_action (fe_view order_env) (Some annotate_type) ''annotate'' ''Order'' ''7'' ada [(''text'', JStr ''hi'')] of
      Inr r \<Rightarrow> report_valid r | Inl _ \<Rightarrow> False" by code_simp
  then have "request_generic_action note_action ''annotate'' ''acme'' ''eu'' ''Order'' ''7'' ada ''why'' [(''text'', JStr ''hi'')] order_env None 0
      empty_db = Inr (Inl 1, requested_db)"
    by (auto simp: request_generic_action_def note_action_def requested_db_def request_approval_def order_urn_def
        build_urn_def urn_str_def empty_db_def annotate_type_def [THEN arg_cong, of at_risk_level] Let_def split: sum.splits)
  then have "action_step note_action empty_db requested_db" by (rule action_step.request)
  then show ?thesis by (rule action_reachable.step [OF action_reachable.init])
qed

theorem approvals_applied_once_witness: "applied_count 1 requested_db = 0 \<and> status_of 1 requested_db = Some Pending"
proof -
  have "status_of 1 requested_db = Some Pending"
    by (simp add: requested_db_def request_approval_def status_of_def find_approval_def emit_event_def empty_db_def)
  with approvals_applied_once [OF requested_db_reachable, of 1] show ?thesis by simp
qed


definition two_approvals_db :: action_db where
  "two_approvals_db = (let ap = (\<lambda>i. \<lparr>ap_id = i, ap_tenant = ''acme'', ap_action = ''annotate'', ap_instance = order_urn,
       ap_requested_by = ''u'', ap_reason = [], ap_expires_at = 100, ap_parameters = [], ap_status = Approved,
       ap_decided_by = None, ap_decided_at = None, ap_note = None\<rparr>);
     iv = (\<lambda>i. \<lparr>iv_id = i, iv_tenant = ''acme'', iv_action = ''annotate'', iv_instance = order_urn, iv_actor = ''u'',
       iv_actor_type = ''user'', iv_reason = [], iv_edits = Some [(''note'', JStr (show_nat i))], iv_prior = [], iv_reverted_at = None\<rparr>)
     in empty_db\<lparr>db_approvals := [ap 1, ap 2], db_invocations := [iv 1, iv 2]\<rparr>)"

theorem compensation_hits_latest_invocation_witness:
  "\<exists>db'. compensate_from_workflow_engine 1 ''timeout'' two_approvals_db = Inr db' \<and>
     db_overlay db' (''acme'', ''Order'', ''7'', ''note'') = None \<and> status_of 2 db' = Some Approved"
proof -
  let ?iv = "\<lparr>iv_id = 2, iv_tenant = ''acme'', iv_action = ''annotate'', iv_instance = order_urn, iv_actor = ''u'',
       iv_actor_type = ''user'', iv_reason = [], iv_edits = Some [(''note'', JStr (show_nat 2))], iv_prior = [], iv_reverted_at = None\<rparr>"
  have parts: "instance_parts order_urn = Inr (''Order'', ''7'')" by code_simp
  obtain a where a: "find_approval 1 two_approvals_db = Some a" "ap_tenant a = ''acme''" "ap_action a = ''annotate''"
    "ap_instance a = order_urn" "ap_status a = Approved"
    by (auto simp: two_approvals_db_def find_approval_def Let_def)
  have lat: "latest_invocation (ap_tenant a) (ap_action a) (ap_instance a) two_approvals_db = Some ?iv"
    by (simp add: latest_invocation_def two_approvals_db_def a Let_def)
  obtain db' where run: "compensate_from_workflow_engine 1 ''timeout'' two_approvals_db = Inr db'"
    using a parts by (auto simp: compensate_from_workflow_engine_def)
  have "status_of 2 two_approvals_db = Some Approved"
    by (simp add: two_approvals_db_def status_of_def find_approval_def Let_def)
  with compensation_hits_latest_invocation [OF run a(1) lat, of "[(''note'', JStr (show_nat 2))]" "''Order''" "''7''" 2] parts a run
  show ?thesis by auto
qed

theorem nested_edit_drops_siblings_witness:
  "fst (write_instance_edits (\<lambda>_. None) ''acme'' ''Order'' ''7'' [(''address.city'', JStr ''Lyon'')] ''x'' ''u'' 0) =
     [(''address'', JObj [(''city'', JStr ''Lyon'')])]"
  using nested_edit_drops_siblings [of "\<lambda>_. None" "''acme''" "''Order''" "''7''" "''address''" "''city''" "JStr ''Lyon''" "''x''" "''u''" 0]
  by (simp add: stored_value_def)

end
