(* ===== verification/Holon_Workflow.thy ===== *)
theory Holon_Workflow
  imports Holon_Actions Holon_Resilience
begin

text \<open>
  The saga of the Automation service (\<open>workflow.py\<close>): for an approved action with write-back it
  records an execution, writes to the source system through a circuit breaker, and asks
  Knowledge to compensate if that fails. The HTTP calls are parameters on a world of any type.
\<close>

datatype execution_status = Running | Completed | Compensated

record execution =
  ex_id :: nat
  ex_tenant :: string
  ex_approval :: nat
  ex_action :: string
  ex_status :: execution_status
  ex_error :: "string option"

datatype workflow_event = WorkflowCompleted string nat string

datatype workflow_audit = AuditCompleted nat | AuditCompensated nat string

record engine =
  en_executions :: "execution list"
  en_next :: nat
  en_outbox :: "workflow_event list"
  en_audit :: "workflow_audit list"
  connectivity_breaker :: breaker
  knowledge_breaker :: breaker

definition new_engine :: engine where
  "new_engine = \<lparr>en_executions = [], en_next = 1, en_outbox = [], en_audit = [], connectivity_breaker = breaker_init,
     knowledge_breaker = breaker_init\<rparr>"

text \<open>\<open>httpx.HTTPError\<close> with its text, or any other exception of a call.\<close>

datatype wf_exc = HTTPError string | OtherError string

definition writeback_failure_sentinel :: string where
  "writeback_failure_sentinel = ''__simulate_failure__''"

definition engine_principal_of :: "string \<Rightarrow> principal" where
  "engine_principal_of tid =
     \<lparr>p_urn = build_urn tid ''global'' ''service-account'' ''automation-workflow-engine'' None, p_type = ''service_account'',
      p_tenant_id = tid, p_display_name = ''Automation Workflow Engine'', p_on_behalf_of = None, p_country = None, p_jti = None\<rparr>"

definition set_execution :: "nat \<Rightarrow> execution_status \<Rightarrow> string option \<Rightarrow> engine \<Rightarrow> engine" where
  "set_execution n s err en =
     en\<lparr>en_executions := map (\<lambda>x. if ex_id x = n
          then x\<lparr>ex_status := s, ex_error := (case err of None \<Rightarrow> ex_error x | Some e \<Rightarrow> Some e)\<rparr> else x) (en_executions en)\<rparr>"

text \<open>The text of an error the two \<open>except\<close> clauses catch.\<close>

definition caught :: "string \<Rightarrow> wf_exc call_error \<Rightarrow> string option" where
  "caught breaker_name e =
     (case e of
        CircuitBreakerOpenError \<Rightarrow> Some (''circuit '' @ [CHR 0x27] @ breaker_name @ [CHR 0x27] @ '' is open'')
      | Upstream (HTTPError s) \<Rightarrow> Some s
      | _ \<Rightarrow> None)"

type_synonym 'w call = "'w \<Rightarrow> (wf_exc, unit) result \<times> 'w"

text \<open>The \<open>except\<close> branch: the status first, then the callback, whose own failure is only logged.
  True: an exception left the function.\<close>

definition compensate_branch ::
  "real \<times> real \<Rightarrow> nat \<Rightarrow> nat \<Rightarrow> string \<Rightarrow> 'w call \<Rightarrow> engine \<times> 'w \<Rightarrow> bool \<times> engine \<times> 'w" where
  "compensate_branch clk n i err undo ew =
     (case ew of (en0, w) \<Rightarrow>
        let en = set_execution n Compensated (Some err) en0 in
        case breaker_call service_breaker_cfg None (fst clk) (snd clk) undo (knowledge_breaker en) w of
          (r, b, w') \<Rightarrow>
            let en' = en\<lparr>knowledge_breaker := b\<rparr>;
                audited = en'\<lparr>en_audit := en_audit en' @ [AuditCompensated i err]\<rparr>
            in case r of
                 Inr _ \<Rightarrow> (False, audited, w')
               | Inl e \<Rightarrow> (if caught ''knowledge-compensate'' e \<noteq> None then (False, audited, w') else (True, en', w')))"

definition run_workflow ::
  "(nat \<Rightarrow> real) \<Rightarrow> string \<Rightarrow> nat \<Rightarrow> string \<Rightarrow> string \<Rightarrow> string \<Rightarrow> 'w call \<Rightarrow> (string \<Rightarrow> 'w call) \<Rightarrow> engine \<times> 'w
     \<Rightarrow> bool \<times> engine \<times> 'w" where
  "run_workflow clk tid i name iurn why notify undo ew =
     (case ew of (en0, w) \<Rightarrow>
        let n = en_next en0;
            en = en0\<lparr>en_executions := en_executions en0 @ [\<lparr>ex_id = n, ex_tenant = tid, ex_approval = i, ex_action = name,
                   ex_status = Running, ex_error = None\<rparr>], en_next := Suc n\<rparr>
        in if why = writeback_failure_sentinel then
             compensate_branch (clk 2, clk 3) n i ''simulated downstream failure'' (undo ''simulated downstream failure'') (en, w)
           else case breaker_call service_breaker_cfg None (clk 0) (clk 1) notify (connectivity_breaker en) w of
             (r, b, w1) \<Rightarrow>
               let en1 = en\<lparr>connectivity_breaker := b\<rparr> in
               case r of
                 Inl e \<Rightarrow>
                   (case caught ''connectivity-writeback'' e of
                      None \<Rightarrow> (True, en1, w1)
                    | Some err \<Rightarrow> compensate_branch (clk 2, clk 3) n i err (undo err) (en1, w1))
               | Inr _ \<Rightarrow>
                   (let en2 = set_execution n Completed None en1
                    in (False, en2\<lparr>en_outbox := en_outbox en2 @ [WorkflowCompleted name i iurn],
                          en_audit := en_audit en2 @ [AuditCompleted i]\<rparr>, w1)))"

text \<open>
  One message of \<open>consume_events\<close>: \<open>continue\<close> leaves without the commit, everything else,
  exceptions included, commits. \<open>fetch\<close> asks Knowledge for the write-back dataset.
\<close>

record trigger =
  tr_event_type :: string
  tr_tenant :: string
  tr_action_name :: "string option"
  tr_approval_id :: "nat option"
  tr_instance_urn :: "string option"
  tr_edits :: "payload option"
  tr_reason :: string

definition instance_id_of_urn :: "string \<Rightarrow> string" where
  "instance_id_of_urn iurn = after_last (CHR ''/'') (after_last (CHR '':'') iurn)"

definition handle_trigger ::
  "(nat \<Rightarrow> real) \<Rightarrow> (string \<Rightarrow> 'w \<Rightarrow> (wf_exc, string option) result \<times> 'w) \<Rightarrow> (string \<Rightarrow> string \<Rightarrow> payload \<Rightarrow> 'w call)
     \<Rightarrow> (nat \<Rightarrow> string \<Rightarrow> 'w call) \<Rightarrow> trigger \<Rightarrow> engine \<times> 'w \<Rightarrow> bool \<times> engine \<times> 'w" where
  "handle_trigger clk fetch write undo ev ew =
     (case ew of (en, w) \<Rightarrow>
        if tr_event_type ev \<noteq> ''knowledge.action.invoked'' then (False, en, w)
        else case tr_action_name ev of
          None \<Rightarrow> (True, en, w)
        | Some name \<Rightarrow>
            (case tr_approval_id ev of
               None \<Rightarrow> (False, en, w)
             | Some i \<Rightarrow>
                 (case tr_instance_urn ev of
                    None \<Rightarrow> (True, en, w)
                  | Some iurn \<Rightarrow>
                      (case tr_edits ev of
                         None \<Rightarrow> (False, en, w)
                       | Some edits \<Rightarrow>
                           (case fetch name w of
                              (Inl _, w1) \<Rightarrow> (True, en, w1)
                            | (Inr None, w1) \<Rightarrow> (False, en, w1)
                            | (Inr (Some dataset), w1) \<Rightarrow>
                                (case run_workflow clk (tr_tenant ev) i name iurn (tr_reason ev)
                                        (write dataset (instance_id_of_urn iurn) edits) (undo i) (en, w1) of
                                   (_, en', w2) \<Rightarrow> (True, en', w2)))))))"

section \<open>What a run leaves behind\<close>

definition execution_status_of :: "nat \<Rightarrow> engine \<Rightarrow> execution_status option" where
  "execution_status_of n en = map_option ex_status (find (\<lambda>x. ex_id x = n) (en_executions en))"

definition engine_ids_ok :: "engine \<Rightarrow> bool" where
  "engine_ids_ok en = list_all (\<lambda>x. ex_id x < en_next en) (en_executions en)"

lemma find_fresh: "engine_ids_ok en \<Longrightarrow> find (\<lambda>x. ex_id x = en_next en) (en_executions en) = None"
  by (auto simp: engine_ids_ok_def list_all_iff find_None_iff)

lemma execution_set:
  "execution_status_of n (set_execution n s err en) = (if execution_status_of n en = None then None else Some s)"
proof -
  have "find (\<lambda>x. ex_id x = n) (map (\<lambda>x. if ex_id x = n then f x else x) xs) = map_option f (find (\<lambda>x. ex_id x = n) xs)"
    if "\<And>x. ex_id (f x) = ex_id x" for f :: "execution \<Rightarrow> execution" and xs
    using that by (induction xs) auto
  then show ?thesis by (auto simp: execution_status_of_def set_execution_def)
qed

lemma execution_frame [simp]:
  "execution_status_of n (en\<lparr>knowledge_breaker := b\<rparr>) = execution_status_of n en"
  "execution_status_of n (en\<lparr>connectivity_breaker := b\<rparr>) = execution_status_of n en"
  "execution_status_of n (en\<lparr>en_audit := a\<rparr>) = execution_status_of n en"
  "execution_status_of n (en\<lparr>en_outbox := o'\<rparr>) = execution_status_of n en"
  "knowledge_breaker (set_execution n s err en) = knowledge_breaker en"
  by (simp_all add: execution_status_of_def set_execution_def)

lemma compensate_branch_status:
  assumes "compensate_branch clk n i err undo (en, w) = (raised, en', w')" "execution_status_of n en \<noteq> None"
  shows "execution_status_of n en' = Some Compensated"
  using assms
  by (auto simp: compensate_branch_def Let_def execution_set split: prod.splits sum.splits if_splits)

lemma workflow_run_status:
  assumes "run_workflow clk tid i name iurn why notify undo (en, w) = (raised, en', w')" "engine_ids_ok en"
  shows "\<exists>s. execution_status_of (en_next en) en' = Some s \<and>
    (s = Completed \<longrightarrow> notify w = (Inr (), w') \<and> \<not> raised \<and> en_outbox en' = en_outbox en @ [WorkflowCompleted name i iurn]) \<and>
    (s \<noteq> Completed \<longrightarrow> en_outbox en' = en_outbox en) \<and>
    (\<not> raised \<longrightarrow> s \<in> {Completed, Compensated}) \<and> en_next en' = Suc (en_next en)"
proof -
  let ?n = "en_next en"
  let ?en = "en\<lparr>en_executions := en_executions en @ [\<lparr>ex_id = ?n, ex_tenant = tid, ex_approval = i, ex_action = name,
      ex_status = Running, ex_error = None\<rparr>], en_next := Suc ?n\<rparr>"
  have run: "execution_status_of ?n ?en = Some Running"
    using find_fresh [OF assms(2)] by (simp add: execution_status_of_def find_append)
  have comp: "\<exists>s. execution_status_of ?n en' = Some s \<and> s = Compensated \<and> en_outbox en' = en_outbox e \<and> en_next en' = en_next e"
    if "compensate_branch c ?n i err u (e, v) = (raised, en', w')" "execution_status_of ?n e = Some Running" for c err u e v
    using compensate_branch_status [OF that(1)] that
    by (auto simp: compensate_branch_def set_execution_def Let_def split: prod.splits sum.splits if_splits)
  show ?thesis
  proof (cases "why = writeback_failure_sentinel")
    case True
    with assms(1) comp [of _ _ _ ?en w] run show ?thesis by (auto simp: run_workflow_def Let_def)
  next
    case False
    obtain r b w1 where c: "breaker_call service_breaker_cfg None (clk 0) (clk 1) notify (connectivity_breaker en) w = (r, b, w1)"
      by (metis prod.exhaust)
    show ?thesis
    proof (cases r)
      case (Inr u)
      with c have "notify w = (Inr (), w1)" by (auto dest: service_breaker.call_value)
      with assms(1) False c Inr run show ?thesis
        by (auto simp: run_workflow_def Let_def execution_set) (auto simp: set_execution_def)
    next
      case (Inl e)
      show ?thesis
      proof (cases "caught ''connectivity-writeback'' e")
        case None
        with assms(1) False c Inl run show ?thesis by (auto simp: run_workflow_def Let_def)
      next
        case (Some err)
        with assms(1) False c Inl comp [of "(clk 2, clk 3)" err "undo err" "?en\<lparr>connectivity_breaker := b\<rparr>" w1] run
        show ?thesis by (auto simp: run_workflow_def Let_def)
      qed
    qed
  qed
qed

text \<open>
  Every run of the saga is accounted for: it leaves one execution record; a record says completed
  only if the write to the source system succeeded in this run, and then exactly one completion
  event is enqueued; a run that returns normally is completed or compensated, never left
  running.
\<close>

theorem workflow_accounted:
  assumes "run_workflow clk tid i name iurn why notify undo (en, w) = (raised, en', w')" "engine_ids_ok en"
  shows "\<exists>s. execution_status_of (en_next en) en' = Some s \<and>
    (s = Completed \<longrightarrow> notify w = (Inr (), w') \<and> \<not> raised \<and> en_outbox en' = en_outbox en @ [WorkflowCompleted name i iurn]) \<and>
    (s \<noteq> Completed \<longrightarrow> en_outbox en' = en_outbox en) \<and>
    (\<not> raised \<longrightarrow> s \<in> {Completed, Compensated}) \<and> en_next en' = Suc (en_next en)"
  using assms by (rule workflow_run_status)

text \<open>
  The status \<open>compensated\<close> is set before Knowledge has been asked and whatever it answers: if the
  write and the callback both fail, the run returns normally, the record says compensated, and
  nothing has been compensated. The same path is open to a user: an action whose reason is the
  test sentinel is never written to the source system.
\<close>

theorem compensated_without_compensation:
  assumes "state (connectivity_breaker en) = Closed" "state (knowledge_breaker en) = Closed" "engine_ids_ok en"
    and "notify w = (Inl (HTTPError e), w)" "undo e w = (Inl (HTTPError e2), w)" "undo ''simulated downstream failure'' w = (r, w)"
    and "r = Inr () \<or> r = Inl (HTTPError e2)"
  shows "\<exists>en'. run_workflow clk tid i name iurn why notify undo (en, w) = (False, en', w) \<and>
    execution_status_of (en_next en) en' = Some Compensated"
proof -
  obtain raised en' w' where run: "run_workflow clk tid i name iurn why notify undo (en, w) = (raised, en', w')"
    by (metis prod.exhaust)
  have closed: "\<exists>b'. breaker_call service_breaker_cfg None t t' f b v = (case q of Inl z \<Rightarrow> Inl (Upstream z) | Inr z \<Rightarrow> Inr z, b', v)"
    if "state b = Closed" "f v = (q, v)" for t t' f and b :: breaker and v and q :: "(wf_exc, unit) result"
    using that by (simp add: breaker_call_def breaker_admit_def)
  have "raised = False \<and> w' = w"
  proof (cases "why = writeback_failure_sentinel")
    case True
    from closed [of "knowledge_breaker en" "undo ''simulated downstream failure''" w r "clk 2" "clk 3"] assms(2,6)
    obtain b' where "breaker_call service_breaker_cfg None (clk 2) (clk 3) (undo ''simulated downstream failure'')
        (knowledge_breaker en) w = (case r of Inl z \<Rightarrow> Inl (Upstream z) | Inr z \<Rightarrow> Inr z, b', w)" by blast
    with run True assms(7) show ?thesis
      by (auto simp: run_workflow_def compensate_branch_def Let_def caught_def)
  next
    case False
    from closed [of "connectivity_breaker en" notify w _ "clk 0" "clk 1"] assms(1,4)
    obtain b1 where b1: "breaker_call service_breaker_cfg None (clk 0) (clk 1) notify (connectivity_breaker en) w =
        (Inl (Upstream (HTTPError e)), b1, w)" by fastforce
    from closed [of "knowledge_breaker en" "undo e" w _ "clk 2" "clk 3"] assms(2,5)
    obtain b2 where b2: "breaker_call service_breaker_cfg None (clk 2) (clk 3) (undo e) (knowledge_breaker en) w =
        (Inl (Upstream (HTTPError e2)), b2, w)" by fastforce
    from run False b1 b2 show ?thesis
      by (auto simp: run_workflow_def compensate_branch_def Let_def caught_def)
  qed
  moreover have "execution_status_of (en_next en) en' \<noteq> Some Completed"
    using workflow_run_status [OF run assms(3)] assms(4) by auto
  moreover from workflow_run_status [OF run assms(3)] calculation have "execution_status_of (en_next en) en' = Some Compensated"
    by auto
  ultimately show ?thesis using run by auto
qed

section \<open>Witnesses\<close>

theorem workflow_accounted_witness:
  "execution_status_of 1 (fst (snd (run_workflow (\<lambda>_. 0) ''acme'' 7 ''annotate'' order_urn ''why''
     (\<lambda>w :: nat. (Inr (), w + 1)) (\<lambda>e w. (Inr (), w)) (new_engine, 0)))) = Some Completed"
proof -
  let ?run = "run_workflow (\<lambda>_. 0) ''acme'' 7 ''annotate'' order_urn ''why'' (\<lambda>w :: nat. (Inr (), w + 1)) (\<lambda>e w. (Inr (), w))
    (new_engine, 0)"
  obtain raised en' w' where run: "?run = (raised, en', w')" by (metis prod.exhaust)
  have "engine_ids_ok new_engine" by (simp add: engine_ids_ok_def new_engine_def)
  from workflow_accounted [OF run this] obtain s where s: "execution_status_of 1 en' = Some s"
    by (auto simp: new_engine_def)
  have "execution_status_of 1 (fst (snd ?run)) = Some Completed" by code_simp
  with run s show ?thesis by simp
qed

theorem compensated_without_compensation_witness:
  "\<exists>en'. run_workflow (\<lambda>_. 0) ''acme'' 7 ''annotate'' order_urn ''why'' (\<lambda>w :: nat. (Inl (HTTPError ''502''), w))
     (\<lambda>e w. (Inl (HTTPError ''503''), w)) (new_engine, 0) = (False, en', 0) \<and>
   execution_status_of 1 en' = Some Compensated"
  using compensated_without_compensation [of new_engine "\<lambda>w :: nat. (Inl (HTTPError ''502''), w)" 0 "''502''"
      "\<lambda>e w. (Inl (HTTPError ''503''), w)" "''503''" "Inl (HTTPError ''503'')" "\<lambda>_. 0" "''acme''" 7 "''annotate''" order_urn "''why''"]
  by (simp add: new_engine_def breaker_init_def engine_ids_ok_def)

end
