(* ===== verification/Holon_Saga.thy ===== *)
theory Holon_Saga
  imports Holon_Workflow
begin

text \<open>
  The write-back saga across two services: Knowledge approves and applies an action, Automation
  writes to the source system and, if that fails, calls Knowledge back. The world of the
  workflow is Knowledge's database beside the source system.
\<close>

text \<open>The callback \<open>POST /internal/approvals/{id}/compensate\<close>; a refusal is an HTTP error to the caller.\<close>

definition request_compensation :: "nat \<Rightarrow> string \<Rightarrow> (action_db \<times> 'x) call" where
  "request_compensation i err w =
     (case w of (db, x) \<Rightarrow>
        case compensate_from_workflow_engine i err db of
          Inl _ \<Rightarrow> (Inl (HTTPError ''compensation refused''), (db, x))
        | Inr db' \<Rightarrow> (Inr (), (db', x)))"

lemma approve_then_compensate:
  assumes "approve_action reg i p nt fn now db = Inr (n, db1)"
  obtains a ot iid e db2 where "find_approval i db = Some a" "instance_parts (ap_instance a) = Inr (ot, iid)"
    "iv_edits (last (db_invocations db1)) = Some e" "status_of i db1 = Some Approved"
    "compensate_from_workflow_engine i err db1 = Inr db2" "status_of i db2 = Some Failed"
    "\<forall>prp \<in> set (map fst e). db_overlay db2 (ap_tenant a, ot, iid, prp) = None"
  using assms
proof (rule approve_actionE, goal_cases)
  case (1 a def ot iid resolved res prior ov)
  let ?f = "\<lambda>x. x\<lparr>ap_status := Approved, ap_decided_by := Some (p_urn p), ap_decided_at := Some now, ap_note := nt\<rparr>"
  note fa = open_approvalD [OF 1(2), THEN conjunct1]
  have id: "ap_id a = i" using fa by (simp add: find_approval_def find_Some_iff) blast
  have "find_approval i db1 = map_option (\<lambda>x. if ap_id x = i then ?f x else x) (find_approval i db)"
    unfolding find_approval_def 1(7) by (simp, rule find_map_id) simp
  then have f1: "find_approval i db1 = Some (?f a)" by (simp add: fa id)
  have inv: "db_invocations db1 = db_invocations db @ [last (db_invocations db1)]"
    and v: "iv_tenant (last (db_invocations db1)) = ap_tenant a" "iv_action (last (db_invocations db1)) = ap_action a"
      "iv_instance (last (db_invocations db1)) = ap_instance a" "iv_edits (last (db_invocations db1)) = Some res"
    by (simp_all add: 1(7) emit_event_def record_invocation_def update_approval_def)
  have lat: "latest_invocation (ap_tenant (?f a)) (ap_action (?f a)) (ap_instance (?f a)) db1 = Some (last (db_invocations db1))"
    unfolding latest_invocation_def by (subst inv) (simp add: v)
  obtain db2 where c: "compensate_from_workflow_engine i err db1 = Inr db2"
    using f1 1(4) by (simp add: compensate_from_workflow_engine_def Let_def)
  have st: "status_of i db1 = Some Approved" by (simp add: status_of_def f1)
  have ip: "instance_parts (ap_instance (?f a)) = Inr (ot, iid)" using 1(4) by simp
  from compensation_effect [OF c f1 lat v(4) ip]
  have "status_of i db2 = Some Failed" "\<forall>prp \<in> set (map fst res). db_overlay db2 (ap_tenant a, ot, iid, prp) = None"
    by simp_all
  with 1(1) [OF fa 1(4) v(4) st c] show ?case by blast
qed

lemma closed_call:
  "state b = Closed \<Longrightarrow> f v = (q, v') \<Longrightarrow>
   \<exists>b'. breaker_call service_breaker_cfg None t t' f b v = (case q of Inl z \<Rightarrow> Inl (Upstream z) | Inr z \<Rightarrow> Inr z, b', v')"
  by (simp add: breaker_call_def breaker_admit_def)


definition approved_db :: action_db where
  "approved_db = (case approve_action note_action 1 ada None order_env 5 requested_db of Inr (n, d) \<Rightarrow> d | Inl _ \<Rightarrow> requested_db)"


end
