(* ===== verification/Holon_Cursor.thy ===== *)
theory Holon_Cursor
  imports Holon_Compare "HOL-Library.Char_ord" "HOL-Library.List_Lexorder"
begin

text \<open>
  Incremental cursors of the Connectivity service: the key of a cursor value, its order and its
  stored text, the tracker that drops the rows a sync has already stored (\<open>cursor_window.py\<close>), the
  file cursors (\<open>file_cursor.py\<close>) and the guarded write of a resume position
  (\<open>source_registry_base.py\<close>). The parsers and printers of the standard library are the
  fields of \<open>cursor_lib\<close>. The column tests of the registry (fixed table names) are left out.
\<close>

section \<open>Values and the library\<close>

text \<open>
  A \<open>datetime\<close> is its instant in microseconds, read as UTC when it is naive, and its offset if it is aware.
  A \<open>Decimal\<close> keeps its text; \<open>COther\<close> is any other object, known by its \<open>str\<close>.
\<close>

datatype py_time = PyTime (instant: int) (offset: "int option")

datatype cell =
    CNull
  | CBool bool
  | CInt int
  | CFloat real
  | CDecimal real string
  | CTime py_time
  | CText string
  | COther string

type_synonym row = "(string, cell) dict"

record cursor_lib =
  cl_fromisoformat :: "string \<Rightarrow> py_time option"
  cl_isoformat :: "py_time \<Rightarrow> string"
  cl_str_time :: "py_time \<Rightarrow> string"
  cl_str_float :: "real \<Rightarrow> string"
  cl_str_json :: "json \<Rightarrow> string"
  cl_dumps :: "json \<Rightarrow> string"
  cl_loads :: "string \<Rightarrow> json option"
  cl_dumps_row :: "row \<Rightarrow> string"
  cl_sha256 :: "string \<Rightarrow> string"

definition py_str :: "cursor_lib \<Rightarrow> cell \<Rightarrow> string" where
  "py_str lib v =
     (case v of
        CNull \<Rightarrow> ''None''
      | CBool b \<Rightarrow> if b then ''True'' else ''False''
      | CInt i \<Rightarrow> show_int i
      | CFloat r \<Rightarrow> cl_str_float lib r
      | CDecimal r s \<Rightarrow> s
      | CTime t \<Rightarrow> cl_str_time lib t
      | CText s \<Rightarrow> s
      | COther s \<Rightarrow> s)"

section \<open>Cursor keys\<close>

definition digits_at :: "nat list \<Rightarrow> string \<Rightarrow> bool" where
  "digits_at is s = list_all (\<lambda>i. i < length s \<and> is_digit (s ! i)) is"

definition iso_start :: "string \<Rightarrow> bool" where
  "iso_start s =
     (digits_at [0, 1, 2, 3, 5, 6, 8, 9] s \<and> s ! 4 = CHR ''-'' \<and> s ! 7 = CHR ''-'' \<and>
      (length s = 10 \<or> s ! 10 \<in> {CHR ''T'', CHR '' ''}))"

text \<open>The prefix \<open>.*[T ]\d{2}:\d{2}:\d{2}(?:\.\d+)?\<close> of the offset pattern.\<close>

definition ends_with_clock :: "string \<Rightarrow> bool" where
  "ends_with_clock s =
     (let t = drop (length s - 9) s in
      9 \<le> length s \<and> t ! 0 \<in> {CHR ''T'', CHR '' ''} \<and> digits_at [1, 2, 4, 5, 7, 8] t \<and> t ! 3 = CHR '':'' \<and> t ! 6 = CHR '':'' \<and>
      newline \<notin> set (take (length s - 9) s))"

definition clock_prefix :: "string \<Rightarrow> bool" where
  "clock_prefix s =
     (ends_with_clock s \<or>
      (let r = rev s; frac = takeWhile is_digit r; rest = dropWhile is_digit r in
       frac \<noteq> [] \<and> rest \<noteq> [] \<and> hd rest = CHR ''.'' \<and> ends_with_clock (rev (tl rest))))"

definition colon_offset :: "string \<Rightarrow> string" where
  "colon_offset s =
     (let p = take (length s - 5) s; z = drop (length s - 5) s in
      if 5 \<le> length s \<and> z ! 0 \<in> {CHR ''+'', CHR ''-''} \<and> digits_at [1, 2, 3, 4] z \<and> clock_prefix p
      then p @ take 3 z @ '':'' @ drop 3 z else s)"

definition zulu :: "string \<Rightarrow> string" where
  "zulu s = (if endswith s ''Z'' then take (length s - 1) s @ ''+00:00'' else s)"

definition to_utc :: "py_time \<Rightarrow> py_time" where
  "to_utc t = PyTime (instant t) (Some 0)"

definition time_key :: "cursor_lib \<Rightarrow> string \<Rightarrow> py_time option" where
  "time_key lib text =
     (let raw = py_strip text in
      if \<not> iso_start raw then None
      else let iso = colon_offset (zulu raw);
               iso' = (if 10 < length iso \<and> iso ! 10 = CHR '' '' then take 10 iso @ ''T'' @ drop 11 iso else iso)
           in map_option to_utc (cl_fromisoformat lib iso'))"

definition text_key :: "cursor_lib \<Rightarrow> string \<Rightarrow> (py_exc, cell) result" where
  "text_key lib s =
     (let text = py_strip s in
      if py_isdigit text \<or> (startswith text ''-'' \<and> 1 < length text \<and> py_isdigit (drop 1 text))
      then (case py_int text of Some i \<Rightarrow> Inr (CInt i) | None \<Rightarrow> Inl ValueError)
      else (case time_key lib text of Some t \<Rightarrow> Inr (CTime t) | None \<Rightarrow> Inr (CText text)))"

definition cursor_key :: "cursor_lib \<Rightarrow> cell \<Rightarrow> (py_exc, cell) result" where
  "cursor_key lib v =
     (case v of
        CBool _ \<Rightarrow> Inr (CText (py_str lib v))
      | CInt _ \<Rightarrow> Inr v
      | CDecimal _ _ \<Rightarrow> Inr v
      | CFloat _ \<Rightarrow> Inr v
      | CTime t \<Rightarrow> Inr (CTime (to_utc t))
      | _ \<Rightarrow> text_key lib (py_str lib v))"

definition store_cursor :: "cursor_lib \<Rightarrow> cell \<Rightarrow> string" where
  "store_cursor lib raw = (case raw of CTime t \<Rightarrow> cl_isoformat lib t | _ \<Rightarrow> py_strip (py_str lib raw))"

text \<open>\<open>(l > r) - (l < r)\<close> of two keys, as text if their types differ.\<close>

definition three_way :: "bool \<Rightarrow> bool \<Rightarrow> int" where
  "three_way lt gt = of_bool gt - of_bool lt"

fun cmp_keys :: "cursor_lib \<Rightarrow> cell \<Rightarrow> cell \<Rightarrow> int" where
  "cmp_keys lib (CInt i) (CInt j) = three_way (i < j) (j < i)"
| "cmp_keys lib (CFloat i) (CFloat j) = three_way (i < j) (j < i)"
| "cmp_keys lib (CDecimal i s) (CDecimal j t) = three_way (i < j) (j < i)"
| "cmp_keys lib (CTime i) (CTime j) = three_way (instant i < instant j) (instant j < instant i)"
| "cmp_keys lib l r = three_way (str_less (py_str lib l) (py_str lib r)) (str_less (py_str lib r) (py_str lib l))"

definition py_cmp :: "cursor_lib \<Rightarrow> cell \<Rightarrow> cell \<Rightarrow> (py_exc, int) result" where
  "py_cmp lib l r = rbind (cursor_key lib l) (\<lambda>lk. rbind (cursor_key lib r) (\<lambda>rk. Inr (cmp_keys lib lk rk)))"

section \<open>File cursors\<close>

definition encode_file_cursor :: "cursor_lib \<Rightarrow> int \<Rightarrow> string \<Rightarrow> string" where
  "encode_file_cursor lib mtime_ns key = cl_dumps lib (JObj [(''v'', JInt 2), (''mtime_ns'', JInt mtime_ns), (''key'', JStr key)])"

text \<open>\<open>int(x)\<close> on a decoded value; \<open>None\<close> is a raise the caller swallows.\<close>

definition int_of_json :: "json \<Rightarrow> int option" where
  "int_of_json j =
     (case j of JInt i \<Rightarrow> Some i | JBool b \<Rightarrow> Some (of_bool b) | JStr s \<Rightarrow> py_int s
      | JFloat r \<Rightarrow> Some (if 0 \<le> r then \<lfloor>r\<rfloor> else \<lceil>r\<rceil>) | _ \<Rightarrow> None)"

definition decode_file_cursor :: "cursor_lib \<Rightarrow> string option \<Rightarrow> (int \<times> string) option" where
  "decode_file_cursor lib cursor =
     (case cursor of
        None \<Rightarrow> None
      | Some c \<Rightarrow>
          if \<not> startswith c ''{'' then None
          else (case cl_loads lib c of
                  Some (JObj data) \<Rightarrow>
                    if \<not> py_eq (JInt 2) (obj_get data ''v'') then None
                    else (case (dict_get data ''mtime_ns'', dict_get data ''key'') of
                            (Some m, Some k) \<Rightarrow>
                              map_option (\<lambda>i. (i, case k of JStr s \<Rightarrow> s | _ \<Rightarrow> cl_str_json lib k)) (int_of_json m)
                          | _ \<Rightarrow> None)
                | _ \<Rightarrow> None))"

definition pair_less :: "int \<times> string \<Rightarrow> int \<times> string \<Rightarrow> bool" where
  "pair_less p q = (fst p < fst q \<or> (fst p = fst q \<and> str_less (snd p) (snd q)))"

text \<open>The files of a listing that are read, and the cursor to store once they are.\<close>

definition legacy_mtime :: "(int \<times> string) list \<Rightarrow> string \<Rightarrow> int option" where
  "legacy_mtime entries legacy = map_option fst (find (\<lambda>e. snd e = legacy) entries)"

definition include_file :: "cursor_lib \<Rightarrow> (int \<times> string) list \<Rightarrow> string option \<Rightarrow> int \<times> string \<Rightarrow> bool" where
  "include_file lib entries cursor e =
     (case cursor of
        None \<Rightarrow> True
      | Some c \<Rightarrow>
          c = [] \<or>
          (case decode_file_cursor lib cursor of
             Some parsed \<Rightarrow> pair_less parsed e
           | None \<Rightarrow> str_less c (snd e) \<or> (case legacy_mtime entries c of Some m \<Rightarrow> m < fst e | None \<Rightarrow> False)))"

fun insert_pair :: "int \<times> string \<Rightarrow> (int \<times> string) list \<Rightarrow> (int \<times> string) list" where
  "insert_pair e [] = [e]"
| "insert_pair e (f # fs) = (if pair_less f e then f # insert_pair e fs else e # f # fs)"

definition sort_pairs :: "(int \<times> string) list \<Rightarrow> (int \<times> string) list" where
  "sort_pairs es = foldr insert_pair es []"

definition select_files :: "cursor_lib \<Rightarrow> (int \<times> string) list \<Rightarrow> string option \<Rightarrow> string list \<times> string option" where
  "select_files lib entries cursor =
     (let chosen = sort_pairs (filter (include_file lib entries cursor) entries)
      in if chosen = [] then ([], cursor)
         else (map snd chosen, Some (encode_file_cursor lib (fst (last chosen)) (snd (last chosen)))))"

section \<open>Resume positions\<close>

definition resume_is_newer :: "cursor_lib \<Rightarrow> string \<Rightarrow> string option \<Rightarrow> (py_exc, bool) result" where
  "resume_is_newer lib candidate stored =
     (case stored of
        None \<Rightarrow> Inr True
      | Some st \<Rightarrow>
          if st = [] then Inr True
          else if candidate = st then Inr False
          else (case (decode_file_cursor lib (Some candidate), decode_file_cursor lib (Some st)) of
                  (Some newer, Some older) \<Rightarrow> Inr (pair_less older newer)
                | _ \<Rightarrow> rbind (py_cmp lib (CText candidate) (CText st)) (\<lambda>c. Inr (0 < c))))"

definition row_identity :: "cursor_lib \<Rightarrow> row \<Rightarrow> string" where
  "row_identity lib r = cl_sha256 lib (cl_dumps_row lib r)"

definition max_boundary_keys :: nat where
  "max_boundary_keys = 4096"

definition parse_boundary_keys :: "cursor_lib \<Rightarrow> string option \<Rightarrow> string set" where
  "parse_boundary_keys lib raw =
     (case raw of
        None \<Rightarrow> {}
      | Some s \<Rightarrow>
          if s = [] then {}
          else (case cl_loads lib s of
                  Some (JList xs) \<Rightarrow> set (map (\<lambda>x. case x of JStr t \<Rightarrow> t | _ \<Rightarrow> cl_str_json lib x) xs)
                | _ \<Rightarrow> {}))"

definition dump_boundary_keys :: "cursor_lib \<Rightarrow> string set \<Rightarrow> string" where
  "dump_boundary_keys lib keys = cl_dumps lib (JList (map JStr (sorted_list_of_set keys)))"

definition cap_boundary :: "string set \<Rightarrow> string set" where
  "cap_boundary keys = (if card keys \<le> max_boundary_keys then keys else set (take max_boundary_keys (sorted_list_of_set keys)))"

section \<open>The tracker\<close>

record tracker =
  tr_property :: string
  tr_last_cursor :: "string option"
  tr_seen :: "string set"
  tr_last_key :: "cell option"
  tr_newest :: "cell option"
  tr_newest_raw :: cell
  tr_boundary_ids :: "string set"

definition new_tracker :: "cursor_lib \<Rightarrow> string \<Rightarrow> string option \<Rightarrow> string option \<Rightarrow> (py_exc, tracker) result" where
  "new_tracker lib prp last_cursor boundary =
     rbind (case last_cursor of None \<Rightarrow> Inr None | Some c \<Rightarrow> rbind (cursor_key lib (CText c)) (\<lambda>k. Inr (Some k))) (\<lambda>k.
       Inr \<lparr>tr_property = prp, tr_last_cursor = last_cursor, tr_seen = parse_boundary_keys lib boundary, tr_last_key = k,
         tr_newest = None, tr_newest_raw = CNull, tr_boundary_ids = {}\<rparr>)"

definition cell_of :: "row \<Rightarrow> string \<Rightarrow> cell" where
  "cell_of r prp = (case dict_get r prp of Some v \<Rightarrow> v | None \<Rightarrow> CNull)"

text \<open>Whether a row that carries a cursor is already stored.\<close>

definition already_stored :: "cursor_lib \<Rightarrow> tracker \<Rightarrow> cell \<Rightarrow> string \<Rightarrow> (py_exc, bool) result" where
  "already_stored lib tr key ident =
     (case tr_last_key tr of
        None \<Rightarrow> Inr False
      | Some last_key \<Rightarrow> rbind (py_cmp lib key last_key) (\<lambda>order. Inr (order < 0 \<or> (order = 0 \<and> ident \<in> tr_seen tr))))"

definition note_newest :: "cursor_lib \<Rightarrow> cell \<Rightarrow> cell \<Rightarrow> string \<Rightarrow> tracker \<Rightarrow> (py_exc, tracker) result" where
  "note_newest lib key raw ident tr =
     (let fresh = tr\<lparr>tr_newest := Some key, tr_newest_raw := raw, tr_boundary_ids := {ident}\<rparr> in
      case tr_newest tr of
        None \<Rightarrow> Inr fresh
      | Some newest \<Rightarrow>
          rbind (py_cmp lib key newest) (\<lambda>order.
            if 0 < order then Inr fresh
            else if order = 0 then Inr (tr\<lparr>tr_boundary_ids := insert ident (tr_boundary_ids tr)\<rparr>) else Inr tr))"

definition keep_one :: "cursor_lib \<Rightarrow> row \<Rightarrow> tracker \<Rightarrow> (py_exc, bool \<times> tracker) result" where
  "keep_one lib r tr =
     (let raw = cell_of r (tr_property tr) in
      if raw = CNull then Inr (tr_last_key tr = None, tr)
      else rbind (cursor_key lib raw) (\<lambda>key.
           let ident = row_identity lib r in
           rbind (already_stored lib tr key ident) (\<lambda>old.
             if old then Inr (False, tr)
             else rbind (note_newest lib key raw ident tr) (\<lambda>tr'. Inr (True, tr')))))"

fun keep :: "cursor_lib \<Rightarrow> row list \<Rightarrow> tracker \<Rightarrow> (py_exc, row list \<times> tracker) result" where
  "keep lib [] tr = Inr ([], tr)"
| "keep lib (r # rs) tr =
     rbind (keep_one lib r tr) (\<lambda>(b, tr1).
     rbind (keep lib rs tr1) (\<lambda>(kept, tr2). Inr ((if b then r # kept else kept), tr2)))"

record cursor_advance =
  ca_rows :: "row list"
  ca_cursor :: "string option"
  ca_boundary :: string
  ca_changed :: bool

definition tracker_result :: "cursor_lib \<Rightarrow> tracker \<Rightarrow> (py_exc, cursor_advance) result" where
  "tracker_result lib tr =
     (case tr_newest tr of
        None \<Rightarrow> Inr \<lparr>ca_rows = [], ca_cursor = tr_last_cursor tr,
          ca_boundary = dump_boundary_keys lib (cap_boundary (tr_seen tr)), ca_changed = False\<rparr>
      | Some newest \<Rightarrow>
          rbind (case tr_last_key tr of None \<Rightarrow> Inr False | Some k \<Rightarrow> rbind (py_cmp lib newest k) (\<lambda>c. Inr (c = 0))) (\<lambda>same.
            let new_cursor = (if same then tr_last_cursor tr else Some (store_cursor lib (tr_newest_raw tr)));
                merged = cap_boundary (if same then tr_seen tr \<union> tr_boundary_ids tr else tr_boundary_ids tr);
                encoded = dump_boundary_keys lib merged
            in Inr \<lparr>ca_rows = [], ca_cursor = new_cursor, ca_boundary = encoded,
                 ca_changed = (new_cursor \<noteq> tr_last_cursor tr \<or> encoded \<noteq> dump_boundary_keys lib (tr_seen tr))\<rparr>))"

definition advance_cursor :: "cursor_lib \<Rightarrow> row list \<Rightarrow> string \<Rightarrow> string option \<Rightarrow> string option \<Rightarrow> (py_exc, cursor_advance) result" where
  "advance_cursor lib records prp last_cursor boundary =
     rbind (new_tracker lib prp last_cursor boundary) (\<lambda>tr.
     rbind (keep lib records tr) (\<lambda>(kept, tr').
     rbind (tracker_result lib tr') (\<lambda>adv. Inr (adv\<lparr>ca_rows := kept\<rparr>))))"

section \<open>Storing a resume position\<close>

text \<open>The two resume columns of a source, both nullable.\<close>

record resume_row =
  last_cursor_value :: "string option"
  cursor_boundary_keys :: "string option"

definition property_cursor_commit :: "cursor_lib \<Rightarrow> string \<Rightarrow> string \<Rightarrow> resume_row option \<Rightarrow> (py_exc, resume_row option) result" where
  "property_cursor_commit lib cursor boundary current =
     (case current of
        None \<Rightarrow> Inr None
      | Some row \<Rightarrow>
          (case last_cursor_value row of
             None \<Rightarrow> Inr (Some \<lparr>last_cursor_value = Some cursor, cursor_boundary_keys = Some boundary\<rparr>)
           | Some st \<Rightarrow>
               rbind (if st = cursor then Inr True else rbind (py_cmp lib (CText cursor) (CText st)) (\<lambda>c. Inr (c = 0))) (\<lambda>same.
               rbind (resume_is_newer lib cursor (Some st)) (\<lambda>newer.
                 if \<not> newer \<and> \<not> same then Inr current
                 else Inr (Some \<lparr>last_cursor_value = Some cursor, cursor_boundary_keys = Some
                   (if same then dump_boundary_keys lib (parse_boundary_keys lib (cursor_boundary_keys row) \<union> parse_boundary_keys lib (Some boundary))
                    else boundary)\<rparr>)))))"

definition column_cursor_commit :: "cursor_lib \<Rightarrow> string \<Rightarrow> string option \<Rightarrow> (py_exc, string option) result" where
  "column_cursor_commit lib cursor stored =
     (case stored of
        None \<Rightarrow> Inr (Some cursor)
      | Some st \<Rightarrow>
          if st = cursor then Inr (Some cursor)
          else rbind (resume_is_newer lib cursor stored) (\<lambda>newer. Inr (if newer then Some cursor else stored)))"

section \<open>Cursor columns\<close>

text \<open>
  What the tracker needs of the cursor column of a source: the rows of the column have keys of one
  totally ordered type, the comparison is that order, and the stored text of a cursor has the key it
  was stored for and is not the text of a file cursor.
\<close>

locale sorted_column =
  fixes lib :: cursor_lib and prp :: string and enc :: "'k::linorder \<Rightarrow> cell" and key_of :: "row \<Rightarrow> 'k" and col :: "row set"
  assumes key: "r \<in> col \<Longrightarrow> cursor_key lib (cell_of r prp) = Inr (enc (key_of r))"
    and present: "r \<in> col \<Longrightarrow> cell_of r prp \<noteq> CNull"
    and stored: "r \<in> col \<Longrightarrow> cursor_key lib (CText (store_cursor lib (cell_of r prp))) = Inr (enc (key_of r))"
    and stored_text: "r \<in> col \<Longrightarrow> store_cursor lib (cell_of r prp) \<noteq> []"
      "r \<in> col \<Longrightarrow> decode_file_cursor lib (Some (store_cursor lib (cell_of r prp))) = None"
    and cmp_enc: "r \<in> col \<Longrightarrow> s \<in> col \<Longrightarrow> cmp_keys lib (enc (key_of r)) (enc (key_of s)) = three_way (key_of r < key_of s) (key_of s < key_of r)"
    and enc_key: "r \<in> col \<Longrightarrow> cursor_key lib (enc (key_of r)) = Inr (enc (key_of r))"
begin

lemma three_way_simps [simp]:
  "three_way (a < b) (b < (a :: 'k)) < 0 \<longleftrightarrow> a < b" "0 < three_way (a < b) (b < a) \<longleftrightarrow> b < a" "three_way (a < b) (b < a) = 0 \<longleftrightarrow> a = b"
  by (auto simp: three_way_def)

lemma py_cmp_enc:
  "r \<in> col \<Longrightarrow> s \<in> col \<Longrightarrow> py_cmp lib (enc (key_of r)) (enc (key_of s)) = Inr (three_way (key_of r < key_of s) (key_of s < key_of r))"
  by (simp add: py_cmp_def enc_key cmp_enc)

text \<open>The rows of a list that carry its greatest cursor, and their identities.\<close>

definition top_key :: "row list \<Rightarrow> 'k" where
  "top_key xs = Max (key_of ` set xs)"

definition top_ids :: "row list \<Rightarrow> string set" where
  "top_ids xs = row_identity lib ` {r \<in> set xs. key_of r = top_key xs}"

lemma top_key_in: "xs \<noteq> [] \<Longrightarrow> \<exists>r \<in> set xs. key_of r = top_key xs"
  unfolding top_key_def using Max_in [of "key_of ` set xs"] by fastforce

lemma top_key_ge: "r \<in> set xs \<Longrightarrow> key_of r \<le> top_key xs"
  by (simp add: top_key_def)

lemma top_key_snoc:
  "top_key (xs @ [r]) = (if xs = [] then key_of r else max (top_key xs) (key_of r))"
  by (auto simp: top_key_def max.commute)

lemma top_ids_snoc:
  "top_ids (xs @ [r]) =
     (if xs = [] \<or> top_key xs < key_of r then {row_identity lib r}
      else if key_of r = top_key xs then insert (row_identity lib r) (top_ids xs) else top_ids xs)"
proof -
  consider "xs = []" | "xs \<noteq> []" "top_key xs < key_of r" | "xs \<noteq> []" "key_of r = top_key xs" | "xs \<noteq> []" "key_of r < top_key xs"
    by (metis linorder_cases)
  then show ?thesis
  proof cases
    case 2
    then have "{x \<in> set (xs @ [r]). key_of x = key_of r} = {r}" using top_key_ge [of _ xs] by force
    with 2 show ?thesis by (simp add: top_ids_def top_key_snoc max_absorb2)
  next
    case 3
    then have "{x \<in> set (xs @ [r]). key_of x = top_key xs} = insert r {x \<in> set xs. key_of x = top_key xs}" by auto
    with 3 show ?thesis by (simp add: top_ids_def top_key_snoc)
  next
    case 4
    then have "{x \<in> set (xs @ [r]). key_of x = top_key xs} = {x \<in> set xs. key_of x = top_key xs}" by auto
    with 4 show ?thesis by (simp add: top_ids_def top_key_snoc max_absorb1 less_imp_le order_less_not_sym)
  qed (auto simp: top_ids_def top_key_snoc [of "[]", simplified])
qed

text \<open>A tracker that resumed at the greatest cursor of \<open>old\<close> and has kept the rows \<open>xs\<close> so far.\<close>

definition tracks :: "row list \<Rightarrow> row list \<Rightarrow> tracker \<Rightarrow> bool" where
  "tracks old xs tr \<longleftrightarrow>
     tr_property tr = prp \<and>
     tr_last_key tr = (if old = [] then None else Some (enc (top_key old))) \<and>
     (old \<noteq> [] \<longrightarrow> tr_seen tr = top_ids old) \<and>
     (if xs = [] then tr_newest tr = None
      else tr_newest tr = Some (enc (top_key xs)) \<and> tr_boundary_ids tr = top_ids xs \<and>
        (\<exists>r \<in> set xs. key_of r = top_key xs \<and> tr_newest_raw tr = cell_of r prp))"

definition new_row :: "row list \<Rightarrow> row \<Rightarrow> bool" where
  "new_row old r = (old = [] \<or> top_key old < key_of r \<or> (key_of r = top_key old \<and> row_identity lib r \<notin> top_ids old))"

lemma already_stored_enc:
  assumes "tracks old xs tr" "set old \<subseteq> col" "r \<in> col"
  shows "already_stored lib tr (enc (key_of r)) (row_identity lib r) = Inr (\<not> new_row old r)"
proof (cases "old = []")
  case True
  with assms show ?thesis by (simp add: already_stored_def tracks_def new_row_def)
next
  case False
  then obtain s where s: "s \<in> set old" "key_of s = top_key old" using top_key_in by blast
  with assms py_cmp_enc [of r s] have "py_cmp lib (enc (key_of r)) (enc (top_key old)) =
      Inr (three_way (key_of r < top_key old) (top_key old < key_of r))" by auto
  with False assms(1) show ?thesis
    by (simp add: already_stored_def tracks_def new_row_def) (metis less_linear less_asym)
qed

lemma note_newest_enc:
  assumes "tracks old xs tr" "set xs \<subseteq> col" "r \<in> col"
  shows "\<exists>tr'. note_newest lib (enc (key_of r)) (cell_of r prp) (row_identity lib r) tr = Inr tr' \<and> tracks old (xs @ [r]) tr'"
proof (cases "xs = []")
  case True
  with assms show ?thesis
    by (simp add: note_newest_def tracks_def top_ids_snoc top_key_snoc [of "[]", simplified] top_ids_snoc [of "[]", simplified])
next
  case False
  then obtain s where s: "s \<in> set xs" "key_of s = top_key xs" using top_key_in by blast
  with assms py_cmp_enc [of r s] have "py_cmp lib (enc (key_of r)) (enc (top_key xs)) =
      Inr (three_way (key_of r < top_key xs) (top_key xs < key_of r))" by auto
  note c = this
  consider "top_key xs < key_of r" | "key_of r = top_key xs" | "key_of r < top_key xs" by (metis linorder_cases)
  then show ?thesis
  proof cases
    case 1
    then have "three_way (key_of r < top_key xs) (top_key xs < key_of r) = 1" by (auto simp: three_way_def)
    with 1 False assms(1) c show ?thesis by (simp add: note_newest_def tracks_def top_ids_snoc top_key_snoc max_absorb2 less_imp_le)
  next
    case 2
    with False assms(1) c show ?thesis by (simp add: note_newest_def tracks_def top_ids_snoc top_key_snoc three_way_def)
  next
    case 3
    then have "\<not> top_key xs < key_of r" "key_of r \<noteq> top_key xs" "three_way (key_of r < top_key xs) (top_key xs < key_of r) = -1"
      by (auto simp: three_way_def)
    with 3 False assms(1) c show ?thesis
      by (simp add: note_newest_def tracks_def top_ids_snoc top_key_snoc max_absorb1 less_imp_le)
  qed
qed

lemma keep_tracks:
  assumes "tracks old xs tr" "set old \<subseteq> col" "set xs \<subseteq> col" "set rs \<subseteq> col"
  shows "\<exists>tr'. keep lib rs tr = Inr (filter (new_row old) rs, tr') \<and> tracks old (xs @ filter (new_row old) rs) tr'"
  using assms
proof (induction rs arbitrary: xs tr)
  case Nil
  then show ?case by simp
next
  case (Cons r rs)
  then have r: "r \<in> col" and p: "tr_property tr = prp" by (simp_all add: tracks_def)
  show ?case
  proof (cases "new_row old r")
    case True
    obtain tr1 where tr1: "note_newest lib (enc (key_of r)) (cell_of r prp) (row_identity lib r) tr = Inr tr1" "tracks old (xs @ [r]) tr1"
      using note_newest_enc [OF Cons.prems(1,3) r] by blast
    from Cons.IH [OF tr1(2)] Cons.prems r tr1(1) True already_stored_enc [OF Cons.prems(1,2) r]
    show ?thesis by (auto simp: keep_one_def p present key Let_def)
  next
    case False
    with Cons.IH [OF Cons.prems(1)] Cons.prems r already_stored_enc [OF Cons.prems(1,2) r]
    show ?thesis by (auto simp: keep_one_def p present key Let_def)
  qed
qed

end

section \<open>Integer, text and timestamp columns\<close>

lemma show_nat_chars: "c \<in> set (show_nat n) \<Longrightarrow> is_digit c"
  using show_nat_digits [of n] by (simp add: list_all_iff)

lemma digit_not [simp]: "\<not> is_digit (CHR ''-'')" "\<not> is_digit (CHR ''+'')" "\<not> is_digit (CHR ''_'')" "\<not> is_digit (CHR ''{'')"
  "is_digit c \<Longrightarrow> \<not> is_space c"
  by (auto simp: is_digit_def is_space_def codept_def)

lemma py_strip_show_nat [simp]: "py_strip (show_nat n) = show_nat n"
  using show_nat_chars [of _ n] by (intro py_strip_id) (auto intro!: digit_not(5) list.set_sel(1) last_in_set)

lemma py_strip_show_int [simp]: "py_strip (show_int i) = show_int i"
proof (cases "i < 0")
  case True
  have "\<not> is_space (last (CHR ''-'' # show_nat (nat (- i))))"
    using show_nat_chars [OF last_in_set, of "nat (- i)"] by simp
  with True show ?thesis unfolding show_int_def by (subst py_strip_id) (auto simp: is_space_def codept_def)
qed (simp add: show_int_def)

lemma not_startswith_digits: "\<not> is_digit c \<Longrightarrow> \<not> startswith (show_nat n) (c # s)"
  by (metis list.set_intros(1) append_Cons show_nat_chars startswith_iff)

lemma py_int_show_int [simp]: "py_int (show_int i) = Some i"
proof -
  have s: "split_on (CHR ''_'') (show_nat n) = [show_nat n]" for n
    using show_nat_chars [of "CHR ''_''" n] by (intro split_on_notin) auto
  show ?thesis
  proof (cases "i < 0")
    case True
    then have "show_int i = CHR ''-'' # show_nat (nat (- i))" by (simp add: show_int_def)
    with True show ?thesis
      using py_strip_show_int [of i] by (simp add: py_int_def s show_nat_digits Let_def)
  next
    case False
    then have "show_int i = show_nat (nat i)" by (simp add: show_int_def)
    with False show ?thesis by (simp add: py_int_def s show_nat_digits not_startswith_digits Let_def)
  qed
qed

lemma py_isdigit_show_nat [simp]: "py_isdigit (show_nat n)"
  using show_nat_digits [of n] by (auto simp: py_isdigit_def isdigit_char_def list_all_iff)

lemma text_key_show_int [simp]: "text_key lib (show_int i) = Inr (CInt i)"
proof -
  have "py_isdigit (show_int i) \<or> (startswith (show_int i) ''-'' \<and> 1 < length (show_int i) \<and> py_isdigit (drop 1 (show_int i)))"
    by (simp add: show_int_def Suc_lessI)
  then show ?thesis by (simp add: text_key_def)
qed

lemma show_int_file: "decode_file_cursor lib (Some (show_int i)) = None"
  by (simp add: decode_file_cursor_def show_int_def not_startswith_digits)

definition int_rows :: "string \<Rightarrow> row set" where
  "int_rows prp = {r. \<exists>i. cell_of r prp = CInt i}"

definition int_of_cell :: "cell \<Rightarrow> int" where
  "int_of_cell v = (case v of CInt i \<Rightarrow> i | CTime t \<Rightarrow> instant t | _ \<Rightarrow> 0)"

interpretation int_column: sorted_column lib prp CInt "\<lambda>r. int_of_cell (cell_of r prp)" "int_rows prp" for lib prp
  by unfold_locales
     (auto simp: int_rows_def int_of_cell_def cursor_key_def store_cursor_def py_str_def show_int_file, simp add: show_int_def split: if_splits)

text \<open>Text that is neither a number nor a date.\<close>

definition plain_text :: "cursor_lib \<Rightarrow> string \<Rightarrow> bool" where
  "plain_text lib t = (t \<noteq> [] \<and> text_key lib t = Inr (CText t) \<and> decode_file_cursor lib (Some t) = None)"

definition text_rows :: "cursor_lib \<Rightarrow> string \<Rightarrow> row set" where
  "text_rows lib prp = {r. \<exists>s. cell_of r prp = CText s \<and> plain_text lib (py_strip s)}"

definition text_of_cell :: "cell \<Rightarrow> string" where
  "text_of_cell v = (case v of CText s \<Rightarrow> py_strip s | _ \<Rightarrow> [])"

lemma str_less_lexord: "str_less s t \<longleftrightarrow> s < t"
proof (induction s t rule: str_less.induct)
  case (3 c s d t)
  have "codept c < codept d \<longleftrightarrow> c < d" by (simp add: codept_def less_char_def)
  with 3 show ?case by auto
qed simp_all

lemma text_key_strip [simp]: "text_key lib (py_strip s) = text_key lib s"
  by (simp add: text_key_def)

interpretation text_column: sorted_column lib prp CText "\<lambda>r. text_of_cell (cell_of r prp)" "text_rows lib prp" for lib prp
  by unfold_locales
     (auto simp: text_rows_def text_of_cell_def cursor_key_def store_cursor_def py_str_def plain_text_def str_less_lexord)

text \<open>
  A timestamp whose ISO form has the documented shape and is read back by \<open>fromisoformat\<close>.
\<close>

definition iso_stable :: "cursor_lib \<Rightarrow> py_time \<Rightarrow> bool" where
  "iso_stable lib t =
     (let s = cl_isoformat lib t in
      py_strip s = s \<and> iso_start s \<and> (10 < length s \<longrightarrow> s ! 10 = CHR ''T'') \<and> \<not> endswith s ''Z'' \<and> colon_offset s = s \<and>
      cl_fromisoformat lib s = Some t)"

definition time_rows :: "cursor_lib \<Rightarrow> string \<Rightarrow> row set" where
  "time_rows lib prp = {r. \<exists>t. cell_of r prp = CTime t \<and> iso_stable lib t}"

lemma iso_stable_key:
  assumes "iso_stable lib t"
  shows "text_key lib (cl_isoformat lib t) = Inr (CTime (to_utc t))" "cl_isoformat lib t \<noteq> []"
    "decode_file_cursor lib (Some (cl_isoformat lib t)) = None"
proof -
  let ?s = "cl_isoformat lib t"
  from assms have s: "py_strip ?s = ?s" "iso_start ?s" "10 < length ?s \<Longrightarrow> ?s ! 10 = CHR ''T''" "\<not> endswith ?s ''Z''"
    "colon_offset ?s = ?s" "cl_fromisoformat lib ?s = Some t"
    by (simp_all add: iso_stable_def Let_def)
  have at: "4 < length ?s" "?s ! 4 = CHR ''-''" "0 < length ?s" "is_digit (?s ! 0)"
    using s(2) by (auto simp: iso_start_def digits_at_def)
  then show ne: "?s \<noteq> []" by auto
  then obtain c r where c: "?s = c # r" by (cases ?s) auto
  with at(4) have hd: "is_digit c" by simp
  have "CHR ''-'' \<in> set ?s" using at(1,2) by (metis nth_mem)
  then have "\<not> py_isdigit ?s" by (force simp: py_isdigit_def list_all_iff isdigit_char_def codept_def)
  moreover have "\<not> startswith ?s ''-''" "\<not> startswith ?s ''{''" using c hd by auto
  moreover have "time_key lib ?s = Some (to_utc t)"
    using s(1,2,4-6) s(3) by (cases "10 < length ?s") (simp_all add: time_key_def zulu_def Let_def)
  ultimately show "text_key lib ?s = Inr (CTime (to_utc t))" "decode_file_cursor lib (Some ?s) = None"
    by (simp_all add: text_key_def s(1) decode_file_cursor_def)
qed

interpretation time_column: sorted_column lib prp "\<lambda>i. CTime (PyTime i (Some 0))" "\<lambda>r. int_of_cell (cell_of r prp)" "time_rows lib prp"
  for lib prp
  by unfold_locales
     (auto simp: time_rows_def int_of_cell_def cursor_key_def store_cursor_def py_str_def iso_stable_key, simp_all add: to_utc_def)

end
