(* ===== verification/Holon_Ingest.thy ===== *)
theory Holon_Ingest
  imports Holon_Cursor
begin

text \<open>
  An incremental sync of the Connectivity service (\<open>ingest_sync.py\<close>, \<open>iceberg_writer.py\<close>, the batches of
  \<open>sql_source_fetch.py\<close>): the resume position of the source row, the position stamped on the current
  Iceberg snapshot, the staged batches and the commit with its retries. The catalog, the source
  and the database are inputs: what each commit attempt did, which rows the source returned, and
  whether the final write of the cursor succeeded. The full-refresh mode, sources without a cursor
  and the schema of the table are not modelled.
\<close>

section \<open>The state of one dataset\<close>

record ingest =
  in_source :: "resume_row option"
  in_table :: "row list option"
  in_stamp :: "string option \<times> string option"
  in_runs :: "bool list"

definition table_rows :: "ingest \<Rightarrow> row list" where
  "table_rows st = (case in_table st of Some rs \<Rightarrow> rs | None \<Rightarrow> [])"

definition new_ingest :: ingest where
  "new_ingest = \<lparr>in_source = Some \<lparr>last_cursor_value = None, cursor_boundary_keys = None\<rparr>, in_table = None, in_stamp = (None, None), in_runs = []\<rparr>"

definition or_empty_text :: "string option \<Rightarrow> string" where
  "or_empty_text s = (case s of Some t \<Rightarrow> t | None \<Rightarrow> [])"

section \<open>Operations\<close>

definition adopt_committed_resume :: "cursor_lib \<Rightarrow> ingest \<Rightarrow> (py_exc, ingest) result" where
  "adopt_committed_resume lib st =
     (case in_stamp st of
        (cursor, boundary) \<Rightarrow>
          if or_empty_text cursor = [] then Inr st
          else (case in_source st of
                  None \<Rightarrow> Inr st
                | Some rr \<Rightarrow>
                    let c = or_empty_text cursor;
                        commit = rbind (property_cursor_commit lib c
                            (if or_empty_text boundary = [] then ''[]'' else or_empty_text boundary) (in_source st))
                          (\<lambda>src. Inr (st\<lparr>in_source := src\<rparr>))
                    in if last_cursor_value rr = cursor \<and> or_empty_text (cursor_boundary_keys rr) = or_empty_text boundary then Inr st
                       else (case last_cursor_value rr of
                               None \<Rightarrow> commit
                             | Some stored \<Rightarrow>
                                 if stored = c then commit
                                 else rbind (resume_is_newer lib c (Some stored)) (\<lambda>newer. if newer then commit else Inr st))))"

text \<open>
  The batches the source streams: the tracker keeps the new rows of each, empty batches are not
  passed on; then they are regrouped into batches of \<open>sz\<close>, which must be positive.
\<close>

fun fetch_batches :: "cursor_lib \<Rightarrow> row list list \<Rightarrow> tracker \<Rightarrow> (py_exc, row list list \<times> tracker) result" where
  "fetch_batches lib [] tr = Inr ([], tr)"
| "fetch_batches lib (b # bs) tr =
     rbind (keep lib b tr) (\<lambda>(kept, tr1).
     rbind (fetch_batches lib bs tr1) (\<lambda>(rest, tr2). Inr ((if kept = [] then rest else kept # rest), tr2)))"

function full_batches :: "nat \<Rightarrow> 'a list \<Rightarrow> 'a list list \<times> 'a list" where
  "full_batches sz pending =
     (if 0 < sz \<and> sz \<le> length pending
      then (case full_batches sz (drop sz pending) of (bs, rest) \<Rightarrow> (take sz pending # bs, rest))
      else ([], pending))"
  by pat_completeness auto
termination by (relation "measure (\<lambda>(sz, pending). length pending)") auto

declare full_batches.simps [simp del]

fun row_batches_from :: "nat \<Rightarrow> 'a list \<Rightarrow> 'a list list \<Rightarrow> 'a list list" where
  "row_batches_from sz pending [] = (if pending = [] then [] else [pending])"
| "row_batches_from sz pending (b # bs) =
     (case full_batches sz (pending @ b) of (out, rest) \<Rightarrow> out @ row_batches_from sz rest bs)"

definition row_batches :: "nat \<Rightarrow> 'a list list \<Rightarrow> 'a list list" where
  "row_batches sz bs = row_batches_from sz [] bs"

text \<open>The rows staged in the transaction of a snapshot writer, in append mode.\<close>

definition writer_add :: "row list \<Rightarrow> row list \<Rightarrow> row list" where
  "writer_add batch staged = staged @ batch"

text \<open>
  One attempt to commit the transaction: it returned, or it raised (with \<open>CommitFailedException\<close> or
  another error), may have been applied all the same, and the catalog may then be readable.
  A transaction is applied at most once: its requirements name the snapshot it was built on.
\<close>

datatype attempt = Returned | Raised (conflict: bool) (applied: bool) (readable: bool)

definition overwrite_retries :: nat where
  "overwrite_retries = 4"

fun commit_attempts :: "nat \<Rightarrow> (nat \<Rightarrow> attempt) \<Rightarrow> nat \<Rightarrow> bool \<Rightarrow> bool \<times> bool" where
  "commit_attempts 0 att k landed = (False, landed)"
| "commit_attempts (Suc n) att k landed =
     (case att k of
        Returned \<Rightarrow> (True, True)
      | Raised c a v \<Rightarrow>
          if v \<and> (landed \<or> a) then (True, True)
          else if c \<or> n = 0 then (False, landed \<or> a)
          else commit_attempts n att (Suc k) (landed \<or> a))"

text \<open>The commit of the writer: whether it succeeds, and the dataset after it.\<close>

definition writer_commit :: "row list \<Rightarrow> (string \<times> string) option \<Rightarrow> (nat \<Rightarrow> attempt) \<Rightarrow> ingest \<Rightarrow> bool \<times> ingest" where
  "writer_commit staged stamped att st =
     (if staged = [] then (in_table st \<noteq> None, st)
      else (case commit_attempts overwrite_retries att 1 False of
              (ok, landed) \<Rightarrow>
                (ok, if landed then st\<lparr>in_table := Some (table_rows st @ staged),
                       in_stamp := (case stamped of
                          Some (c, b) \<Rightarrow> if c = [] then (None, None) else (Some c, if b = [] then None else Some b)
                        | None \<Rightarrow> (None, None))\<rparr> else st)))"

definition resume_of :: "cursor_advance \<Rightarrow> (string \<times> string) option" where
  "resume_of adv = (case ca_cursor adv of Some c \<Rightarrow> if ca_changed adv then Some (c, ca_boundary adv) else None | None \<Rightarrow> None)"

definition fetch_source :: "cursor_lib \<Rightarrow> string \<Rightarrow> row list list option \<Rightarrow> ingest \<Rightarrow> (py_exc, row list list \<times> tracker) result" where
  "fetch_source lib prp fetched st =
     (case (in_source st, fetched) of
        (Some rr, Some raw) \<Rightarrow>
          rbind (new_tracker lib prp (last_cursor_value rr) (cursor_boundary_keys rr)) (\<lambda>tr. fetch_batches lib raw tr)
      | _ \<Rightarrow> Inl ValueError)"

definition failed_run :: "ingest \<Rightarrow> ingest" where
  "failed_run st = st\<lparr>in_runs := in_runs st @ [False]\<rparr>"

text \<open>\<open>_run_sync_for_dataset\<close> for a source in append mode whose rows come from a SQL query.\<close>

definition run_incremental_sql_sync ::
  "cursor_lib \<Rightarrow> string \<Rightarrow> nat \<Rightarrow> row list list option \<Rightarrow> (nat \<Rightarrow> attempt) \<Rightarrow> bool \<Rightarrow> ingest \<Rightarrow> ingest" where
  "run_incremental_sql_sync lib prp sz fetched att db_ok st =
     (case adopt_committed_resume lib st of
        Inl _ \<Rightarrow> failed_run st
      | Inr st1 \<Rightarrow>
          (case fetch_source lib prp fetched st1 of
             Inl _ \<Rightarrow> failed_run st1
           | Inr (batches, tr) \<Rightarrow>
               let staged = fold writer_add (row_batches sz batches) [] in
               (case tracker_result lib tr of
                  Inl _ \<Rightarrow> failed_run st1
                | Inr adv \<Rightarrow>
                    (case writer_commit staged (resume_of adv) att st1 of
                       (False, st2) \<Rightarrow> failed_run st2
                     | (True, st2) \<Rightarrow>
                         (case resume_of adv of
                            None \<Rightarrow> st2\<lparr>in_runs := in_runs st2 @ [True]\<rparr>
                          | Some (c, b) \<Rightarrow>
                              if \<not> db_ok then failed_run st2
                              else (case property_cursor_commit lib c b (in_source st2) of
                                      Inl _ \<Rightarrow> failed_run st2
                                    | Inr src \<Rightarrow> st2\<lparr>in_source := src, in_runs := in_runs st2 @ [True]\<rparr>))))))"

section \<open>Batches\<close>

lemma full_batches_concat: "full_batches sz pending = (bs, rest) \<Longrightarrow> concat bs @ rest = pending"
proof (induction sz pending arbitrary: bs rest rule: full_batches.induct)
  case (1 sz pending)
  show ?case
  proof (cases "0 < sz \<and> sz \<le> length pending")
    case True
    obtain cs r where c: "full_batches sz (drop sz pending) = (cs, r)" by fastforce
    from 1(2) True c have "bs = take sz pending # cs" "rest = r"
      by (simp_all add: full_batches.simps [of sz pending])
    with 1(1) [OF True c] show ?thesis by simp
  next
    case False
    with 1(2) show ?thesis by (simp add: full_batches.simps [of sz pending])
  qed
qed

lemma row_batches_concat: "concat (row_batches_from sz pending bs) = pending @ concat bs"
  by (induction bs arbitrary: pending) (auto split: prod.splits dest: full_batches_concat)

lemma staged_rows: "fold writer_add bs acc = acc @ concat bs"
  by (induction bs arbitrary: acc) (simp_all add: writer_add_def)

lemma keep_append:
  "keep lib (xs @ ys) tr = rbind (keep lib xs tr) (\<lambda>(k1, tr1). rbind (keep lib ys tr1) (\<lambda>(k2, tr2). Inr (k1 @ k2, tr2)))"
proof (induction xs arbitrary: tr)
  case Nil
  then show ?case by (cases "keep lib ys tr") auto
next
  case (Cons x xs)
  show ?case
  proof (cases "keep_one lib x tr")
    case (Inr p)
    obtain b tr1 where "p = (b, tr1)" by fastforce
    with Inr Cons.IH [of tr1] show ?thesis
      by (cases "keep lib xs tr1") (auto simp: rbind_def split: sum.splits prod.splits)
  qed simp
qed

lemma fetch_batches_concat:
  "fetch_batches lib bs tr = Inr (kept, tr') \<Longrightarrow> keep lib (concat bs) tr = Inr (concat kept, tr')"
proof (induction bs arbitrary: tr kept)
  case (Cons b bs)
  then show ?case by (auto simp: keep_append res_simps split: if_splits)
qed simp

lemma fetch_batches_keep:
  "keep lib (concat bs) tr = Inr (kept, tr') \<Longrightarrow> \<exists>ks. fetch_batches lib bs tr = Inr (ks, tr') \<and> concat ks = kept"
proof (induction bs arbitrary: tr kept)
  case (Cons b bs)
  then obtain k1 tr1 k2 where k: "keep lib b tr = Inr (k1, tr1)" "keep lib (concat bs) tr1 = Inr (k2, tr')" "kept = k1 @ k2"
    by (auto simp: keep_append res_simps)
  from Cons.IH [OF k(2)] obtain ks where "fetch_batches lib bs tr1 = Inr (ks, tr')" "concat ks = k2" by blast
  with k show ?case by auto
qed simp

section \<open>Positions\<close>

text \<open>\<open>json.loads\<close> reads back the lists of strings that \<open>json.dumps\<close> writes.\<close>

definition dumps_lists :: "cursor_lib \<Rightarrow> bool" where
  "dumps_lists lib \<longleftrightarrow>
     (\<forall>ks. cl_dumps lib (JList (map JStr ks)) \<noteq> [] \<and> cl_loads lib (cl_dumps lib (JList (map JStr ks))) = Some (JList (map JStr ks)))"

lemma parse_dump:
  assumes "dumps_lists lib" "finite ids"
  shows "parse_boundary_keys lib (Some (dump_boundary_keys lib ids)) = ids" "dump_boundary_keys lib ids \<noteq> []"
  using assms by (simp_all add: parse_boundary_keys_def dump_boundary_keys_def dumps_lists_def o_def)

lemma dump_inject:
  "dumps_lists lib \<Longrightarrow> finite a \<Longrightarrow> finite b \<Longrightarrow> dump_boundary_keys lib a = dump_boundary_keys lib b \<longleftrightarrow> a = b"
  using parse_dump(1) by metis

context sorted_column
begin

definition cursor_text :: "string \<Rightarrow> 'k \<Rightarrow> bool" where
  "cursor_text s k \<longleftrightarrow> s \<noteq> [] \<and> cursor_key lib (CText s) = Inr (enc k) \<and> decode_file_cursor lib (Some s) = None"

text \<open>The source row resumes exactly after the rows \<open>old\<close>.\<close>

definition described :: "row list \<Rightarrow> resume_row \<Rightarrow> bool" where
  "described old rr \<longleftrightarrow>
     (if old = [] then last_cursor_value rr = None
      else (\<exists>s. last_cursor_value rr = Some s \<and> cursor_text s (top_key old)) \<and>
        parse_boundary_keys lib (cursor_boundary_keys rr) = top_ids old)"

lemma stored_cursor_text: "r \<in> col \<Longrightarrow> cursor_text (store_cursor lib (cell_of r prp)) (key_of r)"
  by (simp add: cursor_text_def stored stored_text)

lemma finite_top_ids [simp]: "finite (top_ids xs)"
  by (simp add: top_ids_def)

lemma top_ids_Nil [simp]: "top_ids [] = {}"
  by (simp add: top_ids_def)

lemma new_tracker_tracks:
  assumes "described old rr"
  shows "\<exists>tr. new_tracker lib prp (last_cursor_value rr) (cursor_boundary_keys rr) = Inr tr \<and> tracks old [] tr \<and>
    tr_last_cursor tr = last_cursor_value rr"
  using assms by (auto simp: described_def new_tracker_def tracks_def cursor_text_def split: if_splits)

lemma keep_one_cursor: "keep_one lib r tr = Inr (b, tr') \<Longrightarrow> tr_last_cursor tr' = tr_last_cursor tr"
  by (auto simp: keep_one_def note_newest_def Let_def res_simps split: if_splits option.splits)

lemma keep_cursor: "keep lib rs tr = Inr (ks, tr') \<Longrightarrow> tr_last_cursor tr' = tr_last_cursor tr"
proof (induction rs arbitrary: tr ks)
  case (Cons r rs)
  then show ?case by (force simp: res_simps dest: keep_one_cursor)
qed simp

text \<open>Rows that are new after \<open>old\<close> carry the greatest cursor of all.\<close>

lemma top_key_new:
  assumes "xs \<noteq> []" "\<forall>r \<in> set xs. new_row old r"
  shows "top_key (old @ xs) = top_key xs" "old \<noteq> [] \<Longrightarrow> top_key old \<le> top_key xs"
proof -
  obtain r where r: "r \<in> set xs" "key_of r = top_key xs" using top_key_in [OF assms(1)] by blast
  show le: "top_key old \<le> top_key xs" if "old \<noteq> []" using assms(2) r that by (auto simp: new_row_def)
  have "key_of ` set xs \<noteq> {}" using assms(1) by simp
  then show "top_key (old @ xs) = top_key xs"
  proof (cases "old = []")
    case False
    have "Max (key_of ` set old \<union> key_of ` set xs) = max (top_key old) (top_key xs)"
      unfolding top_key_def using False assms(1) by (intro Max_Un) simp_all
    with le [OF False] show ?thesis by (simp add: top_key_def image_Un)
  qed simp
qed

lemma top_ids_new:
  assumes "xs \<noteq> []" "\<forall>r \<in> set xs. new_row old r"
  shows "top_ids (old @ xs) = (if old \<noteq> [] \<and> top_key xs = top_key old then top_ids old \<union> top_ids xs else top_ids xs)"
proof -
  have "{r \<in> set old. key_of r = top_key xs} = (if old \<noteq> [] \<and> top_key xs = top_key old then {r \<in> set old. key_of r = top_key old} else {})"
  proof (cases "old \<noteq> [] \<and> top_key xs \<noteq> top_key old")
    case True
    then have "top_key old < top_key xs" using top_key_new(2) [OF assms] by auto
    then show ?thesis using True top_key_ge [of _ old] by force
  qed auto
  moreover have "{r \<in> set (old @ xs). key_of r = top_key xs} = {r \<in> set old. key_of r = top_key xs} \<union> {r \<in> set xs. key_of r = top_key xs}"
    by auto
  ultimately show ?thesis by (simp add: top_ids_def top_key_new(1) [OF assms] image_Un)
qed

lemma tracker_advances:
  assumes tr: "tracks old xs tr" and cols: "set old \<subseteq> col" "set xs \<subseteq> col" and new: "xs \<noteq> []" "\<forall>r \<in> set xs. new_row old r"
    and lc: "described old rr" "tr_last_cursor tr = last_cursor_value rr"
    and cap: "card (top_ids (old @ xs)) \<le> max_boundary_keys" and dl: "dumps_lists lib"
  shows "\<exists>adv s. tracker_result lib tr = Inr adv \<and> resume_of adv = Some (s, dump_boundary_keys lib (top_ids (old @ xs))) \<and>
    cursor_text s (top_key (old @ xs)) \<and> (old \<noteq> [] \<and> top_key xs = top_key old \<longrightarrow> last_cursor_value rr = Some s)"
proof -
  let ?same = "old \<noteq> [] \<and> top_key xs = top_key old"
  let ?s = "store_cursor lib (tr_newest_raw tr)" and ?ids = "top_ids (old @ xs)"
  from tr new(1) obtain r where r: "r \<in> set xs" "key_of r = top_key xs" "tr_newest_raw tr = cell_of r prp"
    and nw: "tr_newest tr = Some (enc (top_key xs))" "tr_boundary_ids tr = top_ids xs"
    by (auto simp: tracks_def)
  have ct: "cursor_text ?s (top_key xs)" using stored_cursor_text [of r] r cols by auto
  have same: "(case tr_last_key tr of None \<Rightarrow> Inr False | Some k \<Rightarrow> rbind (py_cmp lib (enc (top_key xs)) k) (\<lambda>c. Inr (c = 0))) = (Inr ?same :: (py_exc, bool) result)"
  proof (cases "old = []")
    case False
    then obtain q where q: "q \<in> set old" "key_of q = top_key old" using top_key_in by blast
    with py_cmp_enc [of r q] r cols have "py_cmp lib (enc (top_key xs)) (enc (top_key old)) =
        Inr (three_way (top_key xs < top_key old) (top_key old < top_key xs))" by auto
    with False tr show ?thesis by (simp add: tracks_def)
  qed (use tr in \<open>simp add: tracks_def\<close>)
  have res: "tracker_result lib tr = Inr \<lparr>ca_rows = [], ca_cursor = (if ?same then last_cursor_value rr else Some ?s),
      ca_boundary = dump_boundary_keys lib ?ids,
      ca_changed = ((if ?same then last_cursor_value rr else Some ?s) \<noteq> last_cursor_value rr \<or> dump_boundary_keys lib ?ids \<noteq> dump_boundary_keys lib (tr_seen tr))\<rparr>"
    unfolding tracker_result_def nw(1) option.case same
    using tr cap by (auto simp: lc(2) nw(2) top_ids_new [OF new] cap_boundary_def tracks_def Let_def)
  show ?thesis
  proof (cases ?same)
    case True
    then obtain s where s: "last_cursor_value rr = Some s" "cursor_text s (top_key old)" using lc(1) by (auto simp: described_def)
    have "row_identity lib r \<notin> top_ids old" "row_identity lib r \<in> ?ids"
      using new(2) r True by (auto simp: new_row_def top_ids_new [OF new]) (auto simp: top_ids_def)
    then have "?ids \<noteq> top_ids old" by blast
    then have "dump_boundary_keys lib ?ids \<noteq> dump_boundary_keys lib (tr_seen tr)" using tr True by (simp add: dump_inject [OF dl] tracks_def)
    with True s res show ?thesis by (simp add: resume_of_def top_key_new(1) [OF new])
  next
    case False
    have "Some ?s \<noteq> last_cursor_value rr"
    proof (cases "old = []")
      case o: False
      then obtain s where s: "last_cursor_value rr = Some s" "cursor_text s (top_key old)" using lc(1) by (auto simp: described_def)
      obtain q where q: "q \<in> set old" "key_of q = top_key old" using top_key_in [OF o] by blast
      have "cmp_keys lib (enc (top_key xs)) (enc (top_key old)) \<noteq> 0"
        using cmp_enc [of r q] r q subsetD [OF cols(2) r(1)] subsetD [OF cols(1) q(1)] False o by simp
      moreover have "cmp_keys lib (enc (top_key old)) (enc (top_key old)) = 0"
        using cmp_enc [of q q] q subsetD [OF cols(1) q(1)] by (simp add: three_way_def)
      ultimately have "enc (top_key xs) \<noteq> enc (top_key old)" by metis
      with ct s show ?thesis by (auto simp: cursor_text_def)
    qed (use lc(1) in \<open>simp add: described_def\<close>)
    with False res ct show ?thesis by (auto simp: resume_of_def top_key_new(1) [OF new])
  qed
qed

end

section \<open>The invariant of a dataset\<close>

context sorted_column
begin

text \<open>
  The position in the database is that of the rows \<open>rs\<close> or an earlier one; \<open>s\<close> is the cursor text of their position.
\<close>

definition behind :: "row list \<Rightarrow> string \<Rightarrow> resume_row \<Rightarrow> bool" where
  "behind rs s rr \<longleftrightarrow>
     (case last_cursor_value rr of
        None \<Rightarrow> True
      | Some s' \<Rightarrow> (\<exists>r \<in> col. cursor_text s' (key_of r) \<and> key_of r < top_key rs) \<or>
          (s' = s \<and> parse_boundary_keys lib (cursor_boundary_keys rr) \<subseteq> top_ids rs))"

lemma commit_position:
  assumes b: "behind rs s rr" and s: "cursor_text s (top_key rs)" and rs: "rs \<noteq> []" "set rs \<subseteq> col" and dl: "dumps_lists lib"
  shows "\<exists>rr'. property_cursor_commit lib s (dump_boundary_keys lib (top_ids rs)) (Some rr) = Inr (Some rr') \<and>
      last_cursor_value rr' = Some s \<and> parse_boundary_keys lib (cursor_boundary_keys rr') = top_ids rs"
    and "last_cursor_value rr = Some s' \<Longrightarrow> s' \<noteq> s \<Longrightarrow> resume_is_newer lib s (Some s') = Inr True"
proof -
  note pd = parse_dump [OF dl finite_top_ids]
  obtain q where q: "q \<in> set rs" "key_of q = top_key rs" using top_key_in [OF rs(1)] by blast
  have newer: "py_cmp lib (CText s) (CText s') = Inr 1 \<and> resume_is_newer lib s (Some s') = Inr True"
    if "last_cursor_value rr = Some s'" "s' \<noteq> s" for s'
  proof -
    from b that obtain r where r: "r \<in> col" "cursor_text s' (key_of r)" "key_of r < top_key rs" by (auto simp: behind_def)
    have "cmp_keys lib (enc (top_key rs)) (enc (key_of r)) = 1"
      using cmp_enc [of q r] q rs(2) r by (auto simp: three_way_def)
    then have "py_cmp lib (CText s) (CText s') = Inr 1" using r(2) s by (simp add: py_cmp_def cursor_text_def)
    with that(2) r(2) s show ?thesis by (simp add: resume_is_newer_def cursor_text_def)
  qed
  then show "last_cursor_value rr = Some s' \<Longrightarrow> s' \<noteq> s \<Longrightarrow> resume_is_newer lib s (Some s') = Inr True" by simp
  show "\<exists>rr'. property_cursor_commit lib s (dump_boundary_keys lib (top_ids rs)) (Some rr) = Inr (Some rr') \<and>
      last_cursor_value rr' = Some s \<and> parse_boundary_keys lib (cursor_boundary_keys rr') = top_ids rs"
  proof (cases "last_cursor_value rr")
    case None
    then show ?thesis by (simp add: property_cursor_commit_def pd)
  next
    case (Some s')
    show ?thesis
    proof (cases "s' = s")
      case True
      have "\<not> (\<exists>r \<in> col. cursor_text s (key_of r) \<and> key_of r < top_key rs)"
      proof
        assume "\<exists>r \<in> col. cursor_text s (key_of r) \<and> key_of r < top_key rs"
        then obtain r where r: "r \<in> col" "enc (key_of r) = enc (top_key rs)" "key_of r < top_key rs" using s by (auto simp: cursor_text_def)
        with cmp_enc [of q r] cmp_enc [of q q] q rs(2) show False by (auto simp: three_way_def)
      qed
      with b Some True have sub: "parse_boundary_keys lib (cursor_boundary_keys rr) \<subseteq> top_ids rs" by (auto simp: behind_def)
      moreover have "resume_is_newer lib s (Some s) = Inr False" using s by (simp add: resume_is_newer_def cursor_text_def)
      ultimately show ?thesis using Some True
        by (simp add: property_cursor_commit_def pd Un_absorb1)
    next
      case False
      with newer [OF Some False] Some show ?thesis by (simp add: property_cursor_commit_def pd)
    qed
  qed
qed

text \<open>
  What holds of a dataset between syncs, when its source has the rows \<open>src\<close>: the table holds each of its
  rows once, rows of the source that are not stored yet are not older than the stored ones, the
  stamp of the current snapshot is the position of the table, and the database is at it or behind.
\<close>

definition ingest_ok :: "row set \<Rightarrow> ingest \<Rightarrow> bool" where
  "ingest_ok src st \<longleftrightarrow>
     (let rs = table_rows st in
      distinct rs \<and> set rs \<subseteq> src \<and> src \<subseteq> col \<and> (\<forall>r \<in> src - set rs. \<forall>t \<in> set rs. key_of t \<le> key_of r) \<and>
      (\<exists>rr. in_source st = Some rr \<and>
        (if rs = [] then in_table st = None \<and> in_stamp st = (None, None) \<and> last_cursor_value rr = None
         else \<exists>s. in_stamp st = (Some s, Some (dump_boundary_keys lib (top_ids rs))) \<and> cursor_text s (top_key rs) \<and> behind rs s rr)))"

text \<open>Adopting the stamp brings the database to the position of the table.\<close>

lemma adopt_described:
  assumes "ingest_ok src st" "dumps_lists lib"
  shows "\<exists>rr. adopt_committed_resume lib st = Inr (st\<lparr>in_source := Some rr\<rparr>) \<and> described (table_rows st) rr \<and>
    (\<forall>s. fst (in_stamp st) = Some s \<longrightarrow> last_cursor_value rr = Some s)"
proof -
  let ?rs = "table_rows st"
  from assms(1) obtain rr where src: "in_source st = Some rr" and cols: "set ?rs \<subseteq> col" by (auto simp: ingest_ok_def Let_def)
  show ?thesis
  proof (cases "?rs = []")
    case True
    with assms(1) src show ?thesis
      by (auto simp: ingest_ok_def adopt_committed_resume_def or_empty_text_def described_def Let_def intro!: exI [of _ rr])
  next
    case False
    with assms(1) src obtain s where stamp: "in_stamp st = (Some s, Some (dump_boundary_keys lib (top_ids ?rs)))"
      and s: "cursor_text s (top_key ?rs)" and b: "behind ?rs s rr"
      by (auto simp: ingest_ok_def Let_def)
    note pd = parse_dump [OF assms(2) finite_top_ids]
    note cp = commit_position [OF b s False cols assms(2)]
    obtain rr' where rr': "property_cursor_commit lib s (dump_boundary_keys lib (top_ids ?rs)) (Some rr) = Inr (Some rr')"
      "last_cursor_value rr' = Some s" "parse_boundary_keys lib (cursor_boundary_keys rr') = top_ids ?rs" using cp(1) by blast
    have ne: "s \<noteq> []" using s by (simp add: cursor_text_def)
    have d: "described ?rs rr'" using False rr' s by (simp add: described_def)
    show ?thesis
    proof (cases "last_cursor_value rr = Some s \<and> or_empty_text (cursor_boundary_keys rr) = dump_boundary_keys lib (top_ids ?rs)")
      case True
      then have "cursor_boundary_keys rr = Some (dump_boundary_keys lib (top_ids ?rs))"
        using pd(2) [of ?rs] pd(2) [of ?rs, THEN not_sym] by (auto simp: or_empty_text_def split: option.splits)
      with True False s pd(1) have "described ?rs rr" by (simp add: described_def)
      with True src stamp ne show ?thesis
        by (intro exI [of _ rr]) (auto simp: adopt_committed_resume_def or_empty_text_def Let_def)
    next
      case neq: False
      have "adopt_committed_resume lib st = Inr (st\<lparr>in_source := Some rr'\<rparr>)"
      proof (cases "last_cursor_value rr")
        case None
        then show ?thesis using src stamp ne rr'(1) pd(2) by (simp add: adopt_committed_resume_def or_empty_text_def)
      next
        case (Some s')
        then show ?thesis using src stamp ne rr'(1) pd(2) neq cp(2) [of s']
          by (cases "s' = s") (simp_all add: adopt_committed_resume_def or_empty_text_def)
      qed
      with d rr'(2) stamp show ?thesis by auto
    qed
  qed
qed

end

section \<open>One sync\<close>

lemma commit_ok_landed: "commit_attempts n att k landed = (True, l) \<Longrightarrow> l"
  by (induction n arbitrary: k landed) (auto split: attempt.splits if_splits)

context sorted_column
begin

lemma ingest_ok_runs [simp]: "ingest_ok src (st\<lparr>in_runs := x\<rparr>) = ingest_ok src st"
  by (simp add: ingest_ok_def table_rows_def)

lemma table_rows_frame [simp]:
  "table_rows (st\<lparr>in_runs := x\<rparr>) = table_rows st" "table_rows (st\<lparr>in_source := y\<rparr>) = table_rows st"
  by (simp_all add: table_rows_def)

text \<open>The rows a fetch adds to the table: those of the source that are not in it.\<close>

lemma new_rows_missing:
  assumes ok: "ingest_ok src st" and inj: "inj_on (row_identity lib) src"
    and sub: "set raw \<subseteq> src" and all: "\<forall>r \<in> src. (\<forall>t \<in> set (table_rows st). key_of t \<le> key_of r) \<longrightarrow> r \<in> set raw"
  shows "set (filter (new_row (table_rows st)) raw) = src - set (table_rows st)"
proof -
  let ?rs = "table_rows st"
  from ok have rs: "set ?rs \<subseteq> src" and late: "\<forall>r \<in> src - set ?rs. \<forall>t \<in> set ?rs. key_of t \<le> key_of r"
    by (simp_all add: ingest_ok_def Let_def)
  have "\<not> new_row ?rs r" if "r \<in> set ?rs" for r
    using that top_key_ge [OF that] by (auto simp: new_row_def top_ids_def)
  moreover have "new_row ?rs r \<and> r \<in> set raw" if r: "r \<in> src" "r \<notin> set ?rs" for r
  proof (cases "?rs = []")
    case False
    then obtain q where q: "q \<in> set ?rs" "key_of q = top_key ?rs" using top_key_in by blast
    have "row_identity lib r \<notin> top_ids ?rs" using inj r rs by (auto simp: top_ids_def dest!: inj_onD)
    moreover have "top_key ?rs \<le> key_of r" using late r q by force
    ultimately show ?thesis using late r all by (auto simp: new_row_def)
  qed (use r all in \<open>simp add: new_row_def\<close>)
  ultimately show ?thesis using sub by auto
qed

lemma behind_self:
  "described rs rr \<Longrightarrow> rs \<noteq> [] \<Longrightarrow> last_cursor_value rr = Some s \<Longrightarrow> behind rs s rr"
  by (simp add: behind_def described_def)

lemma behind_extend:
  assumes d: "described old rr" and cols: "set old \<subseteq> col" and new: "xs \<noteq> []" "\<forall>r \<in> set xs. new_row old r"
    and s: "old \<noteq> [] \<and> top_key xs = top_key old \<longrightarrow> last_cursor_value rr = Some s"
  shows "behind (old @ xs) s rr"
proof (cases "old = []")
  case False
  then obtain s0 where s0: "last_cursor_value rr = Some s0" "cursor_text s0 (top_key old)"
    "parse_boundary_keys lib (cursor_boundary_keys rr) = top_ids old" using d by (auto simp: described_def)
  obtain q where q: "q \<in> set old" "key_of q = top_key old" using top_key_in [OF False] by blast
  show ?thesis
  proof (cases "top_key xs = top_key old")
    case True
    with s s0 False show ?thesis by (simp add: behind_def top_ids_new [OF new])
  next
    case neq: False
    with top_key_new [OF new] False have "top_key old < top_key (old @ xs)" by simp
    with s0 q cols show ?thesis by (auto simp: behind_def intro!: bexI [of _ q])
  qed
qed (use d in \<open>simp add: behind_def described_def\<close>)

lemma sync_step:
  assumes ok: "ingest_ok src st" and dl: "dumps_lists lib" and inj: "inj_on (row_identity lib) src"
    and cap: "\<forall>rs. set rs \<subseteq> src \<longrightarrow> card (top_ids rs) \<le> max_boundary_keys"
    and fetched: "\<And>raw. fetched = Some raw \<Longrightarrow> set (concat raw) \<subseteq> src \<and> distinct (concat raw) \<and>
      (\<forall>r \<in> src. (\<forall>t \<in> set (table_rows st). key_of t \<le> key_of r) \<longrightarrow> r \<in> set (concat raw))"
    and st'_def: "st' = run_incremental_sql_sync lib prp sz fetched att db_ok st"
  shows "ingest_ok src st' \<and> (last (in_runs st') \<or> (fetched \<noteq> None \<and> att 1 = Returned) \<longrightarrow> set (table_rows st') = src)"
proof -
  let ?rs = "table_rows st"
  obtain rr where ad: "adopt_committed_resume lib st = Inr (st\<lparr>in_source := Some rr\<rparr>)" and d: "described ?rs rr"
    and sc: "\<forall>s. fst (in_stamp st) = Some s \<longrightarrow> last_cursor_value rr = Some s"
    using adopt_described [OF ok dl] by blast
  define st1 where "st1 = st\<lparr>in_source := Some rr\<rparr>"
  have cols: "set ?rs \<subseteq> col" "src \<subseteq> col" "set ?rs \<subseteq> src" using ok by (auto simp: ingest_ok_def Let_def)
  have ok1: "ingest_ok src st1"
  proof (cases "?rs = []")
    case True
    with ok d show ?thesis by (auto simp: st1_def ingest_ok_def Let_def described_def)
  next
    case False
    then obtain s where stamp: "in_stamp st = (Some s, Some (dump_boundary_keys lib (top_ids ?rs)))" "cursor_text s (top_key ?rs)"
      using ok by (auto simp: ingest_ok_def Let_def)
    from behind_self [OF d False] sc stamp have "behind ?rs s rr" by simp
    with ok stamp False show ?thesis by (auto simp: st1_def ingest_ok_def Let_def)
  qed
  show ?thesis
  proof (cases fetched)
    case None
    then show ?thesis using ok1
      by (simp add: st'_def run_incremental_sql_sync_def ad fetch_source_def failed_run_def st1_def [symmetric] split: option.splits)
  next
    case (Some raw)
    note f = fetched [OF Some]
    let ?new = "filter (new_row ?rs) (concat raw)"
    obtain tr where tr: "new_tracker lib prp (last_cursor_value rr) (cursor_boundary_keys rr) = Inr tr" "tracks ?rs [] tr"
      "tr_last_cursor tr = last_cursor_value rr" using new_tracker_tracks [OF d] by blast
    have "set (concat raw) \<subseteq> col" using f cols by blast
    from keep_tracks [OF tr(2) cols(1) _ this] obtain tr' where k: "keep lib (concat raw) tr = Inr (?new, tr')" "tracks ?rs ?new tr'" by auto
    from fetch_batches_keep [OF k(1)] obtain ks where ks: "fetch_batches lib raw tr = Inr (ks, tr')" "concat ks = ?new" by blast
    have staged: "fold writer_add (row_batches sz ks) [] = ?new" by (simp add: staged_rows row_batches_def row_batches_concat ks(2))
    have fs: "fetch_source lib prp fetched st1 = Inr (ks, tr')" by (simp add: fetch_source_def st1_def Some tr(1) ks(1))
    have missing: "set ?new = src - set ?rs" using new_rows_missing [OF ok inj, of "concat raw"] f by blast
    have st': "st' = (case tracker_result lib tr' of Inl _ \<Rightarrow> failed_run st1 | Inr adv \<Rightarrow>
        (case writer_commit ?new (resume_of adv) att st1 of (False, st2) \<Rightarrow> failed_run st2
         | (True, st2) \<Rightarrow> (case resume_of adv of None \<Rightarrow> st2\<lparr>in_runs := in_runs st2 @ [True]\<rparr>
            | Some (c, b) \<Rightarrow> if \<not> db_ok then failed_run st2
                else (case property_cursor_commit lib c b (in_source st2) of Inl _ \<Rightarrow> failed_run st2
                  | Inr src \<Rightarrow> st2\<lparr>in_source := src, in_runs := in_runs st2 @ [True]\<rparr>))))"
      unfolding st'_def run_incremental_sql_sync_def ad st1_def [symmetric] sum.case fs prod.case staged Let_def ..
    show ?thesis
    proof (cases "?new = []")
      case True
      with k(2) have "tr_newest tr' = None" by (simp add: tracks_def)
      then obtain adv where adv: "tracker_result lib tr' = Inr adv" "resume_of adv = None"
        by (simp add: tracker_result_def resume_of_def split: option.splits)
      have "src = set ?rs" "table_rows st1 = ?rs" using missing True cols(3) by (auto simp: st1_def)
      then show ?thesis using ok1
        by (cases "in_table st1 = None") (simp_all add: st' adv True writer_commit_def failed_run_def)
    next
      case False
      have new: "\<forall>r \<in> set ?new. new_row ?rs r" and dist: "distinct (?rs @ ?new)"
        using f ok missing by (auto simp: ingest_ok_def Let_def)
      have new_col: "set ?new \<subseteq> col" using f cols by auto
      have all: "set (?rs @ ?new) = src" using missing cols(3) by auto
      have "tr_last_cursor tr' = last_cursor_value rr" using keep_cursor [OF k(1)] tr(3) by simp
      with tracker_advances [OF k(2) cols(1) new_col False new d _ _ dl] cap all obtain adv s where
        adv: "tracker_result lib tr' = Inr adv" "resume_of adv = Some (s, dump_boundary_keys lib (top_ids (?rs @ ?new)))"
          "cursor_text s (top_key (?rs @ ?new))" "?rs \<noteq> [] \<and> top_key ?new = top_key ?rs \<longrightarrow> last_cursor_value rr = Some s"
        by blast
      define st2 where "st2 = st1\<lparr>in_table := Some (?rs @ ?new), in_stamp := (Some s, Some (dump_boundary_keys lib (top_ids (?rs @ ?new))))\<rparr>"
      have b: "behind (?rs @ ?new) s rr" by (rule behind_extend [OF d cols(1) False new adv(4)])
      have rows2: "table_rows (st2\<lparr>in_source := x\<rparr>) = ?rs @ ?new" for x by (simp add: st2_def table_rows_def)
      have ok2: "ingest_ok src (st2\<lparr>in_source := Some x\<rparr>)" if "behind (?rs @ ?new) s x" for x
        using that dist all False adv(3) cols(2) unfolding ingest_ok_def rows2 Let_def by (simp add: st2_def)
      have st2: "in_source st2 = Some rr" "st2\<lparr>in_source := Some rr\<rparr> = st2" "table_rows st2 = ?rs @ ?new"
        by (simp_all add: st2_def st1_def table_rows_def)
      have "behind (?rs @ ?new) s x" if "last_cursor_value x = Some s" "parse_boundary_keys lib (cursor_boundary_keys x) = top_ids (?rs @ ?new)" for x
        using that by (simp add: behind_def)
      with commit_position(1) [OF b adv(3) _ _ dl] False cols(1) new_col obtain rr' where
        rr': "property_cursor_commit lib s (dump_boundary_keys lib (top_ids (?rs @ ?new))) (Some rr) = Inr (Some rr')" "behind (?rs @ ?new) s rr'"
        by (auto simp: st2_def)
      obtain okc landed where at: "commit_attempts overwrite_retries att 1 False = (okc, landed)" by fastforce
      have s_ne: "s \<noteq> []" "dump_boundary_keys lib (top_ids (?rs @ ?new)) \<noteq> []"
        using adv(3) parse_dump(2) [OF dl finite_top_ids] by (simp_all add: cursor_text_def)
      have wc: "writer_commit ?new (resume_of adv) att st1 = (okc, if landed then st2 else st1)"
        using False by (simp add: writer_commit_def at [unfolded One_nat_def] adv(2) s_ne st2_def st1_def)
      have ret: "att 1 = Returned \<longrightarrow> landed" using at by (auto simp: overwrite_retries_def numeral_eq_Suc)
      have "okc \<longrightarrow> landed" using commit_ok_landed [of overwrite_retries att 1 False landed] at by (cases okc) simp_all
      then have "st' = (if \<not> okc then failed_run (if landed then st2 else st1) else if \<not> db_ok then failed_run st2
          else st2\<lparr>in_source := Some rr', in_runs := in_runs st2 @ [True]\<rparr>)"
        unfolding st' adv(1) sum.case wc using rr'(1) st2(1) by (cases okc) (simp_all add: adv(2))
      then show ?thesis using ok1 ok2 [OF b] ok2 [OF rr'(2)] st2 rows2 all ret by (auto simp: failed_run_def)
    qed
  qed
qed

end

section \<open>Exactly once\<close>

text \<open>The rows of \<open>U\<close> carry a cursor that the code can order and store: integers, text, or timestamps.\<close>

definition cursor_column :: "cursor_lib \<Rightarrow> string \<Rightarrow> row set \<Rightarrow> bool" where
  "cursor_column lib prp U \<longleftrightarrow> U \<subseteq> int_rows prp \<or> U \<subseteq> text_rows lib prp \<or> U \<subseteq> time_rows lib prp"

definition not_older :: "cursor_lib \<Rightarrow> cell \<Rightarrow> cell \<Rightarrow> bool" where
  "not_older lib a b = (case py_cmp lib a b of Inr c \<Rightarrow> 0 \<le> c | Inl _ \<Rightarrow> False)"

text \<open>No more rows of the source share a cursor than the boundary can hold.\<close>

definition boundary_fits :: "cursor_lib \<Rightarrow> string \<Rightarrow> row set \<Rightarrow> bool" where
  "boundary_fits lib prp U \<longleftrightarrow>
     (\<forall>r \<in> U. let same = {t \<in> U. not_older lib (cell_of r prp) (cell_of t prp) \<and> not_older lib (cell_of t prp) (cell_of r prp)}
       in finite same \<and> card same \<le> max_boundary_keys)"

text \<open>What a query for the rows at or after the adopted position returns.\<close>

definition resume_cursor :: "cursor_lib \<Rightarrow> ingest \<Rightarrow> string option" where
  "resume_cursor lib st =
     (case adopt_committed_resume lib st of
        Inr st1 \<Rightarrow> (case in_source st1 of Some rr \<Rightarrow> last_cursor_value rr | None \<Rightarrow> None) | Inl _ \<Rightarrow> None)"

definition complete_fetch :: "cursor_lib \<Rightarrow> string \<Rightarrow> row set \<Rightarrow> ingest \<Rightarrow> row list list \<Rightarrow> bool" where
  "complete_fetch lib prp src st raw \<longleftrightarrow>
     set (concat raw) \<subseteq> src \<and> distinct (concat raw) \<and>
     (\<forall>r \<in> src. (case resume_cursor lib st of None \<Rightarrow> True | Some c \<Rightarrow> not_older lib (cell_of r prp) (CText c)) \<longrightarrow> r \<in> set (concat raw))"

text \<open>
  A source that only gains rows, none older than the stored ones, and its syncs: a fetch may fail, a
  commit may fail, be lost or be applied without an answer, and the write of the cursor may be lost.
\<close>

inductive ingest_reach :: "cursor_lib \<Rightarrow> string \<Rightarrow> nat \<Rightarrow> row set \<Rightarrow> row set \<Rightarrow> ingest \<Rightarrow> bool" for lib prp sz U where
  start: "ingest_reach lib prp sz U {} new_ingest"
| grow: "ingest_reach lib prp sz U src st \<Longrightarrow> new \<subseteq> U \<Longrightarrow>
    \<forall>r \<in> new. \<forall>t \<in> set (table_rows st). not_older lib (cell_of r prp) (cell_of t prp) \<Longrightarrow> ingest_reach lib prp sz U (src \<union> new) st"
| sync: "ingest_reach lib prp sz U src st \<Longrightarrow> (\<And>raw. fetched = Some raw \<Longrightarrow> complete_fetch lib prp src st raw) \<Longrightarrow>
    ingest_reach lib prp sz U src (run_incremental_sql_sync lib prp sz fetched att db_ok st)"

context sorted_column
begin

lemma not_older_key: "r \<in> col \<Longrightarrow> t \<in> col \<Longrightarrow> not_older lib (cell_of r prp) (cell_of t prp) \<longleftrightarrow> key_of t \<le> key_of r"
  by (auto simp: not_older_def py_cmp_def key cmp_enc three_way_def)

lemma not_older_text: "r \<in> col \<Longrightarrow> t \<in> col \<Longrightarrow> cursor_text s (key_of t) \<Longrightarrow> not_older lib (cell_of r prp) (CText s) \<longleftrightarrow> key_of t \<le> key_of r"
  by (auto simp: not_older_def py_cmp_def key cursor_text_def cmp_enc three_way_def)

lemma reach_within: "ingest_reach lib prp sz U src st \<Longrightarrow> src \<subseteq> U"
  by (induction rule: ingest_reach.induct) auto

lemma top_ids_fit:
  assumes "boundary_fits lib prp U" "U \<subseteq> col" "set rs \<subseteq> U"
  shows "card (top_ids rs) \<le> max_boundary_keys"
proof (cases "rs = []")
  case False
  then obtain q where q: "q \<in> set rs" "key_of q = top_key rs" using top_key_in by blast
  let ?same = "{t \<in> U. not_older lib (cell_of q prp) (cell_of t prp) \<and> not_older lib (cell_of t prp) (cell_of q prp)}"
  have fin: "finite ?same" "card ?same \<le> max_boundary_keys" using assms q by (auto simp: boundary_fits_def Let_def)
  have "{r \<in> set rs. key_of r = top_key rs} \<subseteq> ?same" using assms q not_older_key by (auto simp: subset_iff)
  from card_mono [OF fin(1) this] card_image_le [of "{r \<in> set rs. key_of r = top_key rs}" "row_identity lib"] fin(2)
  show ?thesis by (simp add: top_ids_def)
qed simp

text \<open>A query at or after the adopted position finds every row that is not older than the stored ones.\<close>

lemma fetch_finds:
  assumes ok: "ingest_ok src st" and dl: "dumps_lists lib" and f: "complete_fetch lib prp src st raw"
  shows "set (concat raw) \<subseteq> src \<and> distinct (concat raw) \<and>
    (\<forall>r \<in> src. (\<forall>t \<in> set (table_rows st). key_of t \<le> key_of r) \<longrightarrow> r \<in> set (concat raw))"
proof -
  obtain rr where "adopt_committed_resume lib st = Inr (st\<lparr>in_source := Some rr\<rparr>)" and d: "described (table_rows st) rr"
    using adopt_described [OF ok dl] by blast
  then have rc: "resume_cursor lib st = last_cursor_value rr" by (simp add: resume_cursor_def)
  have cols: "src \<subseteq> col" "set (table_rows st) \<subseteq> src" using ok by (auto simp: ingest_ok_def Let_def)
  have "case resume_cursor lib st of None \<Rightarrow> True | Some c \<Rightarrow> not_older lib (cell_of r prp) (CText c)"
    if r: "r \<in> src" "\<forall>t \<in> set (table_rows st). key_of t \<le> key_of r" for r
  proof (cases "table_rows st = []")
    case True
    with d show ?thesis by (simp add: rc described_def)
  next
    case False
    then obtain s where s: "last_cursor_value rr = Some s" "cursor_text s (top_key (table_rows st))" using d by (auto simp: described_def)
    obtain q where q: "q \<in> set (table_rows st)" "key_of q = top_key (table_rows st)" using top_key_in [OF False] by blast
    have "r \<in> col" "q \<in> col" using r q cols by blast+
    with not_older_text [of r q s] s bspec [OF r(2) q(1)] q show ?thesis by (simp add: rc)
  qed
  with f show ?thesis unfolding complete_fetch_def by blast
qed

lemma reach_ok:
  assumes "ingest_reach lib prp sz U src st" "U \<subseteq> col" "dumps_lists lib" "inj_on (row_identity lib) U" "boundary_fits lib prp U"
  shows "ingest_ok src st"
  using assms(1)
proof (induction rule: ingest_reach.induct)
  case start
  show ?case by (simp add: ingest_ok_def new_ingest_def table_rows_def)
next
  case (grow src st new)
  have c: "set (table_rows st) \<subseteq> col" using grow.IH by (auto simp: ingest_ok_def Let_def)
  have "key_of t \<le> key_of r" if "r \<in> new" "t \<in> set (table_rows st)" for r t
    using grow.hyps(2,3) assms(2) c that not_older_key [of r t] by blast
  with grow.IH grow.hyps(2) assms(2) show ?case by (auto simp: ingest_ok_def Let_def)
next
  case (sync src st fetched att db_ok)
  have "src \<subseteq> U" by (rule reach_within [OF sync.hyps(1)])
  moreover have "card (top_ids rs) \<le> max_boundary_keys" if "set rs \<subseteq> src" for rs
    using top_ids_fit [OF assms(5,2)] that \<open>src \<subseteq> U\<close> by blast
  ultimately show ?case
    using sync_step [OF sync.IH assms(3) _ _ fetch_finds [OF sync.IH assms(3) sync.hyps(2)] refl] inj_on_subset [OF assms(4)] by blast
qed

lemma exactly_once:
  assumes "ingest_reach lib prp sz U src st" "U \<subseteq> col" "dumps_lists lib" "inj_on (row_identity lib) U" "boundary_fits lib prp U"
  shows "distinct (table_rows st)" "set (table_rows st) \<subseteq> src"
    and "complete_fetch lib prp src st raw \<Longrightarrow> last (in_runs (run_incremental_sql_sync lib prp sz (Some raw) att db_ok st)) \<or> att 1 = Returned \<Longrightarrow>
      set (table_rows (run_incremental_sql_sync lib prp sz (Some raw) att db_ok st)) = src"
proof -
  note ok = reach_ok [OF assms]
  show "distinct (table_rows st)" "set (table_rows st) \<subseteq> src" using ok by (simp_all add: ingest_ok_def Let_def)
  have src: "src \<subseteq> U" by (rule reach_within [OF assms(1)])
  have cap: "\<forall>rs. set rs \<subseteq> src \<longrightarrow> card (top_ids rs) \<le> max_boundary_keys"
    using top_ids_fit [OF assms(5,2)] src by blast
  assume f: "complete_fetch lib prp src st raw" "last (in_runs (run_incremental_sql_sync lib prp sz (Some raw) att db_ok st)) \<or> att 1 = Returned"
  from sync_step [OF ok assms(3) inj_on_subset [OF assms(4) src] cap _ refl, of "Some raw"] fetch_finds [OF ok assms(3) f(1)] f(2)
  show "set (table_rows (run_incremental_sql_sync lib prp sz (Some raw) att db_ok st)) = src" by blast
qed

end

text \<open>
  C4. Incremental syncs of a SQL source store every row exactly once: whatever failed, timed out or was lost in the syncs
  so far (fetches, commits whose answer never came, writes of the cursor), the table never holds a
  row twice or one the source did not have, and after a sync that read all rows at or after its
  cursor and either succeeded or had its first commit answered, it holds exactly the rows of the
  source. The rows need a cursor of one type (integer, text or timestamp), distinct identities, at
  most 4096 rows per cursor value, and may not arrive with a cursor older than the stored ones. Files,
  objects, float and null cursors are outside of this, see the limits below.
\<close>

theorem incremental_sync_exactly_once:
  assumes "cursor_column lib prp U" "dumps_lists lib" "inj_on (row_identity lib) U" "boundary_fits lib prp U"
    and "ingest_reach lib prp sz U src st"
  shows "distinct (table_rows st) \<and> set (table_rows st) \<subseteq> src \<and>
    (\<forall>raw att db_ok. let st' = run_incremental_sql_sync lib prp sz (Some raw) att db_ok st in
       complete_fetch lib prp src st raw \<and> (last (in_runs st') \<or> att 1 = Returned) \<longrightarrow> set (table_rows st') = src)"
proof -
  consider "U \<subseteq> int_rows prp" | "U \<subseteq> text_rows lib prp" | "U \<subseteq> time_rows lib prp"
    using assms(1) by (auto simp: cursor_column_def)
  then show ?thesis
  proof cases
    case 1
    show ?thesis unfolding Let_def using int_column.exactly_once [OF assms(5) 1 assms(2-4)] by blast
  next
    case 2
    show ?thesis unfolding Let_def using text_column.exactly_once [OF assms(5) 2 assms(2-4)] by blast
  next
    case 3
    show ?thesis unfolding Let_def using time_column.exactly_once [OF assms(5) 3 assms(2-4)] by blast
  qed
qed

section \<open>Witness\<close>

text \<open>A library that writes a list of strings with a dot before every character and a bar after every string.\<close>

fun undot :: "string \<Rightarrow> string \<Rightarrow> string list" where
  "undot acc (x # c # r) = (if x = CHR ''.'' then undot (acc @ [c]) r else acc # undot [] (c # r))"
| "undot acc [x] = [acc]"
| "undot acc [] = []"

definition dot_list :: "string list \<Rightarrow> string" where
  "dot_list ks = concat (map (\<lambda>s. concat (map (\<lambda>c. [CHR ''.'', c]) s) @ ''|'') ks)"

definition strings_of :: "json \<Rightarrow> string list" where
  "strings_of j = (case j of JList xs \<Rightarrow> map (\<lambda>x. case x of JStr s \<Rightarrow> s | _ \<Rightarrow> []) xs | _ \<Rightarrow> [])"

definition dot_lib :: cursor_lib where
  "dot_lib = \<lparr>cl_fromisoformat = (\<lambda>_. None), cl_isoformat = (\<lambda>_. []), cl_str_time = (\<lambda>_. []), cl_str_float = (\<lambda>_. []),
     cl_str_json = (\<lambda>_. []), cl_dumps = (\<lambda>j. CHR ''['' # dot_list (strings_of j)),
     cl_loads = (\<lambda>s. Some (JList (map JStr (undot [] (drop 1 s))))),
     cl_dumps_row = (\<lambda>r. concat (map (\<lambda>(k, v). case v of CInt i \<Rightarrow> show_int i | CText s \<Rightarrow> s | _ \<Rightarrow> []) r)), cl_sha256 = (\<lambda>s. s)\<rparr>"

lemma undot_dot: "undot acc (concat (map (\<lambda>c. [CHR ''.'', c]) s) @ CHR ''|'' # rest) = (acc @ s) # undot [] rest"
proof (induction s arbitrary: acc)
  case Nil
  show ?case by (cases rest) simp_all
qed simp

lemma dot_lib_lists: "dumps_lists dot_lib"
proof -
  have "undot [] (dot_list ks) = ks" for ks
    by (induction ks) (simp_all add: dot_list_def undot_dot)
  moreover have "strings_of (JList (map JStr ks)) = ks" for ks
    by (simp add: strings_of_def o_def)
  ultimately show ?thesis by (simp add: dumps_lists_def dot_lib_def)
qed

definition order_row :: "int \<Rightarrow> string \<Rightarrow> row" where
  "order_row n s = [(''n'', CInt n), (''s'', CText s)]"

definition lost_answers :: "nat \<Rightarrow> attempt" where
  "lost_answers k = Raised False True False"

definition after_lost_answers :: ingest where
  "after_lost_answers = run_incremental_sql_sync dot_lib ''n'' 1 (Some [[order_row 1 ''a''], [order_row 2 ''b'']]) lost_answers True new_ingest"

lemma after_lost_answers_eq:
  "table_rows after_lost_answers = [order_row 1 ''a'', order_row 2 ''b''] \<and> in_runs after_lost_answers = [False] \<and>
   resume_cursor dot_lib after_lost_answers = Some ''2''"
  by code_simp

theorem incremental_sync_exactly_once_witness:
  "in_runs after_lost_answers = [False] \<and>
   set (table_rows (run_incremental_sql_sync dot_lib ''n'' 1 (Some [[order_row 2 ''c'', order_row 2 ''b'']]) (\<lambda>_. Returned) True after_lost_answers)) =
     {order_row 1 ''a'', order_row 2 ''b'', order_row 2 ''c''}"
proof -
  let ?a = "order_row 1 ''a''" and ?b = "order_row 2 ''b''" and ?c = "order_row 2 ''c''"
  let ?U = "{?a, ?b, ?c}"
  have col: "cursor_column dot_lib ''n'' ?U"
    by (simp add: cursor_column_def int_rows_def order_row_def cell_of_def dict_get_def)
  have inj: "inj_on (row_identity dot_lib) ?U"
    by (simp add: row_identity_def dot_lib_def order_row_def show_int_def)
  have small: "finite A \<and> card A \<le> 4096" if "A \<subseteq> ?U" for A
  proof -
    have "card A \<le> card ?U" by (rule card_mono [OF _ that]) simp
    also have "card ?U \<le> 3" by (simp add: card_insert_if)
    finally show ?thesis using finite_subset [OF that] by simp
  qed
  have fits: "boundary_fits dot_lib ''n'' ?U"
    unfolding boundary_fits_def max_boundary_keys_def Let_def by (intro ballI small Collect_restrict)
  have r1: "ingest_reach dot_lib ''n'' 1 ?U {?a, ?b} new_ingest"
    using ingest_reach.grow [OF ingest_reach.start, of "{?a, ?b}" ?U dot_lib "''n''" 1] by (simp add: new_ingest_def table_rows_def)
  have "complete_fetch dot_lib ''n'' {?a, ?b} new_ingest [[?a], [?b]]"
    by (simp add: complete_fetch_def order_row_def)
  then have r2: "ingest_reach dot_lib ''n'' 1 ?U {?a, ?b} after_lost_answers"
    unfolding after_lost_answers_def by (intro ingest_reach.sync [OF r1]) simp
  note eq = after_lost_answers_eq
  have older: "not_older dot_lib (cell_of ?c ''n'') (cell_of ?a ''n'')" "not_older dot_lib (cell_of ?c ''n'') (cell_of ?b ''n'')"
    "\<not> not_older dot_lib (cell_of ?a ''n'') (CText ''2'')" by code_simp+
  have r3: "ingest_reach dot_lib ''n'' 1 ?U ?U after_lost_answers"
    using ingest_reach.grow [OF r2, of "{?c}"] older eq by (simp add: insert_commute)
  have "complete_fetch dot_lib ''n'' ?U after_lost_answers [[?c, ?b]]"
    using older eq by (simp add: complete_fetch_def) (simp add: order_row_def)
  with incremental_sync_exactly_once [OF col dot_lib_lists inj fits r3] eq show ?thesis by (simp add: Let_def)
qed

section \<open>Limits\<close>

text \<open>
  A float cursor is compared with the stored text as text: after a sync that ended at \<open>x\<close>, a row with a
  greater cursor \<open>y\<close> is dropped when its decimal text is smaller (10.5 after 9.5).
\<close>

lemma float_cursor_drops_row:
  assumes "x < y" "plain_text lib (py_strip (cl_str_float lib x))" "str_less (cl_str_float lib y) (py_strip (cl_str_float lib x))"
    and "cell_of r prp = CFloat y"
  shows "\<exists>adv. advance_cursor lib [r] prp (Some (store_cursor lib (CFloat x))) boundary = Inr adv \<and> ca_rows adv = []"
proof -
  have ck: "text_key lib (cl_str_float lib x) = Inr (CText (py_strip (cl_str_float lib x)))" using assms(2) by (simp add: plain_text_def)
  have "\<not> str_less (py_strip (cl_str_float lib x)) (cl_str_float lib y)" using str_less_trans [OF assms(3)] str_less_irrefl by blast
  then have "py_cmp lib (CFloat y) (CText (py_strip (cl_str_float lib x))) = Inr (- 1)"
    using ck assms(3) by (simp add: py_cmp_def cursor_key_def py_str_def three_way_def)
  with ck assms(4) show ?thesis
    by (simp add: advance_cursor_def new_tracker_def cursor_key_def [of lib "CText _"] cursor_key_def [of lib "CFloat _"] py_str_def
        store_cursor_def keep_one_def already_stored_def tracker_result_def Let_def)
qed

text \<open>Rows without a cursor are kept again by every sync until one with a cursor appears.\<close>

lemma null_cursor_rows_repeat:
  assumes "\<forall>r \<in> set rs. cell_of r prp = CNull"
  shows "\<exists>adv. advance_cursor lib rs prp None boundary = Inr adv \<and> ca_rows adv = rs \<and> ca_cursor adv = None \<and> \<not> ca_changed adv"
proof -
  have "keep lib rs tr = Inr (rs, tr)" if "tr_property tr = prp" "tr_last_key tr = None" for tr
    using assms that by (induction rs) (simp_all add: keep_one_def)
  then show ?thesis by (simp add: advance_cursor_def new_tracker_def tracker_result_def)
qed

text \<open>A file that appears with the modification time of the last one read and a smaller key is never read.\<close>

lemma same_mtime_file_skipped:
  assumes "\<And>m k. startswith (encode_file_cursor lib m k) ''{'' \<and>
      cl_loads lib (encode_file_cursor lib m k) = Some (JObj [(''v'', JInt 2), (''mtime_ns'', JInt m), (''key'', JStr k)])"
    and "str_less k' k"
  shows "k' \<notin> set (fst (select_files lib [(m, k'), (m, k)] (Some (encode_file_cursor lib m k))))"
proof -
  let ?c = "encode_file_cursor lib m k"
  have ne: "?c \<noteq> []" using assms(1) [of m k] by (auto simp: startswith_iff)
  have d: "decode_file_cursor lib (Some ?c) = Some (m, k)"
    using assms(1) [of m k] by (simp add: decode_file_cursor_def obj_get_def dict_get_def int_of_json_def)
  have "\<not> str_less k k'" using assms(2) str_less_trans str_less_irrefl by blast
  then have "filter (include_file lib [(m, k'), (m, k)] (Some ?c)) [(m, k'), (m, k)] = []"
    using ne d by (simp add: include_file_def pair_less_def)
  then show ?thesis by (simp add: select_files_def sort_pairs_def)
qed

end
