(* ===== verification/Holon_Scheduler.thy ===== *)
theory Holon_Scheduler
  imports Holon_Prelude
begin

text \<open>
  The scheduler of the Connectivity service: the bounded job runner of \<open>scheduler_jobs.py\<close> with its tenant
  and global semaphores, and the poll of \<open>ingest_scheduler.py\<close> that submits what is due. A job is a
  step relation: it waits for a slot of its tenant, then for a global slot, runs and ends; the
  event loop may interleave the jobs in any order. The jobs' own work, the advisory lock and the
  sleep between polls are not part of the model.
\<close>

section \<open>The runner\<close>

type_synonym job_key = "string \<times> string \<times> string"

datatype phase = Queued | HoldsTenant | Running | Done

record task =
  task_tenant :: string
  task_phase :: phase

record runner =
  rn_global :: nat
  rn_tenant_concurrency :: nat
  rn_tenants :: "(string, nat) dict"
  rn_jobs :: "(job_key, task) dict"

definition new_runner :: "int \<Rightarrow> int \<Rightarrow> runner option" where
  "new_runner max_concurrency tenant_concurrency =
     (if max_concurrency < 1 \<or> tenant_concurrency < 1 then None
      else Some \<lparr>rn_global = nat max_concurrency, rn_tenant_concurrency = nat tenant_concurrency, rn_tenants = [], rn_jobs = []\<rparr>)"

definition is_running :: "job_key \<Rightarrow> runner \<Rightarrow> bool" where
  "is_running k rn = (case dict_get (rn_jobs rn) k of Some t \<Rightarrow> task_phase t \<noteq> Done | None \<Rightarrow> False)"

definition submit :: "job_key \<Rightarrow> string \<Rightarrow> runner \<Rightarrow> bool \<times> runner" where
  "submit k tid rn =
     (if is_running k rn then (False, rn)
      else (True, rn\<lparr>rn_jobs := dict_set k \<lparr>task_tenant = tid, task_phase = Queued\<rparr> (rn_jobs rn)\<rparr>))"

definition tenant_free :: "string \<Rightarrow> runner \<Rightarrow> nat" where
  "tenant_free tid rn = (case dict_get (rn_tenants rn) tid of Some n \<Rightarrow> n | None \<Rightarrow> rn_tenant_concurrency rn)"

definition set_phase :: "job_key \<Rightarrow> phase \<Rightarrow> runner \<Rightarrow> runner" where
  "set_phase k ph rn =
     (case dict_get (rn_jobs rn) k of
        None \<Rightarrow> rn
      | Some t \<Rightarrow> rn\<lparr>rn_jobs := dict_set k (t\<lparr>task_phase := ph\<rparr>) (rn_jobs rn)\<rparr>)"

definition set_free :: "string \<Rightarrow> nat \<Rightarrow> runner \<Rightarrow> runner" where
  "set_free tid n rn = rn\<lparr>rn_tenants := dict_set tid n (rn_tenants rn)\<rparr>"

definition reap :: "runner \<Rightarrow> runner" where
  "reap rn = rn\<lparr>rn_jobs := filter (\<lambda>(k, t). task_phase t \<noteq> Done) (rn_jobs rn)\<rparr>"

text \<open>The steps of one job: \<open>async with tenant, self._global\<close>.\<close>

inductive job_step :: "runner \<Rightarrow> runner \<Rightarrow> bool" where
  acquire_tenant: "dict_get (rn_jobs rn) k = Some t \<Longrightarrow> task_phase t = Queued \<Longrightarrow> 0 < tenant_free (task_tenant t) rn \<Longrightarrow>
    job_step rn (set_phase k HoldsTenant (set_free (task_tenant t) (tenant_free (task_tenant t) rn - 1) rn))"
| acquire_global: "dict_get (rn_jobs rn) k = Some t \<Longrightarrow> task_phase t = HoldsTenant \<Longrightarrow> 0 < rn_global rn \<Longrightarrow>
    job_step rn (set_phase k Running (rn\<lparr>rn_global := rn_global rn - 1\<rparr>))"
| finish: "dict_get (rn_jobs rn) k = Some t \<Longrightarrow> task_phase t = Running \<Longrightarrow>
    job_step rn (set_phase k Done (set_free (task_tenant t) (Suc (tenant_free (task_tenant t) rn)) (rn\<lparr>rn_global := Suc (rn_global rn)\<rparr>)))"

text \<open>Cancelling every job releases what it holds; then no job is left.\<close>

definition held_by :: "string \<Rightarrow> runner \<Rightarrow> nat" where
  "held_by tid rn = length (filter (\<lambda>(k, t). task_tenant t = tid \<and> task_phase t \<in> {HoldsTenant, Running}) (rn_jobs rn))"

definition running_jobs :: "runner \<Rightarrow> nat" where
  "running_jobs rn = length (filter (\<lambda>(k, t). task_phase t = Running) (rn_jobs rn))"

definition cancel_all :: "runner \<Rightarrow> runner" where
  "cancel_all rn = rn\<lparr>rn_global := rn_global rn + running_jobs rn,
     rn_tenants := map (\<lambda>(tid, n). (tid, n + held_by tid rn)) (rn_tenants rn), rn_jobs := []\<rparr>"

section \<open>What is due\<close>

definition is_due :: "real \<Rightarrow> real option \<Rightarrow> real \<Rightarrow> bool" where
  "is_due now last_finished interval = (case last_finished of None \<Rightarrow> True | Some t \<Rightarrow> interval \<le> now - t)"

text \<open>The latest finish of a dataset, in the tables of successful and of failed runs.\<close>

fun latest :: "real list \<Rightarrow> real option" where
  "latest [] = None"
| "latest (t # ts) = Some (case latest ts of None \<Rightarrow> t | Some u \<Rightarrow> max t u)"

record schedule =
  sc_kind :: string
  sc_tenant :: string
  sc_name :: string
  sc_interval_minutes :: real

definition schedule_key :: "schedule \<Rightarrow> job_key" where
  "schedule_key s = (sc_kind s, sc_tenant s, sc_name s)"

text \<open>
  Finishes in the order of their run ids: a sync counts its latest finish, success or failure; a pipeline
  the finish of its last run. Plugins without a dataset are not among the schedules.
\<close>

definition last_finish :: "schedule \<Rightarrow> real list \<Rightarrow> real option" where
  "last_finish s ts = (if sc_kind s = ''pipeline'' then (if ts = [] then None else Some (last ts)) else latest ts)"

fun submit_due_jobs :: "(schedule \<Rightarrow> real list) \<Rightarrow> real \<Rightarrow> schedule list \<Rightarrow> runner \<Rightarrow> runner" where
  "submit_due_jobs finished now [] rn = rn"
| "submit_due_jobs finished now (s # ss) rn =
     submit_due_jobs finished now ss
       (if is_running (schedule_key s) rn then rn
        else if \<not> is_due now (last_finish s (finished s)) (60 * sc_interval_minutes s) then rn
        else snd (submit (schedule_key s) (sc_tenant s) rn))"

section \<open>Interleavings\<close>

inductive runner_reach :: "nat \<Rightarrow> nat \<Rightarrow> runner \<Rightarrow> bool" for gmax tmax where
  init: "new_runner (int gmax) (int tmax) = Some rn \<Longrightarrow> runner_reach gmax tmax rn"
| poll: "runner_reach gmax tmax rn \<Longrightarrow> runner_reach gmax tmax (submit_due_jobs finished now ss rn)"
| job: "runner_reach gmax tmax rn \<Longrightarrow> job_step rn rn' \<Longrightarrow> runner_reach gmax tmax rn'"
| reaped: "runner_reach gmax tmax rn \<Longrightarrow> runner_reach gmax tmax (reap rn)"
| cancelled: "runner_reach gmax tmax rn \<Longrightarrow> runner_reach gmax tmax (cancel_all rn)"

text \<open>Free and held slots add up to the limits.\<close>

definition runner_ok :: "nat \<Rightarrow> nat \<Rightarrow> runner \<Rightarrow> bool" where
  "runner_ok gmax tmax rn \<longleftrightarrow>
     dict_wf (rn_jobs rn) \<and> dict_wf (rn_tenants rn) \<and> rn_tenant_concurrency rn = tmax \<and> 0 < gmax \<and> 0 < tmax \<and>
     rn_global rn + running_jobs rn = gmax \<and> (\<forall>tid. tenant_free tid rn + held_by tid rn = tmax)"

lemma count_dict_set:
  "length (filter P (dict_set k v d)) + (case dict_get d k of Some w \<Rightarrow> of_bool (P (k, w)) | None \<Rightarrow> 0) =
   length (filter P d) + of_bool (P (k, v))"
  by (induction d) (auto simp: dict_set_def dict_get_def split: option.splits)

text \<open>What changing the phase of one job does to the two counts.\<close>

lemma phase_counts:
  assumes "dict_get (rn_jobs rn) k = Some t"
  shows "running_jobs (set_phase k ph rn) + of_bool (task_phase t = Running) = running_jobs rn + of_bool (ph = Running)"
    and "held_by tid (set_phase k ph rn) + of_bool (task_tenant t = tid \<and> task_phase t \<in> {HoldsTenant, Running}) =
      held_by tid rn + of_bool (task_tenant t = tid \<and> ph \<in> {HoldsTenant, Running})"
  using count_dict_set [of "\<lambda>(k, t). task_phase t = Running" k "t\<lparr>task_phase := ph\<rparr>" "rn_jobs rn"]
    count_dict_set [of "\<lambda>(k, t). task_tenant t = tid \<and> task_phase t \<in> {HoldsTenant, Running}" k "t\<lparr>task_phase := ph\<rparr>" "rn_jobs rn"] assms
  by (simp_all add: running_jobs_def held_by_def set_phase_def)

lemma runner_frame [simp]:
  "running_jobs (set_free tid n rn) = running_jobs rn" "running_jobs (rn\<lparr>rn_global := g\<rparr>) = running_jobs rn"
  "held_by tid' (set_free tid n rn) = held_by tid' rn" "held_by tid' (rn\<lparr>rn_global := g\<rparr>) = held_by tid' rn"
  "rn_jobs (set_free tid n rn) = rn_jobs rn" "rn_global (set_free tid n rn) = rn_global rn"
  "rn_tenant_concurrency (set_free tid n rn) = rn_tenant_concurrency rn" "rn_global (set_phase k ph rn) = rn_global rn"
  "rn_tenants (set_phase k ph rn) = rn_tenants rn" "rn_tenant_concurrency (set_phase k ph rn) = rn_tenant_concurrency rn"
  "tenant_free tid' (rn\<lparr>rn_jobs := js\<rparr>) = tenant_free tid' rn"
  "tenant_free tid' (set_phase k ph rn) = tenant_free tid' rn" "tenant_free tid' (rn\<lparr>rn_global := g\<rparr>) = tenant_free tid' rn"
  "tenant_free tid' (set_free tid n rn) = (if tid' = tid then n else tenant_free tid' rn)"
  by (simp_all add: running_jobs_def held_by_def set_free_def set_phase_def tenant_free_def split: option.splits)

lemma set_phase_wf [simp]: "dict_wf (rn_jobs rn) \<Longrightarrow> dict_wf (rn_jobs (set_phase k ph rn))"
  by (simp add: set_phase_def split: option.splits)

lemma set_free_wf [simp]: "dict_wf (rn_tenants rn) \<Longrightarrow> dict_wf (rn_tenants (set_free tid n rn))"
  by (simp add: set_free_def)

lemma job_step_ok: "job_step rn rn' \<Longrightarrow> runner_ok gmax tmax rn \<Longrightarrow> runner_ok gmax tmax rn'"
proof (induction rule: job_step.induct)
  case (acquire_tenant rn k t)
  let ?rn = "set_free (task_tenant t) (tenant_free (task_tenant t) rn - 1) rn"
  have "dict_get (rn_jobs ?rn) k = Some t" using acquire_tenant by simp
  from phase_counts(1) [OF this, of HoldsTenant] phase_counts(2) [OF this, of _ HoldsTenant] acquire_tenant show ?case
    by (auto simp: runner_ok_def)
next
  case (acquire_global rn k t)
  let ?rn = "rn\<lparr>rn_global := rn_global rn - 1\<rparr>"
  have "dict_get (rn_jobs ?rn) k = Some t" using acquire_global by simp
  from phase_counts(1) [OF this, of Running] phase_counts(2) [OF this, of _ Running] acquire_global show ?case by (auto simp: runner_ok_def)
next
  case (finish rn k t)
  let ?rn = "set_free (task_tenant t) (Suc (tenant_free (task_tenant t) rn)) (rn\<lparr>rn_global := Suc (rn_global rn)\<rparr>)"
  have "dict_get (rn_jobs ?rn) k = Some t" using finish by simp
  note counts = phase_counts(1) [OF this, of Done] phase_counts(2) [OF this, of _ Done]
  have "tenant_free tid (set_phase k Done ?rn) + held_by tid (set_phase k Done ?rn) = tmax" for tid
  proof -
    from finish have "tenant_free tid rn + held_by tid rn = tmax" by (simp add: runner_ok_def)
    with counts(2) [of tid] finish.hyps show ?thesis by (cases "tid = task_tenant t") simp_all
  qed
  with counts(1) finish show ?case by (auto simp: runner_ok_def)
qed

lemma submit_ok: "runner_ok gmax tmax rn \<Longrightarrow> runner_ok gmax tmax (snd (submit k tid rn))"
proof (cases "is_running k rn")
  case False
  let ?t = "\<lparr>task_tenant = tid, task_phase = Queued\<rparr>"
  assume ok: "runner_ok gmax tmax rn"
  from False have "case dict_get (rn_jobs rn) k of Some t \<Rightarrow> task_phase t = Done | None \<Rightarrow> True"
    by (simp add: is_running_def split: option.splits)
  then have "running_jobs (snd (submit k tid rn)) = running_jobs rn" "held_by tid' (snd (submit k tid rn)) = held_by tid' rn" for tid'
    using False count_dict_set [of "\<lambda>(k, t). task_phase t = Running" k ?t "rn_jobs rn"]
      count_dict_set [of "\<lambda>(k, t). task_tenant t = tid' \<and> task_phase t \<in> {HoldsTenant, Running}" k ?t "rn_jobs rn"]
    by (auto simp: submit_def running_jobs_def held_by_def split: option.splits)
  with ok False show ?thesis by (simp add: runner_ok_def submit_def)
qed (simp add: submit_def)

lemma poll_ok: "runner_ok gmax tmax rn \<Longrightarrow> runner_ok gmax tmax (submit_due_jobs finished now ss rn)"
  by (induction ss arbitrary: rn) (auto intro: submit_ok)

lemma reap_ok: "runner_ok gmax tmax rn \<Longrightarrow> runner_ok gmax tmax (reap rn)"
proof -
  have "running_jobs (reap rn) = running_jobs rn" "held_by tid (reap rn) = held_by tid rn" for tid
    by (auto simp: running_jobs_def held_by_def reap_def intro!: arg_cong [where f = length] filter_cong)
  then show "runner_ok gmax tmax rn \<Longrightarrow> runner_ok gmax tmax (reap rn)"
    by (simp add: runner_ok_def) (simp add: reap_def)
qed

lemma cancel_ok: "runner_ok gmax tmax rn \<Longrightarrow> runner_ok gmax tmax (cancel_all rn)"
proof -
  assume ok: "runner_ok gmax tmax rn"
  have d: "dict_get (map (\<lambda>(tid, n). (tid, f tid n)) d) tid = map_option (f tid) (dict_get d tid)" for f :: "string \<Rightarrow> nat \<Rightarrow> nat" and d tid
    by (induction d) (auto simp: dict_get_def)
  have wf: "dict_wf (map (\<lambda>(tid, n). (tid, f tid n)) d) = dict_wf d" for f :: "string \<Rightarrow> nat \<Rightarrow> nat" and d
    by (simp add: dict_wf_def o_def case_prod_beta)
  have "tenant_free tid (cancel_all rn) + held_by tid (cancel_all rn) = tmax" for tid
  proof (cases "dict_get (rn_tenants rn) tid")
    case None
    with ok show ?thesis by (simp add: cancel_all_def tenant_free_def held_by_def runner_ok_def d)
  next
    case (Some n)
    with ok have "n + held_by tid rn = tmax" by (auto simp: runner_ok_def tenant_free_def split: option.splits dest: spec [of _ tid])
    with Some show ?thesis by (simp add: cancel_all_def tenant_free_def held_by_def [of tid "_\<lparr>rn_jobs := []\<rparr>"] d)
  qed
  with ok show ?thesis by (simp add: runner_ok_def) (simp add: cancel_all_def running_jobs_def wf)
qed

lemma reach_runner_ok: "runner_reach gmax tmax rn \<Longrightarrow> runner_ok gmax tmax rn"
proof (induction rule: runner_reach.induct)
  case (init rn)
  then show ?case by (auto simp: new_runner_def runner_ok_def running_jobs_def held_by_def tenant_free_def split: if_splits)
qed (auto intro: job_step_ok poll_ok reap_ok cancel_ok)

section \<open>Progress\<close>

fun phase_weight :: "phase \<Rightarrow> nat" where
  "phase_weight Queued = 3"
| "phase_weight HoldsTenant = 2"
| "phase_weight Running = 1"
| "phase_weight Done = 0"

definition work_left :: "runner \<Rightarrow> nat" where
  "work_left rn = (\<Sum>(k, t) \<leftarrow> rn_jobs rn. phase_weight (task_phase t))"

lemma sum_dict_set:
  fixes f :: "'k \<times> 'v \<Rightarrow> nat"
  shows "dict_get d k = Some w \<Longrightarrow> sum_list (map f (dict_set k v d)) + f (k, w) = sum_list (map f d) + f (k, v)"
  by (induction d) (auto simp: dict_set_def dict_get_def split: if_splits)

lemma set_phase_work:
  "dict_get (rn_jobs rn) k = Some t \<Longrightarrow> work_left (set_phase k ph rn) + phase_weight (task_phase t) = work_left rn + phase_weight ph"
  using sum_dict_set [of "rn_jobs rn" k t "\<lambda>(k, t). phase_weight (task_phase t)" "t\<lparr>task_phase := ph\<rparr>"]
  by (simp add: work_left_def set_phase_def)

lemma work_left_frame [simp]: "work_left (set_free tid n rn) = work_left rn" "work_left (rn\<lparr>rn_global := g\<rparr>) = work_left rn"
  by (simp_all add: work_left_def set_free_def)

lemma job_step_work: "job_step rn rn' \<Longrightarrow> Suc (work_left rn') = work_left rn"
proof (induction rule: job_step.induct)
  case (acquire_tenant rn k t)
  then show ?case using set_phase_work [of "set_free (task_tenant t) (tenant_free (task_tenant t) rn - 1) rn" k t HoldsTenant] by simp
next
  case (acquire_global rn k t)
  then show ?case using set_phase_work [of "rn\<lparr>rn_global := rn_global rn - 1\<rparr>" k t Running] by simp
next
  case (finish rn k t)
  then show ?case
    using set_phase_work [of "set_free (task_tenant t) (Suc (tenant_free (task_tenant t) rn)) (rn\<lparr>rn_global := Suc (rn_global rn)\<rparr>)" k t Done] by simp
qed

lemma work_left_bound: "work_left rn \<le> 3 * length (rn_jobs rn)"
proof -
  have "phase_weight (task_phase t) \<le> 3" for t by (cases "task_phase t") simp_all
  then have "sum_list (map (\<lambda>(k, t). phase_weight (task_phase t)) d) \<le> 3 * length d" for d :: "(job_key, task) dict"
    by (induction d) (auto intro: add_mono)
  then show ?thesis by (simp add: work_left_def)
qed

lemma steps_work: "(job_step ^^ n) rn rn' \<Longrightarrow> work_left rn' + n = work_left rn"
proof (induction n arbitrary: rn')
  case (Suc n)
  then obtain rn1 where "(job_step ^^ n) rn rn1" "job_step rn1 rn'" by auto
  with Suc.IH job_step_work show ?case by fastforce
qed simp

lemma steps_ok: "(job_step ^^ n) rn rn' \<Longrightarrow> runner_ok gmax tmax rn \<Longrightarrow> runner_ok gmax tmax rn'"
  by (induction n arbitrary: rn') (auto dest: job_step_ok)

text \<open>As long as a job is not done, some job can take a step.\<close>

lemma no_deadlock:
  assumes ok: "runner_ok gmax tmax rn" and k: "is_running k rn"
  shows "\<exists>rn'. job_step rn rn'"
proof -
  have get: "dict_get (rn_jobs rn) j = Some u" if "(j, u) \<in> set (rn_jobs rn)" for j u
    using ok that by (auto simp: runner_ok_def intro: dict_mem_get)
  from k obtain t where t: "dict_get (rn_jobs rn) k = Some t" "task_phase t \<noteq> Done" by (auto simp: is_running_def split: option.splits)
  consider (running) j u where "(j, u) \<in> set (rn_jobs rn)" "task_phase u = Running"
    | (holds) j u where "(j, u) \<in> set (rn_jobs rn)" "task_phase u = HoldsTenant" "running_jobs rn = 0"
    | (queued) "running_jobs rn = 0" "\<forall>tid. held_by tid rn = 0"
    by (fastforce simp: running_jobs_def held_by_def filter_empty_conv)
  then show ?thesis
  proof cases
    case running
    then show ?thesis using job_step.finish [OF get] by blast
  next
    case holds
    with ok have "0 < rn_global rn" by (auto simp: runner_ok_def)
    with holds show ?thesis using job_step.acquire_global [OF get] by blast
  next
    case queued
    have "task_phase t = Queued"
      using queued dict_get_mem [OF t(1)] t(2)
      by (cases "task_phase t") (fastforce simp: held_by_def running_jobs_def filter_empty_conv)+
    moreover have "0 < tenant_free (task_tenant t) rn"
      using ok queued(2) unfolding runner_ok_def by (metis add.right_neutral)
    ultimately show ?thesis using job_step.acquire_tenant [OF t(1)] by blast
  qed
qed

text \<open>
  C8. In every interleaving of polls, jobs, reaping and cancellation at most \<open>gmax\<close> jobs run, a tenant holds
  at most \<open>tmax\<close> slots and its free slots depend on its own jobs only; and without further polls every
  job ends: no run of the jobs is longer than three steps per job, and one that cannot be
  continued has left no job waiting or running.
\<close>

theorem scheduler_bounded_and_live:
  assumes "runner_reach gmax tmax rn"
  shows "running_jobs rn \<le> gmax \<and> (\<forall>tid. tenant_free tid rn = tmax - held_by tid rn \<and> held_by tid rn \<le> tmax) \<and>
    (\<forall>n rn'. (job_step ^^ n) rn rn' \<longrightarrow> n \<le> 3 * length (rn_jobs rn) \<and> ((\<nexists>rn''. job_step rn' rn'') \<longrightarrow> (\<forall>k. \<not> is_running k rn')))"
proof (intro conjI allI impI)
  have ok: "runner_ok gmax tmax rn" by (rule reach_runner_ok [OF assms])
  then show "running_jobs rn \<le> gmax" by (auto simp: runner_ok_def)
  fix tid
  from ok have "tenant_free tid rn + held_by tid rn = tmax" by (simp add: runner_ok_def)
  then show "tenant_free tid rn = tmax - held_by tid rn" "held_by tid rn \<le> tmax" by simp_all
next
  fix n rn'
  assume steps: "(job_step ^^ n) rn rn'"
  from steps_work [OF steps] work_left_bound [of rn] show "n \<le> 3 * length (rn_jobs rn)" by simp
  fix k
  assume "\<nexists>rn''. job_step rn' rn''"
  with no_deadlock [OF steps_ok [OF steps reach_runner_ok [OF assms]]] show "\<not> is_running k rn'" by blast
qed

definition two_sources :: "schedule list" where
  "two_sources = map (\<lambda>n. \<lparr>sc_kind = ''sync'', sc_tenant = ''acme'', sc_name = n, sc_interval_minutes = 5\<rparr>) [''orders'', ''items'']"

theorem scheduler_bounded_and_live_witness:
  "\<exists>rn. length (rn_jobs rn) = 2 \<and> running_jobs rn \<le> 2 \<and> held_by ''acme'' rn \<le> 1"
proof -
  let ?start = "\<lparr>rn_global = 2, rn_tenant_concurrency = 1, rn_tenants = [], rn_jobs = []\<rparr>"
  let ?rn = "submit_due_jobs (\<lambda>_. []) 0 two_sources ?start"
  have "runner_reach 2 1 ?start" by (rule runner_reach.init) (simp add: new_runner_def)
  from runner_reach.poll [OF this, of "\<lambda>_. []" 0 two_sources] have "runner_reach 2 1 ?rn" .
  moreover have "length (rn_jobs ?rn) = 2" by code_simp
  ultimately show ?thesis using scheduler_bounded_and_live [of 2 1 ?rn] by blast
qed

end
