(* ===== verification/Holon_Paging.thy ===== *)
theory Holon_Paging
  imports Holon_Compare "HOL-Library.Multiset"
begin

text \<open>
  Keyset paging of the Knowledge service (\<open>paging.py\<close>): page tokens, the sort key of an instance id and
  the page of a collection. Base64 and JSON are the fields of \<open>token_lib\<close>; the stripping and restoring of
  the padding is the code's. A row is a JSON object.
\<close>

section \<open>Sort keys\<close>

text \<open>\<open>(0, int(text))\<close> or \<open>(1, text)\<close>, in the order of tuples.\<close>

datatype page_key = NumKey nat | TextKey string

instantiation page_key :: linorder
begin

fun less_page_key :: "page_key \<Rightarrow> page_key \<Rightarrow> bool" where
  "less_page_key (NumKey m) (NumKey n) = (m < n)"
| "less_page_key (NumKey m) (TextKey t) = True"
| "less_page_key (TextKey s) (NumKey n) = False"
| "less_page_key (TextKey s) (TextKey t) = str_less s t"

definition less_eq_page_key :: "page_key \<Rightarrow> page_key \<Rightarrow> bool" where
  "less_eq_page_key a b = (a = b \<or> a < b)"

instance
proof
  have trans: "a < b \<Longrightarrow> b < c \<Longrightarrow> a < c" for a b c :: page_key
    by (cases a; cases b; cases c) (auto intro: str_less_trans)
  have irrefl: "\<not> a < a" for a :: page_key by (cases a) simp_all
  have total: "a < b \<or> a = b \<or> b < a" for a b :: page_key
  proof -
    from str_less_total show ?thesis by (cases a; cases b) auto
  qed
  fix x y z :: page_key
  show "x < y \<longleftrightarrow> x \<le> y \<and> \<not> y \<le> x" unfolding less_eq_page_key_def by (metis trans irrefl)
  show "x \<le> x" by (simp add: less_eq_page_key_def)
  show "x \<le> y \<Longrightarrow> y \<le> z \<Longrightarrow> x \<le> z" using trans by (auto simp: less_eq_page_key_def)
  show "x \<le> y \<Longrightarrow> y \<le> x \<Longrightarrow> x = y" unfolding less_eq_page_key_def by (metis trans irrefl)
  show "x \<le> y \<or> y \<le> x" using total by (auto simp: less_eq_page_key_def)
qed

end

datatype page_error = PagingError string | NotDecimal string

record token_lib =
  tl_str :: "json \<Rightarrow> string"
  tl_dumps :: "json \<Rightarrow> string"
  tl_loads :: "string \<Rightarrow> json option"
  tl_b64encode :: "string \<Rightarrow> string"
  tl_b64decode :: "string \<Rightarrow> string option"

definition default_page_size :: int where
  "default_page_size = 50"

definition max_page_size :: int where
  "max_page_size = 100"

definition max_walk_items :: int where
  "max_walk_items = 10000"

definition clamp_page_size :: "json \<Rightarrow> (page_error, int) result" where
  "clamp_page_size page_size =
     (case page_size of
        JNull \<Rightarrow> Inr default_page_size
      | JInt n \<Rightarrow>
          if n < 1 then Inl (PagingError ''pageSize must be a positive integer'')
          else if max_walk_items < n then Inl (PagingError ''pageSize too large'') else Inr n
      | _ \<Rightarrow> Inl (PagingError ''pageSize must be a positive integer''))"

definition id_text :: "token_lib \<Rightarrow> json \<Rightarrow> string" where
  "id_text lib j = (case j of JNull \<Rightarrow> [] | JStr s \<Rightarrow> s | JInt i \<Rightarrow> show_int i | _ \<Rightarrow> tl_str lib j)"

definition sort_key_of :: "token_lib \<Rightarrow> json \<Rightarrow> (page_error, page_key) result" where
  "sort_key_of lib instance_id =
     (let text = id_text lib instance_id in
      if py_isdigit text then
        (case py_int text of Some i \<Rightarrow> Inr (NumKey (nat i)) | None \<Rightarrow> Inl (NotDecimal text))
      else Inr (TextKey text))"

definition instance_id_of :: "payload \<Rightarrow> (page_error, json) result" where
  "instance_id_of row =
     (if obj_get row ''id'' = JNull then Inl (PagingError ''row missing id'') else Inr (obj_get row ''id''))"

definition interface_instance_key :: "token_lib \<Rightarrow> payload \<Rightarrow> (page_error, json) result" where
  "interface_instance_key lib row =
     rbind (instance_id_of row) (\<lambda>i.
       Inr (JStr ((if truthy (obj_get row ''_objectType'') then id_text lib (obj_get row ''_objectType'') else []) @ '':'' @ id_text lib i)))"

section \<open>Page tokens\<close>

definition cursor_version :: int where
  "cursor_version = 1"

definition encode_cursor :: "token_lib \<Rightarrow> json \<Rightarrow> string" where
  "encode_cursor lib after_id =
     rstrip_chars ''='' (tl_b64encode lib (tl_dumps lib (JObj [(''v'', JInt cursor_version), (''after_id'', after_id)])))"

definition pad_of :: "string \<Rightarrow> string" where
  "pad_of s = replicate (nat ((- int (length s)) mod 4)) (CHR ''='')"

definition decode_cursor :: "token_lib \<Rightarrow> string \<Rightarrow> (page_error, json) result" where
  "decode_cursor lib cursor =
     (if cursor = [] then Inl (PagingError ''pageToken must be a non-empty string'')
      else (case tl_b64decode lib (cursor @ pad_of cursor) of
              None \<Rightarrow> Inl (PagingError ''invalid pageToken'')
            | Some raw \<Rightarrow>
                (case tl_loads lib raw of
                   Some (JObj d) \<Rightarrow>
                     if \<not> py_eq (JInt cursor_version) (obj_get d ''v'') then Inl (PagingError ''invalid pageToken'')
                     else (case dict_get d ''after_id'' of Some a \<Rightarrow> Inr a | None \<Rightarrow> Inl (PagingError ''invalid pageToken''))
                 | _ \<Rightarrow> Inl (PagingError ''invalid pageToken''))))"

section \<open>Pages\<close>

record page =
  pg_data :: "payload list"
  pg_next :: "string option"
  pg_size :: int

fun keyed_rows :: "token_lib \<Rightarrow> (payload \<Rightarrow> (page_error, json) result) \<Rightarrow> payload list \<Rightarrow> (page_error, (page_key \<times> payload) list) result" where
  "keyed_rows lib key_of [] = Inr []"
| "keyed_rows lib key_of (r # rs) =
     rbind (key_of r) (\<lambda>i. rbind (sort_key_of lib i) (\<lambda>k. rbind (keyed_rows lib key_of rs) (\<lambda>ks. Inr ((k, r) # ks))))"

definition page_start :: "token_lib \<Rightarrow> string option \<Rightarrow> (page_key \<times> payload) list \<Rightarrow> (page_error, nat) result" where
  "page_start lib cursor ordered =
     (case cursor of
        None \<Rightarrow> Inr 0
      | Some c \<Rightarrow>
          rbind (decode_cursor lib c) (\<lambda>after_id. rbind (sort_key_of lib after_id) (\<lambda>after_key.
            Inr (length (takeWhile (\<lambda>p. \<not> after_key < fst p) ordered)))))"

definition paginate_rows ::
  "token_lib \<Rightarrow> (payload \<Rightarrow> (page_error, json) result) \<Rightarrow> payload list \<Rightarrow> json \<Rightarrow> string option \<Rightarrow> (page_error, page) result" where
  "paginate_rows lib key_of rows page_size cursor =
     rbind (clamp_page_size page_size) (\<lambda>sz.
     rbind (keyed_rows lib key_of rows) (\<lambda>keyed.
       let ordered = sort_key fst keyed in
       rbind (page_start lib cursor ordered) (\<lambda>start.
         let pag = map snd (take (nat sz) (drop start ordered)) in
         rbind (if int start + sz < int (length ordered) \<and> pag \<noteq> []
                then rbind (key_of (last pag)) (\<lambda>i. Inr (Some (encode_cursor lib i))) else Inr None) (\<lambda>next_token.
           Inr \<lparr>pg_data = pag, pg_next = next_token, pg_size = (if sz \<le> max_page_size then sz else default_page_size)\<rparr>))))"

text \<open>A client that follows the tokens until there is none, with at most \<open>n\<close> requests.\<close>

fun walk ::
  "nat \<Rightarrow> token_lib \<Rightarrow> (payload \<Rightarrow> (page_error, json) result) \<Rightarrow> payload list \<Rightarrow> json \<Rightarrow> string option \<Rightarrow> (page_error, page list) result option" where
  "walk 0 lib key_of rows sz cursor = None"
| "walk (Suc n) lib key_of rows sz cursor =
     (case paginate_rows lib key_of rows sz cursor of
        Inl e \<Rightarrow> Some (Inl e)
      | Inr p \<Rightarrow>
          (case pg_next p of
             None \<Rightarrow> Some (Inr [p])
           | Some t \<Rightarrow> map_option (\<lambda>r. rbind r (\<lambda>ps. Inr (p # ps))) (walk n lib key_of rows sz (Some t))))"

section \<open>Walking a collection\<close>

text \<open>
  Base64 writes a stem without padding characters, padded to a multiple of four, and reads it back; JSON
  reads back the payload of a token.
\<close>

definition base64_ok :: "token_lib \<Rightarrow> bool" where
  "base64_ok lib \<longleftrightarrow>
     (\<forall>raw. \<exists>stem. tl_b64encode lib raw = stem @ pad_of stem \<and> CHR ''='' \<notin> set stem \<and> (raw \<noteq> [] \<longrightarrow> stem \<noteq> []) \<and>
       tl_b64decode lib (tl_b64encode lib raw) = Some raw)"

definition json_id_ok :: "token_lib \<Rightarrow> json \<Rightarrow> bool" where
  "json_id_ok lib i \<longleftrightarrow>
     (let d = JObj [(''v'', JInt cursor_version), (''after_id'', i)] in tl_dumps lib d \<noteq> [] \<and> tl_loads lib (tl_dumps lib d) = Some d)"

lemma rstrip_pad: "CHR ''='' \<notin> set stem \<Longrightarrow> rstrip_chars ''='' (stem @ replicate n (CHR ''='')) = stem"
proof -
  assume "CHR ''='' \<notin> set stem"
  then have "dropWhile (\<lambda>x. x = CHR ''='') (rev stem) = rev stem" by (cases "rev stem") (auto simp: dropWhile_eq_self_iff)
  then show ?thesis by (simp add: rstrip_chars_def dropWhile_append)
qed

lemma cursor_roundtrip:
  assumes "base64_ok lib" "json_id_ok lib i"
  shows "decode_cursor lib (encode_cursor lib i) = Inr i"
proof -
  let ?d = "JObj [(''v'', JInt cursor_version), (''after_id'', i)]"
  from assms(1) obtain stem where st: "tl_b64encode lib (tl_dumps lib ?d) = stem @ pad_of stem" "CHR ''='' \<notin> set stem"
    "tl_dumps lib ?d \<noteq> [] \<longrightarrow> stem \<noteq> []" "tl_b64decode lib (tl_b64encode lib (tl_dumps lib ?d)) = Some (tl_dumps lib ?d)"
    unfolding base64_ok_def by blast
  have "encode_cursor lib i = stem" using st(1,2) by (simp add: encode_cursor_def pad_of_def rstrip_pad)
  moreover have "tl_loads lib (tl_dumps lib ?d) = Some ?d" "stem \<noteq> []" using assms(2) st(3) by (simp_all add: json_id_ok_def Let_def)
  moreover have "tl_b64decode lib (stem @ pad_of stem) = Some (tl_dumps lib ?d)" using st(1,4) by simp
  ultimately show ?thesis by (simp add: decode_cursor_def obj_get_def dict_get_def)
qed

lemma keyed_rows_member:
  "keyed_rows lib key_of rows = Inr keyed \<Longrightarrow> (k, r) \<in> set keyed \<Longrightarrow> r \<in> set rows \<and> (\<exists>i. key_of r = Inr i \<and> sort_key_of lib i = Inr k)"
  by (induction rows arbitrary: keyed) (auto simp: res_simps)

lemma keyed_rows_rows: "keyed_rows lib key_of rows = Inr keyed \<Longrightarrow> map snd keyed = rows"
  by (induction rows arbitrary: keyed) (auto simp: res_simps)

text \<open>In a strictly sorted list the entries up to the one before \<open>m\<close> are the first \<open>m\<close>.\<close>

lemma strict_prefix_length:
  fixes ks :: "('k::linorder \<times> 'v) list"
  assumes "sorted (map fst ks)" "distinct (map fst ks)" "0 < m" "m \<le> length ks"
  shows "length (takeWhile (\<lambda>p. \<not> fst (ks ! (m - 1)) < fst p) ks) = m"
proof (rule takeWhile_eq_take_P_nth [THEN arg_cong, where f = length, THEN trans])
  fix i assume "i < m" "i < length ks"
  then have "i \<le> m - 1" "m - 1 < length (map fst ks)" using assms(3,4) by auto
  then show "\<not> fst (ks ! (m - 1)) < fst (ks ! i)"
    using sorted_nth_mono [OF assms(1), of i "m - 1"] by (simp add: not_less)
next
  assume "m < length ks"
  then have "fst (ks ! (m - 1)) \<le> fst (ks ! m)" using sorted_nth_mono [OF assms(1), of "m - 1" m] by simp
  moreover have "fst (ks ! (m - 1)) \<noteq> fst (ks ! m)"
    using nth_eq_iff_index_eq [OF assms(2), of "m - 1" m] \<open>m < length ks\<close> assms(3) by simp
  ultimately have "fst (ks ! (m - 1)) < fst (ks ! m)" by simp
  then show "\<not> \<not> fst (ks ! (m - 1)) < fst (ks ! m)" by simp
qed (use assms(4) in simp)

text \<open>The position a token stands for: none at the start, else the id of the row before position \<open>m\<close>.\<close>

definition token_at :: "token_lib \<Rightarrow> (payload \<Rightarrow> (page_error, json) result) \<Rightarrow> payload list \<Rightarrow> nat \<Rightarrow> string option \<Rightarrow> bool" where
  "token_at lib key_of ordered m c \<longleftrightarrow>
     (if m = 0 then c = None else m \<le> length ordered \<and> (\<exists>i. key_of (ordered ! (m - 1)) = Inr i \<and> c = Some (encode_cursor lib i)))"

text \<open>The number of pages of \<open>n\<close> rows that \<open>k\<close> rows fill; an empty collection is one page.\<close>

definition page_count :: "nat \<Rightarrow> nat \<Rightarrow> nat" where
  "page_count k n = max 1 ((k + n - 1) div n)"

lemma page_count_last: "0 < n \<Longrightarrow> k \<le> n \<Longrightarrow> page_count k n = 1"
proof -
  assume "0 < n" "k \<le> n"
  then have "(k + n - 1) div n \<le> (2 * n - 1) div n" by (intro div_le_mono) simp
  also have "\<dots> \<le> 1" using \<open>0 < n\<close> by (simp add: less_Suc_eq_le [symmetric] div_less_iff_less_mult)
  finally show ?thesis by (simp add: page_count_def)
qed

lemma page_count_step: "0 < n \<Longrightarrow> n < k \<Longrightarrow> page_count k n = Suc (page_count (k - n) n)"
proof -
  assume n: "0 < n" "n < k"
  then have "k + n - 1 = k - 1 + n" "k - n + n - 1 = k - 1" by simp_all
  moreover have "1 \<le> (k - 1) div n" using n by (simp add: Suc_le_eq div_greater_zero_iff)
  ultimately show ?thesis using n(1) by (simp only: page_count_def div_add_self2 max_def) simp
qed

lemma page_count_le: "0 < n \<Longrightarrow> page_count k n \<le> max 1 k"
proof (cases "k \<le> n")
  case False
  assume "0 < n"
  then have "(k + n - 1) div n \<le> k"
    using False by (cases n) (auto simp: less_Suc_eq_le [symmetric] div_less_iff_less_mult)
  then show ?thesis by (simp add: page_count_def)
qed (simp add: page_count_last)

lemma walk_from:
  assumes lib: "base64_ok lib" "\<And>r i. r \<in> set rows \<Longrightarrow> key_of r = Inr i \<Longrightarrow> json_id_ok lib i"
    and keyed: "keyed_rows lib key_of rows = Inr keyed" "distinct (map fst keyed)" and sz: "clamp_page_size size0 = Inr n"
    and at: "token_at lib key_of (map snd (sort_key fst keyed)) m c"
    and fuel: "fuel = page_count (length rows - m) (nat n)"
  shows "\<exists>ps. walk fuel lib key_of rows size0 c = Some (Inr ps) \<and> length ps = fuel \<and>
    concat (map pg_data ps) = drop m (map snd (sort_key fst keyed)) \<and>
    (\<forall>p \<in> set (butlast ps). int (length (pg_data p)) = n) \<and> int (length (pg_data (last ps))) \<le> n \<and>
    (m < length rows \<longrightarrow> pg_data (last ps) \<noteq> [])"
  using at fuel
proof (induction fuel arbitrary: m c)
  case 0
  then show ?case by (simp add: page_count_def)
next
  case (Suc fuel)
  let ?o = "sort_key fst keyed"
  have len: "length ?o = length rows" using keyed_rows_rows [OF keyed(1)] by auto
  have n: "1 \<le> n" using sz by (auto simp: clamp_page_size_def default_page_size_def split: json.splits if_splits)
  have mle: "m \<le> length ?o" using Suc.prems(1) by (auto simp: token_at_def split: if_splits)
  have srt: "sorted (map fst ?o)" by simp
  have "distinct (map fst ?o)" using keyed(2) by (simp add: distinct_map inj_on_def)
  note strict = strict_prefix_length [OF srt this]
  have start: "page_start lib c ?o = Inr m"
  proof (cases "m = 0")
    case False
    then obtain i where i: "key_of (map snd ?o ! (m - 1)) = Inr i" "c = Some (encode_cursor lib i)"
      using Suc.prems(1) by (auto simp: token_at_def)
    have mem: "?o ! (m - 1) \<in> set keyed" using mle False nth_mem [of "m - 1" ?o] by simp
    obtain k r where kr: "?o ! (m - 1) = (k, r)" by fastforce
    with mem keyed_rows_member [OF keyed(1), of k r] i(1) mle False have "sort_key_of lib i = Inr k" "r \<in> set rows" "key_of r = Inr i" by auto
    with i(2) cursor_roundtrip [OF lib(1)] lib(2) strict [of m] False mle kr show ?thesis by (simp add: page_start_def)
  qed (use Suc.prems(1) in \<open>simp add: token_at_def page_start_def\<close>)
  let ?pag = "map snd (take (nat n) (drop m ?o))"
  have pg_len: "int (length ?pag) \<le> n" using n by simp
  show ?case
  proof (cases "int m + n < int (length ?o) \<and> ?pag \<noteq> []")
    case False
    then have short: "length rows - m \<le> nat n" using n mle len by auto
    then have all: "?pag = drop m (map snd ?o)" using len by (simp add: drop_map [symmetric])
    have "fuel = 0" using page_count_last [OF _ short] n Suc.prems(2) by simp
    moreover have "paginate_rows lib key_of rows size0 c = Inr \<lparr>pg_data = ?pag, pg_next = None, pg_size = (if n \<le> max_page_size then n else default_page_size)\<rparr>"
      using False by (auto simp: paginate_rows_def sz keyed(1) start Let_def)
    ultimately show ?thesis using pg_len all len by simp
  next
    case True
    then have pl: "length ?pag = nat n" "m + nat n \<le> length ?o" using n by auto
    have last: "last ?pag = map snd ?o ! (m + nat n - 1)"
      using True pl n by (subst last_conv_nth) (auto simp: nth_append)
    have "?o ! (m + nat n - 1) \<in> set keyed" using pl n True nth_mem [of "m + nat n - 1" ?o] by simp
    then obtain k r where kr: "?o ! (m + nat n - 1) = (k, r)" "(k, r) \<in> set keyed" by (metis surj_pair)
    with keyed_rows_member [OF keyed(1)] obtain i where i: "key_of r = Inr i" by blast
    have lr: "last ?pag = r" using last kr(1) pl n True by simp
    have pr: "paginate_rows lib key_of rows size0 c =
        Inr \<lparr>pg_data = ?pag, pg_next = Some (encode_cursor lib i), pg_size = (if n \<le> max_page_size then n else default_page_size)\<rparr>"
      using True i lr by (simp add: paginate_rows_def sz keyed(1) start Let_def)
    have tok: "token_at lib key_of (map snd ?o) (m + nat n) (Some (encode_cursor lib i))"
      using i lr last pl n by (simp add: token_at_def)
    have fuel: "fuel = page_count (length rows - (m + nat n)) (nat n)"
    proof -
      have "nat n < length rows - m" "0 < nat n" using True n len by auto
      from page_count_step [OF this(2,1)] Suc.prems(2) show ?thesis by simp
    qed
    from Suc.IH [OF tok fuel] obtain ps where
      ps: "walk fuel lib key_of rows size0 (Some (encode_cursor lib i)) = Some (Inr ps)" "length ps = fuel"
        "concat (map pg_data ps) = drop (m + nat n) (map snd ?o)"
        "\<forall>p \<in> set (butlast ps). int (length (pg_data p)) = n" "int (length (pg_data (last ps))) \<le> n"
        "m + nat n < length rows \<longrightarrow> pg_data (last ps) \<noteq> []"
      by blast
    have ne: "ps \<noteq> []" "m + nat n < length rows"
    proof -
      show "ps \<noteq> []" using ps(2) fuel by (cases ps) (simp_all add: page_count_def)
      show "m + nat n < length rows" using True n len by linarith
    qed
    have full: "int (length ?pag) = n" using pl(1) n by simp
    have split: "?pag @ drop (m + nat n) (map snd ?o) = drop m (map snd ?o)"
      using append_take_drop_id [of "nat n" "drop m (map snd ?o)"] by (simp add: take_map drop_map add.commute)
    let ?p = "\<lparr>pg_data = ?pag, pg_next = Some (encode_cursor lib i), pg_size = (if n \<le> max_page_size then n else default_page_size)\<rparr>"
    have "walk (Suc fuel) lib key_of rows size0 c = Some (Inr (?p # ps))"
      by (simp add: pr ps(1))
    moreover have "length (?p # ps) = Suc fuel" "last (?p # ps) = last ps" "butlast (?p # ps) = ?p # butlast ps"
      using ps(2) ne by simp_all
    moreover have "concat (map pg_data (?p # ps)) = drop m (map snd ?o)" using ps(3) split by simp
    moreover have "\<forall>q \<in> set (?p # butlast ps). int (length (pg_data q)) = n" using full ps(4) by simp
    ultimately show ?thesis using ps(5,6) ne(2) by (intro exI [of _ "?p # ps"]) (simp only: simp_thms)
  qed
qed

text \<open>
  C11. A client that follows the page tokens from the start gets every row of the collection exactly once, in
  the order of the sort keys, in exactly as many pages as the rows fill: every page but the last holds
  the requested number of rows, the last one is not empty unless the collection is, so there are at most
  as many pages as rows (one for an empty collection). Provided that no two rows have the same
  sort key and the token encoding reads back what it wrote.
\<close>

theorem paging_walk_complete:
  assumes "base64_ok lib" "\<forall>r \<in> set rows. \<forall>i. key_of r = Inr i \<longrightarrow> json_id_ok lib i"
    and "keyed_rows lib key_of rows = Inr keyed" "distinct (map fst keyed)" "clamp_page_size page_size = Inr n"
  shows "\<exists>ps. walk (page_count (length rows) (nat n)) lib key_of rows page_size None = Some (Inr ps) \<and>
    length ps = page_count (length rows) (nat n) \<and> length ps \<le> max 1 (length rows) \<and>
    concat (map pg_data ps) = map snd (sort_key fst keyed) \<and> mset (map snd (sort_key fst keyed)) = mset rows \<and>
    (\<forall>p \<in> set (butlast ps). int (length (pg_data p)) = n) \<and> int (length (pg_data (last ps))) \<le> n \<and>
    (rows \<noteq> [] \<longrightarrow> pg_data (last ps) \<noteq> [])"
proof -
  have start: "token_at lib key_of (map snd (sort_key fst keyed)) 0 None" by (simp add: token_at_def)
  have "0 < nat n" using assms(5) by (auto simp: clamp_page_size_def default_page_size_def split: json.splits if_splits)
  note few = page_count_le [OF this, of "length rows"]
  have "mset (map snd (sort_key fst keyed)) = mset rows"
    using arg_cong [OF keyed_rows_rows [OF assms(3)], of mset] by simp
  with few walk_from [OF assms(1) _ assms(3-5) start refl] assms(2) show ?thesis by fastforce
qed

section \<open>Witness and limit\<close>

definition nibbles :: "char \<Rightarrow> string" where
  "nibbles c = [char_of (97 + codept c div 16), char_of (97 + codept c mod 16)]"

fun unnibble :: "string \<Rightarrow> string" where
  "unnibble (a # b # r) = (if a = CHR ''='' then [] else char_of (16 * (codept a - 97) + (codept b - 97)) # unnibble r)"
| "unnibble _ = []"

definition hex_lib :: token_lib where
  "hex_lib = \<lparr>tl_str = (\<lambda>_. []),
     tl_dumps = (\<lambda>j. case j of JObj d \<Rightarrow> (case dict_get d ''after_id'' of Some (JStr s) \<Rightarrow> CHR ''j'' # s | _ \<Rightarrow> ''j'') | _ \<Rightarrow> ''j''),
     tl_loads = (\<lambda>s. Some (JObj [(''v'', JInt 1), (''after_id'', JStr (drop 1 s))])),
     tl_b64encode = (\<lambda>raw. let stem = concat (map nibbles raw) in stem @ pad_of stem),
     tl_b64decode = (\<lambda>s. Some (unnibble s))\<rparr>"

lemma nibble_char:
  "codept (char_of (97 + codept c div 16)) = 97 + codept c div 16" "codept (char_of (97 + codept c mod 16)) = 97 + codept c mod 16"
  "char_of (97 + codept c div 16) \<noteq> CHR ''=''" "char_of (97 + codept c mod 16) \<noteq> CHR ''=''"
proof -
  have "codept c < 256" by (simp add: codept_def)
  then have "97 + codept c div 16 < 256" "97 + codept c mod 16 < 256" by simp_all
  then show *: "codept (char_of (97 + codept c div 16)) = 97 + codept c div 16" "codept (char_of (97 + codept c mod 16)) = 97 + codept c mod 16"
    unfolding codept_def by (simp_all only: of_char_of mod_less)
  have "codept (CHR ''='') = 61" by (simp add: codept_def)
  with * show "char_of (97 + codept c div 16) \<noteq> CHR ''=''" "char_of (97 + codept c mod 16) \<noteq> CHR ''=''" by fastforce+
qed

lemma unnibble_nibbles: "unnibble (concat (map nibbles raw) @ replicate n (CHR ''='')) = raw"
proof (induction raw)
  case Nil
  show ?case by (cases n; cases "n - 1") simp_all
next
  case (Cons c raw)
  have "char_of (16 * (codept c div 16) + codept c mod 16) = c" by (simp add: codept_def)
  with Cons show ?case by (simp add: nibbles_def nibble_char)
qed

lemma hex_lib_base64: "base64_ok hex_lib"
proof -
  have "CHR ''='' \<notin> set (concat (map nibbles raw))" for raw using nibble_char(3,4) by (fastforce simp: nibbles_def)
  moreover have "raw \<noteq> [] \<longrightarrow> concat (map nibbles raw) \<noteq> []" for raw by (cases raw) (simp_all add: nibbles_def)
  ultimately have "\<exists>stem. tl_b64encode hex_lib raw = stem @ pad_of stem \<and> CHR ''='' \<notin> set stem \<and> (raw \<noteq> [] \<longrightarrow> stem \<noteq> []) \<and>
       tl_b64decode hex_lib (tl_b64encode hex_lib raw) = Some raw" for raw
    by (intro exI [of _ "concat (map nibbles raw)"] conjI) (simp_all add: hex_lib_def Let_def pad_of_def unnibble_nibbles del: set_concat)
  then show ?thesis by (simp add: base64_ok_def)
qed

definition id_row :: "string \<Rightarrow> payload" where
  "id_row s = [(''id'', JStr s)]"

theorem paging_walk_complete_witness:
  "\<exists>ps. walk 2 hex_lib instance_id_of [id_row ''2'', id_row ''10'', id_row ''1''] (JInt 2) None = Some (Inr ps) \<and>
     length ps = 2 \<and> concat (map pg_data ps) = [id_row ''1'', id_row ''2'', id_row ''10'']"
proof -
  let ?rows = "[id_row ''2'', id_row ''10'', id_row ''1'']"
  let ?keyed = "[(NumKey 2, id_row ''2''), (NumKey 10, id_row ''10''), (NumKey 1, id_row ''1'')]"
  have ids: "\<forall>r \<in> set ?rows. \<forall>i. instance_id_of r = Inr i \<longrightarrow> json_id_ok hex_lib i"
    by (auto simp: json_id_ok_def hex_lib_def id_row_def instance_id_of_def obj_get_def dict_get_def cursor_version_def Let_def)
  have keyed: "keyed_rows hex_lib instance_id_of ?rows = Inr ?keyed" by code_simp
  have srt: "map snd (sort_key fst ?keyed) = [id_row ''1'', id_row ''2'', id_row ''10'']" by code_simp
  have "clamp_page_size (JInt 2) = Inr 2" "distinct (map fst ?keyed)" by code_simp+
  moreover have "page_count 3 2 = 2" by code_simp
  ultimately show ?thesis
    using paging_walk_complete [OF hex_lib_base64 ids keyed, of "JInt 2" 2] srt by (auto simp: numeral_3_eq_3)
qed

text \<open>Two ids that are the same number, as \<open>1\<close> and \<open>01\<close>, are one key: the second row is lost at a page boundary.\<close>

lemma equal_keys_lost:
  "map_option (map_sum id (\<lambda>ps. concat (map pg_data ps))) (walk 5 hex_lib instance_id_of [id_row ''1'', id_row ''01''] (JInt 1) None) =
     Some (Inr [id_row ''1''])"
  by code_simp

text \<open>A page of more than 100 rows reports a page size of 50.\<close>

lemma reported_size:
  assumes "paginate_rows lib key_of rows (JInt n) cursor = Inr p" "100 < n"
  shows "pg_size p = 50"
  using assms by (auto simp: paginate_rows_def clamp_page_size_def res_simps max_page_size_def default_page_size_def Let_def split: if_splits)

end
