(* ===== verification/Holon_Migrations.thy ===== *)
theory Holon_Migrations
  imports Holon_Compare
begin

text \<open>
  The migration runner of \<open>migrations.py\<close>: the \<open>*.sql\<close> files of a service, the table of applied versions with their
  checksums, and the boot of a replica. The advisory lock serialises the boots, so a boot is one
  step. SHA-256 and the effect of a file on the database are the fields of \<open>migration_env\<close>; a file
  that fails, or whose record fails to be written, rolls its transaction back.
\<close>

section \<open>Files and state\<close>

record sql_file =
  file_name :: string
  file_sql :: string

record 'd database =
  db_schema :: 'd
  db_applied :: "(string, string option) dict"
  db_history :: "string list"

record 'd migration_env =
  me_checksum :: "string \<Rightarrow> string"
  me_execute :: "string \<Rightarrow> 'd \<Rightarrow> 'd option"

datatype migration_error = MigrationFilenameError "string list" | MigrationChecksumError string | SqlError string

definition lower_name_char :: "char \<Rightarrow> bool" where
  "lower_name_char c = ((97 \<le> codept c \<and> codept c \<le> 122) \<or> is_digit c \<or> c = CHR ''_'')"

text \<open>\<open>^\d{4}_[a-z0-9_]+\.sql$\<close> on a name that ends with \<open>.sql\<close>.\<close>

definition valid_filename :: "string \<Rightarrow> bool" where
  "valid_filename s =
     (let stem = take (length s - 4) s; body = drop 5 stem in
      endswith s ''.sql'' \<and> list_all is_digit (take 4 stem) \<and> 5 < length stem \<and> stem ! 4 = CHR ''_'' \<and> list_all lower_name_char body)"

fun insert_file :: "sql_file \<Rightarrow> sql_file list \<Rightarrow> sql_file list" where
  "insert_file f [] = [f]"
| "insert_file f (g # gs) = (if str_less (file_name g) (file_name f) then g # insert_file f gs else f # g # gs)"

definition sort_files :: "sql_file list \<Rightarrow> sql_file list" where
  "sort_files fs = foldr insert_file fs []"

section \<open>The runner\<close>

fun apply_files :: "'d migration_env \<Rightarrow> (string, string option) dict \<Rightarrow> sql_file list \<Rightarrow> 'd database \<Rightarrow> (migration_error, string list) result \<times> 'd database" where
  "apply_files env already [] db = (Inr [], db)"
| "apply_files env already (f # fs) db =
     (let digest = me_checksum env (file_sql f) in
      case dict_get already (file_name f) of
        Some recorded \<Rightarrow>
          (case recorded of
             None \<Rightarrow> apply_files env already fs (db\<lparr>db_applied := dict_set (file_name f) (Some digest) (db_applied db)\<rparr>)
           | Some c \<Rightarrow> if c \<noteq> digest then (Inl (MigrationChecksumError (file_name f)), db) else apply_files env already fs db)
      | None \<Rightarrow>
          (case me_execute env (file_sql f) (db_schema db) of
             None \<Rightarrow> (Inl (SqlError (file_name f)), db)
           | Some sch \<Rightarrow>
               (case apply_files env already fs (db\<lparr>db_schema := sch, db_applied := dict_set (file_name f) (Some digest) (db_applied db),
                    db_history := db_history db @ [file_name f]\<rparr>) of
                  (r, db') \<Rightarrow> (rbind r (\<lambda>applied. Inr (file_name f # applied)), db'))))"

definition run_migrations :: "'d migration_env \<Rightarrow> sql_file list option \<Rightarrow> 'd database \<Rightarrow> (migration_error, string list) result \<times> 'd database" where
  "run_migrations env directory db =
     (case directory of
        None \<Rightarrow> (Inr [], db)
      | Some entries \<Rightarrow>
          let sqls = filter (\<lambda>f. endswith (file_name f) ''.sql'') entries;
              invalid = filter (\<lambda>f. \<not> valid_filename (file_name f)) sqls
          in if invalid \<noteq> [] then (Inl (MigrationFilenameError (map file_name (sort_files invalid))), db)
             else apply_files env (db_applied db) (sort_files sqls) db)"

definition fresh_database :: "'d \<Rightarrow> 'd database" where
  "fresh_database d = \<lparr>db_schema = d, db_applied = [], db_history = []\<rparr>"

text \<open>Any number of boots, of replicas of any releases: the directories may differ, each has a file name once.\<close>

inductive boots :: "'d migration_env \<Rightarrow> 'd database \<Rightarrow> bool" for env where
  fresh: "boots env (fresh_database d)"
| boot: "boots env db \<Longrightarrow> distinct (map file_name files) \<Longrightarrow> run_migrations env (Some files) db = (r, db') \<Longrightarrow> boots env db'"

section \<open>Applied once\<close>

definition recorded :: "'d database \<Rightarrow> bool" where
  "recorded db \<longleftrightarrow> distinct (db_history db) \<and> set (db_history db) \<subseteq> dom (dict_get (db_applied db))"

lemma set_insert_file: "set (insert_file f fs) = insert f (set fs)"
  by (induction fs) auto

lemma set_sort_files [simp]: "set (sort_files fs) = set fs"
  by (induction fs) (simp_all add: sort_files_def set_insert_file)

lemma length_insert_file: "length (insert_file f fs) = Suc (length fs)"
  by (induction fs) simp_all

lemma length_sort_files: "length (sort_files fs) = length fs"
  by (induction fs) (simp_all add: sort_files_def length_insert_file)

lemma distinct_names_sort:
  assumes "distinct (map file_name fs)"
  shows "distinct (map file_name (sort_files fs))"
proof -
  have "card (set (map file_name (sort_files fs))) = length fs" using distinct_card [OF assms] by simp
  then show ?thesis by (intro card_distinct) (simp add: length_sort_files)
qed

definition applied_by :: "'d migration_env \<Rightarrow> sql_file list \<Rightarrow> (migration_error, string list) result \<Rightarrow> 'd database \<Rightarrow> 'd database \<Rightarrow> bool" where
  "applied_by env fs r db db' \<longleftrightarrow> recorded db' \<and>
     (\<exists>dn. db_history db' = db_history db @ dn \<and> subseq dn (map file_name fs) \<and> (\<forall>l. r = Inr l \<longrightarrow> l = dn)) \<and>
     (\<forall>k. dict_get (db_applied db) k \<noteq> None \<longrightarrow> dict_get (db_applied db') k \<noteq> None) \<and>
     (\<forall>k. k \<notin> file_name ` set fs \<longrightarrow> dict_get (db_applied db') k = dict_get (db_applied db) k) \<and>
     (\<forall>l. r = Inr l \<longrightarrow> (\<forall>f \<in> set fs. dict_get (db_applied db') (file_name f) = Some (Some (me_checksum env (file_sql f)))))"

text \<open>A file that leaves the history alone, once its checksum is on record.\<close>

lemma applied_by_known:
  assumes "applied_by env fs r db db'" "file_name f \<notin> file_name ` set fs"
    "dict_get (db_applied db) (file_name f) = Some (Some (me_checksum env (file_sql f)))"
  shows "applied_by env (f # fs) r db db'"
proof -
  have "dict_get (db_applied db') (file_name f) = dict_get (db_applied db) (file_name f)" using assms(1,2) unfolding applied_by_def by blast
  then show ?thesis using assms unfolding applied_by_def by auto
qed

lemma apply_files_spec:
  assumes "apply_files env already fs db = (r, db')" "recorded db" "distinct (map file_name fs)"
    and "\<forall>f \<in> set fs. dict_get already (file_name f) = dict_get (db_applied db) (file_name f)"
  shows "applied_by env fs r db db'"
  using assms
proof (induction fs arbitrary: db r)
  case Nil
  then show ?case by (auto simp: applied_by_def)
next
  case (Cons f fs)
  let ?d = "me_checksum env (file_sql f)" and ?n = "file_name f"
  have new: "?n \<notin> file_name ` set fs" using Cons.prems(3) by simp
  have same: "dict_get already ?n = dict_get (db_applied db) ?n" using Cons.prems(4) by simp
  have keeps: "\<forall>g \<in> set fs. dict_get already (file_name g) = dict_get (dict_set ?n v (db_applied db)) (file_name g)" for v
  proof
    fix g assume g: "g \<in> set fs"
    with new have "file_name g \<noteq> ?n" by (metis image_eqI)
    with g Cons.prems(4) show "dict_get already (file_name g) = dict_get (dict_set ?n v (db_applied db)) (file_name g)" by simp
  qed
  consider (backfill) "dict_get already ?n = Some None" | (changed) c where "dict_get already ?n = Some (Some c)" "c \<noteq> ?d"
    | (kept) "dict_get already ?n = Some (Some ?d)" | (failed) "dict_get already ?n = None" "me_execute env (file_sql f) (db_schema db) = None"
    | (run) sch where "dict_get already ?n = None" "me_execute env (file_sql f) (db_schema db) = Some sch"
    by (metis option.exhaust)
  then show ?case
  proof cases
    case backfill
    let ?db = "db\<lparr>db_applied := dict_set ?n (Some ?d) (db_applied db)\<rparr>"
    have "recorded ?db" using Cons.prems(2) by (auto simp: recorded_def)
    moreover have "apply_files env already fs ?db = (r, db')" using Cons.prems(1) backfill by (simp add: Let_def)
    ultimately have "applied_by env fs r ?db db'" using Cons.IH [of ?db r] Cons.prems(3) keeps by simp
    then have "applied_by env (f # fs) r ?db db'" by (rule applied_by_known) (use new in auto)
    then show ?thesis using new by (auto simp: applied_by_def)
  next
    case changed
    with Cons.prems show ?thesis by (auto simp: Let_def applied_by_def)
  next
    case kept
    then have "applied_by env fs r db db'" using Cons.IH [of db r] Cons.prems by (simp add: Let_def)
    then show ?thesis by (rule applied_by_known) (use new kept same in auto)
  next
    case failed
    with Cons.prems show ?thesis by (auto simp: Let_def applied_by_def)
  next
    case run
    let ?db = "db\<lparr>db_schema := sch, db_applied := dict_set ?n (Some ?d) (db_applied db), db_history := db_history db @ [?n]\<rparr>"
    obtain r' where r': "apply_files env already fs ?db = (r', db')" "r = rbind r' (\<lambda>applied. Inr (?n # applied))"
      using Cons.prems(1) run by (auto simp: Let_def split: prod.splits)
    have "?n \<notin> set (db_history db)" using Cons.prems(2) run(1) same by (auto simp: recorded_def)
    then have "recorded ?db" using Cons.prems(2) by (auto simp: recorded_def)
    then have ih: "applied_by env fs r' ?db db'" using Cons.IH [OF r'(1)] Cons.prems(3) keeps by simp
    then obtain dn where dn: "db_history db' = db_history db @ ?n # dn" "subseq dn (map file_name fs)" "\<forall>l. r' = Inr l \<longrightarrow> l = dn"
      by (auto simp: applied_by_def)
    have "\<exists>dn. db_history db' = db_history db @ dn \<and> subseq dn (map file_name (f # fs)) \<and> (\<forall>l. r = Inr l \<longrightarrow> l = dn)"
      using dn r'(2) by (intro exI [of _ "?n # dn"]) (auto simp: res_simps)
    with ih new r'(2) show ?thesis by (auto simp: res_simps applied_by_def)
  qed
qed

lemma sorted_insert_file:
  "sorted_wrt (\<lambda>f g. str_less (file_name f) (file_name g)) fs \<Longrightarrow> file_name f \<notin> file_name ` set fs \<Longrightarrow>
   sorted_wrt (\<lambda>f g. str_less (file_name f) (file_name g)) (insert_file f fs)"
proof (induction fs)
  case (Cons g gs)
  then show ?case using str_less_total [of "file_name f" "file_name g"] str_less_trans by (auto simp: set_insert_file)
qed simp

lemma sorted_sort_files:
  "distinct (map file_name fs) \<Longrightarrow> sorted_wrt str_less (map file_name (sort_files fs))"
proof -
  assume "distinct (map file_name fs)"
  then have "sorted_wrt (\<lambda>f g. str_less (file_name f) (file_name g)) (sort_files fs)"
  proof (induction fs)
    case (Cons f fs)
    then show ?case
      using sorted_insert_file [of "sort_files fs" f] by (simp add: sort_files_def [of "f # fs"]) (simp add: sort_files_def [symmetric])
  qed (simp add: sort_files_def)
  then show ?thesis by (simp add: sorted_wrt_map)
qed

lemma sorted_wrt_subseq: "subseq xs ys \<Longrightarrow> sorted_wrt P ys \<Longrightarrow> sorted_wrt P xs"
proof (induction rule: list_emb.induct)
  case (list_emb_Cons2 x y xs ys)
  then show ?case using list_emb_set by fastforce
qed auto

lemma apply_files_nothing:
  "\<forall>f \<in> set fs. dict_get already (file_name f) = Some (Some (me_checksum env (file_sql f))) \<Longrightarrow> apply_files env already fs db = (Inr [], db)"
  by (induction fs) (simp_all add: Let_def)

lemma boot_spec:
  assumes "run_migrations env (Some files) db = (r, db')" "recorded db" "distinct (map file_name files)"
  shows "recorded db' \<and> (\<exists>dn. db_history db' = db_history db @ dn \<and> sorted_wrt str_less dn \<and>
    (\<forall>l. r = Inr l \<longrightarrow> l = dn \<and> run_migrations env (Some files) db' = (Inr [], db')))"
proof -
  let ?sqls = "filter (\<lambda>f. endswith (file_name f) ''.sql'') files"
  show ?thesis
  proof (cases "filter (\<lambda>f. \<not> valid_filename (file_name f)) ?sqls = []")
    case False
    with assms show ?thesis by (auto simp: run_migrations_def Let_def)
  next
    case True
    have run: "run_migrations env (Some files) d = apply_files env (db_applied d) (sort_files ?sqls) d" for d :: "'a database"
      using True by (simp add: run_migrations_def Let_def)
    have dist: "distinct (map file_name ?sqls)" using assms(3) by (simp add: distinct_map inj_on_def)
    from assms(1) have "apply_files env (db_applied db) (sort_files ?sqls) db = (r, db')" by (simp add: run)
    note spec = apply_files_spec [OF this assms(2) distinct_names_sort [OF dist]]
    from spec obtain dn where dn: "db_history db' = db_history db @ dn" "subseq dn (map file_name (sort_files ?sqls))" "\<forall>l. r = Inr l \<longrightarrow> l = dn"
      unfolding applied_by_def by blast
    have "sorted_wrt str_less dn" by (rule sorted_wrt_subseq [OF dn(2) sorted_sort_files [OF dist]])
    moreover have "run_migrations env (Some files) db' = (Inr [], db')" if "r = Inr l" for l
      unfolding run using spec that by (intro apply_files_nothing) (unfold applied_by_def, blast)
    ultimately show ?thesis using dn spec unfolding applied_by_def by blast
  qed
qed

text \<open>
  C13. Across any number of boots with any directories, failing files included, no migration is executed
  twice; a boot executes migrations in the order of their file names; and after one that
  succeeds, booting again with the same directory executes nothing and changes nothing.
\<close>

theorem migrations_once:
  assumes "boots env db"
  shows "distinct (db_history db) \<and>
    (\<forall>files r db'. distinct (map file_name files) \<and> run_migrations env (Some files) db = (r, db') \<longrightarrow>
       (\<exists>dn. db_history db' = db_history db @ dn \<and> distinct (db_history db @ dn) \<and> sorted_wrt str_less dn \<and>
         (\<forall>l. r = Inr l \<longrightarrow> l = dn \<and> run_migrations env (Some files) db' = (Inr [], db'))))"
proof -
  have rec: "recorded db" using assms
  proof (induction rule: boots.induct)
    case (boot db files r db')
    then show ?case using boot_spec by blast
  qed (simp add: fresh_database_def recorded_def)
  then show ?thesis using boot_spec [OF _ rec] by (metis recorded_def)
qed

definition sample_files :: "sql_file list" where
  "sample_files = [\<lparr>file_name = ''0001_rename.sql'', file_sql = ''b''\<rparr>, \<lparr>file_name = ''0000_baseline.sql'', file_sql = ''a''\<rparr>]"

definition sample_migrations :: "nat migration_env" where
  "sample_migrations = \<lparr>me_checksum = (\<lambda>s. s), me_execute = (\<lambda>s n. Some (Suc n))\<rparr>"

theorem migrations_once_witness:
  "\<exists>db. run_migrations sample_migrations (Some sample_files) (fresh_database 0) = (Inr [''0000_baseline.sql'', ''0001_rename.sql''], db) \<and>
     run_migrations sample_migrations (Some sample_files) db = (Inr [], db)"
proof -
  let ?run = "run_migrations sample_migrations (Some sample_files) (fresh_database 0)"
  have r: "fst ?run = Inr [''0000_baseline.sql'', ''0001_rename.sql'']" "distinct (map file_name sample_files)" by code_simp+
  obtain db where "?run = (Inr [''0000_baseline.sql'', ''0001_rename.sql''], db)" using r(1) by (cases ?run) auto
  moreover have "boots sample_migrations (fresh_database 0)" by (rule boots.fresh)
  ultimately show ?thesis using migrations_once [of sample_migrations "fresh_database 0"] r(2) by blast
qed

lemma valid_filename_sql: "valid_filename s \<Longrightarrow> endswith s ''.sql''"
  by (simp add: valid_filename_def Let_def)

text \<open>Editing an applied file fails the next boot before anything else is executed.\<close>

lemma edited_migration_refused:
  assumes "dict_get (db_applied db) (file_name f) = Some (Some c)" "c \<noteq> me_checksum env (file_sql f)" "valid_filename (file_name f)"
  shows "run_migrations env (Some [f]) db = (Inl (MigrationChecksumError (file_name f)), db)"
  using assms valid_filename_sql [OF assms(3)] by (simp add: run_migrations_def sort_files_def Let_def)

end
