(* ===== verification/Holon_Structural.thy ===== *)
theory Holon_Structural
  imports Holon_Actions
begin

text \<open>
  Structural edits of an action (\<open>action_structural.py\<close>): links and objects created and deleted in the
  transaction of the property edits, the record of what they replaced, and the revert of both
  (\<open>declarative_edits.py\<close>); the link overlays and their merge with the pairs of a join dataset
  (\<open>link_overlays.py\<close>). \<open>str\<close> on JSON values, the fresh identifiers and the registered relation
  types are arguments.
\<close>

section \<open>Tables\<close>

record relation_def =
  rel_urn :: string
  rel_source_type_urn :: string
  rel_target_type_urn :: string
  rel_source_property :: string
  rel_storage_kind :: "string option"

record link_row =
  lk_op :: string
  lk_mid :: "string option"
  lk_actor :: string
  lk_at :: real

type_synonym link_key = "string \<times> string \<times> string \<times> string"

record object_row =
  ob_data :: payload
  ob_snapshot :: int

record tombstone_row =
  ts_prior :: "payload option"
  ts_action :: string
  ts_actor :: string
  ts_at :: real

text \<open>Objects and tombstones are keyed by tenant, object type and instance id.\<close>

type_synonym object_key = "string \<times> string \<times> string"

record tables =
  tb_edits :: overlay
  tb_links :: "link_key \<Rightarrow> link_row option"
  tb_objects :: "object_key \<Rightarrow> object_row option"
  tb_tombstones :: "object_key \<Rightarrow> tombstone_row option"
  tb_materialized :: "string \<times> string \<Rightarrow> int option"

text \<open>What a link edit replaced: the edit row of the foreign key, or the overlay row of the pair.\<close>

datatype link_prior =
    FkPrior (fk_property: string) (fk_source_type: string) (fk_source_id: string) (fk_value: "json option")
  | OverlayPrior (op_storage: string) (op_relation: string) (op_row: "(string \<times> string option) option")

record link_change =
  lc_kind :: string
  lc_relation :: string
  lc_source_id :: string
  lc_target_id :: string
  lc_source_type :: string
  lc_target_type :: string
  lc_prior :: link_prior

datatype object_change =
    Created (oc_type: string) (oc_id: string) (oc_data: payload)
  | Deleted (oc_type: string) (oc_id: string) (oc_prior: "payload option")

text \<open>Who writes, for which action, when.\<close>

record stamp =
  st_action :: string
  st_actor :: string
  st_at :: real

section \<open>Writes\<close>

definition upsert_link :: "stamp \<Rightarrow> link_key \<Rightarrow> string \<Rightarrow> string option \<Rightarrow> tables \<Rightarrow> (py_exc, tables) result" where
  "upsert_link s k op mid tb =
     (if op \<noteq> ''add'' \<and> op \<noteq> ''delete'' then Inl ValueError
      else Inr (tb\<lparr>tb_links := (tb_links tb)(k \<mapsto> \<lparr>lk_op = op, lk_mid = mid, lk_actor = st_actor s, lk_at = st_at s\<rparr>)\<rparr>))"

definition put_edit :: "stamp \<Rightarrow> edit_key \<Rightarrow> json \<Rightarrow> tables \<Rightarrow> tables" where
  "put_edit s k v tb =
     tb\<lparr>tb_edits := (tb_edits tb)(k \<mapsto> \<lparr>ed_value = v, ed_action = st_action s, ed_actor = st_actor s, ed_at = st_at s\<rparr>)\<rparr>"

definition del_edit :: "edit_key \<Rightarrow> tables \<Rightarrow> tables" where
  "del_edit k tb = tb\<lparr>tb_edits := (tb_edits tb)(k := None)\<rparr>"

definition del_link :: "link_key \<Rightarrow> tables \<Rightarrow> tables" where
  "del_link k tb = tb\<lparr>tb_links := (tb_links tb)(k := None)\<rparr>"

text \<open>\<open>parameters.get(name)\<close>, for a name read from JSON.\<close>

definition parameter_value :: "payload \<Rightarrow> json \<Rightarrow> (py_exc, json) result" where
  "parameter_value params name =
     (case name of JStr s \<Rightarrow> Inr (obj_get params s) | JList _ \<Rightarrow> Inl TypeError | JObj _ \<Rightarrow> Inl TypeError | _ \<Rightarrow> Inr JNull)"

definition key_value :: "payload \<Rightarrow> string \<Rightarrow> (py_exc, json) result" where
  "key_value d k = (case dict_get d k of None \<Rightarrow> Inl KeyError | Some v \<Rightarrow> Inr v)"

text \<open>A parameter that an edit needs: \<open>None\<close> is refused.\<close>

definition required_parameter :: "(json \<Rightarrow> string) \<Rightarrow> payload \<Rightarrow> json \<Rightarrow> (py_exc, string) result" where
  "required_parameter str_of params name =
     rbind (parameter_value params name) (\<lambda>v. if v = JNull then Inl ValueError else Inr (str_of v))"

definition resolve_end :: "(json \<Rightarrow> string) \<Rightarrow> payload \<Rightarrow> string \<Rightarrow> string \<Rightarrow> payload \<Rightarrow> (py_exc, string) result" where
  "resolve_end str_of edit e iid params =
     (let mode = end_mode edit e in
      if mode = JStr ''target_instance'' then Inr iid
      else if mode = JStr ''parameter'' then
        rbind (key_value edit (e @ ''_parameter'')) (required_parameter str_of params)
      else rbind (key_value edit (e @ ''_value'')) (\<lambda>v. Inr (str_of v)))"

definition load_relation :: "(string \<Rightarrow> relation_def option) \<Rightarrow> json \<Rightarrow> (py_exc, string \<times> relation_def) result" where
  "load_relation rel_of name =
     (case name of
        JStr n \<Rightarrow> (case rel_of n of None \<Rightarrow> Inl ValueError | Some r \<Rightarrow> Inr (n, r))
      | _ \<Rightarrow> Inl TypeError)"

definition storage_of :: "relation_def \<Rightarrow> string" where
  "storage_of r = (case rel_storage_kind r of Some s \<Rightarrow> if s = [] then ''foreign_key'' else s | None \<Rightarrow> ''foreign_key'')"

definition write_link ::
  "stamp \<Rightarrow> string \<Rightarrow> bool \<Rightarrow> relation_def \<Rightarrow> string \<Rightarrow> string \<Rightarrow> tables \<Rightarrow> (py_exc, link_prior \<times> tables) result" where
  "write_link s tid unlink r sid nid tb =
     (let storage = storage_of r; source_ot = after_last (CHR '':'') (rel_source_type_urn r) in
      if storage = ''foreign_key'' then
        (let k = (tid, source_ot, sid, rel_source_property r) in
         Inr (FkPrior (rel_source_property r) source_ot sid (visible_value (tb_edits tb) k),
              put_edit s k (if unlink then JNull else JStr nid) tb))
      else if storage = ''join_dataset'' \<or> storage = ''object_backed'' then
        (let k = (tid, rel_urn r, sid, nid);
             mid = (if storage = ''object_backed'' then Some (''overlay:'' @ sid @ '':'' @ nid) else None)
         in rbind (upsert_link s k (if unlink then ''delete'' else ''add'') mid tb) (\<lambda>tb'.
              Inr (OverlayPrior storage (rel_urn r) (map_option (\<lambda>row. (lk_op row, lk_mid row)) (tb_links tb k)), tb')))
      else Inl ValueError)"

definition apply_link ::
  "(json \<Rightarrow> string) \<Rightarrow> (string \<Rightarrow> relation_def option) \<Rightarrow> stamp \<Rightarrow> string \<Rightarrow> string \<Rightarrow> payload \<Rightarrow> payload \<Rightarrow> tables
     \<Rightarrow> (py_exc, link_change \<times> tables) result" where
  "apply_link str_of rel_of s tid iid params edit tb =
     rbind (key_value edit ''relation_type'') (\<lambda>name.
     rbind (load_relation rel_of name) (\<lambda>(n, r).
     rbind (resolve_end str_of edit ''source'' iid params) (\<lambda>sid.
     rbind (resolve_end str_of edit ''target'' iid params) (\<lambda>nid.
     rbind (write_link s tid (edit_kind edit = JStr ''delete_link'') r sid nid tb) (\<lambda>(prior, tb').
       Inr (\<lparr>lc_kind = (if edit_kind edit = JStr ''delete_link'' then ''delete_link'' else ''create_link''), lc_relation = n,
              lc_source_id = sid, lc_target_id = nid, lc_source_type = after_last (CHR '':'') (rel_source_type_urn r),
              lc_target_type = after_last (CHR '':'') (rel_target_type_urn r), lc_prior = prior\<rparr>, tb'))))))"

section \<open>Objects\<close>

definition text_of :: "json \<Rightarrow> (py_exc, string) result" where
  "text_of j = (case j of JStr s \<Rightarrow> Inr s | _ \<Rightarrow> Inl TypeError)"

definition new_object_id :: "(json \<Rightarrow> string) \<Rightarrow> string \<Rightarrow> payload \<Rightarrow> payload \<Rightarrow> (py_exc, string) result" where
  "new_object_id str_of uuid params edit =
     (let pk = as_obj (obj_get edit ''primary_key'');
          pk_source = (case dict_get pk ''source'' of None \<Rightarrow> JStr ''parameter'' | Some v \<Rightarrow> v)
      in if pk_source = JStr ''generate_uuid'' then Inr uuid
         else if pk_source = JStr ''literal'' then rbind (key_value pk ''value'') (\<lambda>v. Inr (str_of v))
         else rbind (key_value pk ''parameter_name'') (required_parameter str_of params))"

fun object_data :: "payload \<Rightarrow> json list \<Rightarrow> payload \<Rightarrow> (py_exc, payload) result" where
  "object_data params [] d = Inr d"
| "object_data params (j # js) d =
     rbind (key_value (as_obj j) ''source'') (\<lambda>src.
     rbind (key_value (as_obj j) ''property'') (\<lambda>name.
     rbind (text_of name) (\<lambda>n.
     rbind (if src = JStr ''parameter'' then rbind (key_value (as_obj j) ''parameter_name'') (parameter_value params)
            else Inr (obj_get (as_obj j) ''value'')) (\<lambda>v.
       object_data params js (dict_set n v d)))))"

definition create_object ::
  "(json \<Rightarrow> string) \<Rightarrow> string \<Rightarrow> string \<Rightarrow> payload \<Rightarrow> payload \<Rightarrow> tables \<Rightarrow> (py_exc, object_change \<times> tables) result" where
  "create_object str_of uuid tid params edit tb =
     rbind (rbind (key_value edit ''object_type'') text_of) (\<lambda>ot.
     rbind (new_object_id str_of uuid params edit) (\<lambda>i.
     rbind (object_data params (as_list (obj_get edit ''properties'')) [(''id'', JStr i)]) (\<lambda>d.
       Inr (Created ot i d,
            tb\<lparr>tb_tombstones := (tb_tombstones tb)((tid, ot, i) := None),
               tb_objects := (tb_objects tb)((tid, ot, i) \<mapsto> \<lparr>ob_data = d, ob_snapshot = -1\<rparr>),
               tb_materialized := (case tb_materialized tb (ot, tid) of None \<Rightarrow> (tb_materialized tb)((ot, tid) \<mapsto> -1) | Some _ \<Rightarrow> tb_materialized tb)\<rparr>))))"

definition deleted_object ::
  "(json \<Rightarrow> string) \<Rightarrow> string \<Rightarrow> string \<Rightarrow> payload \<Rightarrow> payload \<Rightarrow> (py_exc, string \<times> string) result" where
  "deleted_object str_of ot iid params edit =
     (let mode = (if truthy (obj_get edit ''target_from'') then obj_get edit ''target_from'' else JStr ''target_instance'') in
      if mode = JStr ''target_instance'' then Inr (ot, iid)
      else rbind (if truthy (obj_get edit ''object_type'') then text_of (obj_get edit ''object_type'') else Inr ot) (\<lambda>t.
           rbind (rbind (key_value edit ''parameter_name'') (required_parameter str_of params)) (\<lambda>i. Inr (t, i))))"

definition delete_object ::
  "(json \<Rightarrow> string) \<Rightarrow> stamp \<Rightarrow> string \<Rightarrow> string \<Rightarrow> string \<Rightarrow> payload \<Rightarrow> payload \<Rightarrow> tables \<Rightarrow> (py_exc, object_change \<times> tables) result" where
  "delete_object str_of s tid ot iid params edit tb =
     rbind (deleted_object str_of ot iid params edit) (\<lambda>(t, i).
       let k = (tid, t, i);
           prior = map_option ob_data (tb_objects tb k);
           kept = (case prior of Some d \<Rightarrow> Some d | None \<Rightarrow> (case tb_tombstones tb k of Some r \<Rightarrow> ts_prior r | None \<Rightarrow> None))
       in Inr (Deleted t i prior,
               tb\<lparr>tb_tombstones := (tb_tombstones tb)(k \<mapsto> \<lparr>ts_prior = kept, ts_action = st_action s, ts_actor = st_actor s, ts_at = st_at s\<rparr>)\<rparr>))"

text \<open>The rules in their order; a raise rolls the transaction back. The \<open>n\<close>th rule from the end draws the identifier \<open>uuid n\<close>.\<close>

fun apply_structural_edits ::
  "(json \<Rightarrow> string) \<Rightarrow> (nat \<Rightarrow> string) \<Rightarrow> (string \<Rightarrow> relation_def option) \<Rightarrow> stamp \<Rightarrow> string \<Rightarrow> string \<Rightarrow> string \<Rightarrow> payload \<Rightarrow> payload list
     \<Rightarrow> tables \<Rightarrow> (py_exc, (link_change list \<times> object_change list) \<times> tables) result" where
  "apply_structural_edits str_of uuid rel_of s tid ot iid params [] tb = Inr (([], []), tb)"
| "apply_structural_edits str_of uuid rel_of s tid ot iid params (edit # es) tb =
     (let kind = edit_kind edit; rest = apply_structural_edits str_of uuid rel_of s tid ot iid params es in
      if kind = JStr ''create_link'' \<or> kind = JStr ''delete_link'' then
        rbind (apply_link str_of rel_of s tid iid params edit tb) (\<lambda>(l, tb1).
        rbind (rest tb1) (\<lambda>((ls, obs), tb2). Inr ((l # ls, obs), tb2)))
      else if kind = JStr ''create_object'' then
        rbind (create_object str_of (uuid (length es)) tid params edit tb) (\<lambda>(ob, tb1).
        rbind (rest tb1) (\<lambda>((ls, obs), tb2). Inr ((ls, ob # obs), tb2)))
      else if kind = JStr ''delete_object'' then
        rbind (delete_object str_of s tid ot iid params edit tb) (\<lambda>(ob, tb1).
        rbind (rest tb1) (\<lambda>((ls, obs), tb2). Inr ((ls, ob # obs), tb2)))
      else rest tb)"

section \<open>Revert\<close>

definition revert_link :: "stamp \<Rightarrow> string \<Rightarrow> link_change \<Rightarrow> tables \<Rightarrow> tables" where
  "revert_link s tid l tb =
     (case lc_prior l of
        FkPrior p sot sid v \<Rightarrow>
          (case v of Some x \<Rightarrow> put_edit s (tid, sot, sid, p) x tb | None \<Rightarrow> del_edit (tid, sot, sid, p) tb)
      | OverlayPrior storage rurn row \<Rightarrow>
          (let k = (tid, rurn, lc_source_id l, lc_target_id l) in
           case row of
             Some (op, mid) \<Rightarrow> (case upsert_link s k op mid tb of Inr tb' \<Rightarrow> tb' | Inl _ \<Rightarrow> tb)
           | None \<Rightarrow> del_link k tb))"

definition revert_object :: "string \<Rightarrow> object_change \<Rightarrow> tables \<Rightarrow> tables" where
  "revert_object tid ob tb =
     (case ob of
        Created ot i d \<Rightarrow>
          tb\<lparr>tb_objects := (case tb_objects tb (tid, ot, i) of
                 Some row \<Rightarrow> if ob_snapshot row = -1 then (tb_objects tb)((tid, ot, i) := None) else tb_objects tb
               | None \<Rightarrow> tb_objects tb),
             tb_edits := (\<lambda>(t, o', i', p). if t = tid \<and> o' = ot \<and> i' = i then None else tb_edits tb (t, o', i', p))\<rparr>
      | Deleted ot i _ \<Rightarrow> tb\<lparr>tb_tombstones := (tb_tombstones tb)((tid, ot, i) := None)\<rparr>)"

definition revert_structural :: "stamp \<Rightarrow> string \<Rightarrow> link_change list \<times> object_change list \<Rightarrow> tables \<Rightarrow> tables" where
  "revert_structural s tid structural tb =
     fold (revert_object tid) (rev (snd structural)) (fold (revert_link s tid) (rev (fst structural)) tb)"

text \<open>The property edits of an action, then its structural edits; the revert takes them back in the same order.\<close>

definition apply_with_structure ::
  "(json \<Rightarrow> string) \<Rightarrow> (nat \<Rightarrow> string) \<Rightarrow> (string \<Rightarrow> relation_def option) \<Rightarrow> stamp \<Rightarrow> string \<Rightarrow> string \<Rightarrow> string \<Rightarrow> payload \<Rightarrow> payload \<Rightarrow> payload list
     \<Rightarrow> tables \<Rightarrow> (py_exc, (payload \<times> (string, json option) dict \<times> link_change list \<times> object_change list) \<times> tables) result" where
  "apply_with_structure str_of uuid rel_of s tid ot iid resolved params edits tb =
     (case write_instance_edits (tb_edits tb) tid ot iid resolved (st_action s) (st_actor s) (st_at s) of
        (written, prior, ov) \<Rightarrow>
          rbind (apply_structural_edits str_of uuid rel_of s tid ot iid params edits (tb\<lparr>tb_edits := ov\<rparr>)) (\<lambda>(structural, tb').
            Inr ((written, prior, structural), tb')))"

definition revert_with_structure ::
  "stamp \<Rightarrow> string \<Rightarrow> string \<Rightarrow> string \<Rightarrow> (string, json option) dict \<Rightarrow> link_change list \<times> object_change list \<Rightarrow> tables \<Rightarrow> tables" where
  "revert_with_structure s tid ot iid prior structural tb =
     revert_structural s tid structural
       (tb\<lparr>tb_edits := fold (restore_prior tid ot iid (st_actor s) (st_at s)) prior (tb_edits tb)\<rparr>)"

section \<open>Link overlays over a join dataset\<close>

record link_overlay =
  lo_source :: string
  lo_target :: string
  lo_op :: string
  lo_mid :: "string option"

definition overlays_absorbed_by_pairs :: "link_overlay list \<Rightarrow> (string \<times> string) set \<Rightarrow> (string \<times> string) list" where
  "overlays_absorbed_by_pairs overlays iceberg =
     map (\<lambda>v. (lo_source v, lo_target v))
       (filter (\<lambda>v. (lo_op v = ''add'' \<and> (lo_source v, lo_target v) \<in> iceberg) \<or>
                    (lo_op v = ''delete'' \<and> (lo_source v, lo_target v) \<notin> iceberg)) overlays)"

definition delete_overlays :: "(string \<times> string) list \<Rightarrow> link_overlay list \<Rightarrow> link_overlay list" where
  "delete_overlays pairs overlays = filter (\<lambda>v. (lo_source v, lo_target v) \<notin> set pairs) overlays"

text \<open>The merged pairs, as the set that \<open>merge_pair_set\<close> sorts; a base pair with a null end is skipped.\<close>

definition merge_pair_set :: "(string option \<times> string option) list \<Rightarrow> link_overlay list \<Rightarrow> (string \<times> string) set" where
  "merge_pair_set base overlays =
     fold (\<lambda>v pairs. if lo_op v = ''add'' then insert (lo_source v, lo_target v) pairs else pairs - {(lo_source v, lo_target v)})
       overlays (set (List.map_filter (\<lambda>(x, y). case (x, y) of (Some a, Some b) \<Rightarrow> Some (a, b) | _ \<Rightarrow> None) base))"

definition overlay_mid_rows :: "link_overlay list \<Rightarrow> string \<Rightarrow> string \<Rightarrow> string \<Rightarrow> bool \<Rightarrow> payload list" where
  "overlay_mid_rows overlays src_col tgt_col current filter_is_source =
     map (\<lambda>v. fold (\<lambda>(k, x) d. dict_set k x d)
            [(''id'', JStr (case lo_mid v of Some m \<Rightarrow> if m = [] then ''overlay:'' @ lo_source v @ '':'' @ lo_target v else m
                | None \<Rightarrow> ''overlay:'' @ lo_source v @ '':'' @ lo_target v)),
             (src_col, JStr (lo_source v)), (tgt_col, JStr (lo_target v)), (''_overlay'', JBool True)] [])
       (filter (\<lambda>v. lo_op v = ''add'' \<and> (if filter_is_source then lo_source v else lo_target v) = current) overlays)"

definition filter_deleted_mids :: "(json \<Rightarrow> string) \<Rightarrow> payload list \<Rightarrow> link_overlay list \<Rightarrow> string \<Rightarrow> string \<Rightarrow> payload list" where
  "filter_deleted_mids str_of mid_rows overlays src_col tgt_col =
     (let deleted = map (\<lambda>v. (lo_source v, lo_target v)) (filter (\<lambda>v. lo_op v = ''delete'') overlays) in
      if deleted = [] then mid_rows
      else filter (\<lambda>row. truthy (obj_get row ''_overlay'') \<or>
             (str_of (obj_get row src_col), str_of (obj_get row tgt_col)) \<notin> set deleted) mid_rows)"

section \<open>Undo logs\<close>

text \<open>A run of writes with the value each one replaced, and its undo, newest first.\<close>

fun undo :: "('k \<times> 'v option) list \<Rightarrow> ('k \<Rightarrow> 'v option) \<Rightarrow> 'k \<Rightarrow> 'v option" where
  "undo [] m = m"
| "undo ((k, v) # lg) m = (undo lg m)(k := v)"

inductive logged :: "('k \<Rightarrow> 'v option) \<Rightarrow> ('k \<times> 'v option) list \<Rightarrow> ('k \<Rightarrow> 'v option) \<Rightarrow> bool" where
  none: "logged m [] m"
| wrote: "logged (m(k := x)) lg m' \<Longrightarrow> logged m ((k, m k) # lg) m'"

lemma logged_frame: "logged m lg m' \<Longrightarrow> k \<notin> fst ` set lg \<Longrightarrow> m' k = m k"
  by (induction rule: logged.induct) auto

lemma undo_logged: "logged m lg m' \<Longrightarrow> undo lg X k = (if k \<in> fst ` set lg then m k else X k)"
  by (induction arbitrary: X rule: logged.induct) auto

lemma undo_append: "undo (xs @ ys) m = undo xs (undo ys m)"
  by (induction xs) auto

section \<open>The values behind the tables\<close>

definition link_value :: "(link_key \<Rightarrow> link_row option) \<Rightarrow> link_key \<Rightarrow> (string \<times> string option) option" where
  "link_value m k = map_option (\<lambda>r. (lk_op r, lk_mid r)) (m k)"

definition fk_log :: "string \<Rightarrow> link_change list \<Rightarrow> (edit_key \<times> json option) list" where
  "fk_log tid ls = List.map_filter (\<lambda>l. case lc_prior l of FkPrior p sot sid v \<Rightarrow> Some ((tid, sot, sid, p), v) | _ \<Rightarrow> None) ls"

definition pair_log :: "string \<Rightarrow> link_change list \<Rightarrow> (link_key \<times> (string \<times> string option) option) list" where
  "pair_log tid ls = List.map_filter (\<lambda>l. case lc_prior l of OverlayPrior _ u row \<Rightarrow> Some ((tid, u, lc_source_id l, lc_target_id l), row) | _ \<Rightarrow> None) ls"

lemma link_logs_Nil [simp]: "fk_log tid [] = []" "pair_log tid [] = []"
  by (simp_all add: fk_log_def pair_log_def List.map_filter_def)

lemma link_logs_Cons:
  "fk_log tid (l # ls) = (case lc_prior l of FkPrior p sot sid v \<Rightarrow> ((tid, sot, sid, p), v) # fk_log tid ls | _ \<Rightarrow> fk_log tid ls)"
  "pair_log tid (l # ls) = (case lc_prior l of OverlayPrior _ u row \<Rightarrow> ((tid, u, lc_source_id l, lc_target_id l), row) # pair_log tid ls | _ \<Rightarrow> pair_log tid ls)"
  by (simp_all add: fk_log_def pair_log_def List.map_filter_def split: link_prior.splits)

lemma visible_put [simp]: "visible_value (ov(k \<mapsto> r)) = (visible_value ov)(k := Some (ed_value r))"
  "visible_value (ov(k := None)) = (visible_value ov)(k := None)"
  by (auto simp: visible_value_def fun_eq_iff)

lemma link_value_put [simp]: "link_value (m(k \<mapsto> r)) = (link_value m)(k := Some (lk_op r, lk_mid r))"
  "link_value (m(k := None)) = (link_value m)(k := None)"
  by (auto simp: link_value_def fun_eq_iff)

definition row_ops_ok :: "link_change list \<Rightarrow> bool" where
  "row_ops_ok ls \<longleftrightarrow> (\<forall>l \<in> set ls. case lc_prior l of OverlayPrior _ _ (Some (op, _)) \<Rightarrow> op \<in> {''add'', ''delete''} | _ \<Rightarrow> True)"

text \<open>An overlay row holds an addition or a deletion.\<close>

definition overlay_ops_ok :: "tables \<Rightarrow> bool" where
  "overlay_ops_ok tb \<longleftrightarrow> (\<forall>k r. tb_links tb k = Some r \<longrightarrow> lk_op r \<in> {''add'', ''delete''})"

lemma write_link_spec:
  assumes "write_link s tid unlink r sid nid tb = Inr (prior, tb')" "overlay_ops_ok tb"
    and "lc_prior l = prior" "lc_source_id l = sid" "lc_target_id l = nid"
  shows "(\<forall>lg v'. logged (visible_value (tb_edits tb')) lg v' \<longrightarrow> logged (visible_value (tb_edits tb)) (fk_log tid [l] @ lg) v') \<and>
    (\<forall>lg v'. logged (link_value (tb_links tb')) lg v' \<longrightarrow> logged (link_value (tb_links tb)) (pair_log tid [l] @ lg) v') \<and>
    row_ops_ok [l] \<and> overlay_ops_ok tb' \<and> tb_objects tb' = tb_objects tb \<and> tb_tombstones tb' = tb_tombstones tb"
proof (cases "storage_of r = ''foreign_key''")
  case True
  let ?k = "(tid, after_last (CHR '':'') (rel_source_type_urn r), sid, rel_source_property r)"
  from assms(1) True have tb': "tb' = put_edit s ?k (if unlink then JNull else JStr nid) tb"
    and prior: "prior = FkPrior (rel_source_property r) (after_last (CHR '':'') (rel_source_type_urn r)) sid (visible_value (tb_edits tb) ?k)"
    by (auto simp: write_link_def Let_def)
  have "overlay_ops_ok tb'" "row_ops_ok [l]" using assms(2,3) prior tb' by (auto simp: overlay_ops_ok_def row_ops_ok_def put_edit_def)
  then show ?thesis using assms(3) prior tb' by (auto simp: link_logs_Cons put_edit_def intro!: logged.wrote)
next
  case False
  with assms(1) have st: "storage_of r = ''join_dataset'' \<or> storage_of r = ''object_backed''" by (auto simp: write_link_def Let_def split: if_splits)
  let ?k = "(tid, rel_urn r, sid, nid)"
  let ?row = "\<lparr>lk_op = (if unlink then ''delete'' else ''add''),
    lk_mid = (if storage_of r = ''object_backed'' then Some (''overlay:'' @ sid @ '':'' @ nid) else None), lk_actor = st_actor s, lk_at = st_at s\<rparr>"
  from assms(1) False st have prior: "prior = OverlayPrior (storage_of r) (rel_urn r) (link_value (tb_links tb) ?k)"
    and tb': "tb' = tb\<lparr>tb_links := (tb_links tb)(?k \<mapsto> ?row)\<rparr>"
    by (auto simp: write_link_def Let_def upsert_link_def link_value_def split: if_splits)
  have "overlay_ops_ok tb'" using assms(2) by (auto simp: tb' overlay_ops_ok_def)
  moreover have "row_ops_ok [l]"
    using assms(2,3) prior by (auto simp: row_ops_ok_def overlay_ops_ok_def link_value_def split: option.splits)
  ultimately show ?thesis using assms(3,4,5) prior tb' by (auto simp: link_logs_Cons intro!: logged.wrote)
qed

lemma row_ops_ok_list: "row_ops_ok []" "row_ops_ok (l # ls) \<longleftrightarrow> row_ops_ok [l] \<and> row_ops_ok ls"
  by (auto simp: row_ops_ok_def)

declare split_paired_All [simp del] split_paired_Ex [simp del]

text \<open>What one rule writes: a logged link, or one object.\<close>

lemma apply_link_spec:
  assumes "apply_link str_of rel_of s tid iid params edit tb = Inr (l, tb')" "overlay_ops_ok tb"
  shows "(\<forall>lg v'. logged (visible_value (tb_edits tb')) lg v' \<longrightarrow> logged (visible_value (tb_edits tb)) (fk_log tid [l] @ lg) v') \<and>
    (\<forall>lg v'. logged (link_value (tb_links tb')) lg v' \<longrightarrow> logged (link_value (tb_links tb)) (pair_log tid [l] @ lg) v') \<and>
    row_ops_ok [l] \<and> overlay_ops_ok tb' \<and> tb_objects tb' = tb_objects tb \<and> tb_tombstones tb' = tb_tombstones tb"
proof -
  from assms(1) obtain r sid nid prior where "write_link s tid (edit_kind edit = JStr ''delete_link'') r sid nid tb = Inr (prior, tb')"
    "lc_prior l = prior" "lc_source_id l = sid" "lc_target_id l = nid"
    unfolding apply_link_def rbind_Inr_iff case_prod_beta by force
  from write_link_spec [OF this(1) assms(2) this(2,3,4)] show ?thesis .
qed

definition object_keys :: "string \<Rightarrow> object_change list \<Rightarrow> object_key set" where
  "object_keys tid obs = (\<lambda>c. (tid, oc_type c, oc_id c)) ` set obs"

definition created_keys :: "string \<Rightarrow> object_change list \<Rightarrow> object_key set" where
  "created_keys tid obs = {(tid, ot, i) | ot i d. Created ot i d \<in> set obs}"

definition deleted_keys :: "string \<Rightarrow> object_change list \<Rightarrow> object_key set" where
  "deleted_keys tid obs = {(tid, ot, i) | ot i d. Deleted ot i d \<in> set obs}"

lemma object_keys_simps [simp]:
  "object_keys tid [] = {}" "created_keys tid [] = {}" "deleted_keys tid [] = {}"
  "object_keys tid (c # cs) = insert (tid, oc_type c, oc_id c) (object_keys tid cs)"
  "created_keys tid (Created ot i d # cs) = insert (tid, ot, i) (created_keys tid cs)"
  "created_keys tid (Deleted ot i p # cs) = created_keys tid cs"
  "deleted_keys tid (Created ot i d # cs) = deleted_keys tid cs"
  "deleted_keys tid (Deleted ot i p # cs) = insert (tid, ot, i) (deleted_keys tid cs)"
  by (auto simp: object_keys_def created_keys_def deleted_keys_def)

lemma object_keys_Un: "object_keys tid obs = created_keys tid obs \<union> deleted_keys tid obs"
proof (induction obs)
  case (Cons c cs)
  then show ?case by (cases c) auto
qed simp

text \<open>What the rules leave of the objects and tombstones of the database before.\<close>

definition object_effect :: "string \<Rightarrow> object_change list \<Rightarrow> tables \<Rightarrow> tables \<Rightarrow> bool" where
  "object_effect tid obs tb tb' \<longleftrightarrow>
     (\<forall>k. k \<notin> created_keys tid obs \<longrightarrow> tb_objects tb' k = tb_objects tb k) \<and>
     (\<forall>k \<in> created_keys tid obs. \<exists>row. tb_objects tb' k = Some row \<and> ob_snapshot row = -1) \<and>
     (\<forall>k. k \<notin> object_keys tid obs \<longrightarrow> tb_tombstones tb' k = tb_tombstones tb k) \<and>
     (\<forall>k. k \<notin> deleted_keys tid obs \<longrightarrow> tb_tombstones tb' k \<in> {None, tb_tombstones tb k})"

definition structural_effect :: "string \<Rightarrow> link_change list \<times> object_change list \<Rightarrow> tables \<Rightarrow> tables \<Rightarrow> bool" where
  "structural_effect tid structural tb tb' \<longleftrightarrow>
     logged (visible_value (tb_edits tb)) (fk_log tid (fst structural)) (visible_value (tb_edits tb')) \<and>
     logged (link_value (tb_links tb)) (pair_log tid (fst structural)) (link_value (tb_links tb')) \<and>
     row_ops_ok (fst structural) \<and> object_effect tid (snd structural) tb tb'"

lemma effect_link:
  assumes "apply_link str_of rel_of s tid iid params edit tb = Inr (l, tb1)" "overlay_ops_ok tb" "structural_effect tid (ls, obs) tb1 tb2"
  shows "structural_effect tid (l # ls, obs) tb tb2"
proof -
  have "fk_log tid (l # ls) = fk_log tid [l] @ fk_log tid ls" "pair_log tid (l # ls) = pair_log tid [l] @ pair_log tid ls"
    by (simp_all add: link_logs_Cons split: link_prior.splits)
  note logs = this
  note spec = apply_link_spec [OF assms(1,2)]
  from assms(3) have rest: "logged (visible_value (tb_edits tb1)) (fk_log tid ls) (visible_value (tb_edits tb2))"
    "logged (link_value (tb_links tb1)) (pair_log tid ls) (link_value (tb_links tb2))" "row_ops_ok ls" "object_effect tid obs tb1 tb2"
    by (simp_all add: structural_effect_def)
  have "logged (visible_value (tb_edits tb)) (fk_log tid (l # ls)) (visible_value (tb_edits tb2))"
    "logged (link_value (tb_links tb)) (pair_log tid (l # ls)) (link_value (tb_links tb2))"
    unfolding logs using spec rest(1,2) by blast+
  moreover have "row_ops_ok (l # ls)" using spec rest(3) row_ops_ok_list(2) by blast
  moreover have "object_effect tid obs tb tb2" using spec rest(4) by (simp add: object_effect_def)
  ultimately show ?thesis by (simp add: structural_effect_def)
qed

lemma effect_created:
  assumes "create_object str_of u tid params edit tb = Inr (c, tb1)" "structural_effect tid (ls, obs) tb1 tb2"
  shows "structural_effect tid (ls, c # obs) tb tb2"
proof -
  from assms(1) obtain ot i d where c: "c = Created ot i d" and tb1: "tb_edits tb1 = tb_edits tb" "tb_links tb1 = tb_links tb"
    "tb_tombstones tb1 = (tb_tombstones tb)((tid, ot, i) := None)"
    "tb_objects tb1 = (tb_objects tb)((tid, ot, i) \<mapsto> \<lparr>ob_data = d, ob_snapshot = -1\<rparr>)"
    by (auto simp: create_object_def res_simps)
  have ef: "object_effect tid obs tb1 tb2" using assms(2) by (simp add: structural_effect_def)
  have "tb_objects tb2 k = tb_objects tb k" if "k \<notin> insert (tid, ot, i) (created_keys tid obs)" for k
    using ef that tb1(4) by (simp add: object_effect_def)
  moreover have "\<exists>row. tb_objects tb2 k = Some row \<and> ob_snapshot row = -1" if "k \<in> insert (tid, ot, i) (created_keys tid obs)" for k
    using ef that tb1(4) unfolding object_effect_def by (cases "k \<in> created_keys tid obs") auto
  moreover have "tb_tombstones tb2 k = tb_tombstones tb k" if "k \<notin> insert (tid, ot, i) (object_keys tid obs)" for k
    using ef that tb1(3) by (auto simp: object_effect_def)
  moreover have "tb_tombstones tb2 k \<in> {None, tb_tombstones tb k}" if "k \<notin> deleted_keys tid obs" for k
    using ef that tb1(3) unfolding object_effect_def by (cases "k = (tid, ot, i)") force+
  ultimately have "object_effect tid (c # obs) tb tb2" by (simp add: object_effect_def c)
  then show ?thesis using assms(2) tb1 by (simp add: structural_effect_def)
qed

lemma effect_deleted:
  assumes "delete_object str_of s tid ot iid params edit tb = Inr (c, tb1)" "structural_effect tid (ls, obs) tb1 tb2"
  shows "structural_effect tid (ls, c # obs) tb tb2"
proof -
  from assms(1) obtain t i p r where c: "c = Deleted t i p" and tb1: "tb_edits tb1 = tb_edits tb" "tb_links tb1 = tb_links tb"
    "tb_tombstones tb1 = (tb_tombstones tb)((tid, t, i) \<mapsto> r)" "tb_objects tb1 = tb_objects tb"
    by (auto simp: delete_object_def res_simps Let_def)
  have ef: "object_effect tid obs tb1 tb2" using assms(2) by (simp add: structural_effect_def)
  then have "object_effect tid (c # obs) tb tb2" using tb1(3,4) unfolding object_effect_def c
    by (simp add: fun_upd_def) (metis (no_types, lifting))
  then show ?thesis using assms(2) tb1 by (simp add: structural_effect_def)
qed

lemma create_object_links: "create_object str_of u tid params edit tb = Inr (c, tb1) \<Longrightarrow> tb_links tb1 = tb_links tb"
  by (auto simp: create_object_def res_simps)

lemma delete_object_links: "delete_object str_of s tid ot iid params edit tb = Inr (c, tb1) \<Longrightarrow> tb_links tb1 = tb_links tb"
  by (auto simp: delete_object_def res_simps Let_def)

lemma apply_structural_effect:
  "apply_structural_edits str_of uuid rel_of s tid ot iid params edits tb = Inr (structural, tb') \<Longrightarrow> overlay_ops_ok tb \<Longrightarrow>
   structural_effect tid structural tb tb'"
proof (induction edits arbitrary: tb structural)
  case Nil
  then show ?case by (auto simp: structural_effect_def object_effect_def row_ops_ok_list logged.none)
next
  case (Cons edit es)
  let ?rest = "apply_structural_edits str_of uuid rel_of s tid ot iid params es"
  have ops: "overlay_ops_ok tb \<Longrightarrow> tb_links tb1 = tb_links tb \<Longrightarrow> overlay_ops_ok tb1" for tb1 by (simp add: overlay_ops_ok_def)
  let ?link = "edit_kind edit = JStr ''create_link'' \<or> edit_kind edit = JStr ''delete_link''"
  let ?create = "edit_kind edit = JStr ''create_object''" and ?delete = "edit_kind edit = JStr ''delete_object''"
  have "?link \<Longrightarrow> \<exists>l tb1 ls obs. apply_link str_of rel_of s tid iid params edit tb = Inr (l, tb1) \<and> ?rest tb1 = Inr ((ls, obs), tb') \<and> structural = (l # ls, obs)"
    using Cons.prems(1) by (auto simp: res_simps)
  moreover have "?create \<Longrightarrow> \<exists>c tb1 ls obs. create_object str_of (uuid (length es)) tid params edit tb = Inr (c, tb1) \<and> ?rest tb1 = Inr ((ls, obs), tb') \<and> structural = (ls, c # obs)"
    using Cons.prems(1) by (auto simp: res_simps)
  moreover have "?delete \<Longrightarrow> \<exists>c tb1 ls obs. delete_object str_of s tid ot iid params edit tb = Inr (c, tb1) \<and> ?rest tb1 = Inr ((ls, obs), tb') \<and> structural = (ls, c # obs)"
    using Cons.prems(1) by (auto simp: res_simps)
  moreover have "\<not> ?link \<Longrightarrow> \<not> ?create \<Longrightarrow> \<not> ?delete \<Longrightarrow> ?rest tb = Inr (structural, tb')" using Cons.prems(1) by simp
  ultimately consider
      (link) l tb1 ls obs where "apply_link str_of rel_of s tid iid params edit tb = Inr (l, tb1)" "?rest tb1 = Inr ((ls, obs), tb')" "structural = (l # ls, obs)"
    | (create) c tb1 ls obs where "create_object str_of (uuid (length es)) tid params edit tb = Inr (c, tb1)" "?rest tb1 = Inr ((ls, obs), tb')" "structural = (ls, c # obs)"
    | (delete) c tb1 ls obs where "delete_object str_of s tid ot iid params edit tb = Inr (c, tb1)" "?rest tb1 = Inr ((ls, obs), tb')" "structural = (ls, c # obs)"
    | (skip) "?rest tb = Inr (structural, tb')"
    by blast
  then show ?case
  proof cases
    case link
    with Cons.IH [OF link(2)] apply_link_spec [OF link(1) Cons.prems(2)] effect_link [OF link(1) Cons.prems(2)] show ?thesis by simp
  next
    case create
    with Cons.IH [OF create(2) ops [OF Cons.prems(2) create_object_links [OF create(1)]]] effect_created [OF create(1)] show ?thesis by simp
  next
    case delete
    with Cons.IH [OF delete(2) ops [OF Cons.prems(2) delete_object_links [OF delete(1)]]] effect_deleted [OF delete(1)] show ?thesis by simp
  next
    case skip
    with Cons.IH Cons.prems(2) show ?thesis by blast
  qed
qed

section \<open>What the revert undoes\<close>

lemma revert_link_values:
  assumes "row_ops_ok [l]"
  shows "visible_value (tb_edits (revert_link s tid l tb)) = undo (fk_log tid [l]) (visible_value (tb_edits tb))"
    "link_value (tb_links (revert_link s tid l tb)) = undo (pair_log tid [l]) (link_value (tb_links tb))"
    "tb_objects (revert_link s tid l tb) = tb_objects tb" "tb_tombstones (revert_link s tid l tb) = tb_tombstones tb"
  using assms
  by (auto simp: revert_link_def put_edit_def del_edit_def del_link_def upsert_link_def link_logs_Cons row_ops_ok_def Let_def
      split: link_prior.splits option.splits)

lemma revert_links_values:
  "row_ops_ok ls \<Longrightarrow> visible_value (tb_edits (fold (revert_link s tid) (rev ls) tb)) = undo (fk_log tid ls) (visible_value (tb_edits tb)) \<and>
     link_value (tb_links (fold (revert_link s tid) (rev ls) tb)) = undo (pair_log tid ls) (link_value (tb_links tb)) \<and>
     tb_objects (fold (revert_link s tid) (rev ls) tb) = tb_objects tb \<and> tb_tombstones (fold (revert_link s tid) (rev ls) tb) = tb_tombstones tb"
proof (induction ls)
  case (Cons l ls)
  then have ok: "row_ops_ok [l]" "row_ops_ok ls" using row_ops_ok_list(2) by blast+
  have logs: "fk_log tid (l # ls) = fk_log tid [l] @ fk_log tid ls" "pair_log tid (l # ls) = pair_log tid [l] @ pair_log tid ls"
    by (simp_all add: link_logs_Cons split: link_prior.splits)
  from Cons.IH [OF ok(2)] revert_link_values [OF ok(1)] show ?case by (simp add: logs undo_append)
qed simp

definition edit_of_object :: "object_key set \<Rightarrow> edit_key \<Rightarrow> bool" where
  "edit_of_object ks k = (case k of (t, ot, i, p) \<Rightarrow> (t, ot, i) \<in> ks)"

lemma revert_objects_edits:
  "tb_edits (fold (revert_object tid) os tb) k = (if edit_of_object (created_keys tid os) k then None else tb_edits tb k)"
proof (induction os arbitrary: tb)
  case (Cons c cs)
  obtain t ot i p where k: "k = (t, ot, i, p)" by (metis prod_cases4)
  from Cons.IH [of "revert_object tid c tb"] show ?case
    by (cases c) (auto simp: k revert_object_def edit_of_object_def)
qed (simp add: edit_of_object_def split: prod.splits)

lemma revert_objects_links [simp]: "tb_links (fold (revert_object tid) os tb) = tb_links tb"
proof (induction os arbitrary: tb)
  case (Cons c cs)
  then show ?case by (cases c) (simp_all add: revert_object_def)
qed simp

lemma revert_objects_tombstones:
  "tb_tombstones (fold (revert_object tid) os tb) k = (if k \<in> deleted_keys tid os then None else tb_tombstones tb k)"
proof (induction os arbitrary: tb)
  case (Cons c cs)
  then show ?case by (cases c) (auto simp: revert_object_def)
qed simp

lemma revert_objects_rows:
  "\<forall>k \<in> created_keys tid os. \<forall>row. tb_objects tb k = Some row \<longrightarrow> ob_snapshot row = -1 \<Longrightarrow>
   tb_objects (fold (revert_object tid) os tb) k = (if k \<in> created_keys tid os then None else tb_objects tb k)"
proof (induction os arbitrary: tb)
  case (Cons c cs)
  show ?case
  proof (cases c)
    case (Created ot i d)
    let ?tb = "revert_object tid (Created ot i d) tb"
    have rows: "tb_objects ?tb = (tb_objects tb)((tid, ot, i) := None)"
      using Cons.prems by (auto simp: Created revert_object_def fun_eq_iff split: option.splits)
    have "\<forall>k \<in> created_keys tid cs. \<forall>row. tb_objects ?tb k = Some row \<longrightarrow> ob_snapshot row = -1"
      using Cons.prems by (auto simp: Created rows)
    from Cons.IH [OF this] show ?thesis by (simp add: rows Created)
  next
    case (Deleted ot i d)
    then have "tb_objects (revert_object tid c tb) = tb_objects tb" by (simp add: revert_object_def)
    with Cons.IH [of "revert_object tid c tb"] Cons.prems Deleted show ?thesis by simp
  qed
qed simp

lemma change_keys_rev [simp]: "created_keys tid (rev os) = created_keys tid os" "deleted_keys tid (rev os) = deleted_keys tid os"
  by (simp_all add: created_keys_def deleted_keys_def)

text \<open>
  The revert is exact on a database in which no created object existed (no instance, tombstone or
  edits under its key), no deleted object was already tombstoned, and no link is stored in a
  property that the action also sets.
\<close>

definition clean_objects :: "string \<Rightarrow> object_change list \<Rightarrow> tables \<Rightarrow> bool" where
  "clean_objects tid obs tb \<longleftrightarrow>
     (\<forall>k \<in> object_keys tid obs. tb_tombstones tb k = None) \<and> (\<forall>k \<in> created_keys tid obs. tb_objects tb k = None) \<and>
     (\<forall>k. edit_of_object (created_keys tid obs) k \<longrightarrow> tb_edits tb k = None)"

definition separate_properties :: "string \<Rightarrow> string \<Rightarrow> string \<Rightarrow> (string, json option) dict \<Rightarrow> link_change list \<Rightarrow> bool" where
  "separate_properties tid ot iid prior ls \<longleftrightarrow> (\<lambda>p. (tid, ot, iid, p)) ` fst ` set prior \<inter> fst ` set (fk_log tid ls) = {}"

definition same_data :: "tables \<Rightarrow> tables \<Rightarrow> bool" where
  "same_data a b \<longleftrightarrow> visible_value (tb_edits a) = visible_value (tb_edits b) \<and> link_value (tb_links a) = link_value (tb_links b) \<and>
     tb_objects a = tb_objects b \<and> tb_tombstones a = tb_tombstones b"

lemma restored_edits:
  assumes w: "write_instance_edits ov tid ot iid resolved act who ts = (written, prior, ov1)"
    and lg: "logged (visible_value ov1) lg (visible_value ov2)"
    and sep: "(\<lambda>p. (tid, ot, iid, p)) ` fst ` set prior \<inter> fst ` set lg = {}"
  shows "undo lg (visible_value (fold (restore_prior tid ot iid who2 ts2) prior ov2)) k = visible_value ov k"
proof -
  from write_parts [OF w] obtain ps where ps: "distinct ps" "prior = map (\<lambda>p. (p, stored_value ov tid ot iid p)) ps"
    "\<forall>p \<in> set ps. ov1 (tid, ot, iid, p) \<noteq> None" and frame: "\<And>k. k \<notin> (\<lambda>p. (tid, ot, iid, p)) ` set ps \<Longrightarrow> ov1 k = ov k"
    by blast
  let ?P = "(\<lambda>p. (tid, ot, iid, p)) ` set ps"
  have "fst ` set prior = set ps" by (simp add: ps(2) image_image)
  then have P: "k \<in> ?P \<Longrightarrow> k \<notin> fst ` set lg" for k using sep by auto
  have "\<forall>p \<in> set ps. ov2 (tid, ot, iid, p) \<noteq> None"
  proof
    fix p
    assume p: "p \<in> set ps"
    then have "visible_value ov2 (tid, ot, iid, p) = visible_value ov1 (tid, ot, iid, p)" by (intro logged_frame [OF lg] P) simp
    with p ps(3) show "ov2 (tid, ot, iid, p) \<noteq> None" by (metis option.map_disc_iff visible_value_def)
  qed
  from fold_restore [OF ps(1) this] have restored:
    "visible_value (fold (restore_prior tid ot iid who2 ts2) prior ov2) k = (if k \<in> ?P then visible_value ov k else visible_value ov2 k)"
    by (auto simp: ps(2) visible_value_def stored_value_def split: prod.splits)
  show ?thesis
  proof (cases "k \<in> ?P")
    case True
    with P restored show ?thesis by (simp add: undo_logged [OF lg])
  next
    case False
    with frame have "visible_value ov1 k = visible_value ov k" by (simp add: visible_value_def)
    with False restored logged_frame [OF lg, of k] show ?thesis by (simp add: undo_logged [OF lg])
  qed
qed

text \<open>
  C35. Reverting an action right after it was applied restores every property value, every link
  overlay, every object and every tombstone, whatever property, link and object edits it made and in
  whatever order, provided the objects it created and deleted were clean before and its
  links and property edits set different properties.
\<close>

theorem structural_revert_restores:
  assumes "apply_with_structure str_of uuid rel_of s tid ot iid resolved params edits tb = Inr ((written, prior, structural), tb')"
    and "overlay_ops_ok tb" "clean_objects tid (snd structural) tb" "separate_properties tid ot iid prior (fst structural)"
  shows "same_data (revert_with_structure s' tid ot iid prior structural tb') tb"
proof -
  obtain ov1 where w: "write_instance_edits (tb_edits tb) tid ot iid resolved (st_action s) (st_actor s) (st_at s) = (written, prior, ov1)"
    and ap: "apply_structural_edits str_of uuid rel_of s tid ot iid params edits (tb\<lparr>tb_edits := ov1\<rparr>) = Inr (structural, tb')"
    using assms(1) by (auto simp: apply_with_structure_def res_simps split: prod.splits)
  obtain ls obs where st: "structural = (ls, obs)" by fastforce
  have "overlay_ops_ok (tb\<lparr>tb_edits := ov1\<rparr>)" using assms(2) by (simp add: overlay_ops_ok_def)
  from apply_structural_effect [OF ap this] have ef: "logged (visible_value ov1) (fk_log tid ls) (visible_value (tb_edits tb'))"
    "logged (link_value (tb_links tb)) (pair_log tid ls) (link_value (tb_links tb'))" "row_ops_ok ls" "object_effect tid obs (tb\<lparr>tb_edits := ov1\<rparr>) tb'"
    by (simp_all add: structural_effect_def st)
  let ?tb1 = "tb'\<lparr>tb_edits := fold (restore_prior tid ot iid (st_actor s') (st_at s')) prior (tb_edits tb')\<rparr>"
  let ?tb2 = "fold (revert_link s' tid) (rev ls) ?tb1"
  let ?tb3 = "fold (revert_object tid) (rev obs) ?tb2"
  have clean: "\<And>k. k \<in> object_keys tid obs \<Longrightarrow> tb_tombstones tb k = None" "\<And>k. k \<in> created_keys tid obs \<Longrightarrow> tb_objects tb k = None"
    "\<And>k. edit_of_object (created_keys tid obs) k \<Longrightarrow> tb_edits tb k = None"
    using assms(3) by (simp_all add: clean_objects_def st)
  note mid = revert_links_values [OF ef(3), of s' tid ?tb1]
  have "visible_value (tb_edits ?tb2) k = visible_value (tb_edits tb) k" for k
    using mid restored_edits [OF w ef(1)] assms(4) by (simp add: separate_properties_def st)
  then have "visible_value (tb_edits ?tb3) k = visible_value (tb_edits tb) k" for k
    using clean(3) [of k] revert_objects_edits [of tid "rev obs" ?tb2 k] by (simp add: visible_value_def)
  moreover have "link_value (tb_links ?tb3) k = link_value (tb_links tb) k" for k
    using mid undo_logged [OF ef(2)] logged_frame [OF ef(2)] by simp
  moreover have "tb_objects ?tb3 k = tb_objects tb k" for k
  proof -
    have "\<forall>k \<in> created_keys tid (rev obs). \<forall>row. tb_objects ?tb2 k = Some row \<longrightarrow> ob_snapshot row = -1"
      using mid ef(4) by (auto simp: object_effect_def)
    from revert_objects_rows [OF this, of k] show ?thesis using mid ef(4) clean(2) [of k] by (simp add: object_effect_def)
  qed
  moreover have "tb_tombstones ?tb3 k = tb_tombstones tb k" for k
    using mid ef(4) clean(1) [of k] revert_objects_tombstones [of tid "rev obs" ?tb2 k]
    by (cases "k \<in> object_keys tid obs") (auto simp: object_effect_def object_keys_Un)
  ultimately show ?thesis by (simp add: same_data_def revert_with_structure_def revert_structural_def st fun_eq_iff)
qed

section \<open>Instances\<close>

definition text_or_empty :: "json \<Rightarrow> string" where
  "text_or_empty j = (case j of JStr s \<Rightarrow> s | _ \<Rightarrow> [])"

definition order_relations :: "string \<Rightarrow> relation_def option" where
  "order_relations = (\<lambda>n.
     if n = ''placed_by'' then Some \<lparr>rel_urn = ''u:placed'', rel_source_type_urn = ''urn:Order'', rel_target_type_urn = ''urn:Customer'',
       rel_source_property = ''customer_id'', rel_storage_kind = None\<rparr>
     else if n = ''tagged'' then Some \<lparr>rel_urn = ''u:tagged'', rel_source_type_urn = ''urn:Order'', rel_target_type_urn = ''urn:Tag'',
       rel_source_property = [], rel_storage_kind = Some ''join_dataset''\<rparr>
     else None)"

definition ship_rules :: "payload list" where
  "ship_rules =
     [[(''kind'', JStr ''create_link''), (''relation_type'', JStr ''placed_by''), (''target_parameter'', JStr ''who'')],
      [(''kind'', JStr ''delete_link''), (''relation_type'', JStr ''tagged''), (''target_from'', JStr ''literal''), (''target_value'', JStr ''draft'')],
      [(''kind'', JStr ''create_object''), (''object_type'', JStr ''Parcel''), (''primary_key'', JObj [(''source'', JStr ''generate_uuid'')])],
      [(''kind'', JStr ''delete_object''), (''target_from'', JStr ''parameter''), (''object_type'', JStr ''Quote''), (''parameter_name'', JStr ''quote'')]]"

definition ship_stamp :: stamp where
  "ship_stamp = \<lparr>st_action = ''ship'', st_actor = ''ada'', st_at = 1\<rparr>"

definition ship_params :: payload where
  "ship_params = [(''who'', JStr ''c2''), (''quote'', JStr ''q1'')]"

definition order_tables :: tables where
  "order_tables = \<lparr>tb_edits = (\<lambda>k. if k = (''acme'', ''Order'', ''7'', ''customer_id'')
       then Some \<lparr>ed_value = JStr ''c1'', ed_action = ''x'', ed_actor = ''bob'', ed_at = 0\<rparr> else None),
     tb_links = (\<lambda>k. None), tb_objects = (\<lambda>k. if k = (''acme'', ''Quote'', ''q1'') then Some \<lparr>ob_data = [], ob_snapshot = 4\<rparr> else None),
     tb_tombstones = (\<lambda>k. None), tb_materialized = (\<lambda>k. None)\<rparr>"

definition ship :: "payload \<Rightarrow> payload list \<Rightarrow> tables \<Rightarrow> (py_exc, (payload \<times> (string, json option) dict \<times> link_change list \<times> object_change list) \<times> tables) result" where
  "ship resolved rules tb = apply_with_structure text_or_empty (\<lambda>n. ''parcel'' @ show_nat n) order_relations ship_stamp ''acme'' ''Order'' ''7'' resolved ship_params rules tb"

definition ship_structural :: "link_change list \<times> object_change list" where
  "ship_structural =
     ([\<lparr>lc_kind = ''create_link'', lc_relation = ''placed_by'', lc_source_id = ''7'', lc_target_id = ''c2'', lc_source_type = ''Order'', lc_target_type = ''Customer'',
         lc_prior = FkPrior ''customer_id'' ''Order'' ''7'' (Some (JStr ''c1''))\<rparr>,
       \<lparr>lc_kind = ''delete_link'', lc_relation = ''tagged'', lc_source_id = ''7'', lc_target_id = ''draft'', lc_source_type = ''Order'', lc_target_type = ''Tag'',
         lc_prior = OverlayPrior ''join_dataset'' ''u:tagged'' None\<rparr>],
      [Created ''Parcel'' ''parcel1'' [(''id'', JStr ''parcel1'')], Deleted ''Quote'' ''q1'' (Some [])])"

lemma ship_runs: "map_sum id fst (ship [(''status'', JStr ''shipped'')] ship_rules order_tables) = Inr ([(''status'', JStr ''shipped'')], [(''status'', None)], ship_structural)"
  by code_simp

theorem structural_revert_restores_witness:
  "\<exists>x tb'. ship [(''status'', JStr ''shipped'')] ship_rules order_tables = Inr (x, tb') \<and> length (snd (snd (snd x))) = 2 \<and>
     same_data (revert_with_structure ship_stamp ''acme'' ''Order'' ''7'' (fst (snd x)) (snd (snd x)) tb') order_tables"
proof -
  let ?run = "ship [(''status'', JStr ''shipped'')] ship_rules order_tables"
  obtain tb' where run: "?run = Inr (([(''status'', JStr ''shipped'')], [(''status'', None)], ship_structural), tb')"
    using ship_runs by (cases ?run) auto
  have "overlay_ops_ok order_tables" by (simp add: overlay_ops_ok_def order_tables_def)
  moreover have "clean_objects ''acme'' (snd ship_structural) order_tables"
    by (auto simp: clean_objects_def ship_structural_def order_tables_def edit_of_object_def)
  moreover have "separate_properties ''acme'' ''Order'' ''7'' [(''status'', None)] (fst ship_structural)"
    by (simp add: separate_properties_def ship_structural_def fk_log_def List.map_filter_def)
  ultimately have "same_data (revert_with_structure ship_stamp ''acme'' ''Order'' ''7'' [(''status'', None)] ship_structural tb') order_tables"
    by (rule structural_revert_restores [OF run [unfolded ship_def]])
  moreover have "length (snd ship_structural) = 2" by (simp add: ship_structural_def)
  ultimately show ?thesis using run by auto
qed

text \<open>
  The revert takes property edits back before links, the order of the application: a link over a property that
  the action also set comes back with the value of the action.
\<close>

definition reverted :: "payload \<Rightarrow> payload list \<Rightarrow> tables \<Rightarrow> tables option" where
  "reverted resolved rules tb =
     (case ship resolved rules tb of
        Inl _ \<Rightarrow> None
      | Inr ((written, prior, structural), tb') \<Rightarrow> Some (revert_with_structure ship_stamp ''acme'' ''Order'' ''7'' prior structural tb'))"

lemma link_over_set_property_not_restored:
  "visible_value (tb_edits order_tables) (''acme'', ''Order'', ''7'', ''customer_id'') = Some (JStr ''c1'') \<and>
   map_option (\<lambda>tb. visible_value (tb_edits tb) (''acme'', ''Order'', ''7'', ''customer_id''))
     (reverted [(''customer_id'', JStr ''c9'')] [hd ship_rules] order_tables) = Some (Some (JStr ''c9''))"
  by code_simp

text \<open>Creating an object over a stored one and reverting that removes the stored one.\<close>

lemma revert_of_create_removes_existing:
  "tb_objects order_tables (''acme'', ''Quote'', ''q1'') = Some \<lparr>ob_data = [], ob_snapshot = 4\<rparr> \<and>
   map_option (\<lambda>tb. tb_objects tb (''acme'', ''Quote'', ''q1''))
     (reverted [] [[(''kind'', JStr ''create_object''), (''object_type'', JStr ''Quote''),
        (''primary_key'', JObj [(''parameter_name'', JStr ''quote'')])]] order_tables) = Some None"
  by code_simp

text \<open>Deleting an object that is deleted already, and reverting that, brings it back.\<close>

lemma revert_of_delete_resurrects:
  "map_option (\<lambda>tb. tb_tombstones tb (''acme'', ''Quote'', ''q1''))
     (reverted [] [last ship_rules] (order_tables\<lparr>tb_tombstones := (\<lambda>k. Some \<lparr>ts_prior = None, ts_action = ''x'', ts_actor = ''bob'', ts_at = 0\<rparr>)\<rparr>)) = Some None"
  by code_simp

section \<open>Overlays and the join dataset\<close>

definition overlay_key :: "link_overlay \<Rightarrow> string \<times> string" where
  "overlay_key v = (lo_source v, lo_target v)"

lemma fold_overlays_member:
  "distinct (map overlay_key vs) \<Longrightarrow>
   p \<in> fold (\<lambda>v pairs. if lo_op v = ''add'' then insert (lo_source v, lo_target v) pairs else pairs - {(lo_source v, lo_target v)}) vs B
     \<longleftrightarrow> (if p \<in> overlay_key ` set vs then (\<exists>v \<in> set vs. overlay_key v = p \<and> lo_op v = ''add'') else p \<in> B)"
  by (induction vs arbitrary: B) (auto simp: overlay_key_def image_iff)

lemma merge_member:
  assumes "distinct (map overlay_key vs)"
  shows "p \<in> merge_pair_set base vs \<longleftrightarrow>
    (if p \<in> overlay_key ` set vs then (\<exists>v \<in> set vs. overlay_key v = p \<and> lo_op v = ''add'') else p \<in> merge_pair_set base [])"
  unfolding merge_pair_set_def fold_overlays_member [OF assms] by simp

text \<open>
  C36. Dropping the overlays that the join dataset has caught up with changes no merged pair, whichever
  additions and deletions are pending.
\<close>

theorem absorbed_overlays_droppable:
  assumes "distinct (map overlay_key vs)" "\<forall>v \<in> set vs. lo_op v \<in> {''add'', ''delete''}"
  shows "merge_pair_set base (delete_overlays (overlays_absorbed_by_pairs vs (merge_pair_set base [])) vs) = merge_pair_set base vs"
proof -
  let ?B = "merge_pair_set base []"
  let ?kept = "delete_overlays (overlays_absorbed_by_pairs vs ?B) vs"
  have same: "w = v" if "v \<in> set vs" "w \<in> set vs" "overlay_key w = overlay_key v" for v w
    using that assms(1) by (simp add: distinct_map inj_on_def)
  have dist: "distinct (map overlay_key ?kept)" using assms(1) by (simp add: delete_overlays_def distinct_map inj_on_def)
  have kept: "v \<in> set ?kept \<longleftrightarrow> v \<in> set vs \<and> (lo_op v = ''add'') = (overlay_key v \<notin> ?B)" for v
  proof (cases "v \<in> set vs")
    case True
    let ?gone = "\<lambda>w. (lo_op w = ''add'' \<and> overlay_key w \<in> ?B) \<or> (lo_op w = ''delete'' \<and> overlay_key w \<notin> ?B)"
    have "overlay_key v \<in> set (overlays_absorbed_by_pairs vs ?B) \<longleftrightarrow> (\<exists>w \<in> set vs. ?gone w \<and> overlay_key w = overlay_key v)"
      unfolding overlays_absorbed_by_pairs_def overlay_key_def [symmetric] by (simp add: image_def) metis
    also have "\<dots> \<longleftrightarrow> ?gone v" using same [OF True] True by blast
    also have "\<dots> \<longleftrightarrow> \<not> ((lo_op v = ''add'') = (overlay_key v \<notin> ?B))" using assms(2) True by auto
    finally have "overlay_key v \<in> set (overlays_absorbed_by_pairs vs ?B) \<longleftrightarrow> \<not> ((lo_op v = ''add'') = (overlay_key v \<notin> ?B))" .
    moreover have "v \<in> set ?kept \<longleftrightarrow> overlay_key v \<notin> set (overlays_absorbed_by_pairs vs ?B)"
      using True by (simp add: delete_overlays_def overlay_key_def)
    ultimately show ?thesis using True by blast
  qed (simp add: delete_overlays_def)
  have "p \<in> merge_pair_set base ?kept \<longleftrightarrow> p \<in> merge_pair_set base vs" for p
  proof (cases "p \<in> overlay_key ` set vs")
    case True
    then obtain v where v: "v \<in> set vs" "overlay_key v = p" by blast
    have only: "w = v" if "w \<in> set vs" "overlay_key w = p" for w using same [OF v(1) that(1)] that(2) v(2) by simp
    have full: "p \<in> merge_pair_set base vs \<longleftrightarrow> lo_op v = ''add''"
    proof -
      have "(\<exists>w \<in> set vs. overlay_key w = p \<and> lo_op w = ''add'') \<longleftrightarrow> lo_op v = ''add''" using v only by blast
      with True show ?thesis by (simp only: merge_member [OF assms(1), of p] if_True)
    qed
    show ?thesis
    proof (cases "v \<in> set ?kept")
      case True
      then have "p \<in> merge_pair_set base ?kept \<longleftrightarrow> (\<exists>w \<in> set ?kept. overlay_key w = p \<and> lo_op w = ''add'')"
        using merge_member [OF dist, of p] v(2) image_eqI [of p overlay_key v "set ?kept"] by simp
      also have "\<dots> \<longleftrightarrow> lo_op v = ''add''" using True v(2) only kept by blast
      finally show ?thesis using full by simp
    next
      case False
      then have "p \<notin> overlay_key ` set ?kept" using only kept by blast
      then have "p \<in> merge_pair_set base ?kept \<longleftrightarrow> p \<in> ?B" by (simp only: merge_member [OF dist] if_False)
      with False kept v full show ?thesis by blast
    qed
  next
    case False
    then have "p \<notin> overlay_key ` set ?kept" using kept by blast
    with False show ?thesis by (simp only: merge_member [OF dist] merge_member [OF assms(1)] if_False)
  qed
  then show ?thesis by blast
qed

theorem absorbed_overlays_droppable_witness:
  "merge_pair_set [(Some ''7'', Some ''new''), (Some ''7'', None)]
     (delete_overlays (overlays_absorbed_by_pairs [\<lparr>lo_source = ''7'', lo_target = ''new'', lo_op = ''add'', lo_mid = None\<rparr>] {(''7'', ''new'')})
       [\<lparr>lo_source = ''7'', lo_target = ''new'', lo_op = ''add'', lo_mid = None\<rparr>]) = {(''7'', ''new'')}"
proof -
  let ?vs = "[\<lparr>lo_source = ''7'', lo_target = ''new'', lo_op = ''add'', lo_mid = None\<rparr>]" and ?base = "[(Some ''7'', Some ''new''), (Some ''7'', None)]"
  have "merge_pair_set ?base [] = {(''7'', ''new'')}" "merge_pair_set ?base ?vs = {(''7'', ''new'')}"
    by (simp_all add: merge_pair_set_def List.map_filter_def)
  with absorbed_overlays_droppable [of ?vs ?base] show ?thesis by simp
qed

declare split_paired_All [simp] split_paired_Ex [simp]

end
