(* ===== verification/Holon_Lineage.thy ===== *)
theory Holon_Lineage
  imports Holon_Compare
begin

text \<open>
  The lineage graph of the Knowledge service (\<open>lineage.py\<close>): recorded edges between dataset versions and
  object types, the edges that touch a node, and the bounded breadth-first walk that collapses
  them to one node per dataset or object type, with its staleness. Timestamps are reals; the
  rows of the four tables are lists in the order the queries return them.
\<close>

section \<open>Rows\<close>

record lineage_edge =
  eg_source :: string
  eg_target :: string
  eg_relation :: string
  eg_column :: string
  eg_property :: string
  eg_created :: real

record dataset_version =
  vs_urn :: string
  vs_dataset :: string
  vs_created :: real
  vs_rows :: "int option"

text \<open>One edge of the collapsed graph, with the recorded edges behind it.\<close>

record merged_edge =
  me_source :: string
  me_target :: string
  me_relation :: string
  me_mappings :: "(string \<times> string) list"
  me_raw :: "lineage_edge list"

record lineage_rows =
  ln_root :: string
  ln_direction :: string
  ln_edges :: "lineage_edge list"
  ln_versions :: "dataset_version list"
  ln_dataset_names :: "(string \<times> string) list"
  ln_type_names :: "(string \<times> string) list"

definition max_graph_depth :: int where
  "max_graph_depth = 8"

definition max_graph_nodes :: nat where
  "max_graph_nodes = 80"

definition record_edge :: "lineage_edge \<Rightarrow> lineage_edge list \<Rightarrow> lineage_edge list" where
  "record_edge e es =
     (if list_ex (\<lambda>x. eg_source x = eg_source e \<and> eg_target x = eg_target e \<and> eg_relation x = eg_relation e \<and>
          eg_column x = eg_column e \<and> eg_property x = eg_property e) es then es else es @ [e])"

definition edge_slot :: "lineage_edge \<Rightarrow> string \<times> string \<times> string" where
  "edge_slot e = (eg_relation e, eg_column e, eg_property e)"

text \<open>\<open>edges_touching\<close>: into the node only the newest edge of each slot, out of it every edge; ordered by time.\<close>

definition edges_touching :: "string \<Rightarrow> lineage_edge list \<Rightarrow> lineage_edge list" where
  "edges_touching u es =
     (let into = filter (\<lambda>e. eg_target e = u) es;
          newest = filter (\<lambda>e. list_all (\<lambda>x. edge_slot x = edge_slot e \<longrightarrow> eg_created x \<le> eg_created e) into) into
      in sort_key eg_created (newest @ filter (\<lambda>e. eg_source e = u) es))"

definition urn_kind :: "string \<Rightarrow> string" where
  "urn_kind u =
     (let parts = split_on (CHR '':'') u;
          kind = (if 2 \<le> length parts then parts ! (length parts - 2) else ''unknown'')
      in if kind \<in> {''object-type'', ''dataset-version'', ''dataset''} then kind else ''unknown'')"

section \<open>Versions\<close>

definition version_by_urn :: "lineage_rows \<Rightarrow> string \<Rightarrow> dataset_version option" where
  "version_by_urn L u = find (\<lambda>v. vs_urn v = u) (rev (ln_versions L))"

text \<open>The versions of a dataset, newest first; a stable sort.\<close>

definition versions_of :: "lineage_rows \<Rightarrow> string \<Rightarrow> dataset_version list" where
  "versions_of L ds = sort_key (\<lambda>v. - vs_created v) (filter (\<lambda>v. vs_dataset v = ds) (ln_versions L))"

definition latest_of :: "lineage_rows \<Rightarrow> string \<Rightarrow> string option" where
  "latest_of L ds = (case versions_of L ds of [] \<Rightarrow> None | v # _ \<Rightarrow> Some (vs_urn v))"

definition dataset_of :: "lineage_rows \<Rightarrow> string \<Rightarrow> string option" where
  "dataset_of L u = map_option vs_dataset (version_by_urn L u)"

definition focus_version :: "lineage_rows \<Rightarrow> string option" where
  "focus_version L = (if urn_kind (ln_root L) = ''dataset-version'' then Some (ln_root L) else None)"

definition focus_dataset :: "lineage_rows \<Rightarrow> string option" where
  "focus_dataset L = (case focus_version L of None \<Rightarrow> None | Some v \<Rightarrow> dataset_of L v)"

definition representative :: "lineage_rows \<Rightarrow> string \<Rightarrow> string option" where
  "representative L ds = (if focus_dataset L = Some ds then focus_version L else latest_of L ds)"

definition stable_id :: "lineage_rows \<Rightarrow> string \<Rightarrow> string" where
  "stable_id L raw = (case dataset_of L raw of Some d \<Rightarrow> if d = [] then raw else d | None \<Rightarrow> raw)"

definition edge_stale :: "lineage_rows \<Rightarrow> lineage_edge \<Rightarrow> bool" where
  "edge_stale L e =
     (eg_relation e = ''derived_from'' \<and>
      (case dataset_of L (eg_source e) of None \<Rightarrow> False | Some ds \<Rightarrow> Some (eg_source e) \<noteq> latest_of L ds))"

section \<open>Neighbours\<close>

definition maps_slot :: "lineage_rows \<Rightarrow> lineage_edge \<Rightarrow> string \<times> string \<times> string" where
  "maps_slot L e = (stable_id L (eg_source e), eg_column e, eg_property e)"

definition keep_newest :: "lineage_rows \<Rightarrow> lineage_edge \<Rightarrow> (string \<times> string \<times> string, lineage_edge) dict \<Rightarrow> (string \<times> string \<times> string, lineage_edge) dict" where
  "keep_newest L e best =
     (case dict_get best (maps_slot L e) of
        None \<Rightarrow> dict_set (maps_slot L e) e best
      | Some previous \<Rightarrow> if eg_created previous \<le> eg_created e then dict_set (maps_slot L e) e best else best)"

definition current_maps_to :: "lineage_rows \<Rightarrow> string \<Rightarrow> lineage_edge list" where
  "current_maps_to L ot =
     map snd (fold (keep_newest L)
       (filter (\<lambda>e. eg_target e = ot \<and> eg_relation e = ''maps_to'' \<and>
          \<not> (focus_dataset L \<notin> {None, Some []} \<and> dataset_of L (eg_source e) = focus_dataset L \<and> Some (eg_source e) \<noteq> focus_version L)) (ln_edges L)) [])"

text \<open>Grouping into a dictionary of lists, in order of first occurrence.\<close>

definition group_by :: "('a \<Rightarrow> string) \<Rightarrow> 'a list \<Rightarrow> (string, 'a list) dict" where
  "group_by f xs = fold (\<lambda>x d. dict_set (f x) ((case dict_get d (f x) of None \<Rightarrow> [] | Some ys \<Rightarrow> ys) @ [x]) d) xs []"

definition merge_edges :: "lineage_edge list \<Rightarrow> merged_edge" where
  "merge_edges grp =
     \<lparr>me_source = eg_source (hd grp), me_target = eg_target (hd grp), me_relation = eg_relation (hd grp),
       me_mappings = map (\<lambda>e. (eg_column e, eg_property e)) (filter (\<lambda>e. eg_column e \<noteq> []) grp), me_raw = grp\<rparr>"

definition adjacent :: "lineage_rows \<Rightarrow> string \<Rightarrow> (string \<times> merged_edge) list" where
  "adjacent L node =
     (let kind = urn_kind node; walk_up = (ln_direction L \<in> {''both'', ''upstream''}); walk_down = (ln_direction L \<in> {''both'', ''downstream''});
          sources = (if kind = ''object-type'' \<and> walk_up
            then map (\<lambda>(s, g). (s, merge_edges g)) (group_by (\<lambda>e. stable_id L (eg_source e)) (current_maps_to L node)) else [])
      in if kind = ''dataset'' \<or> versions_of L node \<noteq> [] then
           (case representative L node of
              None \<Rightarrow> sources
            | Some rep \<Rightarrow>
                sources @
                (if walk_down then
                   map (\<lambda>e. (stable_id L (eg_target e), merge_edges [e])) (filter (\<lambda>e. eg_source e = rep \<and> eg_relation e = ''derived_from'') (ln_edges L)) @
                   map (\<lambda>(t, g). (t, merge_edges g)) (group_by eg_target (filter (\<lambda>e. eg_source e = rep \<and> eg_relation e = ''maps_to'') (ln_edges L)))
                 else []) @
                (if walk_up then map (\<lambda>e. (stable_id L (eg_source e), merge_edges [e])) (filter (\<lambda>e. eg_target e = rep \<and> eg_relation e = ''derived_from'') (ln_edges L))
                 else []))
         else sources)"

section \<open>The walk\<close>

type_synonym edge_key = "string \<times> string \<times> string"

record walk_state =
  wk_seen :: "(string, nat) dict"
  wk_queue :: "string list"
  wk_kept :: "(edge_key, merged_edge) dict"
  wk_truncated :: bool

definition visit :: "nat \<Rightarrow> string \<times> merged_edge \<Rightarrow> walk_state \<Rightarrow> walk_state" where
  "visit hop ne w =
     (case ne of (neighbor, e) \<Rightarrow>
        let fresh = (dict_get (wk_seen w) neighbor = None) in
        if fresh \<and> max_graph_nodes \<le> length (wk_seen w) then w\<lparr>wk_truncated := True\<rparr>
        else let w1 = w\<lparr>wk_kept := dict_set (me_source e, me_target e, me_relation e) e (wk_kept w)\<rparr> in
             if fresh then w1\<lparr>wk_seen := dict_set neighbor (Suc hop) (wk_seen w), wk_queue := wk_queue w @ [neighbor]\<rparr> else w1)"

definition hop_of :: "walk_state \<Rightarrow> string \<Rightarrow> nat" where
  "hop_of w n = (case dict_get (wk_seen w) n of Some h \<Rightarrow> h | None \<Rightarrow> 0)"

definition expand :: "(string \<Rightarrow> (string \<times> merged_edge) list) \<Rightarrow> nat \<Rightarrow> walk_state \<Rightarrow> walk_state" where
  "expand adj depth w =
     (let node = hd (wk_queue w); w1 = w\<lparr>wk_queue := tl (wk_queue w)\<rparr> in
      if depth \<le> hop_of w node then w1 else fold (visit (hop_of w node)) (adj node) w1)"

text \<open>The new nodes of one expansion are appended to the nodes seen and to the queue.\<close>

definition extends :: "nat \<Rightarrow> string set \<Rightarrow> walk_state \<Rightarrow> walk_state \<Rightarrow> string list \<Rightarrow> bool" where
  "extends hop ns w w' new \<longleftrightarrow>
     wk_seen w' = wk_seen w @ map (\<lambda>n. (n, Suc hop)) new \<and> wk_queue w' = wk_queue w @ new \<and>
     distinct new \<and> set new \<subseteq> ns - fst ` set (wk_seen w) \<and> (new \<noteq> [] \<longrightarrow> length (wk_seen w') \<le> max_graph_nodes) \<and>
     (wk_truncated w' \<longrightarrow> wk_truncated w \<or> max_graph_nodes \<le> length (wk_seen w')) \<and>
     (\<not> wk_truncated w' \<longrightarrow> \<not> wk_truncated w \<and> ns \<subseteq> fst ` set (wk_seen w'))"

lemma visit_extends: "\<exists>new. extends hop {fst ne} w (visit hop ne w) new"
proof -
  obtain n e where ne: "ne = (n, e)" by fastforce
  show ?thesis
  proof (cases "dict_get (wk_seen w) n = None")
    case True
    then have "n \<notin> fst ` set (wk_seen w)" by (simp add: dict_get_None_iff)
    with True show ?thesis
      by (cases "max_graph_nodes \<le> length (wk_seen w)")
        (auto simp: extends_def visit_def ne Let_def dict_set_new intro: exI [of _ "[]"] exI [of _ "[n]"])
  next
    case False
    then have "n \<in> fst ` set (wk_seen w)" by (simp add: dict_get_None_iff)
    with False show ?thesis by (intro exI [of _ "[]"]) (simp add: extends_def visit_def ne Let_def)
  qed
qed

lemma extends_trans:
  assumes "extends hop A w w1 xs" "extends hop B w1 w2 ys"
  shows "extends hop (A \<union> B) w w2 (xs @ ys)"
proof -
  from assms(1) have 1: "wk_seen w1 = wk_seen w @ map (\<lambda>n. (n, Suc hop)) xs" "wk_queue w1 = wk_queue w @ xs" "distinct xs"
    "set xs \<subseteq> A - fst ` set (wk_seen w)" "xs \<noteq> [] \<Longrightarrow> length (wk_seen w1) \<le> max_graph_nodes"
    "wk_truncated w1 \<Longrightarrow> wk_truncated w \<or> max_graph_nodes \<le> length (wk_seen w1)"
    "\<not> wk_truncated w1 \<Longrightarrow> \<not> wk_truncated w \<and> A \<subseteq> fst ` set (wk_seen w1)"
    unfolding extends_def by blast+
  from assms(2) have 2: "wk_seen w2 = wk_seen w1 @ map (\<lambda>n. (n, Suc hop)) ys" "wk_queue w2 = wk_queue w1 @ ys" "distinct ys"
    "set ys \<subseteq> B - fst ` set (wk_seen w1)" "ys \<noteq> [] \<Longrightarrow> length (wk_seen w2) \<le> max_graph_nodes"
    "wk_truncated w2 \<Longrightarrow> wk_truncated w1 \<or> max_graph_nodes \<le> length (wk_seen w2)"
    "\<not> wk_truncated w2 \<Longrightarrow> \<not> wk_truncated w1 \<and> B \<subseteq> fst ` set (wk_seen w2)"
    unfolding extends_def by blast+
  have names: "fst ` set (wk_seen w1) = fst ` set (wk_seen w) \<union> set xs" "fst ` set (wk_seen w2) = fst ` set (wk_seen w1) \<union> set ys"
    by (simp_all add: 1(1) 2(1) image_Un image_image Un_assoc)
  have "length (wk_seen w1) \<le> length (wk_seen w2)" by (simp add: 2(1))
  moreover have "set xs \<inter> set ys = {}" using 2(4) names(1) by blast
  moreover have "wk_seen w2 = wk_seen w @ map (\<lambda>n. (n, Suc hop)) (xs @ ys)" "wk_queue w2 = wk_queue w @ xs @ ys" by (simp_all add: 1(1,2) 2(1,2))
  moreover have "set (xs @ ys) \<subseteq> A \<union> B - fst ` set (wk_seen w)" using 1(4) 2(4) names by auto
  moreover have "xs @ ys \<noteq> [] \<longrightarrow> length (wk_seen w2) \<le> max_graph_nodes" using 1(5) 2(1,5) by (cases "ys = []") auto
  moreover have "wk_truncated w2 \<longrightarrow> wk_truncated w \<or> max_graph_nodes \<le> length (wk_seen w2)" using 1(6) 2(6) calculation(1) by linarith
  moreover have "\<not> wk_truncated w2 \<longrightarrow> \<not> wk_truncated w \<and> A \<union> B \<subseteq> fst ` set (wk_seen w2)" using 1(7) 2(7) names by blast
  ultimately show ?thesis using 1(3) 2(3) unfolding extends_def by simp
qed

lemma visits_extend: "\<exists>new. extends hop (fst ` set nes) w (fold (visit hop) nes w) new"
proof (induction nes arbitrary: w)
  case Nil
  then show ?case by (intro exI [of _ "[]"]) (simp add: extends_def)
next
  case (Cons ne nes)
  obtain xs where xs: "extends hop {fst ne} w (visit hop ne w) xs" using visit_extends by blast
  obtain ys where "extends hop (fst ` set nes) (visit hop ne w) (fold (visit hop) nes (visit hop ne w)) ys" using Cons.IH by blast
  from extends_trans [OF xs this] show ?case by (intro exI [of _ "xs @ ys"]) simp
qed

definition walk_measure :: "walk_state \<Rightarrow> nat" where
  "walk_measure w = 2 * (max_graph_nodes - length (wk_seen w)) + length (wk_queue w)"

lemma extends_measure: "extends hop ns w w' new \<Longrightarrow> walk_measure w' \<le> walk_measure w"
  by (cases "new = []") (auto simp: extends_def walk_measure_def)

lemma expand_measure: "wk_queue w \<noteq> [] \<Longrightarrow> walk_measure (expand adj depth w) < walk_measure w"
proof -
  assume ne: "wk_queue w \<noteq> []"
  let ?w1 = "w\<lparr>wk_queue := tl (wk_queue w)\<rparr>"
  have "walk_measure ?w1 < walk_measure w" using ne by (cases "wk_queue w") (simp_all add: walk_measure_def)
  moreover obtain new where "extends (hop_of w (hd (wk_queue w))) (fst ` set (adj (hd (wk_queue w)))) ?w1 (fold (visit (hop_of w (hd (wk_queue w)))) (adj (hd (wk_queue w))) ?w1) new"
    using visits_extend by blast
  ultimately show ?thesis using extends_measure by (fastforce simp: expand_def Let_def)
qed

function walk_graph :: "(string \<Rightarrow> (string \<times> merged_edge) list) \<Rightarrow> nat \<Rightarrow> walk_state \<Rightarrow> walk_state" where
  "walk_graph adj depth w = (if wk_queue w = [] then w else walk_graph adj depth (expand adj depth w))"
  by pat_completeness auto
termination by (relation "measure (\<lambda>(adj, depth, w). walk_measure w)") (simp_all add: expand_measure)

declare walk_graph.simps [simp del]

definition start_walk :: "string \<Rightarrow> walk_state" where
  "start_walk s = \<lparr>wk_seen = [(s, 0)], wk_queue = [s], wk_kept = [], wk_truncated = False\<rparr>"

section \<open>The walk is breadth-first\<close>

definition neighbor_of :: "(string \<Rightarrow> (string \<times> merged_edge) list) \<Rightarrow> string \<Rightarrow> string \<Rightarrow> bool" where
  "neighbor_of adj a b \<longleftrightarrow> b \<in> fst ` set (adj a)"

text \<open>\<open>n\<close> is \<open>k\<close> edges away from \<open>s\<close>.\<close>

definition away :: "(string \<Rightarrow> (string \<times> merged_edge) list) \<Rightarrow> string \<Rightarrow> nat \<Rightarrow> string \<Rightarrow> bool" where
  "away adj s k n \<longleftrightarrow> (neighbor_of adj ^^ k) s n"

lemma away_simps [simp]:
  "away adj s 0 n \<longleftrightarrow> n = s"
  "away adj s (Suc k) n \<longleftrightarrow> (\<exists>m. away adj s k m \<and> n \<in> fst ` set (adj m))"
  by (auto simp: away_def neighbor_of_def relcompp_apply)

definition names :: "walk_state \<Rightarrow> string set" where
  "names w = fst ` set (wk_seen w)"

definition walk_ok :: "(string \<Rightarrow> (string \<times> merged_edge) list) \<Rightarrow> nat \<Rightarrow> string \<Rightarrow> walk_state \<Rightarrow> bool" where
  "walk_ok adj depth s w \<longleftrightarrow>
     s \<in> names w \<and> distinct (map fst (wk_seen w)) \<and> distinct (wk_queue w) \<and> set (wk_queue w) \<subseteq> names w \<and>
     length (wk_seen w) \<le> max_graph_nodes \<and> (wk_truncated w \<longrightarrow> max_graph_nodes \<le> length (wk_seen w)) \<and>
     sorted (map (hop_of w) (wk_queue w)) \<and> (\<forall>q \<in> set (wk_queue w). hop_of w q \<le> Suc (hop_of w (hd (wk_queue w)))) \<and>
     (\<forall>n \<in> names w. away adj s (hop_of w n) n \<and> hop_of w n \<le> depth \<and> (\<forall>k. away adj s k n \<longrightarrow> hop_of w n \<le> k)) \<and>
     (\<not> wk_truncated w \<longrightarrow> (\<forall>n \<in> names w - set (wk_queue w). hop_of w n < depth \<longrightarrow> fst ` set (adj n) \<subseteq> names w))"

lemma start_walk_ok: "walk_ok adj depth s (start_walk s)"
  by (simp add: walk_ok_def start_walk_def names_def hop_of_def dict_get_def max_graph_nodes_def)

lemma walk_complete_to:
  assumes "walk_ok adj depth s w" "\<not> wk_truncated w" "\<forall>q \<in> set (wk_queue w). m \<le> hop_of w q" "m \<le> depth"
  shows "away adj s k n \<Longrightarrow> k \<le> m \<Longrightarrow> n \<in> names w"
proof (induction k arbitrary: n)
  case 0
  then show ?case using assms(1) by (simp add: walk_ok_def)
next
  case (Suc k)
  then obtain p where p: "away adj s k p" "n \<in> fst ` set (adj p)" by auto
  with Suc have "p \<in> names w" by simp
  moreover from this p(1) assms(1) have "hop_of w p \<le> k" by (simp add: walk_ok_def)
  moreover from this Suc.prems(2) assms(3) have "p \<notin> set (wk_queue w)" by fastforce
  ultimately have "p \<in> names w - set (wk_queue w)" "hop_of w p < depth" using Suc.prems(2) assms(4) by auto
  with assms(1,2) have "fst ` set (adj p) \<subseteq> names w" by (simp add: walk_ok_def)
  with p(2) show ?case by blast
qed

lemma walk_extendsD:
  assumes "extends h ns w w' new"
  shows "wk_seen w' = wk_seen w @ map (\<lambda>n. (n, Suc h)) new" "wk_queue w' = wk_queue w @ new" "distinct new"
    "set new \<subseteq> ns" "set new \<inter> names w = {}" "new \<noteq> [] \<Longrightarrow> length (wk_seen w') \<le> max_graph_nodes"
    "wk_truncated w' \<Longrightarrow> wk_truncated w \<or> max_graph_nodes \<le> length (wk_seen w')"
    "\<not> wk_truncated w' \<Longrightarrow> \<not> wk_truncated w \<and> ns \<subseteq> names w'"
  using assms unfolding extends_def names_def by blast+

lemma extends_hops:
  assumes "extends h ns w w' new"
  shows "names w' = names w \<union> set new" "n \<in> names w \<Longrightarrow> hop_of w' n = hop_of w n" "n \<in> set new \<Longrightarrow> hop_of w' n = Suc h"
proof -
  from assms have ex: "wk_seen w' = wk_seen w @ map (\<lambda>n. (n, Suc h)) new" "set new \<inter> names w = {}"
    unfolding extends_def names_def by blast+
  show "names w' = names w \<union> set new" by (simp add: ex(1) names_def image_Un image_image)
  have get: "dict_get (wk_seen w') n = (case dict_get (wk_seen w) n of Some x \<Rightarrow> Some x | None \<Rightarrow> map_of (map (\<lambda>n. (n, Suc h)) new) n)"
    by (simp add: ex(1) dict_get_def map_add_def)
  show "n \<in> names w \<Longrightarrow> hop_of w' n = hop_of w n"
    using dict_get_None_iff [of "wk_seen w" n] by (auto simp: hop_of_def get names_def split: option.splits)
  assume n: "n \<in> set new"
  then have "dict_get (wk_seen w) n = None" using ex(2) by (auto simp: dict_get_None_iff names_def)
  moreover have "map_of (map (\<lambda>n. (n, Suc h)) new) n = Some (Suc h)" using n by (simp add: map_of_map_restrict)
  ultimately show "hop_of w' n = Suc h" by (simp add: hop_of_def get)
qed

lemma expand_ok:
  assumes ok: "walk_ok adj depth s w" and ne: "wk_queue w \<noteq> []"
  shows "walk_ok adj depth s (expand adj depth w)"
proof -
  obtain x q where q: "wk_queue w = x # q" using ne by (cases "wk_queue w") auto
  let ?h = "hop_of w x" and ?w1 = "w\<lparr>wk_queue := q\<rparr>"
  have hop1: "hop_of ?w1 = hop_of w" "names ?w1 = names w" by (simp_all add: hop_of_def names_def fun_eq_iff)
  from ok have base: "s \<in> names w" "distinct (map fst (wk_seen w))" "x \<notin> set q" "distinct q" "x \<in> names w" "set q \<subseteq> names w"
    "length (wk_seen w) \<le> max_graph_nodes" "wk_truncated w \<Longrightarrow> max_graph_nodes \<le> length (wk_seen w)"
    "sorted (map (hop_of w) q)" "\<And>p. p \<in> set q \<Longrightarrow> ?h \<le> hop_of w p" "\<And>p. p \<in> set q \<Longrightarrow> hop_of w p \<le> Suc ?h"
    "\<And>n. n \<in> names w \<Longrightarrow> away adj s (hop_of w n) n \<and> hop_of w n \<le> depth \<and> (\<forall>k. away adj s k n \<longrightarrow> hop_of w n \<le> k)"
    "\<And>n. \<not> wk_truncated w \<Longrightarrow> n \<in> names w - insert x (set q) \<Longrightarrow> hop_of w n < depth \<Longrightarrow> fst ` set (adj n) \<subseteq> names w"
    by (simp_all add: walk_ok_def q)
  have span: "hop_of w p \<le> Suc (hop_of w (hd q))" if "p \<in> set q" for p
  proof -
    have "hd q \<in> set q" using that by (cases q) simp_all
    with base(10) base(11) [OF that] show ?thesis by force
  qed
  show ?thesis
  proof (cases "depth \<le> ?h")
    case True
    have "walk_ok adj depth s ?w1"
    proof -
      have "fst ` set (adj n) \<subseteq> names w" if "\<not> wk_truncated w" "n \<in> names w - set q" "hop_of w n < depth" for n
        using base(13) [OF that(1) _ that(3)] that(2,3) True by (cases "n = x") simp_all
      then show ?thesis unfolding walk_ok_def hop1 using base span by simp
    qed
    then show ?thesis using True by (simp add: expand_def Let_def q)
  next
    case False
    obtain new where ex: "extends ?h (fst ` set (adj x)) ?w1 (fold (visit ?h) (adj x) ?w1) new" using visits_extend by blast
    let ?w2 = "fold (visit ?h) (adj x) ?w1"
    note hops = extends_hops [OF ex, unfolded hop1]
    have sel: "wk_seen ?w1 = wk_seen w" "wk_queue ?w1 = q" "wk_truncated ?w1 = wk_truncated w" by simp_all
    note e = walk_extendsD [OF ex, unfolded sel hop1(2)]
    have late: "Suc ?h \<le> k" if n: "n \<in> set new" and k: "away adj s k n" for n k
    proof (rule ccontr)
      assume "\<not> Suc ?h \<le> k"
      have "\<not> wk_truncated w"
      proof
        assume "wk_truncated w"
        then have "max_graph_nodes \<le> length (wk_seen w)" by (rule base(8))
        moreover have "length (wk_seen ?w2) = length (wk_seen w) + length new" by (simp add: e(1))
        moreover have "0 < length new" "new \<noteq> []" using n by auto
        moreover from e(6) [OF this(2)] have "length (wk_seen ?w2) \<le> max_graph_nodes" .
        ultimately show False by simp
      qed
      from walk_complete_to [OF ok this _ _ k, of ?h] \<open>\<not> Suc ?h \<le> k\<close> False base(10) have "n \<in> names w" by (simp add: q)
      with n e(5) show False by blast
    qed
    have old: "hop_of ?w2 p = hop_of w p" if "p \<in> set q" for p using hops(2) base(6) that by blast
    have eqs: "map (hop_of ?w2) q = map (hop_of w) q" "map (hop_of ?w2) new = replicate (length new) (Suc ?h)"
      using old hops(3) by (simp_all add: map_replicate_const [symmetric] cong: map_cong)
    have "sorted (map (hop_of ?w2) (q @ new))" unfolding map_append eqs using base(9,11) by (auto simp: sorted_append)
    moreover have "hop_of ?w2 p \<le> Suc (hop_of ?w2 (hd (q @ new)))" if "p \<in> set (q @ new)" for p
    proof (cases "q = []")
      case True
      then have "new \<noteq> []" "p \<in> set new" using that by auto
      with True hops(3) show ?thesis by simp
    next
      case False
      then have "?h \<le> hop_of ?w2 (hd (q @ new))" using old [of "hd q"] base(10) by simp
      moreover have "hop_of ?w2 p \<le> Suc ?h" using that old hops(3) base(11) by (cases "p \<in> set q") auto
      ultimately show ?thesis by simp
    qed
    moreover have "away adj s (hop_of ?w2 n) n \<and> hop_of ?w2 n \<le> depth \<and> (\<forall>k. away adj s k n \<longrightarrow> hop_of ?w2 n \<le> k)" if "n \<in> names ?w2" for n
    proof (cases "n \<in> names w")
      case True
      with hops(2) base(12) show ?thesis by simp
    next
      case n: False
      then have "n \<in> set new" using that hops(1) by blast
      moreover from this have "away adj s (Suc ?h) n" using base(12) [OF base(5)] e(4) by auto
      ultimately show ?thesis using late hops(3) False by simp
    qed
    moreover have "fst ` set (adj n) \<subseteq> names ?w2"
      if "\<not> wk_truncated ?w2" "n \<in> names ?w2 - set (q @ new)" "hop_of ?w2 n < depth" for n
    proof (cases "n = x")
      case True
      with e(8) [OF that(1)] show ?thesis by simp
    next
      case False
      then have "n \<in> names w - insert x (set q)" using that(2) hops(1) by auto
      with base(13) [of n] e(8) [OF that(1)] that(3) hops(1,2) show ?thesis by auto
    qed
    moreover have "distinct (map fst (wk_seen ?w2))" "distinct (q @ new)" "set (q @ new) \<subseteq> names ?w2" "s \<in> names ?w2"
      using base(1,2,4,6) e(1,3,5) hops(1) by (auto simp: names_def o_def)
    moreover have "length (wk_seen ?w2) \<le> max_graph_nodes" using e(1,6) base(7) by (cases "new = []") simp_all
    moreover have "wk_truncated ?w2 \<longrightarrow> max_graph_nodes \<le> length (wk_seen ?w2)" using e(1,7) base(8) by auto
    ultimately have "walk_ok adj depth s ?w2" unfolding walk_ok_def e(2) by blast
    then show ?thesis using False by (simp add: expand_def Let_def q)
  qed
qed

lemma walk_graph_ok: "walk_ok adj depth s w \<Longrightarrow> walk_ok adj depth s (walk_graph adj depth w) \<and> wk_queue (walk_graph adj depth w) = []"
proof (induction adj depth w rule: walk_graph.induct)
  case (1 adj depth w)
  then show ?case using expand_ok by (cases "wk_queue w = []") (simp_all add: walk_graph.simps [of adj depth w])
qed

section \<open>The graph\<close>

record node_info =
  nd_urn :: string
  nd_kind :: string
  nd_display :: string
  nd_focus :: bool
  nd_stale :: bool
  nd_expandable :: bool
  nd_columns :: "(string \<times> string) list"
  nd_versions :: "(dataset_version \<times> bool) list"
  nd_built :: "dataset_version option"
  nd_opened :: "string option"
  nd_opened_latest :: "bool option"

record lineage_graph =
  gr_focus :: string
  gr_depth :: nat
  gr_direction :: string
  gr_truncated :: bool
  gr_nodes :: "node_info list"
  gr_edges :: "merged_edge list"

text \<open>The dataset of the first recorded edge whose end is a known version.\<close>

definition edge_dataset :: "lineage_rows \<Rightarrow> (lineage_edge \<Rightarrow> string) \<Rightarrow> merged_edge \<Rightarrow> string option" where
  "edge_dataset L which e =
     (case List.map_filter (\<lambda>r. dataset_of L (which r)) (if me_raw e = [] then [\<lparr>eg_source = me_source e, eg_target = me_target e,
         eg_relation = me_relation e, eg_column = [], eg_property = [], eg_created = 0\<rparr>] else me_raw e) of
        [] \<Rightarrow> None | d # _ \<Rightarrow> Some d)"

definition expandable :: "(string \<Rightarrow> (string \<times> merged_edge) list) \<Rightarrow> nat \<Rightarrow> walk_state \<Rightarrow> string \<Rightarrow> bool" where
  "expandable adj depth w node = (depth \<le> hop_of w node \<and> list_ex (\<lambda>ne. dict_get (wk_seen w) (fst ne) = None) (adj node))"

definition display_name :: "lineage_rows \<Rightarrow> string \<Rightarrow> string" where
  "display_name L node =
     (case map_of (rev (ln_dataset_names L)) node of
        Some (c # cs) \<Rightarrow> c # cs
      | _ \<Rightarrow> (case map_of (rev (ln_type_names L)) node of Some (c # cs) \<Rightarrow> c # cs | _ \<Rightarrow> after_last (CHR '':'') node))"

definition node_payload :: "lineage_rows \<Rightarrow> nat \<Rightarrow> walk_state \<Rightarrow> string \<Rightarrow> string \<Rightarrow> node_info" where
  "node_payload L depth w start node =
     (let kind = urn_kind node; edges = map snd (wk_kept w);
          rep = (if kind = ''dataset'' \<or> versions_of L node \<noteq> [] then representative L node else None)
      in \<lparr>nd_urn = node,
          nd_kind = (if kind \<noteq> ''unknown'' then kind else if versions_of L node \<noteq> [] then ''dataset'' else ''unknown''),
          nd_display = display_name L node, nd_focus = (node = start),
          nd_stale = list_ex (\<lambda>e. me_relation e = ''derived_from'' \<and> edge_dataset L eg_target e = Some node \<and> list_ex (edge_stale L) (me_raw e)) edges,
          nd_expandable = expandable (adjacent L) depth w node,
          nd_columns = concat (map (\<lambda>e. if me_relation e = ''maps_to'' \<and> edge_dataset L eg_source e = Some node then me_mappings e else []) edges),
          nd_versions = map (\<lambda>v. (v, Some (vs_urn v) = latest_of L node)) (take 8 (versions_of L node)),
          nd_built = (case rep of None \<Rightarrow> None | Some r \<Rightarrow> version_by_urn L r),
          nd_opened = (if node = start \<and> urn_kind (case rep of Some r \<Rightarrow> r | None \<Rightarrow> []) = ''dataset-version'' then rep else None),
          nd_opened_latest = (case rep of None \<Rightarrow> None | Some r \<Rightarrow> if r = [] then None else Some (rep = latest_of L node))\<rparr>)"

definition normal_rows :: "lineage_rows \<Rightarrow> lineage_rows" where
  "normal_rows L = (if ln_direction L \<in> {''both'', ''upstream'', ''downstream''} then L else L\<lparr>ln_direction := ''both''\<rparr>)"

definition graph_of :: "nat \<Rightarrow> lineage_rows \<Rightarrow> lineage_graph" where
  "graph_of depth L =
     (let start = stable_id L (ln_root L); w = walk_graph (adjacent L) depth (start_walk start)
      in \<lparr>gr_focus = start, gr_depth = depth, gr_direction = ln_direction L, gr_truncated = wk_truncated w,
          gr_nodes = map (node_payload L depth w start) (map fst (wk_seen w)), gr_edges = map snd (wk_kept w)\<rparr>)"

definition assemble_graph :: "int \<Rightarrow> lineage_rows \<Rightarrow> lineage_graph" where
  "assemble_graph wanted L = graph_of (nat (max 1 (min wanted max_graph_depth))) (normal_rows L)"

lemma node_payload_sel [simp]:
  "nd_urn (node_payload L depth w start node) = node"
  "nd_expandable (node_payload L depth w start node) = expandable (adjacent L) depth w node"
  by (simp_all add: node_payload_def Let_def)

lemma graph_of_sel:
  fixes L :: lineage_rows and depth :: nat
  defines "w \<equiv> walk_graph (adjacent L) depth (start_walk (stable_id L (ln_root L)))"
  shows "gr_focus (graph_of depth L) = stable_id L (ln_root L)" "gr_depth (graph_of depth L) = depth"
    "gr_truncated (graph_of depth L) = wk_truncated w"
    "gr_nodes (graph_of depth L) = map (node_payload L depth w (stable_id L (ln_root L))) (map fst (wk_seen w))"
  by (simp_all only: graph_of_def Let_def lineage_graph.select_convs w_def)

text \<open>The edges as \<open>graph\<close> returns them: their ends mapped to datasets, their staleness computed by a scan of its own.\<close>

definition scanned_latest :: "lineage_rows \<Rightarrow> string \<Rightarrow> dataset_version option" where
  "scanned_latest L ds =
     fold (\<lambda>v acc. if vs_dataset v \<noteq> ds then acc
           else (case acc of None \<Rightarrow> Some v | Some u \<Rightarrow> if vs_created u \<le> vs_created v then Some v else acc)) (ln_versions L) None"

definition raw_stale :: "lineage_rows \<Rightarrow> lineage_edge \<Rightarrow> bool" where
  "raw_stale L e =
     (case dataset_of L (eg_source e) of
        None \<Rightarrow> False
      | Some ds \<Rightarrow> (case scanned_latest L ds of None \<Rightarrow> False | Some v \<Rightarrow> eg_source e \<noteq> vs_urn v))"

definition public_edge :: "lineage_rows \<Rightarrow> merged_edge \<Rightarrow> string \<times> string \<times> string \<times> bool \<times> (string \<times> string) list" where
  "public_edge L e =
     (case dataset_of L (me_source e) of Some d \<Rightarrow> d | None \<Rightarrow> me_source e,
      if me_relation e = ''derived_from'' then (case dataset_of L (me_target e) of Some d \<Rightarrow> d | None \<Rightarrow> me_target e) else me_target e,
      me_relation e, me_relation e = ''derived_from'' \<and> list_ex (raw_stale L) (me_raw e), me_mappings e)"

definition lineage_view :: "int \<Rightarrow> lineage_rows \<Rightarrow> lineage_graph \<times> (string \<times> string \<times> string \<times> bool \<times> (string \<times> string) list) list" where
  "lineage_view wanted L = (let g = assemble_graph wanted L in (g, map (public_edge L) (gr_edges g)))"

text \<open>
  C37. The lineage graph is bounded and exact: it has at most 80 nodes, each within the requested depth (1 to 8)
  of the focus along the edges of the requested direction; and unless it is marked truncated, every
  node within that depth is in it, and a node is marked expandable exactly when it has a
  neighbour outside the graph.
\<close>

theorem lineage_graph_exact:
  assumes adj_def: "adj = adjacent (normal_rows L)" and g_def: "g = assemble_graph wanted L"
  shows "1 \<le> gr_depth g \<and> gr_depth g \<le> 8 \<and> length (gr_nodes g) \<le> 80 \<and> distinct (map nd_urn (gr_nodes g)) \<and>
    (\<forall>n \<in> nd_urn ` set (gr_nodes g). \<exists>k \<le> gr_depth g. away adj (gr_focus g) k n) \<and>
    (\<not> gr_truncated g \<longrightarrow>
       (\<forall>k n. k \<le> gr_depth g \<and> away adj (gr_focus g) k n \<longrightarrow> n \<in> nd_urn ` set (gr_nodes g)) \<and>
       (\<forall>n \<in> set (gr_nodes g). nd_expandable n \<longleftrightarrow> (\<exists>b. neighbor_of adj (nd_urn n) b \<and> b \<notin> nd_urn ` set (gr_nodes g))))"
proof -
  let ?w = "walk_graph adj (gr_depth g) (start_walk (gr_focus g))"
  have ok: "walk_ok adj (gr_depth g) (gr_focus g) ?w" "wk_queue ?w = []" using walk_graph_ok [OF start_walk_ok] by blast+
  have focus: "gr_focus g = stable_id (normal_rows L) (ln_root (normal_rows L))"
    and depth: "gr_depth g = nat (max 1 (min wanted max_graph_depth))" by (simp_all only: g_def assemble_graph_def graph_of_sel)
  have trunc: "gr_truncated g = wk_truncated ?w"
    and list: "gr_nodes g = map (node_payload (normal_rows L) (gr_depth g) ?w (gr_focus g)) (map fst (wk_seen ?w))"
    unfolding focus depth by (simp_all only: g_def adj_def assemble_graph_def graph_of_sel)
  have parts: "map nd_urn (gr_nodes g) = map fst (wk_seen ?w)"
    "\<And>n. n \<in> set (gr_nodes g) \<Longrightarrow> nd_expandable n = expandable adj (gr_depth g) ?w (nd_urn n)"
    by (auto simp: list adj_def o_def)
  have nodes: "nd_urn ` set (gr_nodes g) = names ?w" unfolding names_def by (metis parts(1) image_set)
  have "length (gr_nodes g) = length (wk_seen ?w)" by (simp add: list)
  then have size: "length (gr_nodes g) \<le> 80" "distinct (map nd_urn (gr_nodes g))"
    using ok(1) by (simp_all add: walk_ok_def max_graph_nodes_def parts(1))
  have near: "\<exists>k \<le> gr_depth g. away adj (gr_focus g) k n" if "n \<in> names ?w" for n using ok(1) that unfolding walk_ok_def by blast
  have all: "n \<in> names ?w" if "\<not> wk_truncated ?w" "k \<le> gr_depth g" "away adj (gr_focus g) k n" for k n
    using walk_complete_to [OF ok(1) that(1) _ _ that(3,2)] ok(2) by simp
  have ex: "expandable adj (gr_depth g) ?w n \<longleftrightarrow> (\<exists>b. neighbor_of adj n b \<and> b \<notin> names ?w)"
    if "\<not> wk_truncated ?w" "n \<in> names ?w" for n
  proof -
    have "hop_of ?w n < gr_depth g \<Longrightarrow> fst ` set (adj n) \<subseteq> names ?w" using ok that by (simp add: walk_ok_def)
    then show ?thesis
      by (auto simp: expandable_def list_ex_iff dict_get_None_iff names_def [symmetric] neighbor_of_def) (metis fst_conv image_eqI leI subsetD)
  qed
  have "1 \<le> gr_depth g" "gr_depth g \<le> 8" by (simp_all add: depth max_graph_depth_def)
  moreover have "nd_expandable n \<longleftrightarrow> (\<exists>b. neighbor_of adj (nd_urn n) b \<and> b \<notin> names ?w)" if "\<not> wk_truncated ?w" "n \<in> set (gr_nodes g)" for n
    using ex [OF that(1)] parts(2) [OF that(2)] that(2) nodes by blast
  ultimately show ?thesis using size near all unfolding nodes trunc by blast
qed

definition sample_lineage :: lineage_rows where
  "sample_lineage =
     \<lparr>ln_root = ''x:object-type:Order'', ln_direction = ''upstream'',
       ln_edges =
         [\<lparr>eg_source = ''x:dataset-version:v1'', eg_target = ''x:dataset-version:w1'', eg_relation = ''derived_from'', eg_column = [], eg_property = [], eg_created = 1\<rparr>,
          \<lparr>eg_source = ''x:dataset-version:w1'', eg_target = ''x:object-type:Order'', eg_relation = ''maps_to'', eg_column = ''id'', eg_property = ''id'', eg_created = 2\<rparr>],
       ln_versions =
         [\<lparr>vs_urn = ''x:dataset-version:v1'', vs_dataset = ''x:dataset:raw'', vs_created = 0, vs_rows = None\<rparr>,
          \<lparr>vs_urn = ''x:dataset-version:v2'', vs_dataset = ''x:dataset:raw'', vs_created = 0, vs_rows = None\<rparr>,
          \<lparr>vs_urn = ''x:dataset-version:w1'', vs_dataset = ''x:dataset:clean'', vs_created = 1, vs_rows = None\<rparr>],
       ln_dataset_names = [], ln_type_names = []\<rparr>"

lemma sample_graph_nodes: "map nd_urn (gr_nodes (assemble_graph 2 sample_lineage)) = [''x:object-type:Order'', ''x:dataset:clean'', ''x:dataset:raw''] \<and>
    \<not> gr_truncated (assemble_graph 2 sample_lineage) \<and> gr_focus (assemble_graph 2 sample_lineage) = ''x:object-type:Order''"
  by code_simp

theorem lineage_graph_exact_witness:
  "length (gr_nodes (assemble_graph 2 sample_lineage)) = 3 \<and>
   (\<exists>k. k \<le> gr_depth (assemble_graph 2 sample_lineage) \<and> away (adjacent (normal_rows sample_lineage)) ''x:object-type:Order'' k ''x:dataset:raw'') \<and>
   \<not> away (adjacent (normal_rows sample_lineage)) ''x:object-type:Order'' 1 ''x:dataset:other''"
proof -
  let ?g = "assemble_graph 2 sample_lineage" and ?adj = "adjacent (normal_rows sample_lineage)"
  have nodes: "nd_urn ` set (gr_nodes ?g) = {''x:object-type:Order'', ''x:dataset:clean'', ''x:dataset:raw''}"
    using sample_graph_nodes by (metis image_set empty_set list.simps(15))
  have len: "length (gr_nodes ?g) = 3" using arg_cong [OF conjunct1 [OF sample_graph_nodes], of length] by simp
  note exact = lineage_graph_exact [of ?adj sample_lineage ?g 2, OF refl refl]
  have trunc: "\<not> gr_truncated ?g" and focus: "gr_focus ?g = ''x:object-type:Order''" using sample_graph_nodes by blast+
  from exact have near: "\<forall>n \<in> nd_urn ` set (gr_nodes ?g). \<exists>k \<le> gr_depth ?g. away ?adj (gr_focus ?g) k n" and depth: "1 \<le> gr_depth ?g" by blast+
  from exact trunc have all: "\<forall>k n. k \<le> gr_depth ?g \<and> away ?adj (gr_focus ?g) k n \<longrightarrow> n \<in> nd_urn ` set (gr_nodes ?g)" by blast
  from near nodes have "\<exists>k \<le> gr_depth ?g. away ?adj (gr_focus ?g) k ''x:dataset:raw''" by simp
  moreover have "\<not> away ?adj (gr_focus ?g) 1 ''x:dataset:other''"
  proof
    assume "away ?adj (gr_focus ?g) 1 ''x:dataset:other''"
    with all depth have "''x:dataset:other'' \<in> nd_urn ` set (gr_nodes ?g)" by blast
    then show False by (simp add: nodes)
  qed
  ultimately show ?thesis unfolding focus using len by blast
qed

text \<open>
  Two versions of one dataset with the same timestamp: the node takes the first as the latest, the public
  edges the last, so an edge from the first is stale in the list of edges but its target node is not.
\<close>

lemma stale_disagrees_on_ties:
  "edge_stale sample_lineage (hd (ln_edges sample_lineage)) = False \<and> raw_stale sample_lineage (hd (ln_edges sample_lineage)) = True"
  by code_simp

end
