(* ===== verification/Holon_Markings.thy ===== *)
theory Holon_Markings
  imports Holon_Prelude
begin

text \<open>
  Markings (\<open>ontology/markings.py\<close> and \<open>core._authorize_markings\<close>): the registry of markings and categories of a
  tenant, the table of marked instances, and the evaluation of a list of markings against
  the markings a principal holds. Whether the principal holds one is an argument.
\<close>

section \<open>Registry\<close>

record marking =
  mk_name :: string
  mk_category :: string
  mk_category_type :: string

datatype marking_error = UnknownMarkings "string list" | UnknownCategory string | DuplicateMarking string

record marking_registry =
  mr_categories :: "(string \<times> string) list"
  mr_markings :: "marking list"

definition create_marking_category :: "string \<Rightarrow> string \<Rightarrow> string \<Rightarrow> marking_registry \<Rightarrow> (marking_error, marking_registry) result" where
  "create_marking_category name category_type marking_type reg =
     (let ty = py_upper category_type in
      if ty \<notin> {''CONJUNCTIVE'', ''DISJUNCTIVE''} \<or> py_upper marking_type \<noteq> ''MANDATORY'' then Inl (UnknownCategory category_type)
      else if name \<in> fst ` set (mr_categories reg) then Inl (DuplicateMarking name)
      else Inr (reg\<lparr>mr_categories := mr_categories reg @ [(name, ty)]\<rparr>))"

definition ensure_default_category :: "marking_registry \<Rightarrow> marking_registry" where
  "ensure_default_category reg =
     (if ''Default'' \<in> fst ` set (mr_categories reg) then reg
      else reg\<lparr>mr_categories := mr_categories reg @ [(''Default'', ''CONJUNCTIVE'')]\<rparr>)"

definition create_marking :: "string \<Rightarrow> string option \<Rightarrow> marking_registry \<Rightarrow> (marking_error, marking_registry) result" where
  "create_marking name category reg0 =
     (let reg = (if category = None then ensure_default_category reg0 else reg0);
          cat = (case category of None \<Rightarrow> ''Default'' | Some c \<Rightarrow> c)
      in case map_of (mr_categories reg) cat of
        None \<Rightarrow> Inl (UnknownCategory cat)
      | Some ty \<Rightarrow>
          if name \<in> mk_name ` set (mr_markings reg) then Inl (DuplicateMarking name)
          else Inr (reg\<lparr>mr_markings := mr_markings reg @ [\<lparr>mk_name = name, mk_category = cat, mk_category_type = ty\<rparr>]\<rparr>))"

definition marking_authz_meta :: "marking_registry \<Rightarrow> string list \<Rightarrow> marking list" where
  "marking_authz_meta reg markings =
     (if markings = [] then [] else filter (\<lambda>m. mk_name m \<in> set markings) (mr_markings reg))"

definition validate_markings :: "marking_registry \<Rightarrow> string list \<Rightarrow> (marking_error, unit) result" where
  "validate_markings reg markings =
     (let missing = filter (\<lambda>m. m \<notin> mk_name ` set (mr_markings reg)) markings
      in if missing = [] then Inr () else Inl (UnknownMarkings missing))"

section \<open>Marked instances\<close>

type_synonym instance_marks = "string \<times> string \<Rightarrow> string list option"

definition set_instance_markings ::
  "marking_registry \<Rightarrow> string \<Rightarrow> string \<Rightarrow> string list \<Rightarrow> instance_marks \<Rightarrow> (marking_error, instance_marks) result" where
  "set_instance_markings reg type_urn i markings tbl =
     rbind (validate_markings reg markings) (\<lambda>_. Inr (tbl((type_urn, i) \<mapsto> markings)))"

definition get_instance_markings_bulk :: "instance_marks \<Rightarrow> string \<Rightarrow> string list \<Rightarrow> (string, string list) dict" where
  "get_instance_markings_bulk tbl type_urn ids =
     List.map_filter (\<lambda>i. map_option (\<lambda>ms. (i, ms)) (tbl (type_urn, i))) (remdups ids)"

section \<open>Evaluation\<close>

definition add_to_category :: "marking \<Rightarrow> (string, string \<times> string list) dict \<Rightarrow> (string, string \<times> string list) dict" where
  "add_to_category m d =
     (case dict_get d (mk_category m) of
        None \<Rightarrow> dict_set (mk_category m) (mk_category_type m, [mk_name m]) d
      | Some (ty, ns) \<Rightarrow> dict_set (mk_category m) (ty, ns @ [mk_name m]) d)"

definition by_category :: "marking list \<Rightarrow> (string, string \<times> string list) dict" where
  "by_category meta = fold add_to_category meta []"

definition category_groups_satisfied :: "marking list \<Rightarrow> (string \<Rightarrow> bool) \<Rightarrow> bool" where
  "category_groups_satisfied meta held =
     list_all (\<lambda>(_, ty, ns). if ty = ''DISJUNCTIVE'' then list_ex held ns else list_all held ns) (by_category meta)"

definition authorize_markings :: "marking_registry \<Rightarrow> (string \<Rightarrow> bool) \<Rightarrow> string list \<Rightarrow> bool" where
  "authorize_markings reg holds markings =
     (if markings = [] then True
      else let meta = marking_authz_meta reg markings in
           if length meta \<noteq> length (remdups markings) then False
           else category_groups_satisfied meta (\<lambda>n. n \<in> mk_name ` set meta \<and> holds n))"

section \<open>What a list of markings demands\<close>

text \<open>Names are unique and every marking carries the type of its category.\<close>

definition registry_ok :: "marking_registry \<Rightarrow> bool" where
  "registry_ok reg \<longleftrightarrow> distinct (map mk_name (mr_markings reg)) \<and>
     (\<forall>m \<in> set (mr_markings reg). map_of (mr_categories reg) (mk_category m) = Some (mk_category_type m))"

lemma category_added_ok:
  "registry_ok reg \<Longrightarrow> registry_ok (reg\<lparr>mr_categories := mr_categories reg @ [(name, ty)]\<rparr>)"
  by (auto simp: registry_ok_def map_add_def)

lemma create_category_ok: "create_marking_category name cty mty reg = Inr reg' \<Longrightarrow> registry_ok reg \<Longrightarrow> registry_ok reg'"
  by (auto simp: create_marking_category_def Let_def category_added_ok split: if_splits)

lemma ensure_default_ok: "registry_ok reg \<Longrightarrow> registry_ok (ensure_default_category reg)"
  by (simp add: ensure_default_category_def category_added_ok)

lemma create_marking_ok: "create_marking name category reg = Inr reg' \<Longrightarrow> registry_ok reg \<Longrightarrow> registry_ok reg'"
proof -
  assume cr: "create_marking name category reg = Inr reg'" and ok: "registry_ok reg"
  let ?reg = "if category = None then ensure_default_category reg else reg"
  from ok have "registry_ok ?reg" by (simp add: ensure_default_ok)
  moreover from cr obtain c ty where "map_of (mr_categories ?reg) c = Some ty" "name \<notin> mk_name ` set (mr_markings ?reg)"
    "reg' = ?reg\<lparr>mr_markings := mr_markings ?reg @ [\<lparr>mk_name = name, mk_category = c, mk_category_type = ty\<rparr>]\<rparr>"
    by (auto simp: create_marking_def Let_def split: option.splits if_splits)
  ultimately show ?thesis by (auto simp: registry_ok_def)
qed

lemma by_category_snoc: "by_category (ms @ [m]) = add_to_category m (by_category ms)"
  by (simp add: by_category_def)

lemma by_category_get:
  assumes "\<forall>m \<in> set ms. \<forall>m' \<in> set ms. mk_category m = mk_category m' \<longrightarrow> mk_category_type m = mk_category_type m'"
  shows "dict_get (by_category ms) c =
    (case filter (\<lambda>m. mk_category m = c) ms of [] \<Rightarrow> None | m # _ \<Rightarrow> Some (mk_category_type m, map mk_name (filter (\<lambda>m. mk_category m = c) ms)))"
  using assms
proof (induction ms rule: rev_induct)
  case (snoc m ms)
  have ih: "dict_get (by_category ms) c =
    (case filter (\<lambda>m. mk_category m = c) ms of [] \<Rightarrow> None | m # _ \<Rightarrow> Some (mk_category_type m, map mk_name (filter (\<lambda>m. mk_category m = c) ms)))"
    by (rule snoc.IH) (use snoc.prems in \<open>unfold set_append, blast\<close>)
  show ?case
  proof (cases "mk_category m = c")
    case True
    then have "dict_get (by_category (ms @ [m])) c =
      (case dict_get (by_category ms) c of None \<Rightarrow> Some (mk_category_type m, [mk_name m]) | Some (ty, ns) \<Rightarrow> Some (ty, ns @ [mk_name m]))"
      by (simp add: by_category_snoc add_to_category_def split: option.splits prod.splits)
    with True ih show ?thesis by (cases "filter (\<lambda>m. mk_category m = c) ms") simp_all
  next
    case False
    then have "dict_get (by_category (ms @ [m])) c = dict_get (by_category ms) c"
      by (simp add: by_category_snoc add_to_category_def split: option.splits prod.splits)
    with False ih show ?thesis by (cases "filter (\<lambda>m. mk_category m = c) ms") simp_all
  qed
qed (simp add: by_category_def)

lemma by_category_wf: "dict_wf (by_category ms)"
proof (induction ms rule: rev_induct)
  case (snoc m ms)
  then show ?case by (auto simp: by_category_snoc add_to_category_def split: option.splits)
qed (simp add: by_category_def dict_wf_def)

definition marking_granted :: "marking list \<Rightarrow> (string \<Rightarrow> bool) \<Rightarrow> marking \<Rightarrow> bool" where
  "marking_granted ms held m =
     (if mk_category_type m = ''DISJUNCTIVE'' then \<exists>m' \<in> set ms. mk_category m' = mk_category m \<and> held (mk_name m') else held (mk_name m))"

lemma groups_satisfied_iff:
  assumes "\<forall>m \<in> set ms. \<forall>m' \<in> set ms. mk_category m = mk_category m' \<longrightarrow> mk_category_type m = mk_category_type m'"
  shows "category_groups_satisfied ms held \<longleftrightarrow> (\<forall>m \<in> set ms. marking_granted ms held m)"
proof -
  have entries: "(c, g) \<in> set (by_category ms) \<longleftrightarrow> dict_get (by_category ms) c = Some g" for c g
    using by_category_wf [of ms] by (simp add: dict_get_def dict_wf_def)
  have "category_groups_satisfied ms held \<longleftrightarrow>
    (\<forall>c ty ns. dict_get (by_category ms) c = Some (ty, ns) \<longrightarrow> (if ty = ''DISJUNCTIVE'' then list_ex held ns else list_all held ns))"
  proof -
    have "(\<forall>e \<in> set (by_category ms). P e) \<longleftrightarrow> (\<forall>c ty ns. dict_get (by_category ms) c = Some (ty, ns) \<longrightarrow> P (c, ty, ns))" for P
      by (metis entries prod_cases3)
    then show ?thesis by (simp add: category_groups_satisfied_def list_all_iff)
  qed
  also have "\<dots> \<longleftrightarrow> (\<forall>m \<in> set ms. marking_granted ms held m)"
  proof (intro iffI ballI allI impI)
    fix m
    assume all: "\<forall>c ty ns. dict_get (by_category ms) c = Some (ty, ns) \<longrightarrow> (if ty = ''DISJUNCTIVE'' then list_ex held ns else list_all held ns)"
      and m: "m \<in> set ms"
    let ?g = "filter (\<lambda>m'. mk_category m' = mk_category m) ms"
    have "m \<in> set ?g" using m by simp
    then obtain h t where g: "?g = h # t" by (cases ?g) auto
    then have "h \<in> set ?g" by simp
    then have h: "h \<in> set ms" "mk_category h = mk_category m" by simp_all
    then have "mk_category_type h = mk_category_type m" using assms m by blast
    then have "dict_get (by_category ms) (mk_category m) = Some (mk_category_type m, map mk_name ?g)"
      using by_category_get [OF assms, of "mk_category m"] g by simp
    with all have "if mk_category_type m = ''DISJUNCTIVE'' then list_ex held (map mk_name ?g) else list_all held (map mk_name ?g)" by blast
    with m show "marking_granted ms held m" by (auto simp: marking_granted_def list_ex_iff list_all_iff split: if_splits)
  next
    fix c ty ns
    assume all: "\<forall>m \<in> set ms. marking_granted ms held m" and get: "dict_get (by_category ms) c = Some (ty, ns)"
    let ?g = "filter (\<lambda>m. mk_category m = c) ms"
    from get by_category_get [OF assms, of c] obtain h t where g: "?g = h # t" "ty = mk_category_type h" "ns = map mk_name ?g"
      by (cases ?g) auto
    from g(1) have "h \<in> set ?g" by simp
    then have h: "h \<in> set ms" "mk_category h = c" by simp_all
    show "if ty = ''DISJUNCTIVE'' then list_ex held ns else list_all held ns"
    proof (cases "ty = ''DISJUNCTIVE''")
      case True
      have "marking_granted ms held h" using all h(1) by blast
      with True h(2) g(2) obtain m' where "m' \<in> set ms" "mk_category m' = c" "held (mk_name m')" by (auto simp: marking_granted_def)
      with True show ?thesis by (auto simp: g(3) list_ex_iff)
    next
      case False
      have "held (mk_name m)" if "m \<in> set ms" "mk_category m = c" for m
      proof -
        have "mk_category m = mk_category h" using that(2) h(2) by simp
        from assms [rule_format, OF that(1) h(1) this] have "mk_category_type m = ty" by (simp add: g(2))
        moreover have "marking_granted ms held m" using all that(1) by blast
        ultimately show ?thesis using False by (simp add: marking_granted_def)
      qed
      with False show ?thesis by (auto simp: g(3) list_all_iff)
    qed
  qed
  finally show ?thesis .
qed

text \<open>
  C38. Markings are authorised exactly when every marking is registered and, category by category, every marking
  of a conjunctive category is held and at least one of a disjunctive category is: an unknown name
  denies, duplicates do not matter.
\<close>

theorem markings_authorized_iff:
  assumes "registry_ok reg"
  shows "authorize_markings reg holds markings \<longleftrightarrow>
    (\<forall>n \<in> set markings. \<exists>m \<in> set (mr_markings reg). mk_name m = n \<and>
       (if mk_category_type m = ''DISJUNCTIVE''
        then \<exists>m' \<in> set (mr_markings reg). mk_name m' \<in> set markings \<and> mk_category m' = mk_category m \<and> holds (mk_name m')
        else holds n))"
proof (cases "markings = []")
  case False
  let ?meta = "marking_authz_meta reg markings" and ?held = "\<lambda>n. n \<in> mk_name ` set (marking_authz_meta reg markings) \<and> holds n"
  have meta: "?meta = filter (\<lambda>m. mk_name m \<in> set markings) (mr_markings reg)" using False by (simp add: marking_authz_meta_def)
  have dist: "distinct (map mk_name ?meta)" using assms by (simp add: registry_ok_def meta distinct_map inj_on_def)
  have sub: "set (map mk_name ?meta) \<subseteq> set markings" by (auto simp: meta)
  have "length ?meta = card (set (map mk_name ?meta))" using distinct_card [OF dist] by simp
  moreover have "length (remdups markings) = card (set markings)" by (simp add: length_remdups_card_conv)
  ultimately have found: "length ?meta = length (remdups markings) \<longleftrightarrow> set (map mk_name ?meta) = set markings"
    using sub by (metis List.finite_set card_subset_eq)
  have types: "\<forall>m \<in> set ?meta. \<forall>m' \<in> set ?meta. mk_category m = mk_category m' \<longrightarrow> mk_category_type m = mk_category_type m'"
  proof (intro ballI impI)
    fix m m'
    assume m: "m \<in> set ?meta" "m' \<in> set ?meta" "mk_category m = mk_category m'"
    have "map_of (mr_categories reg) (mk_category x) = Some (mk_category_type x)" if "x \<in> set ?meta" for x
      using assms that unfolding meta registry_ok_def by simp
    with m have "Some (mk_category_type m) = Some (mk_category_type m')" by metis
    then show "mk_category_type m = mk_category_type m'" by simp
  qed
  have "authorize_markings reg holds markings \<longleftrightarrow> set (map mk_name ?meta) = set markings \<and> (\<forall>m \<in> set ?meta. marking_granted ?meta ?held m)"
    using False found groups_satisfied_iff [OF types] by (simp add: authorize_markings_def Let_def)
  also have "\<dots> \<longleftrightarrow> (\<forall>n \<in> set markings. \<exists>m \<in> set ?meta. mk_name m = n \<and> marking_granted ?meta ?held m)" (is "?all \<longleftrightarrow> ?each")
  proof
    assume each: ?each
    have "marking_granted ?meta ?held m" if m: "m \<in> set ?meta" for m
    proof -
      from m sub have "mk_name m \<in> set markings" by auto
      with each obtain m' where m': "m' \<in> set ?meta" "mk_name m' = mk_name m" "marking_granted ?meta ?held m'" by blast
      have "inj_on mk_name (set ?meta)" using dist by (simp add: distinct_map)
      from inj_onD [OF this m'(2) m'(1) m] m'(3) show ?thesis by simp
    qed
    moreover have "set markings \<subseteq> set (map mk_name ?meta)"
    proof
      fix n
      assume "n \<in> set markings"
      with each obtain m where "m \<in> set ?meta" "mk_name m = n" by blast
      then show "n \<in> set (map mk_name ?meta)" by auto
    qed
    ultimately show ?all using sub by blast
  next
    assume all: ?all
    show ?each
    proof
      fix n
      assume "n \<in> set markings"
      with all have "n \<in> set (map mk_name ?meta)" by simp
      then obtain m where "m \<in> set ?meta" "mk_name m = n" by auto
      with all show "\<exists>m \<in> set ?meta. mk_name m = n \<and> marking_granted ?meta ?held m" by blast
    qed
  qed
  also have "\<dots> \<longleftrightarrow> (\<forall>n \<in> set markings. \<exists>m \<in> set (mr_markings reg). mk_name m = n \<and>
       (if mk_category_type m = ''DISJUNCTIVE''
        then \<exists>m' \<in> set (mr_markings reg). mk_name m' \<in> set markings \<and> mk_category m' = mk_category m \<and> holds (mk_name m')
        else holds n))"
    by (intro ball_cong refl) (auto simp: meta marking_granted_def)
  finally show ?thesis .
qed (simp add: authorize_markings_def)

definition two_categories :: marking_registry where
  "two_categories = \<lparr>mr_categories = [(''Default'', ''CONJUNCTIVE''), (''Region'', ''DISJUNCTIVE'')],
     mr_markings = [\<lparr>mk_name = ''pii'', mk_category = ''Default'', mk_category_type = ''CONJUNCTIVE''\<rparr>,
       \<lparr>mk_name = ''eu'', mk_category = ''Region'', mk_category_type = ''DISJUNCTIVE''\<rparr>,
       \<lparr>mk_name = ''us'', mk_category = ''Region'', mk_category_type = ''DISJUNCTIVE''\<rparr>]\<rparr>"

theorem markings_authorized_iff_witness:
  "authorize_markings two_categories (\<lambda>n. n \<noteq> ''us'') [''pii'', ''eu'', ''us'', ''eu''] \<and> \<not> authorize_markings two_categories (\<lambda>n. n \<noteq> ''pii'') [''pii'', ''eu'']"
proof -
  have "registry_ok two_categories" by (simp add: registry_ok_def two_categories_def)
  from markings_authorized_iff [OF this] show ?thesis by (simp add: two_categories_def)
qed

text \<open>Clearing the markings of an instance keeps its row, with an empty list.\<close>

lemma cleared_markings_keep_row: "set_instance_markings reg u i [] tbl = Inr (tbl((u, i) \<mapsto> []))"
  by (simp add: set_instance_markings_def validate_markings_def)

end
