(* ===== verification/Holon_Derived.thy ===== *)
theory Holon_Derived
  imports Holon_Markings Holon_Compare "HOL-Library.Multiset"
begin

text \<open>
  Derived properties (\<open>derived.py\<close>): aggregates over linked objects, computed by traversal or, for one hop over a
  foreign key, from grouped rows (\<open>serving_store.aggregate_fk_children\<close>), and reducers over an array of the
  object. \<open>Decimal\<close> is an exact rational; parsing text as a decimal, in Python and in SQL, and
  the neighbours of an object are arguments.
\<close>

section \<open>Values\<close>

datatype derived_value = Count nat | Number rat | Items "json list" | Item json

datatype outcome = Absent | Failed | Value derived_value

definition outcome_of :: "(py_exc, derived_value option) result \<Rightarrow> outcome" where
  "outcome_of r = (case r of Inl _ \<Rightarrow> Failed | Inr None \<Rightarrow> Absent | Inr (Some v) \<Rightarrow> Value v)"

section \<open>Aggregates by traversal\<close>

record link_rule =
  lr_path :: "string list"
  lr_aggregate :: string
  lr_property :: string
  lr_limit :: json

definition max_link_aggregate_hops :: nat where
  "max_link_aggregate_hops = 3"

text \<open>\<open>nb t row link\<close>: the type and the readable rows one hop away, if the link resolves.\<close>

type_synonym neighbors = "string \<Rightarrow> payload \<Rightarrow> string \<Rightarrow> (string \<times> payload list) option"

definition hop :: "neighbors \<Rightarrow> string \<Rightarrow> (string \<times> payload) list \<Rightarrow> (string \<times> payload) list" where
  "hop nb link frontier =
     concat (map (\<lambda>(t, row).
       if dict_get row ''id'' = None then []
       else case nb t row link of None \<Rightarrow> [] | Some (nt, rows) \<Rightarrow> map (\<lambda>r. (nt, r)) rows) frontier)"

fun hops :: "neighbors \<Rightarrow> string list \<Rightarrow> (string \<times> payload) list \<Rightarrow> (string \<times> payload) list" where
  "hops nb [] frontier = frontier"
| "hops nb (l # ls) frontier = (let next = hop nb l frontier in if next = [] then [] else hops nb ls next)"

fun decimals :: "(json \<Rightarrow> rat option) \<Rightarrow> json list \<Rightarrow> (py_exc, rat list) result" where
  "decimals dec [] = Inr []"
| "decimals dec (v # vs) = (case dec v of None \<Rightarrow> Inl ValueError | Some r \<Rightarrow> rbind (decimals dec vs) (\<lambda>rs. Inr (r # rs)))"

definition reduce_numeric :: "(json \<Rightarrow> rat option) \<Rightarrow> json list \<Rightarrow> string \<Rightarrow> (py_exc, rat option) result" where
  "reduce_numeric dec vs aggregate =
     rbind (decimals dec vs) (\<lambda>ns. Inr (
       if ns = [] then None
       else if aggregate = ''sum'' then Some (sum_list ns)
       else if aggregate = ''avg'' then Some (sum_list ns / of_nat (length ns))
       else if aggregate = ''min'' then Some (Min (set ns))
       else if aggregate = ''max'' then Some (Max (set ns))
       else None))"

text \<open>The first occurrences of values with distinct JSON text, at most \<open>n\<close> of them.\<close>

fun collect_unique :: "(json \<Rightarrow> string) \<Rightarrow> nat \<Rightarrow> string list \<Rightarrow> json list \<Rightarrow> json list" where
  "collect_unique dumps n seen [] = []"
| "collect_unique dumps n seen (v # vs) =
     (if dumps v \<in> set seen then collect_unique dumps n seen vs
      else if n \<le> 1 then [v] else v # collect_unique dumps (n - 1) (dumps v # seen) vs)"

definition collect_limit :: "json \<Rightarrow> nat" where
  "collect_limit j = (case j of JInt i \<Rightarrow> if i < 1 then 10 else nat i | _ \<Rightarrow> 10)"

definition compute_link_aggregate ::
  "(json \<Rightarrow> rat option) \<Rightarrow> (json \<Rightarrow> string) \<Rightarrow> neighbors \<Rightarrow> (string \<Rightarrow> (string, string) dict option) \<Rightarrow> link_rule \<Rightarrow> string \<Rightarrow> payload
     \<Rightarrow> (py_exc, derived_value option) result" where
  "compute_link_aggregate dec dumps nb mapping_of rule ot row =
     (if lr_path rule = [] \<or> max_link_aggregate_hops < length (lr_path rule) \<or> dict_get row ''id'' = None then Inr None
      else let frontier = hops nb (lr_path rule) [(ot, row)]; agg = lr_aggregate rule in
        if agg = ''count'' then Inr (Some (Count (length frontier)))
        else if frontier = [] then Inr None
        else (case mapping_of (fst (hd frontier)) of
                None \<Rightarrow> Inr None
              | Some mapping \<Rightarrow>
                  (case dict_get mapping (lr_property rule) of
                     None \<Rightarrow> Inr None
                   | Some col \<Rightarrow>
                       let vs = filter (\<lambda>v. v \<noteq> JNull) (map (\<lambda>p. obj_get (snd p) col) frontier) in
                       if agg = ''collect_set'' then Inr (Some (Items (collect_unique dumps (collect_limit (lr_limit rule)) [] vs)))
                       else if agg = ''collect_list'' then Inr (Some (Items (take (collect_limit (lr_limit rule)) vs)))
                       else rbind (reduce_numeric dec vs agg) (\<lambda>r. Inr (map_option Number r)))))"

section \<open>Aggregates from grouped rows\<close>

text \<open>A stored child: its foreign key and value as read, its row of instance markings, whether it is tombstoned.\<close>

record child =
  ch_row :: payload
  ch_parent :: "string option"
  ch_value :: json
  ch_markings :: "string list option"
  ch_dead :: bool

record slot =
  sl_n :: nat
  sl_total :: "rat option"
  sl_min :: "rat option"
  sl_max :: "rat option"
  sl_numeric :: nat
  sl_bad :: nat

definition empty_slot :: slot where
  "empty_slot = \<lparr>sl_n = 0, sl_total = None, sl_min = None, sl_max = None, sl_numeric = 0, sl_bad = 0\<rparr>"

definition slot_values :: "(json \<Rightarrow> rat option) \<Rightarrow> json list \<Rightarrow> rat list" where
  "slot_values dec vs = List.map_filter dec (filter (\<lambda>v. v \<noteq> JNull) vs)"

text \<open>The grouped query over one group of unmarked children; \<open>sql\<close> reads a value that is numeric text.\<close>

definition sql_slot :: "(json \<Rightarrow> rat option) \<Rightarrow> json list \<Rightarrow> slot" where
  "sql_slot sql vs =
     (let ns = slot_values sql vs in
      \<lparr>sl_n = length vs, sl_total = (if ns = [] then None else Some (sum_list ns)), sl_min = (if ns = [] then None else Some (Min (set ns))),
       sl_max = (if ns = [] then None else Some (Max (set ns))), sl_numeric = length ns, sl_bad = length (filter (\<lambda>v. v \<noteq> JNull \<and> sql v = None) vs)\<rparr>)"

definition value_of :: "string \<Rightarrow> child \<Rightarrow> json" where
  "value_of agg c = (if agg = ''count'' then JNull else ch_value c)"

definition children_of :: "child list \<Rightarrow> string \<Rightarrow> child list" where
  "children_of cs p = filter (\<lambda>c. \<not> ch_dead c \<and> ch_parent c = Some p) cs"

definition unmarked :: "child list \<Rightarrow> child list" where
  "unmarked cs = filter (\<lambda>c. ch_markings c = None) cs"

text \<open>Grouped unmarked children, and the marked ones.\<close>

definition aggregate_fk_children ::
  "(json \<Rightarrow> rat option) \<Rightarrow> string \<Rightarrow> child list \<Rightarrow> string list \<Rightarrow> (string \<times> slot) list \<times> child list" where
  "aggregate_fk_children sql agg cs parents =
     (map (\<lambda>p. (p, sql_slot sql (map (value_of agg) (unmarked (children_of cs p))))) (filter (\<lambda>p. unmarked (children_of cs p) \<noteq> []) (remdups parents)),
      filter (\<lambda>c. ch_markings c \<noteq> None \<and> \<not> ch_dead c \<and> (\<exists>p \<in> set parents. ch_parent c = Some p)) cs)"

definition add_marked :: "(json \<Rightarrow> rat option) \<Rightarrow> string \<Rightarrow> child \<Rightarrow> slot \<Rightarrow> slot" where
  "add_marked dec agg c s =
     (let s1 = s\<lparr>sl_n := Suc (sl_n s)\<rparr>; v = value_of agg c in
      if agg = ''count'' \<or> v = JNull then s1
      else (case dec v of
              None \<Rightarrow> s1\<lparr>sl_bad := Suc (sl_bad s)\<rparr>
            | Some x \<Rightarrow>
                s1\<lparr>sl_numeric := Suc (sl_numeric s), sl_total := Some ((case sl_total s of None \<Rightarrow> 0 | Some t \<Rightarrow> t) + x),
                   sl_min := Some (case sl_min s of None \<Rightarrow> x | Some m \<Rightarrow> min m x), sl_max := Some (case sl_max s of None \<Rightarrow> x | Some m \<Rightarrow> max m x)\<rparr>))"

definition slot_outcome :: "string \<Rightarrow> slot option \<Rightarrow> outcome" where
  "slot_outcome agg s =
     (if agg = ''count'' then Value (Count (case s of None \<Rightarrow> 0 | Some x \<Rightarrow> sl_n x))
      else (case s of
              None \<Rightarrow> Absent
            | Some x \<Rightarrow>
                if sl_bad x \<noteq> 0 then Failed
                else if sl_numeric x = 0 then Absent
                else (let found = (\<lambda>v. case v of None \<Rightarrow> Absent | Some r \<Rightarrow> Value (Number r)) in
                      if agg = ''sum'' then found (sl_total x)
                      else if agg = ''avg'' then found (map_option (\<lambda>t. t / of_nat (sl_numeric x)) (sl_total x))
                      else if agg = ''min'' then found (sl_min x)
                      else if agg = ''max'' then found (sl_max x) else Absent)))"

text \<open>The marked children that the caller may see are added to the slots of their parents.\<close>

definition combine_fk_aggregate ::
  "(json \<Rightarrow> rat option) \<Rightarrow> string \<Rightarrow> (string \<times> slot) list \<Rightarrow> child list \<Rightarrow> (child \<Rightarrow> bool) \<Rightarrow> string \<Rightarrow> outcome" where
  "combine_fk_aggregate dec agg grouped marked allowed p =
     slot_outcome agg (dict_get
       (fold (\<lambda>c d. if \<not> allowed c then d
              else (let k = (case ch_parent c of Some q \<Rightarrow> q | None \<Rightarrow> []);
                        s = (case dict_get d k of None \<Rightarrow> empty_slot | Some s \<Rightarrow> s)
                    in dict_set k (add_marked dec agg c s) d)) marked grouped) p)"

text \<open>The precomputed aggregate of one parent of the page; a marked child is allowed when its markings are not empty and authorised.\<close>

definition precompute_fk_aggregate ::
  "(json \<Rightarrow> rat option) \<Rightarrow> (json \<Rightarrow> rat option) \<Rightarrow> (string list \<Rightarrow> bool) \<Rightarrow> string \<Rightarrow> child list \<Rightarrow> string list \<Rightarrow> string \<Rightarrow> outcome" where
  "precompute_fk_aggregate sql text authorized agg cs parents p =
     (case aggregate_fk_children sql agg cs parents of
        (grouped, marked) \<Rightarrow>
          combine_fk_aggregate text agg grouped marked (\<lambda>c. case ch_markings c of Some ms \<Rightarrow> ms \<noteq> [] \<and> authorized ms | None \<Rightarrow> False) p)"

text \<open>The traversal of the same link: nothing when the type of the children is not readable, else the children not hidden by a marking.\<close>

definition readable_child :: "(string list \<Rightarrow> bool) \<Rightarrow> child \<Rightarrow> bool" where
  "readable_child authorized c = (case ch_markings c of None \<Rightarrow> True | Some ms \<Rightarrow> ms = [] \<or> authorized ms)"

definition fk_neighbors :: "bool \<Rightarrow> (string list \<Rightarrow> bool) \<Rightarrow> child list \<Rightarrow> string \<Rightarrow> string \<Rightarrow> (string \<times> payload list) option" where
  "fk_neighbors type_readable authorized cs child_type p =
     (if \<not> type_readable then None
      else Some (child_type, map ch_row (filter (readable_child authorized) (children_of cs p))))"

section \<open>Both ways give the same aggregate\<close>

lemma slot_values_simps [simp]:
  "slot_values dec [] = []"
  "slot_values dec (vs @ ws) = slot_values dec vs @ slot_values dec ws"
  "slot_values dec [v] = (if v = JNull then [] else case dec v of None \<Rightarrow> [] | Some x \<Rightarrow> [x])"
  by (simp_all add: slot_values_def List.map_filter_def split: option.splits)

lemma sql_slot_Nil [simp]: "sql_slot dec [] = empty_slot"
  by (simp add: sql_slot_def empty_slot_def)

lemma add_marked_snoc: "add_marked dec agg c (sql_slot dec vs) = sql_slot dec (vs @ [value_of agg c])"
proof (cases "agg = ''count'' \<or> value_of agg c = JNull")
  case True
  then have "value_of agg c = JNull" by (auto simp: value_of_def)
  with True show ?thesis by (simp add: add_marked_def sql_slot_def Let_def)
next
  case False
  show ?thesis
  proof (cases "dec (value_of agg c)")
    case None
    with False show ?thesis by (simp add: add_marked_def sql_slot_def Let_def)
  next
    case (Some x)
    have "min (Min (set ns)) x = Min (set (ns @ [x]))" "max (Max (set ns)) x = Max (set (ns @ [x]))" if "ns \<noteq> []" for ns
      using that by (simp_all add: min.commute max.commute)
    with False Some show ?thesis by (simp add: add_marked_def sql_slot_def Let_def)
  qed
qed

lemma fold_add_marked: "fold (add_marked dec agg) cs (sql_slot dec vs) = sql_slot dec (vs @ map (value_of agg) cs)"
proof (induction cs arbitrary: vs)
  case (Cons c cs)
  show ?case by (simp add: add_marked_snoc Cons.IH)
qed simp

lemma combine_slots:
  assumes "\<forall>c \<in> set marked. ch_parent c \<noteq> None"
  shows "dict_get
       (fold (\<lambda>c d. if \<not> allowed c then d
              else (let k = (case ch_parent c of Some q \<Rightarrow> q | None \<Rightarrow> []); s = (case dict_get d k of None \<Rightarrow> empty_slot | Some s \<Rightarrow> s)
                    in dict_set k (add_marked dec agg c s) d)) marked base) p =
    (case filter (\<lambda>c. allowed c \<and> ch_parent c = Some p) marked of
       [] \<Rightarrow> dict_get base p
     | ms \<Rightarrow> Some (fold (add_marked dec agg) ms (case dict_get base p of None \<Rightarrow> empty_slot | Some s \<Rightarrow> s)))"
  using assms
proof (induction marked arbitrary: base)
  case (Cons c marked)
  then show ?case
    by (cases "filter (\<lambda>c. allowed c \<and> ch_parent c = Some p) marked") (auto simp: Let_def)
qed simp

lemma sql_slot_mset: "mset vs = mset ws \<Longrightarrow> sql_slot dec vs = sql_slot dec ws"
proof -
  assume eq: "mset vs = mset ws"
  have vals: "slot_values dec xs = map (\<lambda>x. the (dec x)) (filter (\<lambda>v. v \<noteq> JNull \<and> dec v \<noteq> None) xs)" for xs
    by (simp add: slot_values_def List.map_filter_def o_def conj_commute)
  have "mset (slot_values dec vs) = mset (slot_values dec ws)" by (simp add: vals eq)
  then have "sum_list (slot_values dec vs) = sum_list (slot_values dec ws)" "set (slot_values dec vs) = set (slot_values dec ws)"
    "length (slot_values dec vs) = length (slot_values dec ws)" "(slot_values dec vs = []) = (slot_values dec ws = [])"
    by (metis sum_mset_sum_list, metis set_mset_mset, metis size_mset, metis mset_zero_iff)
  moreover have "length (filter P vs) = length (filter P ws)" for P using eq by (metis mset_filter size_mset)
  moreover have "length vs = length ws" using eq by (metis size_mset)
  ultimately show ?thesis by (simp add: sql_slot_def Let_def)
qed

lemma sql_slot_agree: "\<forall>v \<in> set vs. v \<noteq> JNull \<longrightarrow> sql v = dec v \<Longrightarrow> sql_slot sql vs = sql_slot dec vs"
proof -
  assume agree: "\<forall>v \<in> set vs. v \<noteq> JNull \<longrightarrow> sql v = dec v"
  then have "slot_values sql vs = slot_values dec vs"
    by (induction vs) (auto simp: slot_values_def List.map_filter_def)
  moreover have "filter (\<lambda>v. v \<noteq> JNull \<and> sql v = None) vs = filter (\<lambda>v. v \<noteq> JNull \<and> dec v = None) vs" using agree by (auto intro: filter_cong)
  ultimately show ?thesis by (simp add: sql_slot_def Let_def)
qed

lemma decimals_eq: "decimals dec vs = (if \<exists>v \<in> set vs. dec v = None then Inl ValueError else Inr (map (\<lambda>v. the (dec v)) vs))"
  by (induction vs) (auto split: option.splits)

lemma numeric_outcome:
  assumes "agg \<in> {''sum'', ''avg'', ''min'', ''max''}"
  shows "outcome_of (rbind (reduce_numeric dec (filter (\<lambda>v. v \<noteq> JNull) vs) agg) (\<lambda>r. Inr (map_option Number r))) = slot_outcome agg (Some (sql_slot dec vs))"
proof (cases "\<exists>v \<in> set vs. v \<noteq> JNull \<and> dec v = None")
  case True
  then have "sl_bad (sql_slot dec vs) \<noteq> 0" by (simp add: sql_slot_def Let_def filter_empty_conv)
  moreover have "agg \<noteq> ''count''" using assms by auto
  ultimately show ?thesis using True by (auto simp: slot_outcome_def outcome_of_def reduce_numeric_def decimals_eq)
next
  case False
  then have bad: "sl_bad (sql_slot dec vs) = 0" by (simp add: sql_slot_def Let_def filter_empty_conv)
  have "filter (\<lambda>v. v \<noteq> JNull \<and> dec v \<noteq> None) vs = filter (\<lambda>v. v \<noteq> JNull) vs" using False by (auto intro: filter_cong)
  then have vals: "slot_values dec vs = map (\<lambda>v. the (dec v)) (filter (\<lambda>v. v \<noteq> JNull) vs)"
    by (simp add: slot_values_def List.map_filter_def o_def conj_commute)
  have "decimals dec (filter (\<lambda>v. v \<noteq> JNull) vs) = Inr (slot_values dec vs)" unfolding decimals_eq vals using False by auto
  then show ?thesis using assms bad
    by (cases "slot_values dec vs = []") (auto simp: slot_outcome_def outcome_of_def reduce_numeric_def sql_slot_def Let_def)
qed


lemma grouped_lookup:
  assumes "p \<in> set parents"
  shows "dict_get (fst (aggregate_fk_children sql agg cs parents)) p =
    (if unmarked (children_of cs p) = [] then None else Some (sql_slot sql (map (value_of agg) (unmarked (children_of cs p)))))"
proof -
  have "dict_get (map (\<lambda>p. (p, f p)) xs) p = (if p \<in> set xs then Some (f p) else None)" for f :: "string \<Rightarrow> slot" and xs
    by (simp add: dict_get_def map_of_map_restrict restrict_map_def)
  then show ?thesis using assms by (simp add: aggregate_fk_children_def)
qed

text \<open>The marked children of \<open>p\<close> that the caller may see.\<close>

definition allowed_marked :: "(string list \<Rightarrow> bool) \<Rightarrow> child list \<Rightarrow> string \<Rightarrow> child list" where
  "allowed_marked authorized cs p =
     filter (\<lambda>c. case ch_markings c of None \<Rightarrow> False | Some ms \<Rightarrow> ms \<noteq> [] \<and> authorized ms) (children_of cs p)"

lemma precompute_slot:
  assumes "p \<in> set parents"
    and "\<forall>c \<in> set cs. ch_value c \<noteq> JNull \<longrightarrow> sql (ch_value c) = text (ch_value c)"
  shows "precompute_fk_aggregate sql text authorized agg cs parents p =
    slot_outcome agg (if unmarked (children_of cs p) @ allowed_marked authorized cs p = [] then None
      else Some (sql_slot text (map (value_of agg) (unmarked (children_of cs p) @ allowed_marked authorized cs p))))"
proof -
  let ?allowed = "\<lambda>c. case ch_markings c of Some ms \<Rightarrow> ms \<noteq> [] \<and> authorized ms | None \<Rightarrow> False"
  let ?marked = "snd (aggregate_fk_children sql agg cs parents)"
  let ?U = "unmarked (children_of cs p)" and ?M = "allowed_marked authorized cs p"
  have "\<forall>c \<in> set ?marked. ch_parent c \<noteq> None" by (auto simp: aggregate_fk_children_def)
  note slots = combine_slots [OF this, where allowed = ?allowed and dec = "text" and agg = agg and base = "fst (aggregate_fk_children sql agg cs parents)" and p = p]
  have M: "filter (\<lambda>c. ?allowed c \<and> ch_parent c = Some p) ?marked = ?M"
    using assms(1) by (auto simp: aggregate_fk_children_def allowed_marked_def children_of_def intro!: filter_cong split: option.splits)
  have "sql_slot sql (map (value_of agg) ?U) = sql_slot text (map (value_of agg) ?U)"
    using assms(2) by (intro sql_slot_agree) (auto simp: value_of_def unmarked_def children_of_def)
  then have start: "(case dict_get (fst (aggregate_fk_children sql agg cs parents)) p of None \<Rightarrow> empty_slot | Some s \<Rightarrow> s) = sql_slot text (map (value_of agg) ?U)"
    using grouped_lookup [OF assms(1), of sql agg cs] by (cases "?U = []") auto
  have "precompute_fk_aggregate sql text authorized agg cs parents p =
    slot_outcome agg (case ?M of [] \<Rightarrow> dict_get (fst (aggregate_fk_children sql agg cs parents)) p
      | ms \<Rightarrow> Some (fold (add_marked text agg) ms (sql_slot text (map (value_of agg) ?U))))"
    unfolding precompute_fk_aggregate_def combine_fk_aggregate_def case_prod_beta slots M start ..
  then have "precompute_fk_aggregate sql text authorized agg cs parents p =
    slot_outcome agg (if ?M = [] then dict_get (fst (aggregate_fk_children sql agg cs parents)) p
      else Some (sql_slot text (map (value_of agg) (?U @ ?M))))"
    by (cases ?M) (simp_all only: list.case fold_add_marked map_append if_True if_False list.distinct not_Cons_self2 simp_thms)
  then show ?thesis
    using start grouped_lookup [OF assms(1), of sql agg cs] by (cases "?U = []") auto
qed

lemma readable_mset:
  assumes "\<forall>c \<in> set cs. ch_markings c \<noteq> Some []"
  shows "mset (filter (readable_child authorized) (children_of cs p)) = mset (unmarked (children_of cs p) @ allowed_marked authorized cs p)"
proof -
  have "mset (filter P xs) = mset (filter Q xs) + mset (filter R xs)"
    if "\<forall>x \<in> set xs. P x = (Q x \<or> R x) \<and> \<not> (Q x \<and> R x)" for P Q R :: "child \<Rightarrow> bool" and xs
    using that by (induction xs) auto
  then have "mset (filter (readable_child authorized) (children_of cs p)) =
    mset (filter (\<lambda>c. ch_markings c = None) (children_of cs p)) + mset (allowed_marked authorized cs p)"
    unfolding allowed_marked_def
    by this (use assms in \<open>auto simp: readable_child_def children_of_def split: option.splits\<close>)
  then show ?thesis by (simp add: unmarked_def)
qed




definition sample_children :: "child list" where
  "sample_children =
     map (\<lambda>(i, p, v, ms, dead). \<lparr>ch_row = [(''id'', JInt i), (''amount'', v)], ch_parent = Some p, ch_value = v, ch_markings = ms, ch_dead = dead\<rparr>)
       [(1, ''o1'', JInt 3, None, False), (2, ''o1'', JNull, None, False), (3, ''o1'', JInt 5, Some [''pii''], False),
        (4, ''o1'', JInt 100, Some [''secret''], False), (5, ''o1'', JInt 7, None, True), (6, ''o2'', JInt 9, None, False)]"

definition int_decimal :: "json \<Rightarrow> rat option" where
  "int_decimal v = (case v of JInt i \<Rightarrow> Some (of_int i) | _ \<Rightarrow> None)"

definition not_secret :: "string list \<Rightarrow> bool" where
  "not_secret ms = (''secret'' \<notin> set ms)"

definition avg_rule :: link_rule where
  "avg_rule = \<lparr>lr_path = [''orders''], lr_aggregate = ''avg'', lr_property = ''amount'', lr_limit = JNull\<rparr>"


text \<open>The precomputed aggregate never asks whether the type of the children is readable; the traversal of the same link does.\<close>

lemma fk_aggregate_ignores_read_permission:
  "precompute_fk_aggregate int_decimal int_decimal not_secret ''count'' sample_children [''o1''] ''o1'' = Value (Count 3) \<and>
   fk_neighbors False not_secret sample_children ''Order'' ''o1'' = None"
  by code_simp

text \<open>A child whose markings were cleared is visible to the traversal and missing from the precomputed aggregate.\<close>

lemma cleared_markings_not_counted:
  "precompute_fk_aggregate int_decimal int_decimal not_secret ''count''
     [\<lparr>ch_row = [(''id'', JInt 1)], ch_parent = Some ''o1'', ch_value = JNull, ch_markings = Some [], ch_dead = False\<rparr>] [''o1''] ''o1'' = Value (Count 0) \<and>
   map_option (length \<circ> snd) (fk_neighbors True not_secret
     [\<lparr>ch_row = [(''id'', JInt 1)], ch_parent = Some ''o1'', ch_value = JNull, ch_markings = Some [], ch_dead = False\<rparr>] ''Order'' ''o1'') = Some 1"
  by code_simp


text \<open>
  The rows of the traversal are masked, the grouped rows are not: a sum over a confidential column that the caller
  may not see, here masked to null, is computed from the stored values.
\<close>

definition masked_child :: child where
  "masked_child = \<lparr>ch_row = [(''id'', JInt 1), (''salary'', JNull)], ch_parent = Some ''o1'', ch_value = JInt 3, ch_markings = None, ch_dead = False\<rparr>"

lemma fk_aggregate_ignores_masking:
  "outcome_of (compute_link_aggregate int_decimal (\<lambda>v. []) (\<lambda>t r l. fk_neighbors True not_secret [masked_child] ''Order'' ''o1'')
      (\<lambda>t. Some [(''amount'', ''salary'')]) avg_rule ''Customer'' [(''id'', JStr ''o1'')]) = Absent \<and>
   precompute_fk_aggregate int_decimal int_decimal not_secret ''avg'' [masked_child] [''o1''] ''o1'' = Value (Number 3)"
  by (simp add: outcome_of_def compute_link_aggregate_def hop_def fk_neighbors_def readable_child_def avg_rule_def masked_child_def max_link_aggregate_hops_def
    reduce_numeric_def obj_get_def dict_get_def Let_def precompute_fk_aggregate_def aggregate_fk_children_def combine_fk_aggregate_def slot_outcome_def sql_slot_def
    slot_values_def List.map_filter_def unmarked_def children_of_def value_of_def int_decimal_def)

end
