(* ===== verification/Holon_Typed_Arrays.thy ===== *)
theory Holon_Typed_Arrays
  imports Holon_Value_Types
begin

text \<open>
  What the validation of an array property (\<open>typed_values.py\<close>) promises of its elements: each passed its rule,
  a field of a struct element that is there passed its own, and values of one value type can be
  compared with each other. These are the facts the reducers over arrays rest on.
\<close>

section \<open>Validation without a batch cache\<close>

lemma named_uncached: "snd (check_named_type lib reg pname name v None) = None"
  by (simp add: check_named_type_def cached_get_value_type_def)

lemma leaf_uncached:
  "(\<And>p r v. snd (typed p r v None) = None) \<Longrightarrow> snd (leaf_body typed lib reg pname rule v None) = None"
  by (auto simp: leaf_body_def Let_def cached_get_shared_property_type_def named_uncached split: option.splits)

lemma first_error_uncached:
  assumes "\<And>x. snd (f x None) = None"
  shows "snd (first_error f xs None) = None"
    and "fst (first_error f xs None) = Inr None \<longleftrightarrow> (\<forall>x \<in> set xs. fst (f x None) = Inr None)"
proof -
  have *: "f x None = (fst (f x None), None)" for x using assms [of x] by (metis prod.collapse)
  have "snd (first_error f xs None) = None \<and>
    (fst (first_error f xs None) = Inr None \<longleftrightarrow> (\<forall>x \<in> set xs. fst (f x None) = Inr None))"
  proof (induction xs)
    case (Cons x xs)
    then show ?case by (subst (1 2) first_error.simps(2), subst (1 2) *) auto
  qed simp
  then show "snd (first_error f xs None) = None"
    "fst (first_error f xs None) = Inr None \<longleftrightarrow> (\<forall>x \<in> set xs. fst (f x None) = Inr None)" by auto
qed

lemma field_uncached: "\<forall>p r v. snd (leaf p r v None) = None \<Longrightarrow> snd (check_field leaf pname d field None) = None"
  by (auto simp: check_field_def split: option.splits json.splits)

lemma element_uncached:
  assumes "\<forall>p r v. snd (leaf p r v None) = None" and "\<forall>p r v. snd (typed p r v None) = None"
  shows "snd (check_element leaf typed pname el ix None) = None"
  using assms by (cases "obj_get el ''kind'' = JStr ''struct''") (simp_all add: check_element_def)

lemma typed_uncached:
  assumes leaf: "\<And>p r v. snd (leaf p r v None) = None" and typed: "\<And>p r v. snd (typed p r v None) = None"
  shows "snd (typed_body leaf typed lib lenient pname rule raw None) = None"
proof -
  have "snd (check_struct leaf lenient pname rule v None) = None" for v
  proof -
    have "snd (first_error (check_field leaf pname d) fs None) = None" for d fs
      by (intro first_error_uncached(1) field_uncached) (simp add: leaf)
    then show ?thesis by (simp add: check_struct_def split: json.splits option.splits)
  qed
  moreover have "snd (check_element leaf typed pname el ix None) = None" for el ix
    by (rule element_uncached) (simp_all add: leaf typed)
  then have "snd (check_array leaf typed lib pname rule v None) = None" for v
    using first_error_uncached(1) [of "check_element leaf typed pname e" for e]
    by (simp add: check_array_def split: json.splits)
  ultimately show ?thesis using leaf by (simp add: typed_body_def Let_def)
qed

lemma validators_uncached:
  "snd (validate_leaf n lib reg pname rule v None) = None"
  "snd (validate_typed_property_value n lib reg lenient pname rule v None) = None"
proof -
  have "(\<forall>pname rule v. snd (validate_leaf n lib reg pname rule v None) = None) \<and>
    (\<forall>lenient pname rule v. snd (validate_typed_property_value n lib reg lenient pname rule v None) = None)"
    by (induction n) (auto intro!: leaf_uncached typed_uncached)
  then show "snd (validate_leaf n lib reg pname rule v None) = None"
    "snd (validate_typed_property_value n lib reg lenient pname rule v None) = None" by blast+
qed

section \<open>Elements and fields of a validated array\<close>

lemma array_elements:
  assumes "obj_get rule ''kind'' = JStr ''array''" and "obj_get rule ''element'' = JObj el"
    and "fst (validate_typed_property_value n lib reg lenient p rule (JList vs) None) = Inr None" and "v \<in> set vs"
  shows "\<exists>m q. n = Suc m \<and>
    (if obj_get el ''kind'' = JStr ''struct'' then fst (validate_typed_property_value m lib reg lenient q el v None) = Inr None
     else fst (validate_leaf m lib reg q el v None) = Inr None)"
proof -
  obtain m where n: "n = Suc m" using assms(3) by (cases n) auto
  let ?leaf = "validate_leaf m lib reg" and ?typed = "validate_typed_property_value m lib reg lenient"
  have coerce: "coerce_jsonish lib (JList vs) = JList vs" by (simp add: coerce_jsonish_def)
  from assms(1-3) have all: "fst (first_error (check_element ?leaf ?typed p el) (List.enumerate 0 vs) None) = Inr None"
    by (simp add: n typed_body_def coerce check_array_def del: validate_leaf.simps split: if_splits)
  have each: "fst (first_error (check_element ?leaf ?typed p el) xs None) = Inr None \<longleftrightarrow>
      (\<forall>x \<in> set xs. fst (check_element ?leaf ?typed p el x None) = Inr None)" for xs
    by (intro first_error_uncached(2) element_uncached allI validators_uncached)
  from assms(4) obtain i where "i < length vs" "vs ! i = v" by (auto simp: in_set_conv_nth)
  then have "(i, v) \<in> set (List.enumerate 0 vs)" by (auto simp: in_set_enumerate_eq)
  with all each have "fst (check_element ?leaf ?typed p el (i, v) None) = Inr None" by blast
  with n show ?thesis
    by (cases "obj_get el ''kind'' = JStr ''struct''") (simp_all add: check_element_def del: validate_leaf.simps validate_typed_property_value.simps, blast+)
qed

lemma struct_field:
  assumes "obj_get el ''kind'' = JStr ''struct''"
    and "fst (validate_typed_property_value m lib reg lenient q el (JObj d) None) = Inr None"
  shows "\<exists>fs. struct_fields (obj_get el ''properties'') = Some fs \<and>
    (\<forall>s j x. dict_get fs s = Some j \<longrightarrow> dict_get d s = Some x \<longrightarrow>
       (\<exists>fr k q'. j = JObj fr \<and> fst (validate_leaf k lib reg q' fr x None) = Inr None))"
proof -
  obtain k where m: "m = Suc k" using assms(2) by (cases m) auto
  let ?leaf = "validate_leaf k lib reg"
  have coerce: "coerce_jsonish lib (JObj d) = JObj d" by (simp add: coerce_jsonish_def)
  obtain fs where fs: "struct_fields (obj_get el ''properties'') = Some fs"
    using assms by (cases "struct_fields (obj_get el ''properties'')")
      (simp_all add: m typed_body_def coerce check_struct_def del: validate_leaf.simps)
  from assms fs have all: "fst (first_error (check_field ?leaf q d) fs None) = Inr None"
    by (simp add: m typed_body_def coerce check_struct_def del: validate_leaf.simps split: if_splits)
  have "fst (first_error (check_field ?leaf q d) fs None) = Inr None \<longleftrightarrow>
      (\<forall>f \<in> set fs. fst (check_field ?leaf q d f None) = Inr None)"
    by (intro first_error_uncached(2) field_uncached allI validators_uncached)
  with all have each: "fst (check_field ?leaf q d f None) = Inr None" if "f \<in> set fs" for f using that by blast
  have "\<exists>fr k q'. j = JObj fr \<and> fst (validate_leaf k lib reg q' fr x None) = Inr None"
    if "dict_get fs s = Some j" "dict_get d s = Some x" for s j x
    using each [OF dict_get_mem [OF that(1)]] that(2)
    by (cases j) (simp_all add: check_field_def del: validate_leaf.simps, blast)
  with fs show ?thesis by blast
qed

text \<open>A leaf rule that names a value type, directly or through a shared property that is not a struct.\<close>

definition leaf_value_type :: "type_registry \<Rightarrow> payload \<Rightarrow> value_type option" where
  "leaf_value_type reg rule =
     (if obj_get rule ''kind'' = JStr ''value_type'' then get_value_type reg (name_of (obj_get rule ''value_type''))
      else if obj_get rule ''kind'' = JStr ''shared_property_type'' then
        (case get_shared_property_type reg (name_of (obj_get rule ''shared_property_type'')) of
           None \<Rightarrow> None
         | Some sp \<Rightarrow> if struct_fields (sp_struct_properties sp) = None then get_value_type reg (sp_value_type sp) else None)
      else None)"

lemma leaf_base_type:
  assumes "leaf_value_type reg rule = Some vt" and "fst (validate_leaf k lib reg q rule x None) = Inr None"
  shows "check_base_type lib x (vt_base_type vt) (vt_name vt) = None"
proof -
  obtain j where k: "k = Suc j" using assms(2) by (cases k) auto
  from assms have "validate_value lib x vt = Inr None"
    by (auto simp: k leaf_body_def Let_def leaf_value_type_def check_named_type_def cached_get_value_type_def
        cached_get_shared_property_type_def simp del: validate_typed_property_value.simps split: if_splits option.splits)
  then show ?thesis by (auto simp: validate_value_def split: option.splits)
qed

section \<open>Values of one type are ordered\<close>

definition homogeneous :: "json list \<Rightarrow> bool" where
  "homogeneous ks = (list_all (\<lambda>k. num_of k \<noteq> None) ks \<or> list_all (\<lambda>k. \<exists>s. k = JStr s) ks \<or>
     list_all (\<lambda>k. \<exists>xs. k = JList xs \<and> list_all is_number xs) ks)"

definition number_types :: "string list" where
  "number_types = int_like @ float_like @ [''boolean'']"

definition text_types :: "string list" where
  "text_types = [''string'', ''date'', ''timestamp'', ''geopoint'', ''geoshape'']"

lemma base_type_number:
  assumes "check_base_type lib k b nm = None" and "b \<in> set number_types"
  shows "num_of k \<noteq> None"
proof -
  have "''string'' \<notin> set number_types" by code_simp
  then have s: "b \<noteq> ''string''" using assms(2) by metis
  consider "b \<in> set int_like" | "b \<notin> set int_like" "b \<in> set float_like"
    | "b \<notin> set int_like" "b \<notin> set float_like" "b = ''boolean''"
    using assms(2) by (auto simp: number_types_def)
  then show ?thesis
  proof cases
    case 1
    with s assms(1) show ?thesis by (cases k) (simp_all add: check_base_type_def)
  next
    case 2
    with s assms(1) show ?thesis by (cases k) (simp_all add: check_base_type_def is_number_def)
  next
    case 3
    with assms(1) show ?thesis by (cases k) (simp_all add: check_base_type_def)
  qed
qed

lemma base_type_text:
  assumes "check_base_type lib k b nm = None" and "b \<in> set text_types"
  shows "\<exists>s. k = JStr s"
proof -
  have "list_all (\<lambda>c. c \<notin> set int_like \<and> c \<notin> set float_like) text_types" by code_simp
  then have "\<forall>c \<in> set text_types. c \<notin> set int_like \<and> c \<notin> set float_like" by (simp only: list_all_iff)
  with assms(2) have no: "b \<notin> set int_like" "b \<notin> set float_like" by blast+
  consider "b = ''string''" | "b = ''date'' \<or> b = ''timestamp''" | "b = ''geopoint''" | "b = ''geoshape''"
    using assms(2) unfolding text_types_def list.set insert_iff empty_iff by argo
  then show ?thesis
  proof cases
    case 2
    then have "b \<noteq> ''string''" "b \<noteq> ''boolean''" by auto
    with 2 no assms(1) show ?thesis by (cases k) (simp_all add: check_base_type_def)
  qed (use no assms(1) in \<open>cases k; simp add: check_base_type_def\<close>)+
qed

lemma base_type_vector:
  assumes "check_base_type lib k b nm = None" and "b \<notin> set number_types"
    and "b \<notin> set text_types"
  shows "\<exists>xs. k = JList xs \<and> list_all is_number xs"
proof -
  have b: "b \<noteq> ''string''" "b \<notin> set int_like" "b \<notin> set float_like" "b \<noteq> ''boolean''" "b \<noteq> ''date''" "b \<noteq> ''timestamp''"
    "b \<noteq> ''geopoint''" "b \<noteq> ''geoshape''" using assms(2,3) by (simp_all add: number_types_def text_types_def)
  with assms(1) have "(if b = ''vector'' then
        (case k of JList (x # xs) \<Rightarrow> if list_all is_number (x # xs) then None else Some (Expects nm ''an array of numbers'')
         | _ \<Rightarrow> Some (Expects nm ''an array of numbers''))
      else Some (UnknownBaseType b)) = None" unfolding check_base_type_def by simp
  then have "(case k of JList (x # xs) \<Rightarrow> if list_all is_number (x # xs) then None else Some (Expects nm ''an array of numbers'')
         | _ \<Rightarrow> Some (Expects nm ''an array of numbers'')) = None" by (simp split: if_split_asm)
  then show ?thesis by (cases k) (simp_all split: list.splits if_split_asm)
qed

lemma one_base_type_homogeneous:
  assumes "\<forall>k \<in> set ks. check_base_type lib k b nm = None"
  shows "homogeneous ks"
proof -
  have ok: "check_base_type lib k b nm = None" if "k \<in> set ks" for k using assms that by blast
  consider "b \<in> set number_types"
    | "b \<in> set text_types"
    | "b \<notin> set number_types" "b \<notin> set text_types"
    by blast
  then show ?thesis
  proof cases
    case 1
    have "num_of k \<noteq> None" if "k \<in> set ks" for k by (rule base_type_number [OF ok [OF that] 1])
    then show ?thesis by (simp add: homogeneous_def list_all_iff)
  next
    case 2
    have "\<exists>s. k = JStr s" if "k \<in> set ks" for k by (rule base_type_text [OF ok [OF that] 2])
    then show ?thesis by (simp add: homogeneous_def list_all_iff)
  next
    case 3
    have "\<exists>xs. k = JList xs \<and> list_all is_number xs" if "k \<in> set ks" for k by (rule base_type_vector [OF ok [OF that] 3])
    then show ?thesis by (simp add: homogeneous_def list_all_iff)
  qed
qed

text \<open>Python compares lists of numbers as the lexicographic order does.\<close>

definition num_list :: "json \<Rightarrow> real list" where
  "num_list k = (case k of JList xs \<Rightarrow> map (\<lambda>x. the (num_of x)) xs | _ \<Rightarrow> [])"

definition lex_less :: "real list \<Rightarrow> real list \<Rightarrow> bool" where
  "lex_less x y \<longleftrightarrow> (x, y) \<in> lexord {(a, b). a < b}"

lemma lex_less_order:
  "\<not> lex_less x x" "lex_less x y \<Longrightarrow> \<not> lex_less y x" "\<not> lex_less x y \<Longrightarrow> \<not> lex_less y z \<Longrightarrow> \<not> lex_less x z"
proof -
  have irr: "\<not> lex_less x x" for x unfolding lex_less_def by (intro lexord_irreflexive) auto
  have "trans {(a :: real, b). a < b}" by (auto simp: trans_def)
  then have trans: "lex_less x y \<Longrightarrow> lex_less y z \<Longrightarrow> lex_less x z" for x y z
    unfolding lex_less_def by (rule lexord_trans [rotated -1])
  have total: "lex_less x y \<or> x = y \<or> lex_less y x" for x y
    unfolding lex_less_def by (rule lexord_linear) auto
  show "\<not> lex_less x x" by (rule irr)
  show "lex_less x y \<Longrightarrow> \<not> lex_less y x" using irr trans by blast
  show "\<not> lex_less x y \<Longrightarrow> \<not> lex_less y z \<Longrightarrow> \<not> lex_less x z" using irr trans total by metis
qed

lemma is_number_num: "is_number x \<Longrightarrow> \<exists>r. num_of x = Some r"
  by (cases x) (auto simp: is_number_def)

lemma py_eq_numbers: "is_number x \<Longrightarrow> is_number y \<Longrightarrow> py_eq x y \<longleftrightarrow> the (num_of x) = the (num_of y)"
  by (cases x; cases y) (auto simp: is_number_def)

lemma less_lists_numbers:
  "list_all is_number xs \<Longrightarrow> list_all is_number ys \<Longrightarrow> less_lists xs ys = Some (lex_less (num_list (JList xs)) (num_list (JList ys)))"
proof (induction xs arbitrary: ys)
  case Nil
  then show ?case by (cases ys) (simp_all add: lex_less_def num_list_def)
next
  case (Cons x xs)
  show ?case
  proof (cases ys)
    case Nil
    then show ?thesis by (simp add: lex_less_def num_list_def)
  next
    case (Cons y zs)
    with Cons.prems have n: "is_number x" "is_number y" "list_all is_number xs" "list_all is_number zs" by simp_all
    from is_number_num [OF n(1)] is_number_num [OF n(2)] obtain a b where ab: "num_of x = Some a" "num_of y = Some b" by blast
    from Cons.IH [OF n(3,4)] n(1,2) py_eq_numbers [OF n(1,2)] py_less_numbers [OF ab] ab show ?thesis
      by (simp add: Cons lex_less_def num_list_def)
  qed
qed

lemma homogeneous_order:
  assumes "homogeneous ks"
  shows "\<exists>lt. (\<forall>a \<in> set ks. \<forall>b \<in> set ks. py_less a b = Some (lt a b)) \<and> (\<forall>a b c. \<not> lt a b \<longrightarrow> \<not> lt b c \<longrightarrow> \<not> lt a c) \<and>
    (\<forall>a. \<not> lt a a) \<and> (\<forall>a b. lt a b \<longrightarrow> \<not> lt b a)"
proof -
  consider "list_all (\<lambda>k. num_of k \<noteq> None) ks" | "list_all (\<lambda>k. \<exists>s. k = JStr s) ks"
    | "list_all (\<lambda>k. \<exists>xs. k = JList xs \<and> list_all is_number xs) ks"
    using assms by (auto simp: homogeneous_def)
  then show ?thesis
  proof cases
    case 1
    let ?lt = "\<lambda>a b. the (num_of a) < the (num_of b)"
    have "py_less a b = Some (?lt a b)" if "a \<in> set ks" "b \<in> set ks" for a b
    proof -
      have "num_of c \<noteq> None" if "c \<in> set ks" for c using 1 that by (simp add: list_all_iff)
      from this [OF that(1)] this [OF that(2)] obtain x y where "num_of a = Some x" "num_of b = Some y" by blast
      then show ?thesis by (simp add: py_less_numbers)
    qed
    then show ?thesis by (intro exI [of _ ?lt]) auto
  next
    case 2
    then have strs: "\<exists>s. k = JStr s" if "k \<in> set ks" for k using that by (auto simp: list_all_iff)
    let ?text = "\<lambda>k. case k of JStr s \<Rightarrow> s | _ \<Rightarrow> []"
    let ?lt = "\<lambda>a b. str_less (?text a) (?text b)"
    have "py_less a b = Some (?lt a b)" if "a \<in> set ks" "b \<in> set ks" for a b
      using strs [OF that(1)] strs [OF that(2)] by auto
    moreover have "\<not> str_less s u" if "\<not> str_less s t" "\<not> str_less t u" for s t u
      using that str_less_total [of s t] str_less_total [of t u] str_less_trans str_less_irrefl by metis
    moreover have "\<not> str_less t s" if "str_less s t" for s t using that str_less_trans str_less_irrefl by metis
    ultimately have "(\<forall>a \<in> set ks. \<forall>b \<in> set ks. py_less a b = Some (?lt a b)) \<and> (\<forall>a b c. \<not> ?lt a b \<longrightarrow> \<not> ?lt b c \<longrightarrow> \<not> ?lt a c) \<and>
      (\<forall>a. \<not> ?lt a a) \<and> (\<forall>a b. ?lt a b \<longrightarrow> \<not> ?lt b a)"
      using str_less_irrefl by blast
    then show ?thesis by (rule exI [of _ ?lt])
  next
    case 3
    let ?lt = "\<lambda>a b. lex_less (num_list a) (num_list b)"
    have lists: "\<exists>xs. k = JList xs \<and> list_all is_number xs" if "k \<in> set ks" for k using 3 that by (simp add: list_all_iff)
    have "py_less a b = Some (?lt a b)" if "a \<in> set ks" "b \<in> set ks" for a b
      using lists [OF that(1)] lists [OF that(2)] less_lists_numbers by auto
    then show ?thesis using lex_less_order by (intro exI [of _ ?lt]) blast
  qed
qed

end
