(* ===== verification/Holon_Derived_Rules.thy ===== *)
theory Holon_Derived_Rules
  imports Holon_Derived Holon_Typed_Arrays
begin

text \<open>
  Declared derived properties: what publication accepts (\<open>publishing_validate_derived.py\<close>), the reducers over an
  array of the object and the pass that writes every derived value on a row (\<open>derived.py\<close>), and the lookup of
  a relation by the name of a link (\<open>reads.py\<close>). Functions are called through an argument.
\<close>

section \<open>Relations by link name\<close>

record named_relation =
  nr_name :: string
  nr_source_urn :: string
  nr_target_urn :: string
  nr_source_api :: "string option"
  nr_target_api :: "string option"
  nr_target_property :: "string option"

definition local_part :: "string \<Rightarrow> string" where
  "local_part urn = after_last (CHR '':'') urn"

definition api_name :: "string option \<Rightarrow> string" where
  "api_name s = py_strip (case s of None \<Rightarrow> [] | Some x \<Rightarrow> x)"

text \<open>\<open>name.split(".", 1)[-1]\<close>: the link's own name.\<close>

definition local_name :: "string \<Rightarrow> string" where
  "local_name s = (case partition_on (CHR ''.'') s of (a, found, b) \<Rightarrow> if found then b else a)"

definition link_matches :: "string \<Rightarrow> string \<Rightarrow> named_relation \<Rightarrow> bool" where
  "link_matches ot link r =
     (let source = local_part (nr_source_urn r); target = local_part (nr_target_urn r); name = local_name (nr_name r);
          forward = (if api_name (nr_source_api r) \<noteq> [] then api_name (nr_source_api r) else name);
          reverse = (if api_name (nr_target_api r) \<noteq> [] then Some (api_name (nr_target_api r)) else nr_target_property r)
      in (source = ot \<and> forward = link) \<or> (target = ot \<and> reverse = Some link) \<or> (source = ot \<and> name = link) \<or>
         (target = ot \<and> nr_target_property r = Some link))"

definition find_relation_by_link_name :: "named_relation list \<Rightarrow> string \<Rightarrow> string \<Rightarrow> named_relation option" where
  "find_relation_by_link_name rels ot link = List.find (link_matches ot link) rels"

section \<open>Publication\<close>

datatype derived_error =
    UnregisteredFunction string
  | BadKind
  | NotAnArray
  | UnknownReducer
  | ByRequired
  | ByForbidden
  | UnknownAggregate
  | BadCollectLimit
  | BadPath
  | UnknownRelation string string
  | PropertyRequired
  | PropertyNotMapped
  | Raised py_exc

definition allowed_aggregates :: "string list" where
  "allowed_aggregates = [''sum'', ''count'', ''avg'', ''min'', ''max'', ''collect_list'', ''collect_set'']"

definition allowed_struct_reducers :: "string list" where
  "allowed_struct_reducers = [''first'', ''last'', ''latest'', ''earliest'', ''max'', ''min'']"

definition field_based_reducers :: "string list" where
  "field_based_reducers = [''latest'', ''earliest'', ''max'', ''min'']"

text \<open>\<open>x in s\<close> for a set or the keys of a dict, and for any decoded value.\<close>

definition in_names :: "json \<Rightarrow> string list \<Rightarrow> (py_exc, bool) result" where
  "in_names v names = (case v of JStr s \<Rightarrow> Inr (s \<in> set names) | JList _ \<Rightarrow> Inl TypeError | JObj _ \<Rightarrow> Inl TypeError | _ \<Rightarrow> Inr False)"

definition in_value :: "json \<Rightarrow> json \<Rightarrow> (py_exc, bool) result" where
  "in_value v box =
     (case box of
        JObj d \<Rightarrow> in_names v (map fst d)
      | JList xs \<Rightarrow> Inr (py_in v xs)
      | JStr t \<Rightarrow> (case v of JStr s \<Rightarrow> Inr (contains t s) | _ \<Rightarrow> Inl TypeError)
      | _ \<Rightarrow> Inl TypeError)"

definition lift_exc :: "(py_exc, 'a) result \<Rightarrow> (derived_error, 'a) result" where
  "lift_exc r = (case r of Inl x \<Rightarrow> Inl (Raised x) | Inr v \<Rightarrow> Inr v)"

text \<open>\<open>(x or {})\<close> where \<open>.get\<close> follows.\<close>

definition dict_or_empty :: "json \<Rightarrow> (derived_error, payload) result" where
  "dict_or_empty j = (if \<not> truthy j then Inr [] else case j of JObj d \<Rightarrow> Inr d | _ \<Rightarrow> Inl (Raised AttributeError))"

text \<open>\<open>property_types.get(name) if name else None\<close>.\<close>

definition array_rule_of :: "(string, payload) dict \<Rightarrow> json \<Rightarrow> (derived_error, payload option) result" where
  "array_rule_of ptypes name =
     (if \<not> truthy name then Inr None
      else case name of JStr s \<Rightarrow> Inr (dict_get ptypes s) | JList _ \<Rightarrow> Inl (Raised TypeError) | JObj _ \<Rightarrow> Inl (Raised TypeError) | _ \<Rightarrow> Inr None)"

definition check_by :: "payload \<Rightarrow> json \<Rightarrow> bool \<Rightarrow> (derived_error, unit) result" where
  "check_by element by_name field_based =
     (if \<not> field_based then Inr ()
      else if obj_get element ''kind'' = JStr ''struct'' then
        (if \<not> truthy by_name then Inl ByRequired
         else rbind (lift_exc (in_value by_name (if truthy (obj_get element ''properties'') then obj_get element ''properties'' else JObj [])))
                (\<lambda>known. if known then Inr () else Inl ByRequired))
      else if by_name \<noteq> JNull then Inl ByForbidden
      else Inr ())"

definition validate_struct_reducer :: "(string, payload) dict \<Rightarrow> payload \<Rightarrow> (derived_error, unit) result" where
  "validate_struct_reducer ptypes rule =
     rbind (array_rule_of ptypes (obj_get rule ''property'')) (\<lambda>found.
       case found of
         None \<Rightarrow> Inl NotAnArray
       | Some array_rule \<Rightarrow>
           if obj_get array_rule ''kind'' \<noteq> JStr ''array'' then Inl NotAnArray
           else rbind (lift_exc (in_names (obj_get rule ''reducer'') allowed_struct_reducers)) (\<lambda>ok.
             if \<not> ok then Inl UnknownReducer
             else rbind (dict_or_empty (obj_get array_rule ''element'')) (\<lambda>element.
               rbind (lift_exc (in_names (obj_get rule ''reducer'') field_based_reducers)) (check_by element (obj_get rule ''by'')))))"

text \<open>The type at the end of a path of link names.\<close>

fun walk_path :: "named_relation list \<Rightarrow> string \<Rightarrow> string \<Rightarrow> string list \<Rightarrow> (derived_error, string) result" where
  "walk_path rels ot related [] = Inr related"
| "walk_path rels ot related (link # links) =
     (case find_relation_by_link_name rels ot link of
        None \<Rightarrow> Inl (UnknownRelation link ot)
      | Some r \<Rightarrow>
          let next = (if local_part (nr_source_urn r) = ot then nr_target_urn r else nr_source_urn r)
          in walk_path rels (local_part next) next links)"

definition link_names :: "json \<Rightarrow> string list option" where
  "link_names path =
     (case path of
        JList xs \<Rightarrow>
          if xs = [] \<or> max_link_aggregate_hops < length xs \<or> \<not> list_all (\<lambda>x. case x of JStr s \<Rightarrow> s \<noteq> [] | _ \<Rightarrow> False) xs then None
          else Some (map (\<lambda>x. case x of JStr s \<Rightarrow> s | _ \<Rightarrow> []) xs)
      | _ \<Rightarrow> None)"

definition collect_limit_ok :: "payload \<Rightarrow> bool" where
  "collect_limit_ok rule = (case dict_get rule ''collect_limit'' of None \<Rightarrow> True | Some (JInt i) \<Rightarrow> 1 \<le> i | _ \<Rightarrow> False)"

definition validate_link_aggregate ::
  "named_relation list \<Rightarrow> (string \<Rightarrow> (string, string) dict option) \<Rightarrow> string \<Rightarrow> payload \<Rightarrow> (derived_error, unit) result" where
  "validate_link_aggregate rels mapping_of ot rule =
     rbind (lift_exc (in_names (obj_get rule ''aggregate'') allowed_aggregates)) (\<lambda>ok.
       if \<not> ok then Inl UnknownAggregate
       else if \<not> collect_limit_ok rule then Inl BadCollectLimit
       else (case link_names (obj_get rule ''path'') of
               None \<Rightarrow> Inl BadPath
             | Some path \<Rightarrow>
                 rbind (walk_path rels ot [] path) (\<lambda>related.
                   if obj_get rule ''aggregate'' = JStr ''count'' then Inr ()
                   else if \<not> truthy (obj_get rule ''property'') then Inl PropertyRequired
                   else (case mapping_of related of
                           None \<Rightarrow> Inl PropertyNotMapped
                         | Some mapping \<Rightarrow>
                             rbind (lift_exc (in_names (obj_get rule ''property'') (map fst mapping)))
                               (\<lambda>known. if known then Inr () else Inl PropertyNotMapped)))))"

fun validate_derived_properties ::
  "(string \<Rightarrow> bool) \<Rightarrow> named_relation list \<Rightarrow> (string \<Rightarrow> (string, string) dict option) \<Rightarrow> (string, payload) dict \<Rightarrow> string
     \<Rightarrow> (string, json) dict \<Rightarrow> (derived_error, unit) result" where
  "validate_derived_properties active rels mapping_of ptypes ot [] = Inr ()"
| "validate_derived_properties active rels mapping_of ptypes ot ((name, v) # ps) =
     rbind (case v of
              JStr f \<Rightarrow> if active f then Inr () else Inl (UnregisteredFunction f)
            | JObj rule \<Rightarrow>
                if obj_get rule ''kind'' = JStr ''struct_reducer'' then validate_struct_reducer ptypes rule
                else if obj_get rule ''kind'' = JStr ''link_aggregate'' then validate_link_aggregate rels mapping_of ot rule
                else Inl BadKind
            | _ \<Rightarrow> Inl BadKind)
       (\<lambda>_. validate_derived_properties active rels mapping_of ptypes ot ps)"


section \<open>Reducers over an array\<close>

definition element_key :: "json \<Rightarrow> json \<Rightarrow> (py_exc, json) result" where
  "element_key by_name v =
     (if \<not> truthy by_name then Inr v
      else case v of
             JObj d \<Rightarrow> (case by_name of JStr s \<Rightarrow> Inr (obj_get d s) | JList _ \<Rightarrow> Inl TypeError | JObj _ \<Rightarrow> Inl TypeError | _ \<Rightarrow> Inr JNull)
           | _ \<Rightarrow> Inl AttributeError)"

text \<open>\<open>max\<close> and \<open>min\<close> with a key: the first of the largest, or smallest, elements.\<close>

fun extremum :: "bool \<Rightarrow> (json \<Rightarrow> (py_exc, json) result) \<Rightarrow> json \<times> json \<Rightarrow> json list \<Rightarrow> (py_exc, json) result" where
  "extremum largest key (k0, best) [] = Inr best"
| "extremum largest key (k0, best) (v # vs) =
     rbind (key v) (\<lambda>k.
       case (if largest then py_less k0 k else py_less k k0) of
         None \<Rightarrow> Inl TypeError
       | Some better \<Rightarrow> extremum largest key (if better then (k, v) else (k0, best)) vs)"

definition reduce_array :: "json list \<Rightarrow> json \<Rightarrow> json \<Rightarrow> (py_exc, json option) result" where
  "reduce_array vs reducer by_name =
     (let best = (\<lambda>largest. rbind (element_key by_name (hd vs)) (\<lambda>k. rbind (extremum largest (element_key by_name) (k, hd vs) (tl vs)) (\<lambda>v. Inr (Some v))))
      in if reducer = JStr ''first'' then Inr (Some (hd vs))
         else if reducer = JStr ''last'' then Inr (Some (last vs))
         else if reducer = JStr ''latest'' \<or> reducer = JStr ''max'' then best True
         else if reducer = JStr ''earliest'' \<or> reducer = JStr ''min'' then best False
         else Inr None)"

text \<open>The cells of a row that is being derived: a value that is a list is an array.\<close>

type_synonym derived_row = "(string, derived_value) dict"

fun list_cell :: "derived_value \<Rightarrow> json list" where
  "list_cell (Items vs) = vs"
| "list_cell (Item (JList vs)) = vs"
| "list_cell _ = []"

definition compute_struct_reducer :: "(string, string) dict \<Rightarrow> payload \<Rightarrow> derived_row \<Rightarrow> (py_exc, derived_value option) result" where
  "compute_struct_reducer mapping rule row =
     (case obj_get rule ''property'' of
        JList _ \<Rightarrow> Inl TypeError
      | JObj _ \<Rightarrow> Inl TypeError
      | JStr p \<Rightarrow>
          (case dict_get mapping p of
             None \<Rightarrow> Inr None
           | Some col \<Rightarrow>
               (case map_option list_cell (dict_get row col) of
                  None \<Rightarrow> Inr None
                | Some [] \<Rightarrow> Inr None
                | Some (v # vs) \<Rightarrow>
                    rbind (reduce_array (v # vs) (obj_get rule ''reducer'') (obj_get rule ''by'')) (\<lambda>r. Inr (case r of None \<Rightarrow> None | Some j \<Rightarrow> if j = JNull then None else Some (Item j)))))
      | _ \<Rightarrow> Inr None)"

section \<open>Every derived value on a row\<close>

text \<open>A declared property: the function of a plugin, an aggregate over a link, a reducer.\<close>

record function_entry =
  fe_name :: string
  fe_required :: "string list"
  fe_call :: "payload \<Rightarrow> (py_exc, json) result"

definition cell_json :: "derived_value \<Rightarrow> json" where
  "cell_json v = (case v of Item j \<Rightarrow> j | Items js \<Rightarrow> JList js | Count n \<Rightarrow> JInt (int n) | Number r \<Rightarrow> JFloat (real_of_rat r))"

definition translated_row :: "(string, string) dict \<Rightarrow> derived_row \<Rightarrow> payload" where
  "translated_row mapping row = map (\<lambda>(camel, col). (camel, case dict_get row col of None \<Rightarrow> JNull | Some v \<Rightarrow> cell_json v)) mapping"

definition function_outcome :: "payload \<Rightarrow> function_entry \<Rightarrow> outcome" where
  "function_outcome translated e =
     (if \<exists>f \<in> set (fe_required e). obj_get translated f = JNull then Absent
      else case fe_call e translated of
        Inl _ \<Rightarrow> Failed
      | Inr (JObj d) \<Rightarrow> (case dict_get d (fe_name e) of None \<Rightarrow> Absent | Some v \<Rightarrow> Value (Item v))
      | Inr _ \<Rightarrow> Absent)"

definition apply_outcome :: "string \<times> (derived_row \<Rightarrow> outcome) \<Rightarrow> derived_row \<times> string list \<Rightarrow> derived_row \<times> string list" where
  "apply_outcome e st =
     (case e of (name, step) \<Rightarrow> case st of (row, failed) \<Rightarrow>
        (case step row of
           Absent \<Rightarrow> (row, failed)
         | Failed \<Rightarrow> (row, failed @ [name])
         | Value v \<Rightarrow> (dict_set name v row, failed)))"

text \<open>
  The steps of a row in the order the code takes them; \<open>link_value\<close> is the precomputed aggregate or the
  traversal of a link.
\<close>

definition row_steps ::
  "(string, string) dict \<Rightarrow> function_entry list \<Rightarrow> (string, payload) dict \<Rightarrow> (string \<Rightarrow> payload \<Rightarrow> derived_row \<Rightarrow> outcome) \<Rightarrow> (string, payload) dict
     \<Rightarrow> derived_row \<Rightarrow> (string \<times> (derived_row \<Rightarrow> outcome)) list" where
  "row_steps mapping functions links link_value reducers row =
     map (\<lambda>e. (fe_name e, \<lambda>_. function_outcome (translated_row mapping row) e)) functions @
     map (\<lambda>(name, rule). (name, link_value name rule)) links @
     map (\<lambda>(name, rule). (name, \<lambda>r. outcome_of (compute_struct_reducer mapping rule r))) reducers"

definition derive_row ::
  "(string, string) dict \<Rightarrow> function_entry list \<Rightarrow> string list \<Rightarrow> (string, payload) dict \<Rightarrow> (string \<Rightarrow> payload \<Rightarrow> derived_row \<Rightarrow> outcome)
     \<Rightarrow> (string, payload) dict \<Rightarrow> derived_row \<Rightarrow> derived_row" where
  "derive_row mapping functions unresolved links link_value reducers row =
     (case fold apply_outcome (row_steps mapping functions links link_value reducers row) (row, unresolved) of
        (r, failed) \<Rightarrow> if failed = [] then r else dict_set ''_failedDerivedFields'' (Items (map JStr failed)) r)"


section \<open>A published reducer finds an extremal element\<close>

lemma extremum_found:
  assumes "\<forall>v \<in> set (b # vs). key v = Inr (kf v)"
    and "\<forall>v \<in> set (b # vs). \<forall>w \<in> set (b # vs). (if largest then py_less (kf v) (kf w) else py_less (kf w) (kf v)) = Some (R (kf v) (kf w))"
    and trans: "\<And>x y z. \<not> R x y \<Longrightarrow> \<not> R y z \<Longrightarrow> \<not> R x z" and irrefl: "\<And>x. \<not> R x x" and asym: "\<And>x y. R x y \<Longrightarrow> \<not> R y x"
  shows "\<exists>v \<in> set (b # vs). extremum largest key (kf b, b) vs = Inr v \<and> (\<forall>w \<in> set (b # vs). \<not> R (kf v) (kf w))"
  using assms(1,2)
proof (induction vs arbitrary: b)
  case Nil
  then show ?case by (simp add: irrefl)
next
  case (Cons u us)
  let ?m = "if R (kf b) (kf u) then u else b"
  have "\<forall>v \<in> set (?m # us). key v = Inr (kf v)"
    "\<forall>v \<in> set (?m # us). \<forall>w \<in> set (?m # us). (if largest then py_less (kf v) (kf w) else py_less (kf w) (kf v)) = Some (R (kf v) (kf w))"
    using Cons.prems by simp_all
  from Cons.IH [OF this] obtain v where v: "v \<in> set (?m # us)" "extremum largest key (kf ?m, ?m) us = Inr v" "\<forall>w \<in> set (?m # us). \<not> R (kf v) (kf w)"
    by blast
  have "(if largest then py_less (kf b) (kf u) else py_less (kf u) (kf b)) = Some (R (kf b) (kf u))" using Cons.prems(2) by simp
  moreover have "key u = Inr (kf u)" using Cons.prems(1) by simp
  ultimately have "extremum largest key (kf b, b) (u # us) = extremum largest key (kf ?m, ?m) us" by (cases "R (kf b) (kf u)") simp_all
  with v(2) have "extremum largest key (kf b, b) (u # us) = Inr v" by simp
  have first: "\<not> R (kf v) (kf b)" "\<not> R (kf v) (kf u)"
  proof -
    have m: "\<not> R (kf v) (kf ?m)" using v(3) by simp
    have "\<not> R (kf ?m) (kf b)" "\<not> R (kf ?m) (kf u)" using irrefl asym [of "kf b" "kf u"] by simp_all
    with trans [OF m] show "\<not> R (kf v) (kf b)" "\<not> R (kf v) (kf u)" by blast+
  qed
  have "\<not> R (kf v) (kf w)" if "w \<in> set (b # u # us)" for w
  proof -
    from that have "w = b \<or> w = u \<or> w \<in> set us" by simp
    then show ?thesis using first v(3) by (elim disjE) simp_all
  qed
  moreover have "v \<in> set (b # u # us)" using v(1) by (cases "R (kf b) (kf u)") auto
  ultimately show ?case using \<open>extremum largest key (kf b, b) (u # us) = Inr v\<close> by blast
qed

definition order_key :: "json \<Rightarrow> json \<Rightarrow> json" where
  "order_key by_name v = (case element_key by_name v of Inl _ \<Rightarrow> JNull | Inr k \<Rightarrow> k)"

lemma reduce_array_found:
  assumes "vs \<noteq> []" and "\<forall>v \<in> set vs. element_key by_name v = Inr (order_key by_name v)" and "homogeneous (map (order_key by_name) vs)"
    and "reducer \<in> JStr ` set field_based_reducers"
  shows "\<exists>v \<in> set vs. reduce_array vs reducer by_name = Inr (Some v) \<and>
    (\<forall>w \<in> set vs. if reducer \<in> {JStr ''latest'', JStr ''max''} then py_less (order_key by_name v) (order_key by_name w) = Some False
                   else py_less (order_key by_name w) (order_key by_name v) = Some False)"
proof -
  let ?k = "order_key by_name"
  from homogeneous_order [OF assms(3)] obtain lt
    where lt: "\<forall>a \<in> set (map ?k vs). \<forall>b \<in> set (map ?k vs). py_less a b = Some (lt a b)"
      "\<And>a b c. \<not> lt a b \<Longrightarrow> \<not> lt b c \<Longrightarrow> \<not> lt a c" "\<And>a. \<not> lt a a" "\<And>a b. lt a b \<Longrightarrow> \<not> lt b a" by blast
  have less: "py_less (?k v) (?k w) = Some (lt (?k v) (?k w))" if "v \<in> set vs" "w \<in> set vs" for v w using lt(1) that by simp
  obtain b bs where vs: "vs = b # bs" using assms(1) by (cases vs) auto
  let ?largest = "reducer \<in> {JStr ''latest'', JStr ''max''}"
  let ?R = "\<lambda>x y. if ?largest then lt x y else lt y x"
  have "\<exists>v \<in> set (b # bs). extremum ?largest (element_key by_name) (?k b, b) bs = Inr v \<and> (\<forall>w \<in> set (b # bs). \<not> ?R (?k v) (?k w))"
  proof (rule extremum_found)
    show "\<forall>v \<in> set (b # bs). element_key by_name v = Inr (?k v)" using assms(2) by (simp only: vs)
    show "\<forall>v \<in> set (b # bs). \<forall>w \<in> set (b # bs). (if ?largest then py_less (?k v) (?k w) else py_less (?k w) (?k v)) = Some (?R (?k v) (?k w))"
    proof (intro ballI)
      fix v w
      assume "v \<in> set (b # bs)" "w \<in> set (b # bs)"
      then have "v \<in> set vs" "w \<in> set vs" by (simp_all only: vs)
      then show "(if ?largest then py_less (?k v) (?k w) else py_less (?k w) (?k v)) = Some (?R (?k v) (?k w))"
        by (simp only: less split: if_split) blast
    qed
    show "\<not> ?R x z" if "\<not> ?R x y" "\<not> ?R y z" for x y z using that lt(2) by (cases ?largest) (simp_all only: if_True if_False, blast+)
    show "\<not> ?R x x" for x using lt(3) by simp
    show "\<not> ?R y x" if "?R x y" for x y using that lt(4) [of x y] lt(4) [of y x] by argo
  qed
  then obtain v where v: "v \<in> set vs" "extremum ?largest (element_key by_name) (?k b, b) bs = Inr v" "\<forall>w \<in> set vs. \<not> ?R (?k v) (?k w)"
    unfolding vs by blast
  have "element_key by_name b = Inr (?k b)" using assms(2) by (simp add: vs)
  then have "reduce_array vs reducer by_name = Inr (Some v)"
    using v(2) assms(4) by (auto simp: reduce_array_def Let_def vs field_based_reducers_def)
  moreover have "\<forall>w \<in> set vs. if ?largest then py_less (?k v) (?k w) = Some False else py_less (?k w) (?k v) = Some False"
    using v(3) less v(1) by (cases ?largest) (simp_all only: if_True if_False, auto)
  ultimately show ?thesis using v(1) by blast
qed


text \<open>
  The key a reducer compares is there and of a value type: in an array of structs every element is an object that
  has the field named by \<open>by\<close>; the field, or the element itself otherwise, is typed by a value
  type, directly or through a shared property that is not a struct.
\<close>

definition as_fields :: "json \<Rightarrow> payload" where
  "as_fields j = (case j of JObj d \<Rightarrow> d | _ \<Rightarrow> [])"

definition key_present :: "type_registry \<Rightarrow> payload \<Rightarrow> json \<Rightarrow> json list \<Rightarrow> bool" where
  "key_present reg element by_name vs =
     (if obj_get element ''kind'' = JStr ''struct'' then
        (case by_name of
           JStr s \<Rightarrow>
             list_all (\<lambda>v. case v of JObj d \<Rightarrow> dict_get d s \<noteq> None | _ \<Rightarrow> False) vs \<and>
             (case dict_get (as_fields (obj_get element ''properties'')) s of Some (JObj fr) \<Rightarrow> leaf_value_type reg fr \<noteq> None | _ \<Rightarrow> True)
         | _ \<Rightarrow> False)
      else leaf_value_type reg element \<noteq> None)"

lemma lift_exc_Inr [simp]: "lift_exc r = Inr v \<longleftrightarrow> r = Inr v"
  by (simp add: lift_exc_def split: sum.splits)

lemma in_names_True: "in_names v names = Inr True \<longleftrightarrow> (\<exists>s. v = JStr s \<and> s \<in> set names)"
  by (cases v) (auto simp: in_names_def)

lemma validated_reducerD:
  assumes "validate_struct_reducer ptypes rule = Inr ()" and "obj_get rule ''property'' = JStr p"
  obtains array_rule element fb where "dict_get ptypes p = Some array_rule" "obj_get array_rule ''kind'' = JStr ''array''"
    "dict_or_empty (obj_get array_rule ''element'') = Inr element"
    "in_names (obj_get rule ''reducer'') allowed_struct_reducers = Inr True" "in_names (obj_get rule ''reducer'') field_based_reducers = Inr fb"
    "check_by element (obj_get rule ''by'') fb = Inr ()"
proof -
  from assms obtain array_rule where ar: "array_rule_of ptypes (JStr p) = Inr (Some array_rule)"
    by (auto simp: validate_struct_reducer_def rbind_Inr_iff split: option.splits)
  moreover from ar have "dict_get ptypes p = Some array_rule" by (auto simp: array_rule_of_def split: if_splits)
  ultimately show thesis using assms that
    by (auto simp: validate_struct_reducer_def rbind_Inr_iff split: if_splits)
qed

lemma validated_element_rule:
  assumes "obj_get rule ''kind'' = JStr ''array''" and "vs \<noteq> []"
    and "fst (validate_typed_property_value n lib reg lenient p rule (JList vs) None) = Inr None"
  shows "\<exists>el. obj_get rule ''element'' = JObj el"
proof -
  obtain m where n: "n = Suc m" using assms(3) by (cases n) auto
  have coerce: "coerce_jsonish lib (JList vs) = JList vs" by (simp add: coerce_jsonish_def)
  from assms(1,3) show ?thesis
    by (cases "obj_get rule ''element''")
       (simp_all add: n typed_body_def coerce check_array_def del: validate_leaf.simps split: if_split_asm)
qed

lemma keys_typed:
  assumes checked: "check_by el by_name True = Inr ()" and key: "key_present reg el by_name vs"
    and rule: "obj_get rule ''kind'' = JStr ''array''" "obj_get rule ''element'' = JObj el" and ne: "vs \<noteq> []"
    and valid: "fst (validate_typed_property_value n lib reg lenient p rule (JList vs) None) = Inr None"
  shows "(\<forall>v \<in> set vs. element_key by_name v = Inr (order_key by_name v)) \<and> homogeneous (map (order_key by_name) vs)"
proof (cases "obj_get el ''kind'' = JStr ''struct''")
  case True
  from key True obtain s where s: "by_name = JStr s" by (cases by_name) (simp_all add: key_present_def)
  have has: "\<exists>d x. v = JObj d \<and> dict_get d s = Some x" if "v \<in> set vs" for v
  proof -
    have "list_all (\<lambda>v. case v of JObj d \<Rightarrow> dict_get d s \<noteq> None | _ \<Rightarrow> False) vs"
      using key unfolding key_present_def s json.case if_P [OF True] by (rule conjunct1)
    then have "case v of JObj d \<Rightarrow> dict_get d s \<noteq> None | _ \<Rightarrow> False" using that unfolding list_all_iff by (rule bspec)
    then show ?thesis by (cases v) auto
  qed
  have elem: "\<exists>fs. struct_fields (obj_get el ''properties'') = Some fs \<and>
      (\<forall>s j x. dict_get fs s = Some j \<longrightarrow> dict_get d s = Some x \<longrightarrow>
         (\<exists>fr k q'. j = JObj fr \<and> fst (validate_leaf k lib reg q' fr x None) = Inr None))" if "JObj d \<in> set vs" for d
    using array_elements [OF rule valid that] True struct_field [OF True] by auto
  from hd_in_set [OF ne] has obtain d x where d: "JObj d \<in> set vs" "dict_get d s = Some x" by metis
  from elem [OF d(1)] obtain fs where fs: "struct_fields (obj_get el ''properties'') = Some fs" by blast
  then have props: "obj_get el ''properties'' = JObj fs" "fs \<noteq> []" by (auto simp: struct_fields_def split: json.splits list.splits)
  have "s \<noteq> []" "in_names (JStr s) (map fst fs) = Inr True"
    using checked True s props by (auto simp: check_by_def in_value_def rbind_Inr_iff split: if_splits)
  then have known: "s \<noteq> []" "s \<in> fst ` set fs" by (auto simp: in_names_def)
  then obtain j where j: "dict_get fs s = Some j" by (cases "dict_get fs s") (auto simp: dict_get_def map_of_eq_None_iff)
  from elem [OF d(1)] fs j d(2) obtain fr where fr: "dict_get fs s = Some (JObj fr)" by fastforce
  then obtain vt where vt: "leaf_value_type reg fr = Some vt" using key True s props by (auto simp: key_present_def as_fields_def)
  have each: "element_key by_name v = Inr (order_key by_name v) \<and> check_base_type lib (order_key by_name v) (vt_base_type vt) (vt_name vt) = None"
    if v: "v \<in> set vs" for v
  proof -
    from has [OF v] obtain e y where e: "v = JObj e" "dict_get e s = Some y" by blast
    with elem [of e] v fs fr obtain k q' where "fst (validate_leaf k lib reg q' fr y None) = Inr None" by fastforce
    from leaf_base_type [OF vt this] have "check_base_type lib y (vt_base_type vt) (vt_name vt) = None" .
    moreover have "element_key by_name v = Inr y" using e known(1) by (simp add: element_key_def s obj_get_def)
    ultimately show ?thesis by (simp add: order_key_def)
  qed
  then have "\<forall>k \<in> set (map (order_key by_name) vs). check_base_type lib k (vt_base_type vt) (vt_name vt) = None" by auto
  with each one_base_type_homogeneous show ?thesis by blast
next
  case False
  with key obtain vt where vt: "leaf_value_type reg el = Some vt" by (auto simp: key_present_def)
  have "element_key JNull v = Inr v" for v by (simp add: element_key_def)
  moreover have "by_name = JNull" using checked False by (simp add: check_by_def split: if_splits)
  ultimately have key_of: "element_key by_name v = Inr v" "order_key by_name v = v" for v by (simp_all add: order_key_def)
  have "check_base_type lib v (vt_base_type vt) (vt_name vt) = None" if "v \<in> set vs" for v
    using array_elements [OF rule valid that] False leaf_base_type [OF vt] by auto
  then have "homogeneous vs" using one_base_type_homogeneous by blast
  then show ?thesis by (simp add: key_of [abs_def])
qed


definition reading_registry :: type_registry where
  "reading_registry = \<lparr>
     get_value_type = (\<lambda>n. Some \<lparr>vt_name = ''t'', vt_base_type = (if n = Some ''day'' then ''string'' else ''integer''),
       vt_format_regex = None, vt_format_regex_match = None, vt_constraints = []\<rparr>),
     get_shared_property_type = (\<lambda>n. Some \<lparr>sp_api_name = ''bio'', sp_value_type = None,
       sp_struct_properties = JObj [(''y'', JObj [(''kind'', JStr ''value_type''), (''value_type'', JStr ''age'')])]\<rparr>)\<rparr>"

definition reading_rule :: payload where
  "reading_rule = [(''kind'', JStr ''array''),
     (''element'', JObj [(''kind'', JStr ''struct''), (''properties'', JObj [
        (''at'', JObj [(''kind'', JStr ''value_type''), (''value_type'', JStr ''day'')]),
        (''bio'', JObj [(''kind'', JStr ''shared_property_type''), (''shared_property_type'', JStr ''bio'')])])])]"

definition latest_by :: "string \<Rightarrow> payload" where
  "latest_by f = [(''kind'', JStr ''struct_reducer''), (''property'', JStr ''readings''), (''reducer'', JStr ''latest''), (''by'', JStr f)]"

definition two_readings :: "json list" where
  "two_readings = [JObj [(''at'', JStr ''2024-03-01'')], JObj [(''at'', JStr ''2024-01-01'')]]"


text \<open>
  What publication and validation let through and the reducer cannot compare: an element without the field, a null
  element, and a field whose shared property is a struct. The derived property is then missing from the row.
\<close>

lemma missing_key_raises:
  "validate_struct_reducer [(''readings'', reading_rule)] (latest_by ''at'') = Inr () \<and>
   fst (validate_typed_property_value 4 plain_lib reading_registry False ''readings'' reading_rule (JList (JObj [] # two_readings)) None) = Inr None \<and>
   compute_struct_reducer [(''readings'', ''r'')] (latest_by ''at'') [(''r'', Item (JList (JObj [] # two_readings)))] = Inl TypeError"
  by code_simp

lemma null_element_raises:
  "fst (validate_typed_property_value 4 plain_lib reading_registry False ''readings'' reading_rule (JList (JNull # two_readings)) None) = Inr None \<and>
   compute_struct_reducer [(''readings'', ''r'')] (latest_by ''at'') [(''r'', Item (JList (JNull # two_readings)))] = Inl AttributeError"
  by code_simp

lemma struct_key_raises:
  "let vs = [JObj [(''bio'', JObj [(''y'', JInt 1)])], JObj [(''bio'', JObj [(''y'', JInt 2)])]] in
   validate_struct_reducer [(''readings'', reading_rule)] (latest_by ''bio'') = Inr () \<and>
   fst (validate_typed_property_value 6 plain_lib reading_registry False ''readings'' reading_rule (JList vs) None) = Inr None \<and>
   compute_struct_reducer [(''readings'', ''r'')] (latest_by ''bio'') [(''r'', Item (JList vs))] = Inl TypeError"
  by code_simp


section \<open>What deriving leaves of a row\<close>

lemma fold_outcomes:
  assumes "k \<notin> fst ` set steps"
  shows "dict_get (fst (fold apply_outcome steps (row, failed))) k = dict_get row k"
  using assms
proof (induction steps arbitrary: row failed)
  case (Cons e steps)
  obtain name step where e: "e = (name, step)" by (cases e)
  from Cons.prems e have "k \<noteq> name" by auto
  with Cons e show ?case by (cases "step row") (simp_all add: apply_outcome_def)
qed simp

lemma fold_failed:
  "set (snd (fold apply_outcome steps (row, failed))) \<subseteq> set failed \<union> fst ` set steps"
proof (induction steps arbitrary: row failed)
  case (Cons e steps)
  obtain name step where e: "e = (name, step)" by (cases e)
  show ?case
  proof (cases "step row")
    case Absent
    then show ?thesis using Cons.IH [of row failed] by (auto simp: apply_outcome_def e)
  next
    case Failed
    then show ?thesis using Cons.IH [of row "failed @ [name]"] by (auto simp: apply_outcome_def e)
  next
    case (Value v)
    then show ?thesis using Cons.IH [of "dict_set name v row" failed] by (auto simp: apply_outcome_def e)
  qed
qed simp

text \<open>
  Deriving never drops or changes a stored cell: only the declared properties and the list of failures are
  written, whatever the functions, links and reducers do.
\<close>

lemma derive_row_frame:
  assumes "k \<notin> fe_name ` set functions \<union> fst ` set links \<union> fst ` set reducers" and "k \<noteq> ''_failedDerivedFields''"
  shows "dict_get (derive_row mapping functions unresolved links link_value reducers row) k = dict_get row k"
proof -
  have "k \<notin> fst ` set (row_steps mapping functions links link_value reducers row)"
    using assms(1) by (auto simp: row_steps_def image_Un image_image case_prod_beta)
  from fold_outcomes [OF this, of row unresolved] assms(2) show ?thesis
    by (cases "fold apply_outcome (row_steps mapping functions links link_value reducers row) (row, unresolved)") (simp add: derive_row_def)
qed

end
