(* ===== verification/Holon_Interfaces.thy ===== *)
theory Holon_Interfaces
  imports Holon_Derived_Rules Holon_Metadata
begin

text \<open>
  Interfaces of the ontology (\<open>ontology/interface_contract.py\<close>): the hierarchy of interfaces, the effective contract
  of an interface merged from its parents, and the resolution of a required property on an object type.
  A row is stored as validation normalises it, a date as the number of its day. The recursion over parents has fuel; one more than
  the number of rows is enough on a hierarchy without cycles.
\<close>

section \<open>Rows\<close>

record link_constraint =
  lk_api :: string
  lk_target_kind :: string
  lk_target :: string
  lk_cardinality :: string
  lk_required :: bool
  lk_description :: string

record iface =
  if_properties :: "string list"
  if_actions :: "string list"
  if_types :: payload
  if_links :: "link_constraint list"
  if_parents :: "string list"
  if_description :: string
  if_deprecation :: "nat deprecation"

type_synonym iface_reg = "(string, iface) dict"

datatype contract_error =
    UnknownInterface string
  | ConflictingTypes string
  | ConflictingLinks string
  | BadBindingPath string
  | MissingProperty string
  | NotAStruct string
  | MissingField string
  | BadParents
  | SelfParent string
  | UnknownParent string
  | ParentCycle string
  | BadPropertyTypes
  | BadLinks
  | ContractRaised py_exc

section \<open>Typed leaves and paths\<close>

definition property_type_binding_key :: "json \<Rightarrow> (string \<times> string) option" where
  "property_type_binding_key rule =
     (case rule of
        JObj r \<Rightarrow>
          (let named = (\<lambda>kind. case obj_get r kind of JStr n \<Rightarrow> if n = [] then None else Some (kind, n) | _ \<Rightarrow> None) in
           if obj_get r ''kind'' = JStr ''value_type'' then named ''value_type''
           else if obj_get r ''kind'' = JStr ''shared_property_type'' then named ''shared_property_type''
           else None)
      | _ \<Rightarrow> None)"

text \<open>Where a required property is satisfied: a top-level property or a field of a struct.\<close>

definition resolve_interface_property_path ::
  "(string, string) dict \<Rightarrow> payload \<Rightarrow> string \<Rightarrow> json \<Rightarrow> (contract_error, string \<times> json option) result" where
  "resolve_interface_property_path mapping types iface_prop binding =
     (let path = (case binding of JStr s \<Rightarrow> if py_strip s \<noteq> [] then s else iface_prop | _ \<Rightarrow> iface_prop);
          parts = filter (\<lambda>p. p \<noteq> []) (split_on (CHR ''.'') path)
      in case parts of
           [base] \<Rightarrow> if dict_get mapping base = None then Inl (MissingProperty base) else Inr (base, dict_get types base)
         | [base, field] \<Rightarrow>
             if dict_get mapping base = None then Inl (MissingProperty base)
             else (case dict_get types base of
                     Some (JObj rule) \<Rightarrow>
                       if obj_get rule ''kind'' \<noteq> JStr ''struct'' then Inl (NotAStruct base)
                       else (case (if truthy (obj_get rule ''properties'') then obj_get rule ''properties'' else JObj []) of
                               JObj nested \<Rightarrow> (case dict_get nested field of None \<Rightarrow> Inl (MissingField field) | Some v \<Rightarrow> Inr (base, Some v))
                             | other \<Rightarrow> (case in_value (JStr field) other of
                                 Inl x \<Rightarrow> Inl (ContractRaised x)
                               | Inr found \<Rightarrow> if found then Inl (ContractRaised AttributeError) else Inl (MissingField field)))
                   | _ \<Rightarrow> Inl (NotAStruct base))
         | _ \<Rightarrow> Inl (BadBindingPath path))"

definition link_constraint_identity :: "link_constraint \<Rightarrow> string \<times> string \<times> string \<times> string \<times> bool" where
  "link_constraint_identity c = (lk_api c, lk_target_kind c, lk_target c, lk_cardinality c, lk_required c)"

section \<open>Tightening\<close>

fun property_types_tighten :: "payload \<Rightarrow> payload \<Rightarrow> bool" where
  "property_types_tighten previous [] = False"
| "property_types_tighten previous ((name, rule) # new) =
     (case property_type_binding_key rule of
        None \<Rightarrow> property_types_tighten previous new
      | Some k \<Rightarrow>
          (case dict_get previous name of
             None \<Rightarrow> True
           | Some old \<Rightarrow> if old = JNull \<or> property_type_binding_key old \<noteq> Some k then True else property_types_tighten previous new))"

text \<open>The last constraint of a name counts.\<close>

definition by_api :: "link_constraint list \<Rightarrow> string \<Rightarrow> link_constraint option" where
  "by_api cs a = map_of (map (\<lambda>c. (lk_api c, c)) (rev cs)) a"

fun link_constraints_tighten :: "link_constraint list \<Rightarrow> link_constraint list \<Rightarrow> bool" where
  "link_constraints_tighten previous [] = False"
| "link_constraints_tighten previous (c # new) =
     (case (if lk_api c = [] then None else by_api previous (lk_api c)) of
        None \<Rightarrow> if lk_required c then True else link_constraints_tighten previous new
      | Some old \<Rightarrow> if link_constraint_identity old \<noteq> link_constraint_identity c then True else link_constraints_tighten previous new)"

section \<open>The hierarchy\<close>

fun push_parents :: "string list \<Rightarrow> string list \<Rightarrow> string list \<Rightarrow> string list \<times> string list" where
  "push_parents [] ancestors stack = (ancestors, stack)"
| "push_parents (p # ps) ancestors stack =
     (if p \<in> set ancestors then push_parents ps ancestors stack else push_parents ps (p # ancestors) (p # stack))"

definition all_parents :: "iface_reg \<Rightarrow> string set" where
  "all_parents reg = (\<Union>r \<in> snd ` set reg. set (if_parents r))"

lemma push_parents_spec:
  "push_parents ps anc st = (anc', st') \<Longrightarrow> \<exists>new. anc' = new @ anc \<and> st' = new @ st \<and> distinct new \<and> set new \<inter> set anc = {} \<and>
     set anc' = set anc \<union> set ps"
proof (induction ps anc st rule: push_parents.induct)
  case (2 p ps anc st)
  show ?case
  proof (cases "p \<in> set anc")
    case True
    with 2 show ?thesis by auto
  next
    case False
    with 2 obtain new where "anc' = new @ p # anc" "st' = new @ p # st" "distinct new" "set new \<inter> set (p # anc) = {}"
      "set anc' = set (p # anc) \<union> set ps" by auto
    with False show ?thesis by (intro exI [of _ "new @ [p]"]) auto
  qed
qed simp

lemma all_parents_mem: "dict_get reg n = Some r \<Longrightarrow> p \<in> set (if_parents r) \<Longrightarrow> p \<in> all_parents reg"
  by (force simp: all_parents_def dest: dict_get_mem)

lemma finite_all_parents [simp]: "finite (all_parents reg)"
  by (simp add: all_parents_def)

function walk_ancestors :: "iface_reg \<Rightarrow> string list \<Rightarrow> string list \<Rightarrow> string list \<Rightarrow> string list" where
  "walk_ancestors reg visited ancestors [] = ancestors"
| "walk_ancestors reg visited ancestors (c # stack) =
     (if c \<in> set visited then walk_ancestors reg visited ancestors stack
      else case dict_get reg c of
             None \<Rightarrow> walk_ancestors reg (c # visited) ancestors stack
           | Some r \<Rightarrow> walk_ancestors reg (c # visited) (fst (push_parents (if_parents r) ancestors stack)) (snd (push_parents (if_parents r) ancestors stack)))"
  by pat_completeness auto

termination
proof (relation "measure (\<lambda>(reg, visited, anc, stack). 2 * card (all_parents reg - set anc) + length stack)")
  fix reg :: iface_reg and visited anc c stack r
  assume get: "dict_get reg c = Some r"
  obtain anc' st' where push: "push_parents (if_parents r) anc stack = (anc', st')" by fastforce
  from push_parents_spec [OF this] obtain new where new: "anc' = new @ anc" "st' = new @ stack" "distinct new" "set new \<inter> set anc = {}"
    "set anc' = set anc \<union> set (if_parents r)" by blast
  then have "set new \<subseteq> all_parents reg - set anc" using all_parents_mem [OF get] by auto
  moreover have "all_parents reg - set anc' = (all_parents reg - set anc) - set new" using new(1) by auto
  ultimately have "card (all_parents reg - set anc') = card (all_parents reg - set anc) - length new" "length new \<le> card (all_parents reg - set anc)"
    using distinct_card [OF new(3)] by (simp_all add: card_Diff_subset, metis card_mono finite_Diff finite_all_parents)
  then show "((reg, c # visited, fst (push_parents (if_parents r) anc stack), snd (push_parents (if_parents r) anc stack)), reg, visited, anc, c # stack)
    \<in> measure (\<lambda>(reg, visited, anc, stack). 2 * card (all_parents reg - set anc) + length stack)"
    by (simp add: push new(2))
qed auto

definition ancestor_interface_names :: "iface_reg \<Rightarrow> string \<Rightarrow> string list" where
  "ancestor_interface_names reg name = walk_ancestors reg [] [] [name]"

definition expand_implements :: "iface_reg \<Rightarrow> string list \<Rightarrow> string list" where
  "expand_implements reg implements = concat (map (\<lambda>n. n # ancestor_interface_names reg n) implements)"

definition descendant_interface_names :: "iface_reg \<Rightarrow> string \<Rightarrow> string list" where
  "descendant_interface_names reg name =
     filter (\<lambda>n. n \<noteq> name \<and> name \<in> set (ancestor_interface_names reg n)) (map fst reg)"

section \<open>The effective contract\<close>

record contract =
  co_properties :: "string list"
  co_actions :: "string list"
  co_types :: payload
  co_links :: "link_constraint list"

definition empty_contract :: contract where
  "empty_contract = \<lparr>co_properties = [], co_actions = [], co_types = [], co_links = []\<rparr>"

definition local_contract :: "iface \<Rightarrow> contract" where
  "local_contract r = \<lparr>co_properties = if_properties r, co_actions = if_actions r, co_types = if_types r, co_links = if_links r\<rparr>"

fun merge_property_types :: "payload \<Rightarrow> payload \<Rightarrow> (contract_error, payload) result" where
  "merge_property_types merged [] = Inr merged"
| "merge_property_types merged ((k, rule) # overlay) =
     (case dict_get merged k of
        Some old \<Rightarrow> if property_type_binding_key old \<noteq> property_type_binding_key rule then Inl (ConflictingTypes k)
                    else merge_property_types (dict_set k rule merged) overlay
      | None \<Rightarrow> merge_property_types (dict_set k rule merged) overlay)"

fun merge_links :: "(string, link_constraint) dict \<Rightarrow> link_constraint list \<Rightarrow> (contract_error, (string, link_constraint) dict) result" where
  "merge_links d [] = Inr d"
| "merge_links d (c # overlay) =
     (case dict_get d (lk_api c) of
        Some old \<Rightarrow> if link_constraint_identity old \<noteq> link_constraint_identity c then Inl (ConflictingLinks (lk_api c))
                    else merge_links (dict_set (lk_api c) c d) overlay
      | None \<Rightarrow> merge_links (dict_set (lk_api c) c d) overlay)"

definition merge_link_constraints :: "link_constraint list \<Rightarrow> link_constraint list \<Rightarrow> (contract_error, link_constraint list) result" where
  "merge_link_constraints base overlay =
     rbind (merge_links (fold (\<lambda>c d. dict_set (lk_api c) c d) base []) overlay) (\<lambda>d. Inr (map snd d))"

definition merge_contract :: "contract \<Rightarrow> contract \<Rightarrow> (contract_error, contract) result" where
  "merge_contract acc e =
     rbind (merge_property_types (co_types acc) (co_types e)) (\<lambda>types.
     rbind (merge_link_constraints (co_links acc) (co_links e)) (\<lambda>links.
       Inr \<lparr>co_properties = append_new (co_properties acc) (co_properties e), co_actions = append_new (co_actions acc) (co_actions e),
             co_types = types, co_links = links\<rparr>))"

fun merge_parents :: "(string \<Rightarrow> (contract_error, contract) result) \<Rightarrow> string list \<Rightarrow> contract \<Rightarrow> (contract_error, contract) result" where
  "merge_parents eff [] acc = Inr acc"
| "merge_parents eff (p # ps) acc = rbind (eff p) (\<lambda>e. rbind (merge_contract acc e) (merge_parents eff ps))"

definition row_of :: "iface_reg \<Rightarrow> iface_reg \<Rightarrow> string \<Rightarrow> iface option" where
  "row_of reg overrides n = (case dict_get overrides n of Some r \<Rightarrow> Some r | None \<Rightarrow> dict_get reg n)"

fun effective :: "nat \<Rightarrow> iface_reg \<Rightarrow> iface_reg \<Rightarrow> string \<Rightarrow> (contract_error, contract) result" where
  "effective 0 reg overrides n = Inl (ContractRaised RecursionError)"
| "effective (Suc k) reg overrides n =
     (case row_of reg overrides n of
        None \<Rightarrow> Inl (UnknownInterface n)
      | Some r \<Rightarrow> rbind (merge_parents (effective k reg overrides) (if_parents r) empty_contract) (\<lambda>c. merge_contract c (local_contract r)))"

definition effective_interface_contract :: "iface_reg \<Rightarrow> iface_reg \<Rightarrow> string \<Rightarrow> (contract_error, contract) result" where
  "effective_interface_contract reg overrides n = effective (Suc (length reg + length overrides)) reg overrides n"


section \<open>What a contract demands\<close>

datatype demand =
    NeedsProperty string
  | NeedsAction string
  | NeedsType string "(string \<times> string) option"
  | NeedsLink string "string \<times> string \<times> string \<times> string \<times> bool"

definition type_demands :: "payload \<Rightarrow> demand set" where
  "type_demands ts = (\<lambda>(k, r). NeedsType k (property_type_binding_key r)) ` set ts"

definition link_demands :: "link_constraint list \<Rightarrow> demand set" where
  "link_demands ls = (\<lambda>c. NeedsLink (lk_api c) (link_constraint_identity c)) ` set ls"

definition demands :: "contract \<Rightarrow> demand set" where
  "demands c = NeedsProperty ` set (co_properties c) \<union> NeedsAction ` set (co_actions c) \<union> type_demands (co_types c) \<union> link_demands (co_links c)"

definition consistent :: "demand set \<Rightarrow> bool" where
  "consistent D \<longleftrightarrow> (\<forall>k b b'. NeedsType k b \<in> D \<longrightarrow> NeedsType k b' \<in> D \<longrightarrow> b = b') \<and> (\<forall>a i j. NeedsLink a i \<in> D \<longrightarrow> NeedsLink a j \<in> D \<longrightarrow> i = j)"

lemma consistent_subset: "consistent D \<Longrightarrow> E \<subseteq> D \<Longrightarrow> consistent E"
  unfolding consistent_def by blast

lemma type_demands_iff [simp]:
  "NeedsType k b \<in> type_demands ts \<longleftrightarrow> (\<exists>r. (k, r) \<in> set ts \<and> property_type_binding_key r = b)"
  "NeedsProperty p \<notin> type_demands ts" "NeedsAction a \<notin> type_demands ts" "NeedsLink l i \<notin> type_demands ts"
  by (auto simp: type_demands_def)

lemma type_demands_mem: "dict_wf ts \<Longrightarrow> NeedsType k b \<in> type_demands ts \<longleftrightarrow> (\<exists>r. dict_get ts k = Some r \<and> property_type_binding_key r = b)"
  by (simp add: dict_get_iff)

lemma link_demands_iff [simp]:
  "NeedsLink a i \<in> link_demands ls \<longleftrightarrow> (\<exists>c \<in> set ls. lk_api c = a \<and> link_constraint_identity c = i)"
  "NeedsProperty p \<notin> link_demands ls" "NeedsAction b \<notin> link_demands ls" "NeedsType k t \<notin> link_demands ls"
  by (auto simp: link_demands_def)

lemma demands_iff [simp]:
  "NeedsProperty p \<in> demands c \<longleftrightarrow> p \<in> set (co_properties c)" "NeedsAction a \<in> demands c \<longleftrightarrow> a \<in> set (co_actions c)"
  "NeedsType k b \<in> demands c \<longleftrightarrow> NeedsType k b \<in> type_demands (co_types c)" "NeedsLink l i \<in> demands c \<longleftrightarrow> NeedsLink l i \<in> link_demands (co_links c)"
  by (auto simp: demands_def)

lemma demand_set_eqI:
  assumes "\<And>p. NeedsProperty p \<in> D \<longleftrightarrow> NeedsProperty p \<in> E" and "\<And>a. NeedsAction a \<in> D \<longleftrightarrow> NeedsAction a \<in> E"
    and "\<And>k b. NeedsType k b \<in> D \<longleftrightarrow> NeedsType k b \<in> E" and "\<And>l i. NeedsLink l i \<in> D \<longleftrightarrow> NeedsLink l i \<in> E"
  shows "D = E"
proof (rule set_eqI)
  fix d
  show "d \<in> D \<longleftrightarrow> d \<in> E" using assms by (cases d) simp_all
qed

lemma consistent_parts:
  "consistent (demands c \<union> demands e) \<longleftrightarrow>
   consistent (type_demands (co_types c) \<union> type_demands (co_types e)) \<and> consistent (link_demands (co_links c) \<union> link_demands (co_links e))"
  by (simp add: consistent_def del: type_demands_iff(1) link_demands_iff(1))

lemma type_demands_Cons: "type_demands ((k, r) # ts) = insert (NeedsType k (property_type_binding_key r)) (type_demands ts)"
  by (simp add: type_demands_def)

lemma type_demands_set:
  assumes "dict_wf ts" and "\<forall>old. dict_get ts k = Some old \<longrightarrow> property_type_binding_key old = property_type_binding_key r"
  shows "type_demands (dict_set k r ts) = insert (NeedsType k (property_type_binding_key r)) (type_demands ts)"
proof -
  have wf: "dict_wf (dict_set k r ts)" using assms(1) by simp
  have "NeedsType j b \<in> type_demands (dict_set k r ts) \<longleftrightarrow> NeedsType j b \<in> insert (NeedsType k (property_type_binding_key r)) (type_demands ts)" for j b
    unfolding type_demands_mem [OF wf] insert_iff type_demands_mem [OF assms(1)] using assms(2) by auto
  then show ?thesis by (intro demand_set_eqI) simp_all
qed

lemma merge_types_spec:
  assumes "dict_wf m"
  shows "(\<exists>m'. merge_property_types m ts = Inr m') \<longleftrightarrow> consistent (type_demands m \<union> type_demands ts)"
    and "merge_property_types m ts = Inr m' \<Longrightarrow> dict_wf m' \<and> type_demands m' = type_demands m \<union> type_demands ts"
proof -
  have c0: "consistent (type_demands m)" if "dict_wf m" for m using that by (auto simp: consistent_def type_demands_mem simp del: type_demands_iff(1))
  have "((\<exists>m'. merge_property_types m ts = Inr m') \<longleftrightarrow> consistent (type_demands m \<union> type_demands ts)) \<and>
    (\<forall>m'. merge_property_types m ts = Inr m' \<longrightarrow> dict_wf m' \<and> type_demands m' = type_demands m \<union> type_demands ts)"
    using assms
  proof (induction ts arbitrary: m)
    case Nil
    with c0 show ?case by (simp add: type_demands_def)
  next
    case (Cons e ts)
    obtain k r where e: "e = (k, r)" by (cases e)
    show ?case
    proof (cases "\<forall>old. dict_get m k = Some old \<longrightarrow> property_type_binding_key old = property_type_binding_key r")
      case True
      have "dict_wf (dict_set k r m)" using Cons.prems by simp
      note ih = Cons.IH [OF this]
      have "merge_property_types m (e # ts) = merge_property_types (dict_set k r m) ts" using True by (auto simp: e split: option.splits)
      moreover have "type_demands (dict_set k r m) \<union> type_demands ts = type_demands m \<union> type_demands (e # ts)"
        unfolding e type_demands_set [OF Cons.prems True] type_demands_Cons by blast
      ultimately show ?thesis using ih by simp
    next
      case False
      then obtain old where old: "dict_get m k = Some old" "property_type_binding_key old \<noteq> property_type_binding_key r" by blast
      then have "merge_property_types m (e # ts) = Inl (ConflictingTypes k)" by (simp add: e)
      moreover have "NeedsType k (property_type_binding_key old) \<in> type_demands m" using old(1) Cons.prems by (auto simp: dict_get_iff)
      moreover have "NeedsType k (property_type_binding_key r) \<in> type_demands (e # ts)" by (simp add: e type_demands_Cons)
      ultimately have "\<not> consistent (type_demands m \<union> type_demands (e # ts))" using old(2) unfolding consistent_def by blast
      then show ?thesis using \<open>merge_property_types m (e # ts) = Inl (ConflictingTypes k)\<close> by simp
    qed
  qed
  then show "(\<exists>m'. merge_property_types m ts = Inr m') \<longleftrightarrow> consistent (type_demands m \<union> type_demands ts)"
    and "merge_property_types m ts = Inr m' \<Longrightarrow> dict_wf m' \<and> type_demands m' = type_demands m \<union> type_demands ts" by blast+
qed


text \<open>Constraints keyed by their names.\<close>

definition keyed :: "(string, link_constraint) dict \<Rightarrow> bool" where
  "keyed d \<longleftrightarrow> dict_wf d \<and> (\<forall>a c. dict_get d a = Some c \<longrightarrow> lk_api c = a)"

lemma keyed_set: "keyed d \<Longrightarrow> keyed (dict_set (lk_api c) c d)"
  by (simp add: keyed_def)

lemma keyed_mem: "keyed d \<Longrightarrow> (a, c) \<in> set d \<longleftrightarrow> dict_get d a = Some c"
  by (simp add: keyed_def dict_get_iff)

lemma keyed_demands_iff: "keyed d \<Longrightarrow> NeedsLink a i \<in> link_demands (map snd d) \<longleftrightarrow> (\<exists>c. dict_get d a = Some c \<and> link_constraint_identity c = i)"
proof -
  assume k: "keyed d"
  have "NeedsLink a i \<in> link_demands (map snd d) \<longleftrightarrow> (\<exists>b c. (b, c) \<in> set d \<and> lk_api c = a \<and> link_constraint_identity c = i)"
    unfolding link_demands_iff set_map by force
  also have "\<dots> \<longleftrightarrow> (\<exists>c. dict_get d a = Some c \<and> link_constraint_identity c = i)"
    unfolding keyed_mem [OF k] using k unfolding keyed_def by blast
  finally show ?thesis .
qed

lemma keyed_names: "keyed d \<Longrightarrow> map lk_api (map snd d) = map fst d"
proof -
  assume k: "keyed d"
  have "lk_api (snd x) = fst x" if "x \<in> set d" for x
  proof -
    have "dict_get d (fst x) = Some (snd x)" using that keyed_mem [OF k, of "fst x" "snd x"] by simp
    with k show ?thesis by (simp add: keyed_def)
  qed
  then show ?thesis by simp
qed

lemma link_demands_Cons: "link_demands (c # ls) = insert (NeedsLink (lk_api c) (link_constraint_identity c)) (link_demands ls)"
  by (simp add: link_demands_def)

lemma link_demands_set:
  assumes "keyed d" and "\<forall>old. dict_get d (lk_api c) = Some old \<longrightarrow> link_constraint_identity old = link_constraint_identity c"
  shows "link_demands (map snd (dict_set (lk_api c) c d)) = insert (NeedsLink (lk_api c) (link_constraint_identity c)) (link_demands (map snd d))"
proof -
  have "NeedsLink a i \<in> link_demands (map snd (dict_set (lk_api c) c d)) \<longleftrightarrow>
    NeedsLink a i \<in> insert (NeedsLink (lk_api c) (link_constraint_identity c)) (link_demands (map snd d))" for a i
    unfolding keyed_demands_iff [OF keyed_set [OF assms(1)]] insert_iff keyed_demands_iff [OF assms(1)] using assms(2) by auto
  then show ?thesis by (intro demand_set_eqI) simp_all
qed

lemma merge_links_spec:
  assumes "keyed d"
  shows "((\<exists>d'. merge_links d ls = Inr d') \<longleftrightarrow> consistent (link_demands (map snd d) \<union> link_demands ls)) \<and>
    (\<forall>d'. merge_links d ls = Inr d' \<longrightarrow> keyed d' \<and> link_demands (map snd d') = link_demands (map snd d) \<union> link_demands ls)"
  using assms
proof (induction ls arbitrary: d)
  case Nil
  then have "consistent (link_demands (map snd d))" by (simp add: consistent_def keyed_demands_iff del: link_demands_iff(1)) auto
  with Nil show ?case by (simp add: link_demands_def [of "[]"])
next
  case (Cons c ls)
  show ?case
  proof (cases "\<forall>old. dict_get d (lk_api c) = Some old \<longrightarrow> link_constraint_identity old = link_constraint_identity c")
    case True
    note ih = Cons.IH [OF keyed_set [OF Cons.prems, of c]]
    have "merge_links d (c # ls) = merge_links (dict_set (lk_api c) c d) ls" using True by (auto split: option.splits)
    moreover have "link_demands (map snd (dict_set (lk_api c) c d)) \<union> link_demands ls = link_demands (map snd d) \<union> link_demands (c # ls)"
      unfolding link_demands_set [OF Cons.prems True] link_demands_Cons by blast
    ultimately show ?thesis using ih by simp
  next
    case False
    then obtain old where old: "dict_get d (lk_api c) = Some old" "link_constraint_identity old \<noteq> link_constraint_identity c" by blast
    then have "merge_links d (c # ls) = Inl (ConflictingLinks (lk_api c))" by simp
    moreover have "NeedsLink (lk_api c) (link_constraint_identity old) \<in> link_demands (map snd d)"
      unfolding keyed_demands_iff [OF Cons.prems] using old(1) by blast
    moreover have "NeedsLink (lk_api c) (link_constraint_identity c) \<in> link_demands (c # ls)" by (simp add: link_demands_Cons)
    ultimately have "\<not> consistent (link_demands (map snd d) \<union> link_demands (c # ls))" using old(2) unfolding consistent_def by blast
    then show ?thesis using \<open>merge_links d (c # ls) = Inl (ConflictingLinks (lk_api c))\<close> by simp
  qed
qed

definition merged_form :: "contract \<Rightarrow> bool" where
  "merged_form c \<longleftrightarrow> dict_wf (co_types c) \<and> distinct (map lk_api (co_links c))"

lemma base_dict: "distinct (map lk_api ls) \<Longrightarrow> keyed d \<Longrightarrow> set (map lk_api ls) \<inter> fst ` set d = {} \<Longrightarrow>
   fold (\<lambda>c d. dict_set (lk_api c) c d) ls d = d @ map (\<lambda>c. (lk_api c, c)) ls"
proof (induction ls arbitrary: d)
  case (Cons c ls)
  have "dict_get d (lk_api c) = None" using Cons.prems(3) by (auto simp: dict_get_None_iff)
  then have "dict_set (lk_api c) c d = d @ [(lk_api c, c)]" by (rule dict_set_new)
  moreover have "set (map lk_api ls) \<inter> fst ` set (d @ [(lk_api c, c)]) = {}" using Cons.prems(1,3) by auto
  ultimately show ?case using Cons.IH [of "dict_set (lk_api c) c d"] Cons.prems keyed_set [OF Cons.prems(2), of c] by simp
qed simp

lemma merge_contract_spec:
  assumes "merged_form c"
  shows "(\<exists>c'. merge_contract c e = Inr c') \<longleftrightarrow> consistent (demands c \<union> demands e)"
    and "merge_contract c e = Inr c' \<Longrightarrow> merged_form c' \<and> demands c' = demands c \<union> demands e"
proof -
  let ?d = "fold (\<lambda>c d. dict_set (lk_api c) c d) (co_links c) []"
  have wf: "dict_wf (co_types c)" using assms by (simp add: merged_form_def)
  have d: "?d = map (\<lambda>c. (lk_api c, c)) (co_links c)" using base_dict [of "co_links c" "[]"] assms by (simp add: merged_form_def keyed_def dict_wf_def)
  have "dict_wf ?d" using assms unfolding d by (simp add: dict_wf_def merged_form_def o_def)
  then have keyed: "keyed ?d" unfolding d by (auto simp: keyed_def dict_get_iff)
  have snd: "map snd ?d = co_links c" by (simp add: d o_def)
  note links = merge_links_spec [OF keyed, of "co_links e", unfolded snd]
  note types = merge_types_spec [OF wf, of "co_types e"]
  show "(\<exists>c'. merge_contract c e = Inr c') \<longleftrightarrow> consistent (demands c \<union> demands e)"
    unfolding consistent_parts types(1) [symmetric] conjunct1 [OF links, symmetric]
    by (auto simp: merge_contract_def merge_link_constraints_def rbind_Inr_iff)
  assume "merge_contract c e = Inr c'"
  then obtain ts ld where *: "merge_property_types (co_types c) (co_types e) = Inr ts" "merge_links ?d (co_links e) = Inr ld"
    "c' = \<lparr>co_properties = append_new (co_properties c) (co_properties e), co_actions = append_new (co_actions c) (co_actions e), co_types = ts, co_links = map snd ld\<rparr>"
    by (auto simp: merge_contract_def merge_link_constraints_def rbind_Inr_iff)
  have t: "dict_wf ts" "type_demands ts = type_demands (co_types c) \<union> type_demands (co_types e)" using types(2) [OF *(1)] by blast+
  have l: "keyed ld" "link_demands (map snd ld) = link_demands (co_links c) \<union> link_demands (co_links e)" using links *(2) by blast+
  have "distinct (map lk_api (map snd ld))" using l(1) unfolding keyed_names [OF l(1)] by (simp add: keyed_def dict_wf_def)
  then have "merged_form c'" using t(1) by (simp only: *(3) merged_form_def contract.simps)
  moreover have "demands c' = demands c \<union> demands e" by (simp add: *(3) demands_def t(2) l(2) image_Un Un_ac)
  ultimately show "merged_form c' \<and> demands c' = demands c \<union> demands e" ..
qed


section \<open>The effective contract is the union of the hierarchy\<close>

definition parent_in :: "(string \<Rightarrow> iface option) \<Rightarrow> string \<Rightarrow> string \<Rightarrow> bool" where
  "parent_in rows n p \<longleftrightarrow> (\<exists>r. rows n = Some r \<and> p \<in> set (if_parents r))"

definition extends_to :: "(string \<Rightarrow> iface option) \<Rightarrow> string \<Rightarrow> string \<Rightarrow> bool" where
  "extends_to rows = (parent_in rows)\<^sup>*\<^sup>*"

definition hierarchy_demands :: "(string \<Rightarrow> iface option) \<Rightarrow> string \<Rightarrow> demand set" where
  "hierarchy_demands rows n = (\<Union>m \<in> {m. extends_to rows n m}. case rows m of None \<Rightarrow> {} | Some r \<Rightarrow> demands (local_contract r))"

definition complete_from :: "(string \<Rightarrow> iface option) \<Rightarrow> string \<Rightarrow> bool" where
  "complete_from rows n \<longleftrightarrow> (\<forall>m. extends_to rows n m \<longrightarrow> rows m \<noteq> None)"

lemma extends_to_refl [simp]: "extends_to rows n n"
  by (simp add: extends_to_def)

lemma extends_to_step: "rows n = Some r \<Longrightarrow> extends_to rows n m \<longleftrightarrow> m = n \<or> (\<exists>p \<in> set (if_parents r). extends_to rows p m)"
proof -
  assume r: "rows n = Some r"
  have "extends_to rows n m \<longleftrightarrow> m = n \<or> (\<exists>p. parent_in rows n p \<and> extends_to rows p m)"
    unfolding extends_to_def by (metis converse_rtranclpE converse_rtranclp_into_rtranclp rtranclp.rtrancl_refl)
  with r show ?thesis by (auto simp: parent_in_def)
qed

lemma hierarchy_step:
  "rows n = Some r \<Longrightarrow> hierarchy_demands rows n = demands (local_contract r) \<union> (\<Union>p \<in> set (if_parents r). hierarchy_demands rows p)"
  by (auto simp: hierarchy_demands_def extends_to_step)

lemma complete_step: "rows n = Some r \<Longrightarrow> complete_from rows n \<longleftrightarrow> (\<forall>p \<in> set (if_parents r). complete_from rows p)"
  by (auto simp: complete_from_def extends_to_step)

definition describes :: "(contract_error, contract) result \<Rightarrow> bool \<Rightarrow> demand set \<Rightarrow> bool" where
  "describes r ok D \<longleftrightarrow> ((\<exists>c. r = Inr c) \<longleftrightarrow> ok \<and> consistent D) \<and> (\<forall>c. r = Inr c \<longrightarrow> merged_form c \<and> demands c = D)"

lemma describesI: "(\<And>c. r = Inr c \<Longrightarrow> ok \<and> consistent D \<and> merged_form c \<and> demands c = D) \<Longrightarrow> (ok \<Longrightarrow> consistent D \<Longrightarrow> \<exists>c. r = Inr c) \<Longrightarrow> describes r ok D"
  unfolding describes_def by blast

lemma describesD: "describes r ok D \<Longrightarrow> r = Inr c \<Longrightarrow> ok \<and> consistent D \<and> merged_form c \<and> demands c = D"
  unfolding describes_def by blast

lemma merge_describes: "merged_form c \<Longrightarrow> describes (merge_contract c e) True (demands c \<union> demands e)"
  using merge_contract_spec [of c e] by (auto simp: describes_def)

lemma describes_bind:
  assumes "describes r ok D" and "\<And>c. r = Inr c \<Longrightarrow> describes (f c) ok' D'" and "D \<subseteq> D'"
  shows "describes (rbind r f) (ok \<and> ok') D'"
proof (rule describesI)
  fix c
  assume "rbind r f = Inr c"
  then obtain c1 where c1: "r = Inr c1" "f c1 = Inr c" by (auto simp: rbind_Inr_iff)
  with describesD [OF assms(1) c1(1)] describesD [OF assms(2) [OF c1(1)] c1(2)]
  show "(ok \<and> ok') \<and> consistent D' \<and> merged_form c \<and> demands c = D'" by blast
next
  assume "ok \<and> ok'" "consistent D'"
  then obtain c where "r = Inr c" using assms(1,3) consistent_subset unfolding describes_def by blast
  with assms(2) [OF this] \<open>ok \<and> ok'\<close> \<open>consistent D'\<close> show "\<exists>c. rbind r f = Inr c" by (auto simp: describes_def)
qed

lemma merge_parents_describes:
  assumes "\<forall>p \<in> set ps. describes (eff p) (ok p) (H p)" and "merged_form acc" and "consistent (demands acc)"
  shows "describes (merge_parents eff ps acc) (\<forall>p \<in> set ps. ok p) (demands acc \<union> (\<Union>p \<in> set ps. H p))"
  using assms
proof (induction ps arbitrary: acc)
  case Nil
  then show ?case by (simp add: describes_def)
next
  case (Cons p ps)
  let ?D = "demands acc \<union> (\<Union>p \<in> set (p # ps). H p)"
  have "describes (eff p) (ok p) (H p)" using Cons.prems(1) by simp
  moreover have "describes (rbind (merge_contract acc e) (merge_parents eff ps)) (True \<and> (\<forall>p \<in> set ps. ok p)) ?D" if "eff p = Inr e" for e
  proof (rule describes_bind)
    have "describes (eff p) (ok p) (H p)" using Cons.prems(1) by simp
    from describesD [OF this that] have e: "demands e = H p" by blast
    show "describes (merge_contract acc e) True (demands acc \<union> H p)" using merge_describes [OF Cons.prems(2), of e] e by simp
    show "demands acc \<union> H p \<subseteq> ?D" by auto
    fix c
    assume "merge_contract acc e = Inr c"
    from describesD [OF merge_describes [OF Cons.prems(2)] this] e have c: "merged_form c" "consistent (demands c)" "demands c = demands acc \<union> H p" by auto
    have "describes (merge_parents eff ps c) (\<forall>p \<in> set ps. ok p) (demands c \<union> (\<Union>p \<in> set ps. H p))" by (rule Cons.IH) (use Cons.prems(1) c in auto)
    then show "describes (merge_parents eff ps c) (\<forall>p \<in> set ps. ok p) ?D" by (simp add: c(3) Un_ac)
  qed
  ultimately have "describes (merge_parents eff (p # ps) acc) (ok p \<and> True \<and> (\<forall>p \<in> set ps. ok p)) ?D"
    unfolding merge_parents.simps by (rule describes_bind) auto
  then show ?case by simp
qed

definition ranked :: "(string \<Rightarrow> nat) \<Rightarrow> (string \<Rightarrow> iface option) \<Rightarrow> bool" where
  "ranked rank rows \<longleftrightarrow> (\<forall>n p. parent_in rows n p \<longrightarrow> rank p < rank n)"

lemma effective_describes:
  assumes "ranked rank (row_of reg ov)" and "rank n < k"
  shows "describes (effective k reg ov n) (complete_from (row_of reg ov) n) (hierarchy_demands (row_of reg ov) n)"
  using assms(2)
proof (induction k arbitrary: n)
  case (Suc k)
  show ?case
  proof (cases "row_of reg ov n")
    case None
    then have "\<not> complete_from (row_of reg ov) n" using extends_to_refl unfolding complete_from_def by blast
    with None show ?thesis by (simp add: describes_def)
  next
    case (Some r)
    have ih: "describes (effective k reg ov p) (complete_from (row_of reg ov) p) (hierarchy_demands (row_of reg ov) p)" if "p \<in> set (if_parents r)" for p
    proof (rule Suc.IH)
      have "parent_in (row_of reg ov) n p" using Some that by (simp add: parent_in_def)
      with assms(1) Suc.prems show "rank p < k" by (fastforce simp: ranked_def)
    qed
    let ?P = "\<Union>p \<in> set (if_parents r). hierarchy_demands (row_of reg ov) p"
    have e: "merged_form empty_contract" "demands empty_contract = {}"
      by (simp_all add: merged_form_def empty_contract_def demands_def type_demands_def link_demands_def)
    have "describes (merge_parents (effective k reg ov) (if_parents r) empty_contract) (\<forall>p \<in> set (if_parents r). complete_from (row_of reg ov) p)
      (demands empty_contract \<union> ?P)"
      by (rule merge_parents_describes) (use ih e in \<open>auto simp: consistent_def\<close>)
    then have "describes (rbind (merge_parents (effective k reg ov) (if_parents r) empty_contract) (\<lambda>c. merge_contract c (local_contract r)))
      ((\<forall>p \<in> set (if_parents r). complete_from (row_of reg ov) p) \<and> True) (hierarchy_demands (row_of reg ov) n)"
    proof (rule describes_bind)
      show "demands empty_contract \<union> ?P \<subseteq> hierarchy_demands (row_of reg ov) n" by (auto simp: e hierarchy_step [where rows = "row_of reg ov", OF Some])
      fix c
      assume c: "merge_parents (effective k reg ov) (if_parents r) empty_contract = Inr c"
      have "merged_form c \<and> demands c = ?P"
        using describesD [OF \<open>describes (merge_parents _ _ _) _ _\<close> c] by (simp add: e)
      with merge_describes [of c "local_contract r"] show "describes (merge_contract c (local_contract r)) True (hierarchy_demands (row_of reg ov) n)"
        by (simp add: hierarchy_step [where rows = "row_of reg ov", OF Some] Un_commute)
    qed
    then show ?thesis by (simp add: Some complete_step [where rows = "row_of reg ov", OF Some])
  qed
qed simp


section \<open>Ancestors\<close>

lemma walk_ancestors_spec:
  assumes "\<forall>a \<in> set anc. (parent_in (dict_get reg))\<^sup>+\<^sup>+ n a" and "set stack \<subseteq> insert n (set anc)" and "set visited \<subseteq> insert n (set anc)"
    and "insert n (set anc) \<subseteq> set visited \<union> set stack" and "\<forall>v \<in> set visited. \<forall>p. parent_in (dict_get reg) v p \<longrightarrow> p \<in> set anc"
  shows "set (walk_ancestors reg visited anc stack) = {a. (parent_in (dict_get reg))\<^sup>+\<^sup>+ n a}"
  using assms
proof (induction reg visited anc stack rule: walk_ancestors.induct)
  case (1 reg visited anc)
  have closed: "p \<in> set anc" if "v \<in> insert n (set anc)" "parent_in (dict_get reg) v p" for v p using 1(4,5) that by fastforce
  have "a \<in> set anc" if "(parent_in (dict_get reg))\<^sup>+\<^sup>+ n a" for a
    using that by (induction rule: tranclp_induct) (use closed in auto)
  with 1(1) show ?case by auto
next
  case (2 reg visited anc c stack)
  show ?case
  proof (cases "c \<in> set visited")
    case True
    have "set stack \<subseteq> insert n (set anc)" "insert n (set anc) \<subseteq> set visited \<union> set stack" using 2(5,7) True by auto
    from 2(1) [OF True 2(4) this(1) 2(6) this(2) 2(8)] True show ?thesis by simp
  next
    case new: False
    show ?thesis
    proof (cases "dict_get reg c")
      case None
      then have "\<not> parent_in (dict_get reg) c p" for p by (simp add: parent_in_def)
      then have "\<forall>v \<in> set (c # visited). \<forall>p. parent_in (dict_get reg) v p \<longrightarrow> p \<in> set anc" using 2(8) by simp
      moreover have "set stack \<subseteq> insert n (set anc)" "set (c # visited) \<subseteq> insert n (set anc)" "insert n (set anc) \<subseteq> set (c # visited) \<union> set stack"
        using 2(5-7) by auto
      ultimately have "set (walk_ancestors reg (c # visited) anc stack) = {a. (parent_in (dict_get reg))\<^sup>+\<^sup>+ n a}"
        using 2(2) [OF new None 2(4)] by blast
      with new None show ?thesis by simp
    next
      case (Some r)
      obtain anc' st' where push: "push_parents (if_parents r) anc stack = (anc', st')" by fastforce
      from push_parents_spec [OF this] obtain fresh where f: "anc' = fresh @ anc" "st' = fresh @ stack" "set anc' = set anc \<union> set (if_parents r)" by blast
      have par: "parent_in (dict_get reg) c p \<longleftrightarrow> p \<in> set (if_parents r)" for p using Some by (simp add: parent_in_def)
      have c: "c \<in> insert n (set anc)" using 2(5) by auto
      have "(parent_in (dict_get reg))\<^sup>+\<^sup>+ n p" if "p \<in> set (if_parents r)" for p
        using c that par [of p] 2(4) by (auto intro: tranclp.r_into_trancl tranclp.trancl_into_trancl)
      then have "\<forall>a \<in> set anc'. (parent_in (dict_get reg))\<^sup>+\<^sup>+ n a" using 2(4) unfolding f(3) by blast
      moreover have "set st' \<subseteq> insert n (set anc')" "set (c # visited) \<subseteq> insert n (set anc')" "insert n (set anc') \<subseteq> set (c # visited) \<union> set st'"
        using 2(5-7) unfolding f(1,2) by auto
      moreover have "\<forall>v \<in> set (c # visited). \<forall>p. parent_in (dict_get reg) v p \<longrightarrow> p \<in> set anc'"
        using 2(8) par unfolding f(3) by auto
      ultimately have "set (walk_ancestors reg (c # visited) anc' st') = {a. (parent_in (dict_get reg))\<^sup>+\<^sup>+ n a}"
        using 2(3)[OF new Some] unfolding push by simp
      with new Some push show ?thesis by simp
    qed
  qed
qed

lemma ancestors_iff: "p \<in> set (ancestor_interface_names reg n) \<longleftrightarrow> (parent_in (dict_get reg))\<^sup>+\<^sup>+ n p"
  using walk_ancestors_spec [of "[]" reg n "[n]" "[]"] by (simp add: ancestor_interface_names_def)

lemma extends_to_iff: "extends_to (dict_get reg) n m \<longleftrightarrow> m = n \<or> m \<in> set (ancestor_interface_names reg n)"
  unfolding extends_to_def ancestors_iff by (metis rtranclpD tranclp_into_rtranclp rtranclp.rtrancl_refl)

lemma expand_iff: "m \<in> set (expand_implements reg ns) \<longleftrightarrow> (\<exists>n \<in> set ns. extends_to (dict_get reg) n m)"
  by (auto simp: expand_implements_def extends_to_iff)

text \<open>No interface extends itself, and every parent is registered.\<close>

definition acyclic_rows :: "(string \<Rightarrow> iface option) \<Rightarrow> bool" where
  "acyclic_rows rows \<longleftrightarrow> (\<forall>n. \<not> (parent_in rows)\<^sup>+\<^sup>+ n n)"

definition parents_known :: "(string \<Rightarrow> iface option) \<Rightarrow> bool" where
  "parents_known rows \<longleftrightarrow> (\<forall>n p. parent_in rows n p \<longrightarrow> rows p \<noteq> None)"

definition registry_sound :: "iface_reg \<Rightarrow> bool" where
  "registry_sound reg \<longleftrightarrow> dict_wf reg \<and> acyclic_rows (dict_get reg) \<and> parents_known (dict_get reg)"

lemma acyclic_ranked:
  assumes "acyclic_rows rows" and "parents_known rows" and "finite (dom rows)"
  shows "\<exists>rank. ranked rank rows \<and> (\<forall>n. rank n \<le> card (dom rows))"
proof (intro exI conjI allI)
  let ?up = "\<lambda>n. {m. (parent_in rows)\<^sup>+\<^sup>+ n m}"
  have dom: "?up n \<subseteq> dom rows" for n
  proof
    fix m
    assume "m \<in> ?up n"
    then have "\<exists>x. parent_in rows x m" by (auto elim: tranclp.cases)
    then show "m \<in> dom rows" using assms(2) unfolding parents_known_def by blast
  qed
  show "ranked (\<lambda>n. card (?up n)) rows"
    unfolding ranked_def
  proof (intro allI impI)
    fix n p
    assume "parent_in rows n p"
    then have "insert p (?up p) \<subseteq> ?up n" by (auto intro: tranclp_into_tranclp2)
    moreover have "p \<notin> ?up p" using assms(1) by (simp add: acyclic_rows_def)
    ultimately show "card (?up p) < card (?up n)"
      by (intro psubset_card_mono finite_subset [OF dom assms(3)]) auto
  qed
  show "card (?up n) \<le> card (dom rows)" for n using card_mono [OF assms(3) dom] .
qed

lemma dom_dict: "dom (dict_get d) = fst ` set d"
  by (simp add: dict_get_def [abs_def] dom_map_of_conv_image_fst)

lemma card_dom_dict: "card (dom (dict_get d)) \<le> length d"
  unfolding dom_dict by (metis card_length length_map set_map)

lemma row_of_Nil [simp]: "row_of reg [] = dict_get reg"
  by (simp add: row_of_def [abs_def])

lemma row_of_one: "row_of reg [(n, r)] = dict_get (dict_set n r reg)"
  by (auto simp: row_of_def dict_get_def [of "[(n, r)]"])

text \<open>The recursion over parents ends: a contract exists exactly when the interfaces above do and do not conflict.\<close>

lemma contract_describes:
  assumes "acyclic_rows (row_of reg ov)" and "parents_known (row_of reg ov)"
  shows "describes (effective_interface_contract reg ov n) (row_of reg ov n \<noteq> None) (hierarchy_demands (row_of reg ov) n)"
proof -
  have dom: "dom (row_of reg ov) \<subseteq> dom (dict_get ov) \<union> dom (dict_get reg)" by (auto simp: row_of_def split: option.splits)
  then have fin: "finite (dom (row_of reg ov))" by (rule finite_subset) (simp add: dom_dict)
  have "card (dom (row_of reg ov)) \<le> card (dom (dict_get ov) \<union> dom (dict_get reg))" using dom by (intro card_mono) (simp_all add: dom_dict)
  also have "\<dots> \<le> length reg + length ov" using card_Un_le [of "dom (dict_get ov)" "dom (dict_get reg)"] card_dom_dict [of ov] card_dom_dict [of reg] by simp
  finally have size: "card (dom (row_of reg ov)) < Suc (length reg + length ov)" by simp
  from acyclic_ranked [OF assms fin] obtain rank where "ranked rank (row_of reg ov)" "\<forall>n. rank n \<le> card (dom (row_of reg ov))" by blast
  with size have "describes (effective_interface_contract reg ov n) (complete_from (row_of reg ov) n) (hierarchy_demands (row_of reg ov) n)"
    unfolding effective_interface_contract_def by (intro effective_describes [of rank]) (auto intro: le_less_trans)
  moreover have "complete_from (row_of reg ov) n \<longleftrightarrow> row_of reg ov n \<noteq> None"
  proof
    assume "row_of reg ov n \<noteq> None"
    then show "complete_from (row_of reg ov) n"
      using assms(2) by (auto simp: complete_from_def extends_to_def parents_known_def elim: rtranclp.cases)
  qed (auto simp: complete_from_def)
  ultimately show ?thesis by simp
qed


text \<open>
  C19. On a sound registry the effective contract of an interface exists exactly when the interface is registered and
  the rows of its hierarchy do not conflict, and it demands exactly what the interface and all its
  ancestors demand: properties, actions, typed properties and links. In particular a definition of an
  interface does not override one of its ancestors, it conflicts with it (\<open>child_does_not_override\<close>).
\<close>

theorem effective_contract_union:
  assumes "registry_sound reg"
    and D_def: "D = (\<Union>m \<in> insert n (set (ancestor_interface_names reg n)). case dict_get reg m of None \<Rightarrow> {} | Some r \<Rightarrow> demands (local_contract r))"
  shows "((\<exists>c. effective_interface_contract reg [] n = Inr c) \<longleftrightarrow> dict_get reg n \<noteq> None \<and> consistent D) \<and>
    (\<forall>c. effective_interface_contract reg [] n = Inr c \<longrightarrow> demands c = D \<and> distinct (map lk_api (co_links c)) \<and> dict_wf (co_types c))"
proof -
  have "D = hierarchy_demands (row_of reg []) n"
    by (auto simp: D_def hierarchy_demands_def extends_to_iff)
  with contract_describes [of reg "[]" n] assms(1) show ?thesis
    by (auto simp: describes_def registry_sound_def merged_form_def)
qed

definition plain_deprecation :: "nat deprecation" where
  "plain_deprecation = \<lparr>lifecycle_status = ''experimental'', deprecation_reason = None, deprecation_deadline = None, replacement_urn = None\<rparr>"

definition located_link :: link_constraint where
  "located_link = \<lparr>lk_api = ''site'', lk_target_kind = ''object_type'', lk_target = ''Site'', lk_cardinality = ''one'', lk_required = True, lk_description = []\<rparr>"

definition asset_registry :: iface_reg where
  "asset_registry =
    [(''Asset'', \<lparr>if_properties = [''name''], if_actions = [''archive''], if_types = [(''name'', JObj [(''kind'', JStr ''value_type''), (''value_type'', JStr ''Name'')])],
        if_links = [], if_parents = [''Located''], if_description = [], if_deprecation = plain_deprecation\<rparr>),
     (''Located'', \<lparr>if_properties = [''place''], if_actions = [], if_types = [], if_links = [located_link], if_parents = [], if_description = [],
        if_deprecation = plain_deprecation\<rparr>)]"

lemma asset_parent: "parent_in (dict_get asset_registry) n p \<longleftrightarrow> n = ''Asset'' \<and> p = ''Located''"
  by (auto simp: parent_in_def asset_registry_def dict_get_def split: if_splits)

lemma asset_registry_sound: "registry_sound asset_registry"
proof -
  have none: "\<not> (parent_in (dict_get asset_registry))\<^sup>+\<^sup>+ n n" for n
  proof
    assume t: "(parent_in (dict_get asset_registry))\<^sup>+\<^sup>+ n n"
    from tranclpD [OF t] have "n = ''Asset''" by (auto simp: asset_parent)
    moreover from t have "n = ''Located''" by (rule tranclp.cases) (simp_all add: asset_parent)
    ultimately show False by simp
  qed
  moreover have "dict_wf asset_registry" by (simp add: dict_wf_def asset_registry_def)
  moreover have "parents_known (dict_get asset_registry)" by (simp add: parents_known_def asset_parent) (simp add: asset_registry_def dict_get_def)
  ultimately show ?thesis by (simp add: registry_sound_def acyclic_rows_def)
qed

text \<open>
  The comment on the code says that local fields overlay those of the parents and that the child wins; a
  child that types a property otherwise than its parent has no effective contract at all.
\<close>

lemma child_does_not_override:
  "effective_interface_contract
     [(''Located'', \<lparr>if_properties = [''place''], if_actions = [],
         if_types = [(''place'', JObj [(''kind'', JStr ''value_type''), (''value_type'', JStr ''Place'')])], if_links = [], if_parents = [],
         if_description = [], if_deprecation = plain_deprecation\<rparr>),
      (''Asset'', \<lparr>if_properties = [], if_actions = [],
         if_types = [(''place'', JObj [(''kind'', JStr ''value_type''), (''value_type'', JStr ''Room'')])], if_links = [],
         if_parents = [''Located''], if_description = [], if_deprecation = plain_deprecation\<rparr>)] [] ''Asset'' =
   Inl (ConflictingTypes ''place'')"
  by code_simp

theorem effective_contract_union_witness:
  "\<exists>c. effective_interface_contract asset_registry [] ''Asset'' = Inr c \<and> NeedsProperty ''place'' \<in> demands c \<and> NeedsAction ''archive'' \<in> demands c \<and>
     NeedsLink ''site'' (link_constraint_identity located_link) \<in> demands c"
proof -
  have anc: "ancestor_interface_names asset_registry ''Asset'' = [''Located'']" by code_simp
  obtain c where c: "effective_interface_contract asset_registry [] ''Asset'' = Inr c"
    by (cases "effective_interface_contract asset_registry [] ''Asset''") (code_simp, blast)
  with effective_contract_union [OF asset_registry_sound refl, of "''Asset''"]
  have "demands c = (\<Union>m \<in> {''Asset'', ''Located''}. case dict_get asset_registry m of None \<Rightarrow> {} | Some r \<Rightarrow> demands (local_contract r))"
    unfolding anc by simp
  then have "NeedsProperty ''place'' \<in> demands c \<and> NeedsAction ''archive'' \<in> demands c \<and> NeedsLink ''site'' (link_constraint_identity located_link) \<in> demands c"
    by (simp add: asset_registry_def dict_get_def local_contract_def demands_def link_demands_def located_link_def)
  with c show ?thesis by blast
qed

end
