(* ===== verification/Holon_Implements.thy ===== *)
theory Holon_Implements
  imports Holon_Interfaces
begin

text \<open>
  What it takes for an object type to implement its interfaces (\<open>publishing_validate_implements.py\<close> and
  the endpoints of a relation in \<open>interface_contract.py\<close>), and the guard of an edit of an interface that has
  implementers. The registered action types, relations and object types are a record.
\<close>

section \<open>The catalogue\<close>

record action_target =
  at_name :: string
  at_object_type :: "string option"
  at_interface :: "string option"

record card_relation = named_relation +
  nr_cardinality :: string

record ot_row =
  ot_name :: string
  ot_mapping :: "(string, string) dict"
  ot_types :: payload
  ot_implements :: "string list"
  ot_link_bindings :: payload
  ot_prop_bindings :: payload

record catalogue =
  ca_actions :: "action_target list"
  ca_relations :: "card_relation list"
  ca_types :: "ot_row list"

definition action_local_name :: "string \<Rightarrow> string" where
  "action_local_name s = (case partition_on (CHR ''.'') s of (a, found, b) \<Rightarrow> if found then b else s)"

definition actions_available_on_object_type :: "action_target list \<Rightarrow> string \<Rightarrow> string list \<Rightarrow> string list" where
  "actions_available_on_object_type actions ot implements =
     concat (map (\<lambda>a.
       (if at_object_type a = Some ot then [action_local_name (at_name a)] else []) @
       (case at_interface a of Some i \<Rightarrow> if i \<noteq> [] \<and> i \<in> set implements then [action_local_name (at_name a)] else [] | None \<Rightarrow> [])) actions)"

definition outbound_cardinality_from_relation :: "card_relation \<Rightarrow> string \<Rightarrow> string option" where
  "outbound_cardinality_from_relation r implementer =
     (let source = local_part (nr_source_urn r); target = local_part (nr_target_urn r); card = nr_cardinality r in
      if implementer \<noteq> source \<and> implementer \<noteq> target then None
      else if implementer = source then Some (if card = ''one_to_one'' \<or> card = ''many_to_one'' then ''one'' else ''many'')
      else Some (if card = ''one_to_one'' \<or> card = ''one_to_many'' then ''one'' else ''many''))"

definition relation_other_endpoint :: "card_relation \<Rightarrow> string \<Rightarrow> string option" where
  "relation_other_endpoint r implementer =
     (let source = local_part (nr_source_urn r); target = local_part (nr_target_urn r) in
      if implementer = source then Some target else if implementer = target then Some source else None)"

section \<open>One interface\<close>

datatype impl_error =
    MissingProperties "string list"
  | MissingActions "string list"
  | BindingsNotObject
  | TypedPropertyMissing string
  | TypedDifferently string
  | LinkMissing string
  | LinkUnknownRelation string
  | LinkNotTouching string
  | LinkCardinality string
  | LinkTarget string
  | InContract contract_error

declare each_ok_iff [simp]

definition resolved_on :: "ot_row \<Rightarrow> payload \<Rightarrow> string \<Rightarrow> (contract_error, string \<times> json option) result" where
  "resolved_on ot bindings p = resolve_interface_property_path (ot_mapping ot) (ot_types ot) p (obj_get bindings p)"

text \<open>A \<open>ValueError\<close> is a missing property, any other exception ends the check.\<close>

fun missing_properties :: "ot_row \<Rightarrow> payload \<Rightarrow> string list \<Rightarrow> (impl_error, string list) result" where
  "missing_properties ot bindings [] = Inr []"
| "missing_properties ot bindings (p # ps) =
     (case resolved_on ot bindings p of
        Inr _ \<Rightarrow> missing_properties ot bindings ps
      | Inl (ContractRaised x) \<Rightarrow> Inl (InContract (ContractRaised x))
      | Inl _ \<Rightarrow> rbind (missing_properties ot bindings ps) (\<lambda>ms. Inr (p # ms)))"

definition check_typed :: "ot_row \<Rightarrow> payload \<Rightarrow> string \<times> json \<Rightarrow> (impl_error, unit) result" where
  "check_typed ot bindings e =
     (case e of (p, rule) \<Rightarrow>
        (case property_type_binding_key rule of
           None \<Rightarrow> Inr ()
         | Some expected \<Rightarrow>
             (case resolved_on ot bindings p of
                Inl (ContractRaised x) \<Rightarrow> Inl (InContract (ContractRaised x))
              | Inl _ \<Rightarrow> Inl (TypedPropertyMissing p)
              | Inr (_, found) \<Rightarrow>
                  if (case found of None \<Rightarrow> None | Some r \<Rightarrow> property_type_binding_key r) \<noteq> Some expected then Inl (TypedDifferently p) else Inr ())))"

definition relation_named :: "card_relation list \<Rightarrow> string \<Rightarrow> card_relation option" where
  "relation_named rels n = map_of (map (\<lambda>r. (nr_name r, r)) (rev rels)) n"

definition type_named :: "ot_row list \<Rightarrow> string \<Rightarrow> ot_row option" where
  "type_named ots n = map_of (map (\<lambda>t. (ot_name t, t)) (rev ots)) n"

definition check_bound_link :: "catalogue \<Rightarrow> iface_reg \<Rightarrow> string \<Rightarrow> link_constraint \<Rightarrow> card_relation \<Rightarrow> (impl_error, unit) result" where
  "check_bound_link ca reg name c r =
     (let other = relation_other_endpoint r name in
      case outbound_cardinality_from_relation r name of
        None \<Rightarrow> Inl (LinkNotTouching (nr_name r))
      | Some outbound \<Rightarrow>
          if outbound \<noteq> lk_cardinality c then Inl (LinkCardinality (lk_api c))
          else if lk_target_kind c = ''object_type'' then
            (if other \<noteq> Some (lk_target c) then Inl (LinkTarget (lk_api c)) else Inr ())
          else (let far = (case type_named (ca_types ca) (case other of None \<Rightarrow> [] | Some x \<Rightarrow> x) of None \<Rightarrow> [] | Some t \<Rightarrow> ot_implements t)
                in if lk_target c \<notin> set (expand_implements reg far) then Inl (LinkTarget (lk_api c)) else Inr ()))"

definition check_link :: "catalogue \<Rightarrow> iface_reg \<Rightarrow> string \<Rightarrow> payload \<Rightarrow> link_constraint \<Rightarrow> (impl_error, unit) result" where
  "check_link ca reg name bindings c =
     (let bound = obj_get bindings (lk_api c) in
      if \<not> truthy bound then (if lk_required c then Inl (LinkMissing (lk_api c)) else Inr ())
      else case bound of
        JStr s \<Rightarrow> (case relation_named (ca_relations ca) s of None \<Rightarrow> Inl (LinkUnknownRelation (lk_api c)) | Some r \<Rightarrow> check_bound_link ca reg name c r)
      | JList _ \<Rightarrow> Inl (InContract (ContractRaised TypeError))
      | JObj _ \<Rightarrow> Inl (InContract (ContractRaised TypeError))
      | _ \<Rightarrow> Inl (LinkUnknownRelation (lk_api c)))"

text \<open>\<open>bindings.get(interface) or {}\<close>.\<close>

definition bindings_of :: "payload \<Rightarrow> string \<Rightarrow> (impl_error, payload) result" where
  "bindings_of d n =
     (if \<not> truthy (obj_get d n) then Inr []
      else case obj_get d n of JObj b \<Rightarrow> Inr b | _ \<Rightarrow> Inl BindingsNotObject)"

definition check_contract ::
  "catalogue \<Rightarrow> iface_reg \<Rightarrow> ot_row \<Rightarrow> string list \<Rightarrow> string \<Rightarrow> contract \<Rightarrow> (impl_error, unit) result" where
  "check_contract ca reg ot actions n c =
     rbind (bindings_of (ot_prop_bindings ot) n) (\<lambda>pb.
     rbind (missing_properties ot pb (co_properties c)) (\<lambda>missing.
       if missing \<noteq> [] then Inl (MissingProperties missing)
       else let absent = filter (\<lambda>a. a \<notin> set actions) (co_actions c) in
         if absent \<noteq> [] then Inl (MissingActions absent)
         else rbind (each_ok (check_typed ot pb) (co_types c)) (\<lambda>_.
              rbind (bindings_of (ot_link_bindings ot) n) (\<lambda>lb. each_ok (check_link ca reg (ot_name ot) lb) (co_links c)))))"

definition validate_implements :: "catalogue \<Rightarrow> iface_reg \<Rightarrow> iface_reg \<Rightarrow> ot_row \<Rightarrow> (impl_error, unit) result" where
  "validate_implements ca reg overrides ot =
     (let actions = actions_available_on_object_type (ca_actions ca) (ot_name ot) (expand_implements reg (ot_implements ot)) in
      each_ok (\<lambda>n. case effective_interface_contract reg overrides n of Inl e \<Rightarrow> Inl (InContract e) | Inr c \<Rightarrow> check_contract ca reg ot actions n c)
        (ot_implements ot))"

section \<open>Tightening an interface\<close>

text \<open>The first exception that is not a \<open>ValueError\<close> propagates, else the object types that fail.\<close>

fun broken_implementers ::
  "catalogue \<Rightarrow> iface_reg \<Rightarrow> iface_reg \<Rightarrow> string \<Rightarrow> ot_row list \<Rightarrow> (py_exc, string list) result" where
  "broken_implementers ca reg overrides name [] = Inr []"
| "broken_implementers ca reg overrides name (ot # ots) =
     (if list_all (\<lambda>i. i \<noteq> name \<and> name \<notin> set (ancestor_interface_names reg i)) (ot_implements ot)
      then broken_implementers ca reg overrides name ots
      else case validate_implements ca reg overrides ot of
             Inl (InContract (ContractRaised x)) \<Rightarrow> Inl x
           | Inl _ \<Rightarrow> rbind (broken_implementers ca reg overrides name ots) (\<lambda>bs. Inr (ot_name ot # bs))
           | Inr _ \<Rightarrow> broken_implementers ca reg overrides name ots)"

definition tightens :: "iface \<Rightarrow> iface \<Rightarrow> bool" where
  "tightens old new \<longleftrightarrow> \<not> set (if_properties new) \<subseteq> set (if_properties old) \<or> \<not> set (if_actions new) \<subseteq> set (if_actions old) \<or>
     property_types_tighten (if_types old) (if_types new) \<or> link_constraints_tighten (if_links old) (if_links new) \<or>
     \<not> set (if_parents new) \<subseteq> set (if_parents old)"

definition assert_interface_tighten_compatible ::
  "catalogue \<Rightarrow> iface_reg \<Rightarrow> string \<Rightarrow> iface \<Rightarrow> iface \<Rightarrow> (py_exc + string list, unit) result" where
  "assert_interface_tighten_compatible ca reg name old new =
     (if \<not> tightens old new then Inr ()
      else case broken_implementers ca reg [(name, new)] name (ca_types ca) of
             Inl x \<Rightarrow> Inl (Inl x)
           | Inr bs \<Rightarrow> if bs = [] then Inr () else Inl (Inr bs))"


section \<open>A weaker contract is met by every implementer\<close>

lemma check_typed_ok:
  "check_typed ot pb (p, rule) = Inr () \<longleftrightarrow>
   (\<forall>b. property_type_binding_key rule = Some b \<longrightarrow> (\<exists>v r. resolved_on ot pb p = Inr (v, Some r) \<and> property_type_binding_key r = Some b))"
  by (auto simp: check_typed_def split: option.splits sum.splits contract_error.splits)

lemma missing_none: "missing_properties ot pb ps = Inr [] \<longleftrightarrow> (\<forall>p \<in> set ps. \<exists>v. resolved_on ot pb p = Inr v)"
  by (induction ps) (auto simp: rbind_Inr_iff split: sum.splits contract_error.splits)

lemma check_link_identity: "link_constraint_identity c = link_constraint_identity c' \<Longrightarrow> check_link ca reg name lb c = check_link ca reg name lb c'"
proof -
  assume "link_constraint_identity c = link_constraint_identity c'"
  then have *: "lk_api c = lk_api c'" "lk_target_kind c = lk_target_kind c'" "lk_target c = lk_target c'" "lk_cardinality c = lk_cardinality c'"
    "lk_required c = lk_required c'" by (simp_all add: link_constraint_identity_def)
  have "check_bound_link ca reg name c r = check_bound_link ca reg name c' r" for r unfolding check_bound_link_def * ..
  then show ?thesis unfolding check_link_def * Let_def by (auto split: json.splits option.splits)
qed

lemma check_contract_ok:
  "check_contract ca reg ot actions n c = Inr () \<longleftrightarrow>
   (\<exists>pb lb. bindings_of (ot_prop_bindings ot) n = Inr pb \<and> bindings_of (ot_link_bindings ot) n = Inr lb \<and>
     (\<forall>p \<in> set (co_properties c). \<exists>v. resolved_on ot pb p = Inr v) \<and> set (co_actions c) \<subseteq> set actions \<and>
     (\<forall>e \<in> set (co_types c). check_typed ot pb e = Inr ()) \<and> (\<forall>l \<in> set (co_links c). check_link ca reg (ot_name ot) lb l = Inr ()))"
proof -
  have absent: "filter (\<lambda>a. a \<notin> set actions) (co_actions c) = [] \<longleftrightarrow> set (co_actions c) \<subseteq> set actions" by (auto simp: filter_empty_conv)
  have "check_contract ca reg ot actions n c = Inr () \<longleftrightarrow>
   (\<exists>pb lb. bindings_of (ot_prop_bindings ot) n = Inr pb \<and> bindings_of (ot_link_bindings ot) n = Inr lb \<and>
     missing_properties ot pb (co_properties c) = Inr [] \<and> set (co_actions c) \<subseteq> set actions \<and>
     (\<forall>e \<in> set (co_types c). check_typed ot pb e = Inr ()) \<and> (\<forall>l \<in> set (co_links c). check_link ca reg (ot_name ot) lb l = Inr ()))"
    by (auto simp: check_contract_def rbind_Inr_iff Let_def absent split: if_splits)
  then show ?thesis unfolding missing_none .
qed

lemma check_contract_mono:
  assumes "check_contract ca reg ot actions n c = Inr ()" and "demands c' \<subseteq> demands c"
  shows "check_contract ca reg ot actions n c' = Inr ()"
proof -
  from assms(1) obtain pb lb where *: "bindings_of (ot_prop_bindings ot) n = Inr pb" "bindings_of (ot_link_bindings ot) n = Inr lb"
     "\<forall>p \<in> set (co_properties c). \<exists>v. resolved_on ot pb p = Inr v" "set (co_actions c) \<subseteq> set actions"
     "\<forall>e \<in> set (co_types c). check_typed ot pb e = Inr ()" "\<forall>l \<in> set (co_links c). check_link ca reg (ot_name ot) lb l = Inr ()"
    unfolding check_contract_ok by blast
  have sub: "NeedsProperty p \<in> demands c' \<Longrightarrow> NeedsProperty p \<in> demands c" "NeedsAction a \<in> demands c' \<Longrightarrow> NeedsAction a \<in> demands c"
    "NeedsType k b \<in> demands c' \<Longrightarrow> NeedsType k b \<in> demands c" "NeedsLink x i \<in> demands c' \<Longrightarrow> NeedsLink x i \<in> demands c" for p a k b x i
    using assms(2) by blast+
  have "check_typed ot pb (k, r) = Inr ()" if r: "(k, r) \<in> set (co_types c')" for k r
  proof -
    have "NeedsType k (property_type_binding_key r) \<in> demands c" using r by (intro sub(3)) auto
    then obtain r0 where "(k, r0) \<in> set (co_types c)" "property_type_binding_key r0 = property_type_binding_key r" by auto
    with *(5) show ?thesis unfolding check_typed_ok [of ot pb k r] by (metis check_typed_ok)
  qed
  moreover have "check_link ca reg (ot_name ot) lb l = Inr ()" if l: "l \<in> set (co_links c')" for l
  proof -
    have "NeedsLink (lk_api l) (link_constraint_identity l) \<in> demands c" using l by (intro sub(4)) auto
    then obtain l0 where "l0 \<in> set (co_links c)" "link_constraint_identity l0 = link_constraint_identity l" by auto
    with *(6) check_link_identity show ?thesis by metis
  qed
  ultimately show ?thesis
    unfolding check_contract_ok using *(1-4) sub(1,2) by (intro exI [of _ pb] exI [of _ lb]) auto
qed

lemma check_contract_cong:
  assumes "\<And>ns. set (expand_implements reg ns) = set (expand_implements reg' ns)"
  shows "check_contract ca reg = check_contract ca reg'"
proof -
  have b: "check_bound_link ca reg nm c r = check_bound_link ca reg' nm c r" for nm c r unfolding check_bound_link_def assms ..
  have "check_link ca reg nm lb c = check_link ca reg' nm lb c" for nm lb c unfolding check_link_def b ..
  then have l: "check_link ca reg = check_link ca reg'" by (intro ext)
  have "check_contract ca reg ot acts nm c = check_contract ca reg' ot acts nm c" for ot acts nm c unfolding check_contract_def l ..
  then show ?thesis by (intro ext)
qed

lemma actions_cong: "set ns = set ns' \<Longrightarrow> actions_available_on_object_type acts ot ns = actions_available_on_object_type acts ot ns'"
  by (simp add: actions_available_on_object_type_def cong: option.case_cong)

text \<open>An object type stays valid when the hierarchy of each of its interfaces demands no more.\<close>

lemma implements_transfer:
  assumes ok: "validate_implements ca reg ov ot = Inr ()"
    and rows: "acyclic_rows (row_of reg ov)" "parents_known (row_of reg ov)" and rows': "acyclic_rows (row_of reg' ov')" "parents_known (row_of reg' ov')"
    and expand: "\<And>ns. set (expand_implements reg ns) = set (expand_implements reg' ns)"
    and weaker: "\<forall>n \<in> set (ot_implements ot). row_of reg ov n \<noteq> None \<longrightarrow>
       row_of reg' ov' n \<noteq> None \<and> hierarchy_demands (row_of reg' ov') n \<subseteq> hierarchy_demands (row_of reg ov) n"
  shows "validate_implements ca reg' ov' ot = Inr ()"
proof -
  let ?A = "actions_available_on_object_type (ca_actions ca) (ot_name ot) (expand_implements reg (ot_implements ot))"
  have A: "actions_available_on_object_type (ca_actions ca) (ot_name ot) (expand_implements reg' (ot_implements ot)) = ?A"
    by (rule actions_cong) (rule expand [symmetric])
  have "(case effective_interface_contract reg' ov' n of Inl e \<Rightarrow> Inl (InContract e) | Inr c \<Rightarrow> check_contract ca reg' ot ?A n c) = Inr ()"
    if n: "n \<in> set (ot_implements ot)" for n
  proof -
    from ok n have "(case effective_interface_contract reg ov n of Inl e \<Rightarrow> Inl (InContract e) | Inr c \<Rightarrow> check_contract ca reg ot ?A n c) = Inr ()"
      by (simp add: validate_implements_def Let_def)
    then obtain c where c: "effective_interface_contract reg ov n = Inr c" "check_contract ca reg ot ?A n c = Inr ()"
      by (cases "effective_interface_contract reg ov n") simp_all
    from describesD [OF contract_describes [OF rows] c(1)] have d: "row_of reg ov n \<noteq> None" "consistent (demands c)" "demands c = hierarchy_demands (row_of reg ov) n"
      by auto
    with weaker n have w: "row_of reg' ov' n \<noteq> None" "hierarchy_demands (row_of reg' ov') n \<subseteq> demands c" by auto
    from contract_describes [OF rows', of n] w d(2) consistent_subset obtain c' where c': "effective_interface_contract reg' ov' n = Inr c'"
      unfolding describes_def by blast
    from describesD [OF contract_describes [OF rows'] c'] w have "demands c' \<subseteq> demands c" by simp
    from check_contract_mono [OF c(2) this] show ?thesis by (simp add: c' check_contract_cong [OF expand, symmetric])
  qed
  then show ?thesis unfolding validate_implements_def Let_def A by simp
qed

end
