(* ===== verification/Holon_Interface_Registry.thy ===== *)
theory Holon_Interface_Registry
  imports Holon_Implements
begin

text \<open>
  The registry of interfaces of a tenant (\<open>ontology/interfaces.py\<close> and the validators of
  \<open>interface_contract.py\<close>): creation, update and deletion, each with every check in the order of the code. The
  registered value types and shared property types are predicates; dates are parsed by an argument. The names in
  an error are in the order of the registry.
\<close>

datatype iface_registry_error =
    Metadata metadata_error
  | InterfaceContract contract_error
  | DuplicateInterface string
  | BreaksImplementers "string list"
  | ActiveInterface
  | ExtendedBy "string list"
  | ImplementedBy "string list"
  | RegistryRaised py_exc

record known_types =
  kt_value :: "string \<Rightarrow> bool"
  kt_shared :: "string \<Rightarrow> bool"

section \<open>Validation\<close>

fun check_parents :: "iface_reg \<Rightarrow> string \<Rightarrow> string list \<Rightarrow> json list \<Rightarrow> (contract_error, string list) result" where
  "check_parents reg name seen [] = Inr []"
| "check_parents reg name seen (raw # rest) =
     (case raw of
        JStr s \<Rightarrow>
          (let parent = py_strip s in
           if parent = [] then Inl BadParents
           else if parent = name then Inl (SelfParent name)
           else if parent \<in> set seen then check_parents reg name seen rest
           else if dict_get reg parent = None then Inl (UnknownParent parent)
           else if name \<in> set (ancestor_interface_names reg parent) then Inl (ParentCycle parent)
           else rbind (check_parents reg name (parent # seen) rest) (\<lambda>ps. Inr (parent # ps)))
      | _ \<Rightarrow> Inl BadParents)"

definition validate_parent_interfaces :: "iface_reg \<Rightarrow> string \<Rightarrow> json \<Rightarrow> (contract_error, string list) result" where
  "validate_parent_interfaces reg name parents = (case parents of JList ps \<Rightarrow> check_parents reg name [] ps | _ \<Rightarrow> Inl BadParents)"

definition named_leaf :: "(string \<Rightarrow> bool) \<Rightarrow> string \<Rightarrow> payload \<Rightarrow> (contract_error, json) result" where
  "named_leaf known kind rule =
     (case obj_get rule kind of
        JStr n \<Rightarrow> if n = [] \<or> \<not> known n then Inl BadPropertyTypes else Inr (JObj [(''kind'', JStr kind), (kind, JStr n)])
      | _ \<Rightarrow> Inl BadPropertyTypes)"

fun check_property_types :: "known_types \<Rightarrow> string list \<Rightarrow> payload \<Rightarrow> payload \<Rightarrow> (contract_error, payload) result" where
  "check_property_types kt required [] done = Inr done"
| "check_property_types kt required ((p, rule) # rest) done =
     (if p \<notin> set required then Inl BadPropertyTypes
      else case rule of
        JObj r \<Rightarrow>
          rbind (if obj_get r ''kind'' = JStr ''value_type'' then named_leaf (kt_value kt) ''value_type'' r
                 else if obj_get r ''kind'' = JStr ''shared_property_type'' then named_leaf (kt_shared kt) ''shared_property_type'' r
                 else if (case obj_get r ''kind'' of JList _ \<Rightarrow> True | JObj _ \<Rightarrow> True | _ \<Rightarrow> False) then Inl (ContractRaised TypeError)
                 else Inl BadPropertyTypes) (\<lambda>leaf. check_property_types kt required rest (dict_set p leaf done))
      | _ \<Rightarrow> Inl BadPropertyTypes)"

definition validate_interface_property_types :: "known_types \<Rightarrow> string list \<Rightarrow> json \<Rightarrow> (contract_error, payload) result" where
  "validate_interface_property_types kt required types =
     (case types of JObj ts \<Rightarrow> check_property_types kt required ts [] | _ \<Rightarrow> Inl BadPropertyTypes)"

definition stripped :: "json \<Rightarrow> string" where
  "stripped j = (case j of JStr s \<Rightarrow> py_strip s | _ \<Rightarrow> [])"

definition one_of :: "json \<Rightarrow> string list \<Rightarrow> (contract_error, string) result" where
  "one_of j allowed =
     (case j of JStr s \<Rightarrow> if s \<in> set allowed then Inr s else Inl BadLinks
      | JList _ \<Rightarrow> Inl (ContractRaised TypeError) | JObj _ \<Rightarrow> Inl (ContractRaised TypeError) | _ \<Rightarrow> Inl BadLinks)"

definition check_link_row :: "(string \<Rightarrow> bool) \<Rightarrow> iface_reg \<Rightarrow> string list \<Rightarrow> payload \<Rightarrow> (contract_error, link_constraint) result" where
  "check_link_row type_known reg seen raw =
     (let api = stripped (obj_get raw ''api_name''); target = stripped (obj_get raw ''target'') in
      if api = [] \<or> api \<in> set seen then Inl BadLinks
      else rbind (one_of (obj_get raw ''target_kind'') [''object_type'', ''interface'']) (\<lambda>kind.
           if target = [] then Inl BadLinks
           else if (if kind = ''object_type'' then \<not> type_known target else dict_get reg target = None) then Inl BadLinks
           else rbind (one_of (obj_get raw ''cardinality'') [''one'', ''many'']) (\<lambda>card.
                case (case dict_get raw ''required'' of None \<Rightarrow> JBool False | Some v \<Rightarrow> v) of
                  JBool required \<Rightarrow>
                    (case (if truthy (obj_get raw ''description'') then obj_get raw ''description'' else JStr []) of
                       JStr d \<Rightarrow> Inr \<lparr>lk_api = api, lk_target_kind = kind, lk_target = target, lk_cardinality = card, lk_required = required, lk_description = d\<rparr>
                     | _ \<Rightarrow> Inl BadLinks)
                | _ \<Rightarrow> Inl BadLinks)))"

fun check_link_rows :: "(string \<Rightarrow> bool) \<Rightarrow> iface_reg \<Rightarrow> string list \<Rightarrow> json list \<Rightarrow> (contract_error, link_constraint list) result" where
  "check_link_rows type_known reg seen [] = Inr []"
| "check_link_rows type_known reg seen (raw # rest) =
     (case raw of
        JObj r \<Rightarrow> rbind (check_link_row type_known reg seen r) (\<lambda>c. rbind (check_link_rows type_known reg (lk_api c # seen) rest) (\<lambda>cs. Inr (c # cs)))
      | _ \<Rightarrow> Inl BadLinks)"

definition validate_link_constraints :: "(string \<Rightarrow> bool) \<Rightarrow> iface_reg \<Rightarrow> json \<Rightarrow> (contract_error, link_constraint list) result" where
  "validate_link_constraints type_known reg links = (case links of JList ls \<Rightarrow> check_link_rows type_known reg [] ls | _ \<Rightarrow> Inl BadLinks)"

fun parents_properties :: "iface_reg \<Rightarrow> string list \<Rightarrow> (contract_error, string list) result" where
  "parents_properties reg [] = Inr []"
| "parents_properties reg (p # ps) =
     rbind (effective_interface_contract reg [] p) (\<lambda>c. rbind (parents_properties reg ps) (\<lambda>qs. Inr (co_properties c @ qs)))"

section \<open>Operations\<close>

definition lift_contract :: "(contract_error, 'a) result \<Rightarrow> (iface_registry_error, 'a) result" where
  "lift_contract r = (case r of Inl e \<Rightarrow> Inl (InterfaceContract e) | Inr v \<Rightarrow> Inr v)"

definition lift_metadata :: "(metadata_error, 'a) result \<Rightarrow> (iface_registry_error, 'a) result" where
  "lift_metadata r = (case r of Inl e \<Rightarrow> Inl (Metadata e) | Inr v \<Rightarrow> Inr v)"

record iface_spec =
  sp_properties :: "string list"
  sp_actions :: "string list"
  sp_description :: string
  sp_status :: string
  sp_reason :: "string option"
  sp_deadline :: "nat raw_deadline"
  sp_replacement :: "string option"
  sp_types :: json
  sp_links :: json
  sp_parents :: json

text \<open>\<open>x or default\<close>.\<close>

definition json_or :: "json \<Rightarrow> json \<Rightarrow> json" where
  "json_or j other = (if truthy j then j else other)"

definition create_interface_type ::
  "(string \<Rightarrow> nat option) \<Rightarrow> known_types \<Rightarrow> (string \<Rightarrow> bool) \<Rightarrow> string \<Rightarrow> iface_spec \<Rightarrow> iface_reg \<Rightarrow> (iface_registry_error, iface_reg) result" where
  "create_interface_type fromisoformat kt type_known name s reg =
     rbind (lift_metadata (normalize_deprecation_metadata fromisoformat (sp_status s) (sp_reason s) (sp_deadline s) (sp_replacement s) TargetRegistry)) (\<lambda>dep.
     rbind (lift_contract (validate_parent_interfaces reg name (json_or (sp_parents s) (JList [])))) (\<lambda>parents.
     rbind (lift_contract (parents_properties reg parents)) (\<lambda>inherited.
     rbind (lift_contract (validate_interface_property_types kt (sp_properties s @ inherited) (json_or (sp_types s) (JObj [])))) (\<lambda>types.
     rbind (lift_contract (validate_link_constraints type_known reg (json_or (sp_links s) (JList [])))) (\<lambda>links.
       let row = \<lparr>if_properties = sp_properties s, if_actions = sp_actions s, if_types = types, if_links = links, if_parents = parents,
                   if_description = sp_description s, if_deprecation = dep\<rparr> in
       rbind (lift_contract (effective_interface_contract reg [(name, row)] name)) (\<lambda>_.
         if dict_get reg name \<noteq> None then Inl (DuplicateInterface name) else Inr (dict_set name row reg)))))))"

record iface_patch =
  up_properties :: "string list option"
  up_actions :: "string list option"
  up_description :: "string option"
  up_status :: "string option"
  up_reason :: "string option"
  up_deadline :: "nat raw_deadline"
  up_replacement :: "string option"
  up_types :: "json option"
  up_links :: "json option"
  up_parents :: "json option"

definition kept_or :: "'a option \<Rightarrow> 'a \<Rightarrow> 'a" where
  "kept_or new old = (case new of None \<Rightarrow> old | Some x \<Rightarrow> x)"

definition checks_implementers :: "iface_patch \<Rightarrow> bool" where
  "checks_implementers u \<longleftrightarrow> up_properties u \<noteq> None \<or> up_actions u \<noteq> None \<or> up_types u \<noteq> None \<or> up_links u \<noteq> None \<or> up_parents u \<noteq> None"

definition patched_row ::
  "(string \<Rightarrow> nat option) \<Rightarrow> known_types \<Rightarrow> (string \<Rightarrow> bool) \<Rightarrow> iface_reg \<Rightarrow> string \<Rightarrow> iface \<Rightarrow> iface_patch \<Rightarrow> (iface_registry_error, iface) result" where
  "patched_row fromisoformat kt type_known reg name cur u =
     (let d = if_deprecation cur; props = kept_or (up_properties u) (if_properties cur);
          deadline = (case up_deadline u of RawNone \<Rightarrow> (case deprecation_deadline d of None \<Rightarrow> RawNone | Some x \<Rightarrow> RawDate x) | given \<Rightarrow> given) in
      rbind (lift_metadata (normalize_deprecation_metadata fromisoformat (kept_or (up_status u) (lifecycle_status d))
        (case up_reason u of None \<Rightarrow> deprecation_reason d | given \<Rightarrow> given) deadline
        (case up_replacement u of None \<Rightarrow> replacement_urn d | given \<Rightarrow> given) TargetRegistry)) (\<lambda>dep.
      rbind (case up_parents u of None \<Rightarrow> Inr (if_parents cur) | Some ps \<Rightarrow> lift_contract (validate_parent_interfaces reg name ps)) (\<lambda>parents.
      rbind (lift_contract (parents_properties reg parents)) (\<lambda>inherited.
      rbind (case up_types u of
               None \<Rightarrow> Inr (filter (\<lambda>e. fst e \<in> set (props @ inherited)) (if_types cur))
             | Some ts \<Rightarrow> lift_contract (validate_interface_property_types kt (props @ inherited) ts)) (\<lambda>types.
      rbind (case up_links u of None \<Rightarrow> Inr (if_links cur) | Some ls \<Rightarrow> lift_contract (validate_link_constraints type_known reg ls)) (\<lambda>links.
        Inr \<lparr>if_properties = props, if_actions = kept_or (up_actions u) (if_actions cur), if_types = types, if_links = links, if_parents = parents,
              if_description = kept_or (up_description u) (if_description cur), if_deprecation = dep\<rparr>))))))"

text \<open>
  An update is a check, which reads the registry and computes the new row, and a later write of that row, with
  no lock in between: the \<open>UPDATE\<close> touches no row when the interface has been deleted meanwhile. The composition
  is an update that nothing interrupts; \<open>concurrent_parents_close_cycle\<close> interleaves two of them.
\<close>

definition check_interface_update ::
  "(string \<Rightarrow> nat option) \<Rightarrow> known_types \<Rightarrow> catalogue \<Rightarrow> string \<Rightarrow> iface_patch \<Rightarrow> iface_reg \<Rightarrow> (iface_registry_error, iface) result" where
  "check_interface_update fromisoformat kt ca name u reg =
     (case dict_get reg name of
        None \<Rightarrow> Inl (InterfaceContract (UnknownInterface name))
      | Some cur \<Rightarrow>
          rbind (patched_row fromisoformat kt (\<lambda>t. t \<in> ot_name ` set (ca_types ca)) reg name cur u) (\<lambda>row.
          rbind (lift_contract (effective_interface_contract reg [(name, row)] name)) (\<lambda>_.
          rbind (if checks_implementers u then
                   (case assert_interface_tighten_compatible ca reg name cur row of
                      Inl (Inl x) \<Rightarrow> Inl (RegistryRaised x) | Inl (Inr bs) \<Rightarrow> Inl (BreaksImplementers bs) | Inr _ \<Rightarrow> Inr ())
                 else Inr ()) (\<lambda>_. Inr row))))"

definition write_interface_row :: "string \<Rightarrow> iface \<Rightarrow> iface_reg \<Rightarrow> iface_reg" where
  "write_interface_row name row reg = (if dict_get reg name = None then reg else dict_set name row reg)"

definition update_interface_type ::
  "(string \<Rightarrow> nat option) \<Rightarrow> known_types \<Rightarrow> catalogue \<Rightarrow> string \<Rightarrow> iface_patch \<Rightarrow> iface_reg \<Rightarrow> (iface_registry_error, iface_reg) result" where
  "update_interface_type fromisoformat kt ca name u reg =
     rbind (check_interface_update fromisoformat kt ca name u reg) (\<lambda>row. Inr (write_interface_row name row reg))"

definition object_type_names_for_interface :: "iface_reg \<Rightarrow> ot_row list \<Rightarrow> string \<Rightarrow> string list" where
  "object_type_names_for_interface reg ots name =
     map ot_name (filter (\<lambda>ot. name \<in> set (expand_implements reg (ot_implements ot))) ots)"

definition delete_interface_type :: "catalogue \<Rightarrow> string \<Rightarrow> iface_reg \<Rightarrow> (iface_registry_error, iface_reg) result" where
  "delete_interface_type ca name reg =
     (case dict_get reg name of
        None \<Rightarrow> Inl (InterfaceContract (UnknownInterface name))
      | Some cur \<Rightarrow>
          let children = descendant_interface_names reg name; implementers = object_type_names_for_interface reg (ca_types ca) name in
          if lifecycle_status (if_deprecation cur) = ''active'' then Inl ActiveInterface
          else if children \<noteq> [] then Inl (ExtendedBy children)
          else if implementers \<noteq> [] then Inl (ImplementedBy implementers)
          else Inr (dict_pop name reg))"



section \<open>What the validators guarantee\<close>

lemma lift_ok [simp]: "lift_contract r = Inr v \<longleftrightarrow> r = Inr v" "lift_metadata q = Inr w \<longleftrightarrow> q = Inr w"
  by (simp_all add: lift_contract_def lift_metadata_def split: sum.splits)

lemma check_parents_ok:
  "check_parents reg name seen raws = Inr ps \<Longrightarrow> p \<in> set ps \<Longrightarrow> p \<noteq> name \<and> dict_get reg p \<noteq> None \<and> \<not> extends_to (dict_get reg) p name"
proof (induction raws arbitrary: seen ps)
  case (Cons raw rest)
  from Cons.prems(1) obtain s where s: "raw = JStr s" by (cases raw) auto
  let ?p = "py_strip s"
  show ?case
  proof (cases "?p \<in> set seen")
    case True
    with Cons.prems s Cons.IH [of seen ps] show ?thesis by (auto simp: Let_def split: if_splits)
  next
    case False
    with Cons.prems(1) s obtain ps' where "?p \<noteq> name" "dict_get reg ?p \<noteq> None" "name \<notin> set (ancestor_interface_names reg ?p)"
      "check_parents reg name (?p # seen) rest = Inr ps'" "ps = ?p # ps'" by (auto simp: Let_def rbind_Inr_iff split: if_splits)
    with Cons.IH [of "?p # seen" ps'] Cons.prems(2) show ?thesis by (auto simp: extends_to_iff)
  qed
qed simp

lemma named_leaf_key: "named_leaf known kind r = Inr leaf \<Longrightarrow> kind \<in> {''value_type'', ''shared_property_type''} \<Longrightarrow> property_type_binding_key leaf \<noteq> None"
  by (auto simp: named_leaf_def property_type_binding_key_def obj_get_def dict_get_def split: json.splits if_splits)

lemma check_property_types_keys:
  "check_property_types kt required ts acc = Inr out \<Longrightarrow> \<forall>e \<in> set acc. property_type_binding_key (snd e) \<noteq> None \<Longrightarrow>
   \<forall>e \<in> set out. property_type_binding_key (snd e) \<noteq> None"
proof (induction kt required ts acc rule: check_property_types.induct)
  case (2 kt required p rule rest acc)
  from 2(2) obtain r where r: "rule = JObj r" by (cases rule) (auto split: if_splits)
  from 2(2) obtain leaf kind known where leaf: "named_leaf known kind r = Inr leaf" "kind \<in> {''value_type'', ''shared_property_type''}"
    and rest: "check_property_types kt required rest (dict_set p leaf acc) = Inr out"
    by (auto simp: r rbind_Inr_iff split: if_splits json.splits)
  have "\<forall>e \<in> set (dict_set p leaf acc). property_type_binding_key (snd e) \<noteq> None"
    using 2(3) named_leaf_key [OF leaf] by (auto dest: dict_mem_set)
  with 2(1) rest r 2(2) show ?case by (auto split: if_splits)
qed simp

lemma case_ok:
  "(case j of JBool b \<Rightarrow> f b | _ \<Rightarrow> Inl e) = Inr c \<longleftrightarrow> (\<exists>b. j = JBool b \<and> f b = Inr c)"
  "(case j of JStr s \<Rightarrow> g s | _ \<Rightarrow> Inl e) = Inr c \<longleftrightarrow> (\<exists>s. j = JStr s \<and> g s = Inr c)"
  by (cases j; simp)+

lemma check_link_row_named: "check_link_row type_known reg seen r = Inr c \<Longrightarrow> lk_api c \<noteq> []"
  unfolding check_link_row_def Let_def rbind_Inr_iff case_ok if_distrib [of "\<lambda>x. x = Inr c"] by (auto simp: rbind_Inr_iff case_ok split: if_splits)

lemma check_link_rows_named: "check_link_rows type_known reg seen raws = Inr ls \<Longrightarrow> \<forall>l \<in> set ls. lk_api l \<noteq> []"
proof (induction type_known reg seen raws arbitrary: ls rule: check_link_rows.induct)
  case (2 type_known reg seen raw rest)
  from 2(2) obtain r c cs where r: "raw = JObj r" "check_link_row type_known reg seen r = Inr c"
    "check_link_rows type_known reg (lk_api c # seen) rest = Inr cs" "ls = c # cs"
    by (cases raw) (auto simp: rbind_Inr_iff)
  from r(2) have "lk_api c \<noteq> []" by (rule check_link_row_named)
  with 2(1) [OF r(1,3)] r(4) show ?case by simp
qed simp

lemma patched_row_parts:
  assumes "patched_row fromisoformat kt type_known reg name cur u = Inr row"
  shows "if_properties row = kept_or (up_properties u) (if_properties cur)" "if_actions row = kept_or (up_actions u) (if_actions cur)"
    "up_types u = None \<Longrightarrow> set (if_types row) \<subseteq> set (if_types cur)" "up_links u = None \<Longrightarrow> if_links row = if_links cur"
    "up_parents u = None \<Longrightarrow> if_parents row = if_parents cur"
    "up_types u \<noteq> None \<Longrightarrow> e \<in> set (if_types row) \<Longrightarrow> property_type_binding_key (snd e) \<noteq> None"
    "up_links u \<noteq> None \<Longrightarrow> l \<in> set (if_links row) \<Longrightarrow> lk_api l \<noteq> []"
    "up_parents u \<noteq> None \<Longrightarrow> p \<in> set (if_parents row) \<Longrightarrow> p \<noteq> name \<and> dict_get reg p \<noteq> None \<and> \<not> extends_to (dict_get reg) p name"
proof -
  from assms obtain parents inherited types links where
    ps: "(case up_parents u of None \<Rightarrow> Inr (if_parents cur) | Some ps \<Rightarrow> lift_contract (validate_parent_interfaces reg name ps)) = Inr parents" and
    ts: "(case up_types u of
               None \<Rightarrow> Inr (filter (\<lambda>e. fst e \<in> set (kept_or (up_properties u) (if_properties cur) @ inherited)) (if_types cur))
             | Some ts \<Rightarrow> lift_contract (validate_interface_property_types kt (kept_or (up_properties u) (if_properties cur) @ inherited) ts)) = Inr types" and
    ls: "(case up_links u of None \<Rightarrow> Inr (if_links cur) | Some ls \<Rightarrow> lift_contract (validate_link_constraints type_known reg ls)) = Inr links" and
    row: "if_properties row = kept_or (up_properties u) (if_properties cur)" "if_actions row = kept_or (up_actions u) (if_actions cur)"
      "if_types row = types" "if_links row = links" "if_parents row = parents"
    unfolding patched_row_def Let_def rbind_Inr_iff by auto
  show "if_properties row = kept_or (up_properties u) (if_properties cur)" "if_actions row = kept_or (up_actions u) (if_actions cur)" using row by auto
  show "up_types u = None \<Longrightarrow> set (if_types row) \<subseteq> set (if_types cur)" using ts row by auto
  show "up_links u = None \<Longrightarrow> if_links row = if_links cur" using ls row by auto
  show "up_parents u = None \<Longrightarrow> if_parents row = if_parents cur" using ps row by auto
  show "up_types u \<noteq> None \<Longrightarrow> e \<in> set (if_types row) \<Longrightarrow> property_type_binding_key (snd e) \<noteq> None"
    using ts row check_property_types_keys [where acc = "[]"] by (fastforce simp: validate_interface_property_types_def split: json.splits)
  show "up_links u \<noteq> None \<Longrightarrow> l \<in> set (if_links row) \<Longrightarrow> lk_api l \<noteq> []"
    using ls row check_link_rows_named by (fastforce simp: validate_link_constraints_def split: json.splits)
  show "up_parents u \<noteq> None \<Longrightarrow> p \<in> set (if_parents row) \<Longrightarrow> p \<noteq> name \<and> dict_get reg p \<noteq> None \<and> \<not> extends_to (dict_get reg) p name"
    using ps row check_parents_ok by (fastforce simp: validate_parent_interfaces_def split: json.splits)
qed


section \<open>The registry stays sound\<close>

lemma write_sound:
  assumes sound: "registry_sound reg"
    and parents: "\<And>p. p \<in> set (if_parents row) \<Longrightarrow> p \<noteq> name \<and> dict_get reg p \<noteq> None \<and> \<not> extends_to (dict_get reg) p name"
  shows "registry_sound (dict_set name row reg)"
proof -
  let ?E = "parent_in (dict_get reg)" and ?F = "parent_in (dict_get (dict_set name row reg))"
  have F: "?F x y \<longleftrightarrow> (if x = name then y \<in> set (if_parents row) else ?E x y)" for x y by (auto simp: parent_in_def)
  note [simp del] = dict_get_set
  have up: "?E\<^sup>*\<^sup>* x y \<and> y \<noteq> name" if "?F\<^sup>*\<^sup>* x y" "\<not> ?E\<^sup>*\<^sup>* x name" for x y
    using that
  proof (induction rule: rtranclp_induct)
    case (step y z)
    then have "?E y z" by (simp add: F)
    with step have "?E\<^sup>*\<^sup>* x z" by (meson rtranclp.rtrancl_into_rtrancl)
    with step.prems show ?case by blast
  qed auto
  have no_self: "\<not> ?F\<^sup>+\<^sup>+ name name"
  proof
    assume "?F\<^sup>+\<^sup>+ name name"
    then obtain p where p: "?F name p" "?F\<^sup>*\<^sup>* p name" by (meson tranclpD)
    with parents [of p] up [OF p(2)] show False by (auto simp: F extends_to_def)
  qed
  have split: "?E\<^sup>+\<^sup>+ x y \<or> ?F\<^sup>*\<^sup>* x name \<and> ?F\<^sup>+\<^sup>+ name y" if "?F\<^sup>+\<^sup>+ x y" for x y
    using that
  proof (induction rule: tranclp_induct)
    case (base y)
    then show ?case by (cases "x = name") (auto simp: F intro: tranclp.r_into_trancl)
  next
    case (step y z)
    show ?case
    proof (cases "y = name")
      case True
      with step.hyps show ?thesis by (auto intro: tranclp_into_rtranclp tranclp.r_into_trancl)
    next
      case False
      with step.hyps(2) have "?E y z" by (simp add: F)
      with step.IH step.hyps(2) show ?thesis by (meson tranclp.trancl_into_trancl)
    qed
  qed
  have "\<not> ?F\<^sup>+\<^sup>+ n n" for n
    using split [of n n] no_self sound by (auto simp: registry_sound_def acyclic_rows_def dest: rtranclp_tranclp_tranclp tranclp_rtranclp_tranclp)
  moreover have "parents_known (dict_get (dict_set name row reg))"
    unfolding parents_known_def F using sound parents by (auto simp: registry_sound_def parents_known_def dict_get_set)
  ultimately show ?thesis using sound by (simp add: registry_sound_def acyclic_rows_def)
qed

lemma own_parents:
  "registry_sound reg \<Longrightarrow> dict_get reg name = Some cur \<Longrightarrow> p \<in> set (if_parents cur) \<Longrightarrow>
   p \<noteq> name \<and> dict_get reg p \<noteq> None \<and> \<not> extends_to (dict_get reg) p name"
proof -
  assume *: "registry_sound reg" "dict_get reg name = Some cur" "p \<in> set (if_parents cur)"
  then have "parent_in (dict_get reg) name p" by (simp add: parent_in_def)
  with * have known: "dict_get reg p \<noteq> None" "\<not> (parent_in (dict_get reg))\<^sup>*\<^sup>* p name"
    unfolding registry_sound_def acyclic_rows_def parents_known_def by (blast intro: rtranclp_into_tranclp2)+
  then show ?thesis by (auto simp: extends_to_def)
qed

lemma create_sound:
  assumes "registry_sound reg" and "create_interface_type fromisoformat kt type_known name s reg = Inr reg'"
  shows "registry_sound reg'"
proof -
  from assms(2) obtain row where ps: "validate_parent_interfaces reg name (json_or (sp_parents s) (JList [])) = Inr (if_parents row)"
    and row: "reg' = dict_set name row reg"
    unfolding create_interface_type_def Let_def rbind_Inr_iff lift_ok by (force split: if_splits)
  have "p \<noteq> name \<and> dict_get reg p \<noteq> None \<and> \<not> extends_to (dict_get reg) p name" if "p \<in> set (if_parents row)" for p
    using ps that check_parents_ok by (fastforce simp: validate_parent_interfaces_def split: json.splits)
  with assms(1) row show ?thesis by (simp add: write_sound)
qed

lemma update_parts:
  assumes "update_interface_type fromisoformat kt ca name u reg = Inr reg'"
  obtains cur row c where "dict_get reg name = Some cur"
    "patched_row fromisoformat kt (\<lambda>t. t \<in> ot_name ` set (ca_types ca)) reg name cur u = Inr row" "reg' = dict_set name row reg"
    "effective_interface_contract reg [(name, row)] name = Inr c"
    "checks_implementers u \<Longrightarrow> assert_interface_tighten_compatible ca reg name cur row = Inr ()"
proof -
  from assms obtain cur where cur: "dict_get reg name = Some cur" by (auto simp: update_interface_type_def check_interface_update_def split: option.splits)
  from assms obtain row c where "patched_row fromisoformat kt (\<lambda>t. t \<in> ot_name ` set (ca_types ca)) reg name cur u = Inr row"
    "effective_interface_contract reg [(name, row)] name = Inr c" "reg' = dict_set name row reg"
    "(if checks_implementers u then
       (case assert_interface_tighten_compatible ca reg name cur row of
          Inl (Inl x) \<Rightarrow> Inl (RegistryRaised x) | Inl (Inr bs) \<Rightarrow> Inl (BreaksImplementers bs) | Inr _ \<Rightarrow> Inr ()) else Inr ()) = Inr ()"
    unfolding update_interface_type_def check_interface_update_def write_interface_row_def cur option.case rbind_Inr_iff lift_ok
    by auto
  with cur that show ?thesis by (cases "checks_implementers u") (auto split: sum.splits)
qed

lemma update_sound:
  assumes "registry_sound reg" and "update_interface_type fromisoformat kt ca name u reg = Inr reg'"
  shows "registry_sound reg'"
proof -
  from update_parts [OF assms(2)] obtain cur row where *: "dict_get reg name = Some cur"
    "patched_row fromisoformat kt (\<lambda>t. t \<in> ot_name ` set (ca_types ca)) reg name cur u = Inr row" "reg' = dict_set name row reg" by metis
  have "p \<noteq> name \<and> dict_get reg p \<noteq> None \<and> \<not> extends_to (dict_get reg) p name" if "p \<in> set (if_parents row)" for p
    using patched_row_parts(5,8) [OF *(2)] own_parents [OF assms(1) *(1)] that by metis
  with assms(1) *(3) show ?thesis by (simp add: write_sound)
qed

lemma delete_sound:
  assumes "registry_sound reg" and "delete_interface_type ca name reg = Inr reg'"
  shows "registry_sound reg'"
proof -
  from assms(2) have childless: "descendant_interface_names reg name = []" and reg': "reg' = dict_pop name reg"
    by (auto simp: delete_interface_type_def Let_def split: option.splits if_splits)
  have sub: "parent_in (dict_get reg') x y \<Longrightarrow> parent_in (dict_get reg) x y" for x y by (auto simp: parent_in_def reg' split: if_splits)
  have "\<not> (parent_in (dict_get reg'))\<^sup>+\<^sup>+ n n" for n
  proof
    assume "(parent_in (dict_get reg'))\<^sup>+\<^sup>+ n n"
    then have "(parent_in (dict_get reg))\<^sup>+\<^sup>+ n n" by (rule tranclp_trans_induct) (auto dest: sub)
    with assms(1) show False by (simp add: registry_sound_def acyclic_rows_def)
  qed
  moreover have "y \<noteq> name" if e: "parent_in (dict_get reg') x y" for x y
  proof
    assume y: "y = name"
    from e obtain r where "dict_get reg x = Some r" "x \<noteq> name" by (auto simp: parent_in_def reg' split: if_splits)
    moreover from e y have "name \<in> set (ancestor_interface_names reg x)" unfolding ancestors_iff by (blast intro: sub)
    ultimately have "x \<in> set (descendant_interface_names reg name)" by (force simp: descendant_interface_names_def dest: dict_get_mem)
    with childless show False by simp
  qed
  moreover have "dict_get reg y \<noteq> None" if "parent_in (dict_get reg') x y" for x y
    using sub [OF that] assms(1) by (auto simp: registry_sound_def parents_known_def)
  ultimately have "parents_known (dict_get reg')" "acyclic_rows (dict_get reg')" by (auto simp: acyclic_rows_def parents_known_def reg')
  then show ?thesis using assms(1) by (simp add: registry_sound_def reg')
qed

text \<open>The requests a tenant's registry serves; one that is refused changes nothing.\<close>

datatype registry_request =
    CreateInterface string iface_spec
  | UpdateInterface string iface_patch
  | DeleteInterface string

fun serve_request ::
  "(string \<Rightarrow> nat option) \<Rightarrow> catalogue \<times> known_types \<times> registry_request \<Rightarrow> iface_reg \<Rightarrow> (iface_registry_error, iface_reg) result" where
  "serve_request fromisoformat (ca, kt, CreateInterface name s) reg = create_interface_type fromisoformat kt (\<lambda>t. t \<in> ot_name ` set (ca_types ca)) name s reg"
| "serve_request fromisoformat (ca, kt, UpdateInterface name u) reg = update_interface_type fromisoformat kt ca name u reg"
| "serve_request fromisoformat (ca, kt, DeleteInterface name) reg = delete_interface_type ca name reg"

definition serve_requests ::
  "(string \<Rightarrow> nat option) \<Rightarrow> (catalogue \<times> known_types \<times> registry_request) list \<Rightarrow> iface_reg \<Rightarrow> iface_reg" where
  "serve_requests fromisoformat qs reg = fold (\<lambda>q r. case serve_request fromisoformat q r of Inl _ \<Rightarrow> r | Inr r' \<Rightarrow> r') qs reg"

lemma serve_request_sound: "registry_sound reg \<Longrightarrow> serve_request fromisoformat q reg = Inr reg' \<Longrightarrow> registry_sound reg'"
  by (cases "(fromisoformat, q, reg)" rule: serve_request.cases) (auto intro: create_sound update_sound delete_sound)

lemma empty_sound: "registry_sound []"
proof -
  have "\<not> parent_in (dict_get []) x y" for x y by (simp add: parent_in_def)
  then have "\<not> (parent_in (dict_get []))\<^sup>+\<^sup>+ n n" for n by (meson tranclpD)
  then show ?thesis by (simp add: registry_sound_def acyclic_rows_def parents_known_def parent_in_def)
qed

lemma serve_requests_sound: "registry_sound reg \<Longrightarrow> registry_sound (serve_requests fromisoformat qs reg)"
  unfolding serve_requests_def by (induction qs arbitrary: reg) (auto intro: serve_request_sound split: sum.splits)

text \<open>
  C18. Whatever sequence of creations, updates and deletions a tenant's registry of interfaces has served, against
  whatever object types, relations and types were registered at the time: no interface extends itself, every parent is registered, and
  the walk up from any registered interface meets only registered interfaces and never the interface itself.
\<close>

theorem interface_hierarchy_sound:
  "registry_sound (serve_requests fromisoformat qs []) \<and>
   (\<forall>n. n \<notin> set (ancestor_interface_names (serve_requests fromisoformat qs []) n) \<and>
     list_all (\<lambda>a. dict_get (serve_requests fromisoformat qs []) a \<noteq> None) (ancestor_interface_names (serve_requests fromisoformat qs []) n))"
proof -
  let ?reg = "serve_requests fromisoformat qs []"
  have s: "registry_sound ?reg" by (rule serve_requests_sound [OF empty_sound])
  have "dict_get ?reg a \<noteq> None" if "(parent_in (dict_get ?reg))\<^sup>+\<^sup>+ n a" for n a
    using that s by (cases rule: tranclp.cases) (auto simp: registry_sound_def parents_known_def)
  with s show ?thesis by (auto simp: list_all_iff ancestors_iff registry_sound_def acyclic_rows_def)
qed



section \<open>Updating an interface under its implementers\<close>

lemma not_tightened_type:
  "\<not> property_types_tighten previous new \<Longrightarrow> (k, rule) \<in> set new \<Longrightarrow> property_type_binding_key rule = Some b \<Longrightarrow>
   \<exists>old. (k, old) \<in> set previous \<and> property_type_binding_key old = Some b"
proof (induction previous new rule: property_types_tighten.induct)
  case (2 previous name r new)
  show ?case
  proof (cases "(k, rule) = (name, r)")
    case True
    with 2 show ?thesis by (auto split: option.splits if_splits dest: dict_get_mem)
  next
    case False
    with 2 show ?thesis by (auto split: option.splits if_splits)
  qed
qed simp

lemma by_api_mem: "by_api cs a = Some c \<Longrightarrow> c \<in> set cs \<and> lk_api c = a"
  by (auto simp: by_api_def dest: map_of_SomeD)

lemma by_api_None: "by_api cs a = None \<longleftrightarrow> (\<forall>c \<in> set cs. lk_api c \<noteq> a)"
  by (force simp: by_api_def map_of_eq_None_iff)

lemma link_constraints_tighten_iff:
  "link_constraints_tighten previous new \<longleftrightarrow>
   (\<exists>c \<in> set new. case (if lk_api c = [] then None else by_api previous (lk_api c)) of
      None \<Rightarrow> lk_required c | Some old \<Rightarrow> link_constraint_identity old \<noteq> link_constraint_identity c)"
proof (induction new)
  case (Cons c new)
  define x where "x = (if lk_api c = [] then None else by_api previous (lk_api c))"
  show ?case unfolding link_constraints_tighten.simps list.set bex_simps(5) x_def [symmetric] Cons.IH by (cases x) auto
qed simp

lemma not_tightened_link:
  assumes "\<not> link_constraints_tighten previous new" and "c \<in> set new" and "lk_api c \<noteq> []"
    and "lk_required c \<or> (\<exists>old \<in> set previous. lk_api old = lk_api c)"
  shows "\<exists>old \<in> set previous. lk_api old = lk_api c \<and> link_constraint_identity old = link_constraint_identity c"
proof -
  from assms(1-3) have *: "\<not> (case by_api previous (lk_api c) of None \<Rightarrow> lk_required c | Some old \<Rightarrow> link_constraint_identity old \<noteq> link_constraint_identity c)"
    unfolding link_constraints_tighten_iff by fastforce
  show ?thesis
  proof (cases "by_api previous (lk_api c)")
    case None
    with * assms(4) show ?thesis by (auto simp: by_api_None)
  next
    case (Some old)
    with * by_api_mem [OF Some] show ?thesis by auto
  qed
qed

text \<open>An optional constraint with a new name is not noticed as a tightening; the ones below are not of that kind.\<close>

definition links_noticed :: "iface \<Rightarrow> iface \<Rightarrow> bool" where
  "links_noticed old new \<longleftrightarrow> (\<forall>c \<in> set (if_links new). lk_required c \<or> (\<exists>d \<in> set (if_links old). lk_api d = lk_api c))"

lemma weaker_row:
  assumes row: "patched_row fromisoformat kt type_known reg name cur u = Inr row" and "links_noticed cur row"
    and loose: "checks_implementers u \<Longrightarrow> \<not> tightens cur row"
  shows "demands (local_contract row) \<subseteq> demands (local_contract cur)"
proof -
  note parts = patched_row_parts [OF row]
  have props: "set (if_properties row) \<subseteq> set (if_properties cur)" "set (if_actions row) \<subseteq> set (if_actions cur)"
    using loose parts(1,2) by (cases "checks_implementers u"; auto simp: tightens_def checks_implementers_def kept_or_def)+
  have types: "NeedsType k b \<in> type_demands (if_types cur)" if "NeedsType k b \<in> type_demands (if_types row)" for k b
  proof (cases "up_types u")
    case None
    with parts(3) that show ?thesis by auto
  next
    case (Some ts)
    then have "\<not> property_types_tighten (if_types cur) (if_types row)" using loose by (auto simp: tightens_def checks_implementers_def)
    moreover from that obtain r where r: "(k, r) \<in> set (if_types row)" "property_type_binding_key r = b" by auto
    moreover have "b \<noteq> None" using parts(6) [of "(k, r)"] Some r by auto
    ultimately show ?thesis using not_tightened_type by fastforce
  qed
  have links: "NeedsLink a i \<in> link_demands (if_links cur)" if "NeedsLink a i \<in> link_demands (if_links row)" for a i
  proof (cases "up_links u")
    case None
    with parts(4) that show ?thesis by simp
  next
    case (Some ls)
    then have "\<not> link_constraints_tighten (if_links cur) (if_links row)" using loose by (auto simp: tightens_def checks_implementers_def)
    moreover from that obtain c where c: "c \<in> set (if_links row)" "lk_api c = a" "link_constraint_identity c = i" by auto
    moreover have "lk_api c \<noteq> []" using parts(7) Some c(1) by auto
    ultimately show ?thesis using not_tightened_link [of "if_links cur" "if_links row" c] assms(2) by (auto simp: links_noticed_def)
  qed
  show ?thesis
  proof
    fix d
    assume "d \<in> demands (local_contract row)"
    then show "d \<in> demands (local_contract cur)"
      using props types links by (cases d) (auto simp: local_contract_def simp del: type_demands_iff(1) link_demands_iff(1))
  qed
qed

lemma broken_none:
  "broken_implementers ca reg ov name ots = Inr [] \<Longrightarrow> ot \<in> set ots \<Longrightarrow>
   (\<forall>i \<in> set (ot_implements ot). \<not> extends_to (dict_get reg) i name) \<or> validate_implements ca reg ov ot = Inr ()"
proof (induction ots)
  case (Cons o1 ots)
  have "broken_implementers ca reg ov name ots = Inr [] \<and>
    ((\<forall>i \<in> set (ot_implements o1). \<not> extends_to (dict_get reg) i name) \<or> validate_implements ca reg ov o1 = Inr ())"
    using Cons.prems(1) by (auto simp: list_all_iff extends_to_iff rbind_Inr_iff split: if_splits sum.splits impl_error.splits contract_error.splits)
  with Cons show ?case by auto
qed simp

text \<open>
  C17. An update of an interface that keeps its parents and adds no optional link constraint, checked and written with nothing
  in between, breaks no implementer: an object type that met the effective contracts of all its
  interfaces still meets them afterwards, of the interface itself, of the interfaces that extend it and of those its links
  point to. Both conditions are needed: the check does not notice an added optional link constraint
  (\<open>optional_link_breaks_implementer\<close>) nor a removed parent (\<open>removed_parent_breaks_implementer\<close>).
\<close>

theorem interface_update_keeps_implementers:
  assumes "registry_sound reg" and "update_interface_type fromisoformat kt ca name u reg = Inr reg'"
    and "dict_get reg name = Some old" and "dict_get reg' name = Some new" and "if_parents new = if_parents old" and "links_noticed old new"
    and "ot \<in> set (ca_types ca)" and "validate_implements ca reg [] ot = Inr ()"
  shows "validate_implements ca reg' [] ot = Inr ()"
proof -
  from update_parts [OF assms(2)] assms(3,4) have row: "patched_row fromisoformat kt (\<lambda>t. t \<in> ot_name ` set (ca_types ca)) reg name old u = Inr new"
    and reg': "reg' = dict_set name new reg" and checked: "checks_implementers u \<Longrightarrow> assert_interface_tighten_compatible ca reg name old new = Inr ()"
    by (metis dict_get_set fun_upd_same option.inject)+
  have sound': "registry_sound reg'" using update_sound assms(1,2) .
  have parent: "parent_in (dict_get reg') = parent_in (dict_get reg)"
    using assms(3,5) by (auto simp: parent_in_def fun_eq_iff reg')
  then have ext: "extends_to (dict_get reg') = extends_to (dict_get reg)" by (simp add: extends_to_def)
  have expand: "set (expand_implements reg ns) = set (expand_implements reg' ns)" for ns by (auto simp: expand_iff ext)
  note s = assms(1) sound'
  have transfer: "validate_implements ca reg' [] ot = Inr ()"
    if "\<And>n. n \<in> set (ot_implements ot) \<Longrightarrow> hierarchy_demands (dict_get reg') n \<subseteq> hierarchy_demands (dict_get reg) n"
  proof (rule implements_transfer [OF assms(8)])
    show "\<forall>n \<in> set (ot_implements ot). row_of reg [] n \<noteq> None \<longrightarrow>
       row_of reg' [] n \<noteq> None \<and> hierarchy_demands (row_of reg' []) n \<subseteq> hierarchy_demands (row_of reg []) n"
      using that by (auto simp: reg')
  qed (use s expand in \<open>auto simp: registry_sound_def\<close>)
  have unaffected: "hierarchy_demands (dict_get reg') n \<subseteq> hierarchy_demands (dict_get reg) n" if "\<not> extends_to (dict_get reg) n name" for n
  proof -
    have "dict_get reg' m = dict_get reg m" if "extends_to (dict_get reg) n m" for m using that \<open>\<not> extends_to (dict_get reg) n name\<close> by (auto simp: reg')
    then show ?thesis by (auto simp: hierarchy_demands_def ext)
  qed
  show ?thesis
  proof (cases "checks_implementers u \<and> tightens old new")
    case False
    with weaker_row [OF row assms(6)] have "demands (local_contract new) \<subseteq> demands (local_contract old)" by blast
    then have "(case dict_get reg' m of None \<Rightarrow> {} | Some r \<Rightarrow> demands (local_contract r)) \<subseteq>
        (case dict_get reg m of None \<Rightarrow> {} | Some r \<Rightarrow> demands (local_contract r))" for m
      using assms(3) by (simp add: reg')
    then have "hierarchy_demands (dict_get reg') n \<subseteq> hierarchy_demands (dict_get reg) n" for n
      unfolding hierarchy_demands_def ext by (rule UN_mono [OF subset_refl])
    then show ?thesis by (rule transfer)
  next
    case True
    with checked have "broken_implementers ca reg [(name, new)] name (ca_types ca) = Inr []"
      by (auto simp: assert_interface_tighten_compatible_def split: sum.splits if_splits)
    from broken_none [OF this assms(7)] show ?thesis
    proof
      assume "validate_implements ca reg [(name, new)] ot = Inr ()"
      then show ?thesis
        by (rule implements_transfer) (use sound' expand in \<open>auto simp: row_of_one reg' [symmetric] registry_sound_def\<close>)
    next
      assume "\<forall>i \<in> set (ot_implements ot). \<not> extends_to (dict_get reg) i name"
      then show ?thesis by (intro transfer unaffected) blast
    qed
  qed
qed


definition no_patch :: iface_patch where
  "no_patch = \<lparr>up_properties = None, up_actions = None, up_description = None, up_status = None, up_reason = None, up_deadline = RawNone,
     up_replacement = None, up_types = None, up_links = None, up_parents = None\<rparr>"

definition nothing_known :: known_types where
  "nothing_known = \<lparr>kt_value = (\<lambda>_. False), kt_shared = (\<lambda>_. False)\<rparr>"

definition pump_type :: ot_row where
  "pump_type = \<lparr>ot_name = ''Pump'', ot_mapping = [(''name'', ''n''), (''place'', ''p''), (''zone'', ''z'')],
     ot_types = [(''name'', JObj [(''kind'', JStr ''value_type''), (''value_type'', JStr ''Name'')])], ot_implements = [''Asset''],
     ot_link_bindings = [(''Asset'', JObj [(''site'', JStr ''pump_site'')])], ot_prop_bindings = []\<rparr>"

definition site_type :: ot_row where
  "site_type = \<lparr>ot_name = ''Site'', ot_mapping = [], ot_types = [], ot_implements = [], ot_link_bindings = [], ot_prop_bindings = []\<rparr>"

definition pump_site :: card_relation where
  "pump_site = \<lparr>nr_name = ''pump_site'', nr_source_urn = ''hln:t:ot:Pump'', nr_target_urn = ''hln:t:ot:Site'', nr_source_api = None, nr_target_api = None,
     nr_target_property = None, nr_cardinality = ''many_to_one''\<rparr>"

definition plant :: catalogue where
  "plant = \<lparr>ca_actions = [\<lparr>at_name = ''Pump.archive'', at_object_type = Some ''Pump'', at_interface = None\<rparr>,
       \<lparr>at_name = ''Located.move'', at_object_type = None, at_interface = Some ''Located''\<rparr>],
     ca_relations = [pump_site], ca_types = [pump_type, site_type]\<rparr>"


definition zone_patch :: iface_patch where
  "zone_patch = no_patch\<lparr>up_properties := Some [''place'', ''zone'']\<rparr>"

definition located_row :: iface where
  "located_row = \<lparr>if_properties = [''place''], if_actions = [], if_types = [], if_links = [located_link], if_parents = [], if_description = [],
     if_deprecation = plain_deprecation\<rparr>"

definition zoned_row :: iface where
  "zoned_row = located_row\<lparr>if_properties := [''place'', ''zone'']\<rparr>"

theorem interface_update_keeps_implementers_witness:
  "tightens located_row zoned_row \<and>
   update_interface_type (\<lambda>_. None) nothing_known plant ''Located'' zone_patch asset_registry = Inr (dict_set ''Located'' zoned_row asset_registry) \<and>
   validate_implements plant (dict_set ''Located'' zoned_row asset_registry) [] pump_type = Inr ()"
proof -
  have t: "tightens located_row zoned_row" by code_simp
  have u: "update_interface_type (\<lambda>_. None) nothing_known plant ''Located'' zone_patch asset_registry = Inr (dict_set ''Located'' zoned_row asset_registry)"
    by code_simp
  have v: "validate_implements plant asset_registry [] pump_type = Inr ()" by code_simp
  have old: "dict_get asset_registry ''Located'' = Some located_row" by code_simp
  have same: "links_noticed located_row zoned_row" "if_parents zoned_row = if_parents located_row" "pump_type \<in> set (ca_types plant)"
    by (simp_all add: links_noticed_def zoned_row_def plant_def) auto
  have "validate_implements plant (dict_set ''Located'' zoned_row asset_registry) [] pump_type = Inr ()"
    by (rule interface_update_keeps_implementers [OF asset_registry_sound u old _ same(2) same(1) same(3) v]) simp
  with t u show ?thesis by blast
qed

section \<open>What the check of an update does not see\<close>

text \<open>A parent may be removed without a look at the implementers, although an action inherited through it may be required.\<close>

definition movable_registry :: iface_reg where
  "movable_registry = dict_set ''Asset'' (located_row\<lparr>if_properties := [''name''], if_actions := [''move''], if_links := [], if_parents := [''Located'']\<rparr>) asset_registry"

lemma removed_parent_breaks_implementer:
  "validate_implements plant movable_registry [] pump_type = Inr () \<and>
   (case update_interface_type (\<lambda>_. None) nothing_known plant ''Asset'' (no_patch\<lparr>up_parents := Some (JList [])\<rparr>) movable_registry of
      Inl _ \<Rightarrow> False
    | Inr reg \<Rightarrow> validate_implements plant reg [] pump_type = Inl (MissingActions [''move'']))"
  by code_simp

text \<open>Two updates that were both checked before either was written close a cycle, and no contract can be computed any more.\<close>

definition twin_registry :: iface_reg where
  "twin_registry = [(''A'', located_row\<lparr>if_links := []\<rparr>), (''B'', located_row\<lparr>if_links := []\<rparr>)]"

definition under :: "string \<Rightarrow> iface" where
  "under p = located_row\<lparr>if_links := [], if_parents := [p]\<rparr>"

lemma concurrent_parents_close_cycle:
  "check_interface_update (\<lambda>_. None) nothing_known plant ''A'' (no_patch\<lparr>up_parents := Some (JList [JStr ''B''])\<rparr>) twin_registry = Inr (under ''B'') \<and>
   check_interface_update (\<lambda>_. None) nothing_known plant ''B'' (no_patch\<lparr>up_parents := Some (JList [JStr ''A''])\<rparr>) twin_registry = Inr (under ''A'') \<and>
   effective_interface_contract (write_interface_row ''B'' (under ''A'') (write_interface_row ''A'' (under ''B'') twin_registry)) [] ''A'' =
     Inl (ContractRaised RecursionError)"
  by code_simp

text \<open>
  An added optional link constraint is not a tightening, so implementers are not looked at, although it may
  conflict with the constraint of the same name in an interface that extends the edited one.
\<close>

definition twin_link :: "string \<Rightarrow> link_constraint" where
  "twin_link q = \<lparr>lk_api = ''twin'', lk_target_kind = ''object_type'', lk_target = ''Site'', lk_cardinality = q, lk_required = False,
     lk_description = []\<rparr>"

definition link_json :: "link_constraint \<Rightarrow> json" where
  "link_json c = JObj [(''api_name'', JStr (lk_api c)), (''target_kind'', JStr (lk_target_kind c)), (''target'', JStr (lk_target c)),
     (''cardinality'', JStr (lk_cardinality c)), (''required'', JBool (lk_required c))]"

definition twin_asset_registry :: iface_reg where
  "twin_asset_registry = dict_set ''Asset'' (located_row\<lparr>if_properties := [''name''], if_links := [twin_link ''one''], if_parents := [''Located'']\<rparr>)
     asset_registry"

lemma optional_link_breaks_implementer:
  "validate_implements plant twin_asset_registry [] pump_type = Inr () \<and>
   (case update_interface_type (\<lambda>_. None) nothing_known plant ''Located''
        (no_patch\<lparr>up_links := Some (JList [link_json located_link, link_json (twin_link ''many'')])\<rparr>) twin_asset_registry of
      Inl _ \<Rightarrow> False
    | Inr reg \<Rightarrow> validate_implements plant reg [] pump_type = Inl (InContract (ConflictingLinks ''twin'')))"
  by code_simp

text \<open>An update checks the contract of the interface it edits, not of those that extend it: a child may be left without one.\<close>

definition typed_patch :: "string \<Rightarrow> iface_patch" where
  "typed_patch t = no_patch\<lparr>up_properties := Some [''name''], up_types := Some (JObj [(''name'', JObj [(''kind'', JStr ''value_type''), (''value_type'', JStr t)])])\<rparr>"

lemma update_may_break_child:
  "(case update_interface_type (\<lambda>_. None) \<lparr>kt_value = (\<lambda>_. True), kt_shared = (\<lambda>_. True)\<rparr> (plant\<lparr>ca_types := []\<rparr>) ''Located'' (typed_patch ''Other'') asset_registry of
      Inl _ \<Rightarrow> False
    | Inr reg \<Rightarrow> effective_interface_contract reg [] ''Asset'' = Inl (ConflictingTypes ''name''))"
  by code_simp

end
