(* ===== verification/Holon_Property_Rules.thy ===== *)
theory Holon_Property_Rules
  imports Holon_Shared_Types Holon_Metadata Holon_Derived_Rules
begin

text \<open>
  What publication demands of the rules on the properties of an object type: formats and conditional formats
  (\<open>publishing_validate_formats.py\<close>), types with their control metadata (\<open>publishing_validate_types.py\<close>) and the
  hints they carry (\<open>render_hints.py\<close>). Validation normalises some values in place; the functions return the rules they leave.
\<close>

section \<open>Render hints\<close>

datatype hint_error = HintsNotStrings | UnknownHints "string list" | SearchableRequired

definition allowed_render_hints :: "string list" where
  "allowed_render_hints = [''searchable'', ''sortable'', ''selectable'', ''identifier'', ''keywords'', ''long_text'', ''low_cardinality'',
     ''enable_leading_wildcards'', ''enable_regex_queries'']"

definition requires_searchable :: "string list" where
  "requires_searchable = [''sortable'', ''selectable'', ''low_cardinality'', ''enable_leading_wildcards'', ''enable_regex_queries'']"

definition facet_hints :: "string list" where
  "facet_hints = [''selectable'', ''low_cardinality'']"

definition normalize_render_hints :: "json \<Rightarrow> string list option \<Rightarrow> (hint_error, string list) result" where
  "normalize_render_hints hints fallback =
     (case hints of
        JNull \<Rightarrow> Inr (case fallback of None \<Rightarrow> [] | Some d \<Rightarrow> d)
      | JList xs \<Rightarrow>
          if \<not> all_strings xs then Inl HintsNotStrings
          else (let cleaned = filter (\<lambda>h. h \<noteq> []) (map (py_strip \<circ> string_of) xs);
                    unknown = filter (\<lambda>h. h \<notin> set allowed_render_hints) cleaned; ordered = append_new [] cleaned
                in if unknown \<noteq> [] then Inl (UnknownHints unknown)
                   else if list_ex (\<lambda>h. h \<in> set requires_searchable) ordered \<and> ''searchable'' \<notin> set ordered then Inl SearchableRequired
                   else Inr ordered)
      | _ \<Rightarrow> Inl HintsNotStrings)"

text \<open>\<open>rule.get("render_hints") or []\<close> and a membership test on it.\<close>

definition hints_of :: "payload \<Rightarrow> json" where
  "hints_of rule = (if truthy (obj_get rule ''render_hints'') then obj_get rule ''render_hints'' else JList [])"

definition has_hint :: "payload \<Rightarrow> string \<Rightarrow> (py_exc, bool) result" where
  "has_hint rule h = in_value (JStr h) (hints_of rule)"

definition facet_names :: "string \<Rightarrow> payload \<Rightarrow> string list" where
  "facet_names p rule =
     (case (if truthy (obj_get rule ''properties'') then obj_get rule ''properties'' else JObj []) of
        JObj members \<Rightarrow> if obj_get rule ''kind'' = JStr ''struct'' \<and> members \<noteq> [] then map (\<lambda>f. p @ ''.'' @ fst f) members else [p]
      | _ \<Rightarrow> [p])"

fun facet_render_hints :: "payload \<Rightarrow> (py_exc, string list) result" where
  "facet_render_hints [] = Inr []"
| "facet_render_hints ((p, r) # rest) =
     (case r of
        JObj rule \<Rightarrow>
          rbind (each_result (has_hint rule) facet_hints) (\<lambda>found.
          rbind (facet_render_hints rest) (\<lambda>names. Inr ((if True \<in> set found then facet_names p rule else []) @ names)))
      | _ \<Rightarrow> facet_render_hints rest)"

text \<open>Leading wildcards and regular expressions.\<close>

fun search_capability_hints :: "payload \<Rightarrow> (py_exc, bool \<times> bool) result" where
  "search_capability_hints [] = Inr (False, False)"
| "search_capability_hints ((p, r) # rest) =
     (case r of
        JObj rule \<Rightarrow>
          rbind (has_hint rule ''enable_leading_wildcards'') (\<lambda>leading.
          rbind (has_hint rule ''enable_regex_queries'') (\<lambda>regex.
          rbind (search_capability_hints rest) (\<lambda>(l, q). Inr (leading \<or> l, regex \<or> q))))
      | _ \<Rightarrow> search_capability_hints rest)"

section \<open>Checks on a rule\<close>

text \<open>A bad rule names the property and the part that is wrong.\<close>

datatype rule_error =
    UnknownProperty string
  | BadRule string string
  | UnknownTypeName string
  | NestedTooDeep string
  | RuleRaised py_exc

definition expect :: "bool \<Rightarrow> string \<Rightarrow> string \<Rightarrow> (rule_error, unit) result" where
  "expect ok p what = raise_if (\<not> ok) (BadRule p what)"

definition lift_rule :: "(py_exc, 'a) result \<Rightarrow> (rule_error, 'a) result" where
  "lift_rule r = (case r of Inl x \<Rightarrow> Inl (RuleRaised x) | Inr v \<Rightarrow> Inr v)"

definition need_in :: "json \<Rightarrow> string list \<Rightarrow> string \<Rightarrow> string \<Rightarrow> (rule_error, unit) result" where
  "need_in v names p what = rbind (lift_rule (in_names v names)) (\<lambda>ok. expect ok p what)"

text \<open>A value is fine when absent or when it passes a test.\<close>

definition absent_or :: "payload \<Rightarrow> string \<Rightarrow> (json \<Rightarrow> bool) \<Rightarrow> bool" where
  "absent_or rule k P = (case dict_get rule k of None \<Rightarrow> True | Some v \<Rightarrow> P v)"

definition is_int :: "json \<Rightarrow> bool" where
  "is_int v = (case v of JInt _ \<Rightarrow> True | JBool _ \<Rightarrow> True | _ \<Rightarrow> False)"

definition py_number :: "json \<Rightarrow> bool" where
  "py_number v = (case v of JInt _ \<Rightarrow> True | JBool _ \<Rightarrow> True | JFloat _ \<Rightarrow> True | _ \<Rightarrow> False)"

section \<open>Formats\<close>

definition allowed_format_kinds :: "string list" where
  "allowed_format_kinds = [''currency'', ''badge'', ''numeric'', ''datetime'', ''principal'', ''resource-link'']"

definition allowed_badge_colors :: "string list" where
  "allowed_badge_colors = [''primary'', ''success'', ''warning'', ''danger'', ''none'']"

definition allowed_numeric_styles :: "string list" where
  "allowed_numeric_styles = [''decimal'', ''currency'', ''percent'', ''unit'']"

definition allowed_numeric_notations :: "string list" where
  "allowed_numeric_notations = [''standard'', ''compact'', ''scientific'', ''engineering'']"

definition numeric_int_fields :: "string list" where
  "numeric_int_fields = [''minimumFractionDigits'', ''maximumFractionDigits'', ''minimumSignificantDigits'', ''maximumSignificantDigits'',
     ''minimumIntegerDigits'']"

definition allowed_datetime_styles :: "string list" where
  "allowed_datetime_styles = [''date'', ''datetime-long'', ''datetime-short'', ''iso8601'', ''relative'', ''time'']"

definition allowed_resource_link_types :: "string list" where
  "allowed_resource_link_types = [''object-type'', ''application'']"

definition currency_code :: "payload \<Rightarrow> bool" where
  "currency_code rule = (case obj_get rule ''currency'' of JStr s \<Rightarrow> length s = 3 | _ \<Rightarrow> False)"

definition validate_badge :: "string \<Rightarrow> payload \<Rightarrow> (rule_error, unit) result" where
  "validate_badge p rule =
     (case obj_get rule ''colors'' of
        JObj colors \<Rightarrow>
          if colors = [] then Inl (BadRule p ''colors'')
          else rbind (lift_rule (each_result (\<lambda>c. in_names (snd c) allowed_badge_colors) colors)) (\<lambda>known. expect (False \<notin> set known) p ''badge color'')
      | _ \<Rightarrow> Inl (BadRule p ''colors''))"

definition validate_numeric :: "string \<Rightarrow> payload \<Rightarrow> (rule_error, unit) result" where
  "validate_numeric p rule =
     (let style = (case dict_get rule ''style'' of None \<Rightarrow> JStr ''decimal'' | Some v \<Rightarrow> v) in
      rbind (need_in style allowed_numeric_styles p ''style'') (\<lambda>_.
      rbind (expect (style = JStr ''currency'' \<longrightarrow> currency_code rule) p ''currency'') (\<lambda>_.
      rbind (expect (style = JStr ''unit'' \<longrightarrow> is_JStr (obj_get rule ''unit'')) p ''unit'') (\<lambda>_.
      rbind (if obj_get rule ''notation'' = JNull then Inr () else need_in (obj_get rule ''notation'') allowed_numeric_notations p ''notation'') (\<lambda>_.
      rbind (expect (list_all (\<lambda>f. absent_or rule f is_int) numeric_int_fields) p ''digits'') (\<lambda>_.
      rbind (expect (list_all (\<lambda>f. absent_or rule f is_JStr) [''prefix'', ''suffix'']) p ''prefix or suffix'') (\<lambda>_.
        expect (absent_or rule ''useGrouping'' is_JBool) p ''useGrouping'')))))))"

definition validate_format_rule :: "string \<Rightarrow> payload \<Rightarrow> (rule_error, unit) result" where
  "validate_format_rule p rule =
     (let kind = obj_get rule ''kind'' in
      rbind (need_in kind allowed_format_kinds p ''kind'') (\<lambda>_.
        if kind = JStr ''currency'' then expect (currency_code rule) p ''currency''
        else if kind = JStr ''badge'' then validate_badge p rule
        else if kind = JStr ''numeric'' then validate_numeric p rule
        else if kind = JStr ''datetime'' then
          rbind (need_in (obj_get rule ''style'') allowed_datetime_styles p ''style'') (\<lambda>_. expect (absent_or rule ''timezone'' is_JStr) p ''timezone'')
        else if kind = JStr ''resource-link'' then need_in (obj_get rule ''resourceType'') allowed_resource_link_types p ''resourceType''
        else Inr ()))"

definition validate_property_formats :: "string list \<Rightarrow> payload \<Rightarrow> (rule_error, unit) result" where
  "validate_property_formats known formats =
     each_ok (\<lambda>(p, r).
       if p \<notin> set known then Inl (UnknownProperty p)
       else case r of JObj rule \<Rightarrow> validate_format_rule p rule | _ \<Rightarrow> Inl (RuleRaised AttributeError)) formats"

section \<open>Conditional formats\<close>

definition allowed_condition_types :: "string list" where
  "allowed_condition_types = [''always'', ''is-null'', ''string-equals'', ''string-contains'', ''string-starts-with'', ''number-range'', ''number-equals'']"

definition allowed_text_align :: "string list" where
  "allowed_text_align = [''left'', ''center'', ''right'']"

text \<open>\<open>^#[0-9a-fA-F]{3,8}$\<close>: the end also matches before a final newline.\<close>

definition hex_color :: "string \<Rightarrow> bool" where
  "hex_color s =
     (let b = (if s \<noteq> [] \<and> last s = CHR 0x0A then butlast s else s) in
      b \<noteq> [] \<and> hd b = CHR ''#'' \<and> 3 \<le> length (tl b) \<and> length (tl b) \<le> 8 \<and> list_all (\<lambda>c. c \<in> set ''0123456789abcdefABCDEF'') (tl b))"

definition color_value :: "json \<Rightarrow> bool" where
  "color_value v = (case v of JStr s \<Rightarrow> hex_color s \<or> s \<in> set allowed_badge_colors | _ \<Rightarrow> False)"

definition validate_style :: "string \<Rightarrow> json \<Rightarrow> (rule_error, unit) result" where
  "validate_style p style =
     (case style of
        JObj d \<Rightarrow>
          if d = [] then Inl (BadRule p ''style'')
          else rbind (expect (absent_or d ''color'' color_value) p ''color'') (\<lambda>_.
               rbind (expect (absent_or d ''backgroundColor'' color_value) p ''backgroundColor'') (\<lambda>_.
                 case dict_get d ''textAlign'' of None \<Rightarrow> Inr () | Some v \<Rightarrow> need_in v allowed_text_align p ''textAlign''))
      | _ \<Rightarrow> Inl (BadRule p ''style''))"

definition validate_compare_to :: "string list \<Rightarrow> string \<Rightarrow> json \<Rightarrow> (rule_error, unit) result" where
  "validate_compare_to known p v =
     (case v of
        JNull \<Rightarrow> Inr ()
      | JObj c \<Rightarrow> if obj_get c ''kind'' \<noteq> JStr ''property'' then Inl (BadRule p ''compareTo'') else need_in (obj_get c ''property'') known p ''compareTo''
      | _ \<Rightarrow> Inl (BadRule p ''compareTo''))"

definition validate_condition :: "string \<Rightarrow> payload \<Rightarrow> (rule_error, unit) result" where
  "validate_condition p c =
     (let t = obj_get c ''type'' in
      rbind (need_in t allowed_condition_types p ''condition.type'') (\<lambda>_.
      rbind (expect (t \<in> {JStr ''string-equals'', JStr ''string-contains'', JStr ''string-starts-with''} \<longrightarrow> is_JStr (obj_get c ''value'')) p ''value'') (\<lambda>_.
      rbind (expect (t = JStr ''number-equals'' \<longrightarrow> py_number (obj_get c ''value'')) p ''value'') (\<lambda>_.
        expect (t = JStr ''number-range'' \<longrightarrow> dict_get c ''min'' \<noteq> None \<or> dict_get c ''max'' \<noteq> None) p ''range''))))"

definition validate_conditional_rule :: "string list \<Rightarrow> string \<Rightarrow> json \<Rightarrow> (rule_error, unit) result" where
  "validate_conditional_rule known p r =
     (case r of
        JObj rule \<Rightarrow>
          (case obj_get rule ''condition'' of
             JObj c \<Rightarrow>
               rbind (validate_condition p c) (\<lambda>_.
               rbind (validate_compare_to known p (obj_get rule ''compareTo'')) (\<lambda>_. validate_style p (obj_get rule ''style'')))
           | _ \<Rightarrow> Inl (BadRule p ''condition.type''))
      | _ \<Rightarrow> Inl (BadRule p ''rule''))"

definition validate_conditional_formats :: "string list \<Rightarrow> payload \<Rightarrow> (rule_error, unit) result" where
  "validate_conditional_formats known formats =
     each_ok (\<lambda>(p, r).
       if p \<notin> set known then Inl (UnknownProperty p)
       else case r of JList rules \<Rightarrow> if rules = [] then Inl (BadRule p ''rules'') else each_ok (validate_conditional_rule known p) rules
            | _ \<Rightarrow> Inl (BadRule p ''rules'')) formats"


section \<open>Types and control metadata\<close>

definition allowed_property_type_kinds :: "string list" where
  "allowed_property_type_kinds = [''value_type'', ''shared_property_type'', ''struct'', ''array'']"

definition property_lifecycle_statuses :: "string list" where
  "property_lifecycle_statuses = [''experimental'', ''active'', ''deprecated'', ''example'']"

definition control_keys :: "string list" where
  "control_keys = [''editable'', ''required'', ''visibility'', ''render_hints'', ''type_classes'', ''lifecycle_status'']"

definition validate_struct_field_metadata :: "string \<Rightarrow> payload \<Rightarrow> bool \<Rightarrow> (rule_error, payload) result" where
  "validate_struct_field_metadata p rule allow_column =
     rbind (expect (absent_or rule ''description'' is_JStr) p ''description'') (\<lambda>_.
     rbind (expect (absent_or rule ''main_field'' is_JBool) p ''main_field'') (\<lambda>_.
       case dict_get rule ''column'' of
         None \<Rightarrow> Inr rule
       | Some col \<Rightarrow>
           if \<not> allow_column then Inl (BadRule p ''column not allowed'')
           else (case col of JStr s \<Rightarrow> if py_strip s = [] then Inl (BadRule p ''column'') else Inr (dict_set ''column'' (JStr (py_strip s)) rule)
                 | _ \<Rightarrow> Inl (BadRule p ''column''))))"

definition normalize_hints_of :: "string \<Rightarrow> payload \<Rightarrow> (rule_error, payload) result" where
  "normalize_hints_of p rule =
     (case dict_get rule ''render_hints'' of
        None \<Rightarrow> Inr rule
      | Some v \<Rightarrow> (case normalize_render_hints v None of
                    Inl _ \<Rightarrow> Inl (BadRule p ''render_hints'') | Inr hs \<Rightarrow> Inr (dict_set ''render_hints'' (JList (map JStr hs)) rule)))"

definition normalize_classes_of :: "string \<Rightarrow> payload \<Rightarrow> (rule_error, payload) result" where
  "normalize_classes_of p rule =
     (case dict_get rule ''type_classes'' of
        None \<Rightarrow> Inr rule
      | Some v \<Rightarrow> (case normalize_type_classes v of
                    Inl _ \<Rightarrow> Inl (BadRule p ''type_classes'') | Inr cs \<Rightarrow> Inr (dict_set ''type_classes'' (JList (map JStr cs)) rule)))"

definition check_control :: "string \<Rightarrow> payload \<Rightarrow> (rule_error, unit) result" where
  "check_control p rule =
     rbind (expect (absent_or rule ''editable'' is_JBool) p ''editable'') (\<lambda>_.
     rbind (expect (absent_or rule ''required'' is_JBool) p ''required'') (\<lambda>_.
     rbind (expect (absent_or rule ''visibility'' (\<lambda>v. v \<in> JStr ` {''prominent'', ''normal'', ''hidden''})) p ''visibility'') (\<lambda>_.
       case dict_get rule ''lifecycle_status'' of None \<Rightarrow> Inr () | Some v \<Rightarrow> need_in v property_lifecycle_statuses p ''lifecycle_status'')))"

definition validate_property_control_metadata :: "string \<Rightarrow> payload \<Rightarrow> bool \<Rightarrow> bool \<Rightarrow> (rule_error, payload) result" where
  "validate_property_control_metadata p rule nested allow_field_column =
     (if nested \<and> list_ex (\<lambda>k. dict_get rule k \<noteq> None) control_keys then Inl (BadRule p ''control metadata'')
      else if nested then validate_struct_field_metadata p rule allow_field_column
      else rbind (check_control p rule) (\<lambda>_. rbind (normalize_hints_of p rule) (normalize_classes_of p)))"

definition struct_typed :: "shared_property_type \<Rightarrow> bool" where
  "struct_typed sp = (case sp_struct_properties sp of JObj d \<Rightarrow> d \<noteq> [] | _ \<Rightarrow> False)"

lemma pair_smaller: "(n, r) \<in> set members \<Longrightarrow> size r < size (JObj members)"
proof -
  assume "(n, r) \<in> set members"
  then have "size r \<le> size_list (size_prod (\<lambda>_. 0) size) members" by (induction members) auto
  then show ?thesis by simp
qed

lemma nested_smaller: "dict_get rule k = Some (JObj members) \<Longrightarrow> (n, r) \<in> set members \<Longrightarrow> size r < size (JObj rule)"
  using member_smaller [of rule k "JObj members"] pair_smaller [of n r members] by linarith

text \<open>A rule as it is left by validation. Nested rules are validated in place.\<close>

function (sequential) validate_type_rule :: "type_registry \<Rightarrow> string \<Rightarrow> bool \<Rightarrow> bool \<Rightarrow> bool \<Rightarrow> json \<Rightarrow> (rule_error, json) result" where
  "validate_type_rule reg p in_struct in_array allow (JObj rule) =
     rbind (validate_property_control_metadata p rule (in_struct \<or> in_array) (allow \<and> in_struct \<and> \<not> in_array)) (\<lambda>rule'.
       let kind = obj_get rule ''kind'' in
       if kind = JNull then (if in_struct \<or> in_array then Inl (BadRule p ''kind required'') else Inr (JObj rule'))
       else rbind (need_in kind allowed_property_type_kinds p ''kind'') (\<lambda>_.
         if kind = JStr ''value_type'' then
           (if get_value_type reg (name_of (obj_get rule ''value_type'')) = None then Inl (UnknownTypeName p) else Inr (JObj rule'))
         else if kind = JStr ''shared_property_type'' then
           (case get_shared_property_type reg (name_of (obj_get rule ''shared_property_type'')) of
              None \<Rightarrow> Inl (UnknownTypeName p)
            | Some sp \<Rightarrow> if in_struct \<and> struct_typed sp then Inl (NestedTooDeep p) else Inr (JObj rule'))
         else if kind = JStr ''struct'' then
           (if in_struct then Inl (NestedTooDeep p)
            else case dict_get rule ''properties'' of
              Some (JObj members) \<Rightarrow>
                if members = [] then Inl (BadRule p ''properties'')
                else rbind (each_result (\<lambda>(n, r). rbind (validate_type_rule reg (p @ ''.'' @ n) True in_array (\<not> in_array) r) (\<lambda>r'. Inr (n, r'))) members)
                       (\<lambda>members'. Inr (JObj (dict_set ''properties'' (JObj members') rule')))
            | _ \<Rightarrow> Inl (BadRule p ''properties''))
         else if in_struct \<or> in_array then Inl (NestedTooDeep p)
         else (case dict_get rule ''element'' of
             Some (JObj element) \<Rightarrow>
               rbind (expect (absent_or rule ''unique_elements'' is_JBool) p ''unique_elements'') (\<lambda>_.
               rbind (validate_type_rule reg (p @ ''[]'') False True False (JObj element)) (\<lambda>element'. Inr (JObj (dict_set ''element'' element' rule'))))
           | _ \<Rightarrow> Inl (BadRule p ''element''))))"
| "validate_type_rule reg p in_struct in_array allow rule = Inl (RuleRaised AttributeError)"
  by pat_completeness auto

termination
  by (relation "measure (\<lambda>(reg, p, s, a, c, j). size j)") (auto intro: nested_smaller member_smaller simp del: json.size)

declare validate_type_rule.simps [simp del]

definition validate_property_types :: "type_registry \<Rightarrow> string list \<Rightarrow> payload \<Rightarrow> (rule_error, payload) result" where
  "validate_property_types reg known types =
     each_result (\<lambda>(p, r). rbind (if p \<notin> set known then Inl (UnknownProperty p) else validate_type_rule reg p False False True r) (\<lambda>r'. Inr (p, r'))) types"



section \<open>A published rule passes again\<close>

lemma strings_back [simp]: "all_strings (map JStr xs)" "string_of \<circ> JStr = id" "f \<circ> string_of \<circ> JStr = f"
  by (auto simp: all_strings_def list_all_iff string_of_def o_def)

lemma hints_again: "normalize_render_hints v None = Inr hs \<Longrightarrow> normalize_render_hints (JList (map JStr hs)) None = Inr hs"
proof (cases v)
  case (JList xs)
  assume "normalize_render_hints v None = Inr hs"
  then obtain cleaned where c: "cleaned = filter (\<lambda>h. h \<noteq> []) (map (py_strip \<circ> string_of) xs)" "hs = append_new [] cleaned"
    "filter (\<lambda>h. h \<notin> set allowed_render_hints) cleaned = []" "\<not> (list_ex (\<lambda>h. h \<in> set requires_searchable) hs \<and> ''searchable'' \<notin> set hs)"
    by (auto simp: normalize_render_hints_def JList Let_def split: if_splits)
  have hs: "set hs = set cleaned" "distinct hs" by (simp_all add: c(2) append_new_distinct)
  have "py_strip h = h \<and> h \<noteq> []" if "h \<in> set hs" for h using that unfolding hs(1) by (auto simp: c(1))
  then have "filter (\<lambda>h. h \<noteq> []) (map py_strip hs) = hs" by (simp add: map_idI)
  then have cl: "filter (\<lambda>h. h \<noteq> []) (map (py_strip \<circ> string_of) (map JStr hs)) = hs" by simp
  moreover have "filter (\<lambda>h. h \<notin> set allowed_render_hints) hs = []" using c(3) by (simp add: filter_empty_conv hs(1))
  moreover have "append_new [] hs = hs" using append_new_fresh [of "[]" hs] hs(2) by simp
  ultimately show ?thesis using c(4) unfolding normalize_render_hints_def json.case Let_def cl by auto
qed (auto simp: normalize_render_hints_def append_new_def all_strings_def)

lemma classes_again: "normalize_type_classes v = Inr cs \<Longrightarrow> normalize_type_classes (JList (map JStr cs)) = Inr cs"
  by (auto simp: normalize_type_classes_def normalize_again split: json.splits if_splits)

text \<open>Rules that agree outside the nested ones have the same control metadata.\<close>

definition agree :: "payload \<Rightarrow> payload \<Rightarrow> bool" where
  "agree r q \<longleftrightarrow> (\<forall>k. k \<noteq> ''properties'' \<and> k \<noteq> ''element'' \<longrightarrow> dict_get r k = dict_get q k)"

lemma agreeD: "agree r q \<Longrightarrow> k \<noteq> ''properties'' \<Longrightarrow> k \<noteq> ''element'' \<Longrightarrow> dict_get r k = dict_get q k"
  by (simp add: agree_def)

lemma field_metadata_again:
  assumes "validate_struct_field_metadata p rule a = Inr rule'"
  shows "(\<forall>k. k \<noteq> ''column'' \<longrightarrow> dict_get rule' k = dict_get rule k) \<and> (agree q rule' \<longrightarrow> validate_struct_field_metadata p q a = Inr q)"
proof (cases "dict_get rule ''column''")
  case None
  with assms have r: "rule' = rule" "absent_or rule ''description'' is_JStr" "absent_or rule ''main_field'' is_JBool"
    by (auto simp: validate_struct_field_metadata_def expect_def rbind_Inr_iff raise_if_def split: if_splits)
  have "validate_struct_field_metadata p q a = Inr q" if "agree q rule'"
  proof -
    have "dict_get q ''description'' = dict_get rule ''description''" "dict_get q ''main_field'' = dict_get rule ''main_field''"
      "dict_get q ''column'' = None" using that None by (auto simp: agree_def r(1))
    with r show ?thesis by (simp add: validate_struct_field_metadata_def expect_def raise_if_def absent_or_def)
  qed
  with r(1) show ?thesis by blast
next
  case (Some col)
  with assms obtain s where s: "a" "col = JStr s" "py_strip s \<noteq> []" "rule' = dict_set ''column'' (JStr (py_strip s)) rule"
    "absent_or rule ''description'' is_JStr" "absent_or rule ''main_field'' is_JBool"
    by (cases col) (auto simp: validate_struct_field_metadata_def expect_def rbind_Inr_iff raise_if_def split: if_splits)
  show ?thesis
  proof (intro conjI impI)
    assume q: "agree q rule'"
    have d: "dict_get q ''description'' = dict_get rule ''description''" "dict_get q ''main_field'' = dict_get rule ''main_field''"
      "dict_get q ''column'' = Some (JStr (py_strip s))" using q by (auto simp: agree_def s(4))
    with s show "validate_struct_field_metadata p q a = Inr q"
      by (simp add: validate_struct_field_metadata_def expect_def raise_if_def dict_set_same absent_or_def)
  qed (auto simp: s(4))
qed

lemma control_metadata_again:
  assumes "validate_property_control_metadata p rule nested a = Inr rule'"
  shows "(\<forall>k. k \<notin> {''column'', ''render_hints'', ''type_classes''} \<longrightarrow> dict_get rule' k = dict_get rule k) \<and>
    (agree q rule' \<longrightarrow> validate_property_control_metadata p q nested a = Inr q)"
proof (cases nested)
  case True
  with assms have f: "validate_struct_field_metadata p rule a = Inr rule'" and none: "\<not> list_ex (\<lambda>k. dict_get rule k \<noteq> None) control_keys"
    unfolding validate_property_control_metadata_def by (metis Inl_Inr_False)+
  have again: "validate_property_control_metadata p q nested a = Inr q" if q: "agree q rule'"
  proof -
    have e: "dict_get q k = dict_get rule k" if "k \<in> set control_keys" for k
    proof -
      have "k \<noteq> ''properties''" "k \<noteq> ''element''" "k \<noteq> ''column''" using that by (auto simp: control_keys_def)
      with q field_metadata_again [OF f] show ?thesis by (simp add: agree_def)
    qed
    have "\<not> list_ex (\<lambda>k. dict_get q k \<noteq> None) control_keys" using none e unfolding list_ex_iff by fastforce
    with True q field_metadata_again [OF f, of q] show ?thesis by (simp add: validate_property_control_metadata_def)
  qed
  have "\<forall>k. k \<notin> {''column'', ''render_hints'', ''type_classes''} \<longrightarrow> dict_get rule' k = dict_get rule k"
    using field_metadata_again [OF f] by blast
  with again show ?thesis by blast
next
  case False
  with assms obtain r1 where c: "check_control p rule = Inr ()" "normalize_hints_of p rule = Inr r1" "normalize_classes_of p r1 = Inr rule'"
    by (auto simp: validate_property_control_metadata_def rbind_Inr_iff)
  have h: "(dict_get rule ''render_hints'' = None \<and> r1 = rule) \<or>
     (\<exists>hs. r1 = dict_set ''render_hints'' (JList (map JStr hs)) rule \<and> normalize_render_hints (JList (map JStr hs)) None = Inr hs)"
    using c(2) by (auto simp: normalize_hints_of_def hints_again split: option.splits sum.splits)
  have t: "(dict_get r1 ''type_classes'' = None \<and> rule' = r1) \<or>
     (\<exists>cs. rule' = dict_set ''type_classes'' (JList (map JStr cs)) r1 \<and> normalize_type_classes (JList (map JStr cs)) = Inr cs)"
    using c(3) by (auto simp: normalize_classes_of_def classes_again split: option.splits sum.splits)
  have same: "dict_get rule' k = dict_get rule k" if "k \<notin> {''column'', ''render_hints'', ''type_classes''}" for k using h t that by auto
  show ?thesis
  proof (intro conjI impI allI)
    assume q: "agree q rule'"
    have "dict_get q k = dict_get rule k" if "k \<in> {''editable'', ''required'', ''visibility'', ''lifecycle_status''}" for k
    proof -
      from that have "k \<noteq> ''properties''" "k \<noteq> ''element''" "k \<notin> {''column'', ''render_hints'', ''type_classes''}" by auto
      with agreeD [OF q] same show ?thesis by metis
    qed
    then have "check_control p q = Inr ()" using c(1) by (simp add: check_control_def absent_or_def)
    moreover have "normalize_hints_of p q = Inr q"
    proof -
      have "dict_get q ''render_hints'' = dict_get r1 ''render_hints''" using agreeD [OF q, of "''render_hints''"] t by auto
      with h show ?thesis by (auto simp: normalize_hints_of_def dict_set_same)
    qed
    moreover have "normalize_classes_of p q = Inr q"
    proof -
      have "dict_get q ''type_classes'' = dict_get rule' ''type_classes''" using agreeD [OF q, of "''type_classes''"] by simp
      with t show ?thesis by (auto simp: normalize_classes_of_def dict_set_same)
    qed
    ultimately show "validate_property_control_metadata p q nested a = Inr q" using False by (simp add: validate_property_control_metadata_def)
  qed (use same in auto)
qed


lemma list_all2_right_witness: "y \<in> set ys \<Longrightarrow> list_all2 P xs ys \<Longrightarrow> \<exists>x \<in> set xs. P x y"
  by (metis list_all2_conv_all_nth in_set_conv_nth)

lemma list_all2_left_witness: "x \<in> set xs \<Longrightarrow> list_all2 P xs ys \<Longrightarrow> \<exists>y. P x y"
  by (metis list_all2_conv_all_nth in_set_conv_nth)

lemma leaf_object: "validate_type_rule reg p s a al j = Inr v \<Longrightarrow> \<exists>d. v = JObj d"
  by (cases "(reg, p, s, a, al, j)" rule: validate_type_rule.cases)
     (auto simp: rbind_Inr_iff Let_def validate_type_rule.simps(1) [of reg p s a al] validate_type_rule.simps(2-) split: if_splits option.splits json.splits)

lemma leaf_again: "validate_type_rule reg p s a al j = Inr j' \<Longrightarrow> validate_type_rule reg p s a al j' = Inr j'"
proof (induction j arbitrary: p s a al j' rule: measure_induct_rule [of size])
  case (less j)
  from less.prems obtain rule where j: "j = JObj rule" by (cases j) (simp_all add: validate_type_rule.simps)
  let ?kind = "obj_get rule ''kind''" and ?control = "\<lambda>r. validate_property_control_metadata p r (s \<or> a) (al \<and> s \<and> \<not> a)"
  from less.prems obtain rule' where control: "?control rule = Inr rule'"
    unfolding j validate_type_rule.simps(1) [of reg p s a al rule] rbind_Inr_iff by blast
  note prems = less.prems [unfolded j validate_type_rule.simps(1) [of reg p s a al rule] control rbind_simps Let_def]
  have again: "?control q = Inr q" and kept: "obj_get q ''kind'' = ?kind" "obj_get q ''value_type'' = obj_get rule ''value_type''"
    "obj_get q ''shared_property_type'' = obj_get rule ''shared_property_type''" "dict_get q ''unique_elements'' = dict_get rule ''unique_elements''"
    if q: "agree q rule'" for q
  proof -
    have d: "dict_get q k = dict_get rule k" if "k \<in> {''kind'', ''value_type'', ''shared_property_type'', ''unique_elements''}" for k
    proof -
      from that have "k \<noteq> ''properties''" "k \<noteq> ''element''" "k \<notin> {''column'', ''render_hints'', ''type_classes''}" by auto
      with agreeD [OF q] control_metadata_again [OF control] show ?thesis by metis
    qed
    then show "obj_get q ''kind'' = ?kind" "obj_get q ''value_type'' = obj_get rule ''value_type''"
      "obj_get q ''shared_property_type'' = obj_get rule ''shared_property_type''" "dict_get q ''unique_elements'' = dict_get rule ''unique_elements''"
      by (simp_all add: obj_get_def)
    show "?control q = Inr q" using q control_metadata_again [OF control] by blast
  qed
  have self: "agree rule' rule'" by (simp add: agree_def)
  have plain: "validate_type_rule reg p s a al (JObj rule') = Inr (JObj rule')" if "j' = JObj rule'"
    "?kind \<in> {JNull, JStr ''value_type'', JStr ''shared_property_type''}"
  proof -
    from prems that show ?thesis
      unfolding validate_type_rule.simps(1) [of reg p s a al rule'] again [OF self] rbind_simps Let_def kept [OF self]
      by (auto simp: rbind_Inr_iff split: if_splits option.splits)
  qed
  show ?case
  proof (cases "?kind \<in> {JNull, JStr ''value_type'', JStr ''shared_property_type''}")
    case True
    with prems have "j' = JObj rule'" by (auto simp: rbind_Inr_iff split: if_splits option.splits)
    with plain True show ?thesis by blast
  next
    case False
    then have kind: "?kind \<noteq> JNull" "?kind \<noteq> JStr ''value_type''" "?kind \<noteq> JStr ''shared_property_type''" by auto
    note rest = prems [unfolded if_not_P [OF kind(1)] if_not_P [OF kind(2)] if_not_P [OF kind(3)] rbind_Inr_iff]
    from rest have known: "need_in ?kind allowed_property_type_kinds p ''kind'' = Inr ()" by auto
    show ?thesis
    proof (cases "?kind = JStr ''struct''")
      case struct: True
      with rest obtain members members' where m: "\<not> s" "dict_get rule ''properties'' = Some (JObj members)" "members \<noteq> []"
        "each_result (\<lambda>(n, r). rbind (validate_type_rule reg (p @ ''.'' @ n) True a (\<not> a) r) (\<lambda>r'. Inr (n, r'))) members = Inr members'"
        "j' = JObj (dict_set ''properties'' (JObj members') rule')"
        by (auto simp: rbind_Inr_iff split: if_splits option.splits json.splits)
      let ?q = "dict_set ''properties'' (JObj members') rule'"
      have q: "agree ?q rule'" by (simp add: agree_def)
      have pairs: "list_all2 (\<lambda>x y. fst x = fst y \<and> validate_type_rule reg (p @ ''.'' @ fst x) True a (\<not> a) (snd x) = Inr (snd y)) members members'"
        using m(4) unfolding each_result_list by (rule list_all2_mono) (auto simp: rbind_Inr_iff)
      have "validate_type_rule reg (p @ ''.'' @ fst y) True a (\<not> a) (snd y) = Inr (snd y)" if y: "y \<in> set members'" for y
      proof -
        from y pairs obtain x where x: "x \<in> set members" "fst x = fst y" "validate_type_rule reg (p @ ''.'' @ fst x) True a (\<not> a) (snd x) = Inr (snd y)"
          using list_all2_right_witness by fast
        from x(1) have "size (snd x) < size j" using nested_smaller [OF m(2), of "fst x" "snd x"] by (simp only: j prod.collapse)
        from less.IH [OF this x(3)] show ?thesis by (simp only: x(2))
      qed
      then have "each_result (\<lambda>(n, r). rbind (validate_type_rule reg (p @ ''.'' @ n) True a (\<not> a) r) (\<lambda>r'. Inr (n, r'))) members' = Inr members'"
        unfolding each_result_list list_all2_same by auto
      moreover have "members' \<noteq> []" using pairs m(3) by auto
      moreover have "dict_set ''properties'' (JObj members') ?q = ?q" by (rule dict_set_same) simp
      ultimately show ?thesis
        using known kind struct m(1)
        unfolding m(5) validate_type_rule.simps(1) [of reg p s a al ?q] again [OF q] rbind_simps Let_def kept [OF q] by (simp add: rbind_def)
    next
      case array: False
      with rest obtain el el' where m: "\<not> s" "\<not> a" "dict_get rule ''element'' = Some (JObj el)" "expect (absent_or rule ''unique_elements'' is_JBool) p ''unique_elements'' = Inr ()"
        "validate_type_rule reg (p @ ''[]'') False True False (JObj el) = Inr el'" "j' = JObj (dict_set ''element'' el' rule')"
        by (auto simp: rbind_Inr_iff split: if_splits option.splits json.splits)
      let ?q = "dict_set ''element'' el' rule'"
      have q: "agree ?q rule'" by (simp add: agree_def)
      from leaf_object [OF m(5)] obtain e where e: "el' = JObj e" by blast
      have "size (JObj el) < size j" using member_smaller [OF m(3)] by (simp only: j)
      from less.IH [OF this m(5)] have "validate_type_rule reg (p @ ''[]'') False True False el' = Inr el'" .
      moreover have "dict_set ''element'' el' ?q = ?q" by (rule dict_set_same) simp
      moreover have "expect (absent_or ?q ''unique_elements'' is_JBool) p ''unique_elements'' = Inr ()" using m(4) kept(4) [OF q] by (simp only: absent_or_def)
      ultimately show ?thesis
        using known kind array m(1,2)
        unfolding m(6) validate_type_rule.simps(1) [of reg p s a al ?q] again [OF q] rbind_simps Let_def kept [OF q] by (simp add: e)
    qed
  qed
qed


text \<open>How deep a rule nests structs and arrays.\<close>

function (sequential) type_depth :: "json \<Rightarrow> nat" where
  "type_depth (JObj rule) =
     (if obj_get rule ''kind'' = JStr ''struct'' then
        Suc (case dict_get rule ''properties'' of Some (JObj members) \<Rightarrow> Max (insert 0 (set (map (\<lambda>e. type_depth (snd e)) members))) | _ \<Rightarrow> 0)
      else if obj_get rule ''kind'' = JStr ''array'' then Suc (case dict_get rule ''element'' of Some (JObj e) \<Rightarrow> type_depth (JObj e) | _ \<Rightarrow> 0)
      else 1)"
| "type_depth j = 0"
  by pat_completeness auto

termination
  by (relation "measure size") (auto intro: nested_smaller member_smaller simp del: json.size)

declare type_depth.simps [simp del]

lemma leaf_depth: "validate_type_rule reg p s a al j = Inr j' \<Longrightarrow> type_depth j \<le> (if s then 1 else if a then 2 else 3)"
proof (induction j arbitrary: p s a al j' rule: measure_induct_rule [of size])
  case (less j)
  from less.prems obtain rule where j: "j = JObj rule" by (cases j) (simp_all add: validate_type_rule.simps)
  let ?kind = "obj_get rule ''kind''"
  from less.prems obtain rule' where prems: "(if ?kind = JNull then (if s \<or> a then Inl (BadRule p ''kind required'') else Inr (JObj rule'))
       else rbind (need_in ?kind allowed_property_type_kinds p ''kind'') (\<lambda>_.
         if ?kind = JStr ''value_type'' then
           (if get_value_type reg (name_of (obj_get rule ''value_type'')) = None then Inl (UnknownTypeName p) else Inr (JObj rule'))
         else if ?kind = JStr ''shared_property_type'' then
           (case get_shared_property_type reg (name_of (obj_get rule ''shared_property_type'')) of
              None \<Rightarrow> Inl (UnknownTypeName p)
            | Some sp \<Rightarrow> if s \<and> struct_typed sp then Inl (NestedTooDeep p) else Inr (JObj rule'))
         else if ?kind = JStr ''struct'' then
           (if s then Inl (NestedTooDeep p)
            else case dict_get rule ''properties'' of
              Some (JObj members) \<Rightarrow>
                if members = [] then Inl (BadRule p ''properties'')
                else rbind (each_result (\<lambda>(n, r). rbind (validate_type_rule reg (p @ ''.'' @ n) True a (\<not> a) r) (\<lambda>r'. Inr (n, r'))) members)
                       (\<lambda>members'. Inr (JObj (dict_set ''properties'' (JObj members') rule')))
            | _ \<Rightarrow> Inl (BadRule p ''properties''))
         else if s \<or> a then Inl (NestedTooDeep p)
         else (case dict_get rule ''element'' of
             Some (JObj element) \<Rightarrow>
               rbind (expect (absent_or rule ''unique_elements'' is_JBool) p ''unique_elements'') (\<lambda>_.
               rbind (validate_type_rule reg (p @ ''[]'') False True False (JObj element)) (\<lambda>element'. Inr (JObj (dict_set ''element'' element' rule'))))
           | _ \<Rightarrow> Inl (BadRule p ''element'')))) = Inr j'"
    unfolding j validate_type_rule.simps(1) [of reg p s a al rule] rbind_Inr_iff Let_def by blast
  show ?case
  proof (cases "?kind = JStr ''struct''")
    case struct: True
    with prems obtain members members' where m: "\<not> s" "dict_get rule ''properties'' = Some (JObj members)"
      "each_result (\<lambda>(n, r). rbind (validate_type_rule reg (p @ ''.'' @ n) True a (\<not> a) r) (\<lambda>r'. Inr (n, r'))) members = Inr members'"
      by (auto simp: rbind_Inr_iff split: if_splits option.splits json.splits)
    have "type_depth (snd x) \<le> 1" if x: "x \<in> set members" for x
    proof -
      from m(3) obtain r' where "validate_type_rule reg (p @ ''.'' @ fst x) True a (\<not> a) (snd x) = Inr r'"
          unfolding each_result_list by (auto dest!: list_all2_left_witness [OF x] simp: rbind_Inr_iff split: prod.splits)
      moreover have "size (snd x) < size j" using x nested_smaller [OF m(2), of "fst x" "snd x"] by (simp only: j prod.collapse)
      ultimately show ?thesis using less.IH by fastforce
    qed
    then have "type_depth j \<le> 2" by (simp add: j type_depth.simps struct m(2))
    with m(1) show ?thesis by simp
  next
    case False
    show ?thesis
    proof (cases "?kind = JStr ''array''")
      case array: True
      with prems obtain el el' where m: "\<not> s" "\<not> a" "dict_get rule ''element'' = Some (JObj el)"
        "validate_type_rule reg (p @ ''[]'') False True False (JObj el) = Inr el'"
        by (auto simp: rbind_Inr_iff split: if_splits option.splits json.splits)
      have "size (JObj el) < size j" using member_smaller [OF m(3)] by (simp only: j)
      from less.IH [OF this m(4)] have "type_depth (JObj el) \<le> 2" by simp
      then have "type_depth j \<le> 3" by (simp add: j type_depth.simps(1) [of rule] array m(3))
      with m(1,2) show ?thesis by simp
    next
      case no_array: False
      have "type_depth j = 1" using False no_array by (simp add: j type_depth.simps(1) [of rule])
      then show ?thesis by simp
    qed
  qed
qed

text \<open>
  C16. Property types that publication accepts are accepted again as it left them, unchanged, for the same properties;
  every one of them is a property of the object type, and no rule nests deeper than an array of structs of named types.
\<close>

theorem property_types_settle:
  assumes "validate_property_types reg known ts = Inr ts'"
  shows "validate_property_types reg known ts' = Inr ts' \<and> map fst ts' = map fst ts \<and> set (map fst ts') \<subseteq> set known \<and>
    list_all (\<lambda>e. type_depth (snd e) \<le> 3) ts'"
proof -
  let ?ok = "\<lambda>x y. fst x = fst y \<and> fst x \<in> set known \<and> validate_type_rule reg (fst x) False False True (snd x) = Inr (snd y)"
  have pairs: "list_all2 ?ok ts ts'"
    using assms unfolding validate_property_types_def each_result_list
    by (rule list_all2_mono) (auto simp: rbind_Inr_iff split: if_splits)
  have y: "?ok y y" if y: "y \<in> set ts'" for y
  proof -
    from list_all2_right_witness [OF y pairs] obtain x where "?ok x y" by blast
    with leaf_again show ?thesis by metis
  qed
  then have "list_all2 ?ok ts' ts'" unfolding list_all2_same by blast
  then have "validate_property_types reg known ts' = Inr ts'"
    unfolding validate_property_types_def each_result_list by (rule list_all2_mono) (auto simp: rbind_Inr_iff)
  moreover have "map fst ts' = map fst ts" using pairs by (induction rule: list_all2_induct) auto
  moreover have "set (map fst ts') \<subseteq> set known" using y by auto
  moreover have "list_all (\<lambda>e. type_depth (snd e) \<le> 3) ts'"
    unfolding list_all_iff using y leaf_depth by fastforce
  ultimately show ?thesis by blast
qed

definition rule_types :: type_registry where
  "rule_types = \<lparr>get_value_type = (\<lambda>n. if n = Some ''Name'' then Some \<lparr>vt_name = ''Name'', vt_base_type = ''string'', vt_format_regex = None,
       vt_format_regex_match = None, vt_constraints = []\<rparr> else None), get_shared_property_type = (\<lambda>_. None)\<rparr>"

definition stops_rule :: "string list \<Rightarrow> payload" where
  "stops_rule hints =
     [(''stops'', JObj [(''kind'', JStr ''array''), (''render_hints'', JList (map JStr hints)),
        (''element'', JObj [(''kind'', JStr ''struct''), (''properties'', JObj [(''name'', JObj [(''kind'', JStr ''value_type''), (''value_type'', JStr ''Name'')])])])])]"

theorem property_types_settle_witness:
  "validate_property_types rule_types [''stops''] (stops_rule ['' searchable '', ''sortable'', ''sortable'']) = Inr (stops_rule [''searchable'', ''sortable'']) \<and>
   validate_property_types rule_types [''stops''] (stops_rule [''searchable'', ''sortable'']) = Inr (stops_rule [''searchable'', ''sortable''])"
proof -
  have v: "validate_property_types rule_types [''stops''] (stops_rule ['' searchable '', ''sortable'', ''sortable'']) = Inr (stops_rule [''searchable'', ''sortable''])"
    by code_simp
  with property_types_settle [OF v] show ?thesis by blast
qed

end
