(* ===== verification/Holon_Relation_Types.thy ===== *)
theory Holon_Relation_Types
  imports Holon_Implements Holon_Urn
begin

text \<open>
  The registry of relation types (\<open>ontology/relation_types.py\<close>, \<open>relation_type_validate.py\<close>): creation, update and
  deletion with their checks, and the cascade of a published object type's lifecycle. A table is a list of rows; dates are numbers of days.
\<close>

section \<open>Rows\<close>

record relation_type = card_relation +
  rt_source_property :: string
  rt_storage :: string
  rt_join_urn :: "string option"
  rt_join_source :: "string option"
  rt_join_target :: "string option"
  rt_mid_urn :: "string option"
  rt_mid_source :: "string option"
  rt_mid_target :: "string option"
  rt_source_display :: string
  rt_source_plural :: string
  rt_source_visibility :: string
  rt_target_display :: string
  rt_target_plural :: string
  rt_target_visibility :: string
  rt_classes :: "string list"
  rt_project :: "string option"
  rt_deprecation :: "nat deprecation"

record relation_db =
  rd_types :: "(string, relation_type) dict"
  rd_links :: "(string \<times> string \<times> string) list"
  rd_overlays :: "(string \<times> string \<times> string) list"
  rd_syncs :: "string list"

datatype relation_error =
    BadCardinality
  | TargetPropertyRequired
  | RelationMetadata metadata_error
  | NoObjectType string
  | BadStorage
  | BadVisibility
  | ApiNameRequired
  | DuplicateRelation string
  | UnknownRelationType string
  | ActiveRelation

section \<open>Checks\<close>

definition valid_cardinalities :: "string list" where
  "valid_cardinalities = [''one_to_one'', ''one_to_many'', ''many_to_one'', ''many_to_many'']"

definition valid_storage_kinds :: "string list" where
  "valid_storage_kinds = [''foreign_key'', ''join_dataset'', ''object_backed'']"

definition valid_visibilities :: "string list" where
  "valid_visibilities = [''prominent'', ''normal'', ''hidden'']"

definition missing :: "string option \<Rightarrow> bool" where
  "missing s \<longleftrightarrow> s = None \<or> s = Some []"

definition storage_ok :: "string \<Rightarrow> string \<Rightarrow> string \<Rightarrow> string option list \<Rightarrow> string option list \<Rightarrow> bool" where
  "storage_ok storage_kind cardinality source_property joins mids \<longleftrightarrow>
     storage_kind \<in> set valid_storage_kinds \<and>
     (if storage_kind = ''foreign_key'' then source_property \<noteq> []
      else if storage_kind = ''join_dataset'' then cardinality = ''many_to_many'' \<and> list_all (\<lambda>s. \<not> missing s) joins
      else list_all (\<lambda>s. \<not> missing s) mids)"

definition normalize_side_metadata :: "string \<Rightarrow> string \<Rightarrow> (relation_error, string) result" where
  "normalize_side_metadata api visibility =
     (if visibility \<notin> set valid_visibilities then Inl BadVisibility
      else if py_strip api = [] then Inl ApiNameRequired else Inr (py_strip api))"

definition lift_relation :: "(metadata_error, 'a) result \<Rightarrow> (relation_error, 'a) result" where
  "lift_relation r = (case r of Inl e \<Rightarrow> Inl (RelationMetadata e) | Inr v \<Rightarrow> Inr v)"

section \<open>Creation\<close>

record relation_spec =
  rs_source :: string
  rs_target :: string
  rs_source_property :: string
  rs_target_property :: string
  rs_cardinality :: string
  rs_storage :: string
  rs_join_urn :: "string option"
  rs_join_source :: "string option"
  rs_join_target :: "string option"
  rs_mid :: "string option"
  rs_mid_source :: "string option"
  rs_mid_target :: "string option"
  rs_source_side :: "string \<times> string \<times> string option \<times> string"
  rs_target_side :: "string \<times> string \<times> string option \<times> string"
  rs_status :: string
  rs_classes :: json
  rs_project :: "string option"
  rs_reason :: "string option"
  rs_deadline :: "nat raw_deadline"
  rs_replacement :: "string option"

text \<open>A side is its display name, the plural, the api name and the visibility.\<close>

definition object_type_urn :: "string \<Rightarrow> string \<Rightarrow> string \<Rightarrow> string" where
  "object_type_urn tid ws name = build_urn tid ws ''object-type'' name None"

definition relation_type_urn :: "string \<Rightarrow> string \<Rightarrow> string \<Rightarrow> string" where
  "relation_type_urn tid ws name = build_urn tid ws ''relation-type'' name None"

definition or_else :: "string option \<Rightarrow> string \<Rightarrow> string" where
  "or_else s d = (case s of None \<Rightarrow> d | Some x \<Rightarrow> if x = [] then d else x)"

definition trimmed :: "string option \<Rightarrow> string option" where
  "trimmed s = (case s of None \<Rightarrow> None | Some x \<Rightarrow> if py_strip x = [] then None else Some (py_strip x))"

definition mid_of :: "(string \<Rightarrow> bool) \<Rightarrow> (string \<Rightarrow> string) \<Rightarrow> string option \<Rightarrow> (relation_error, string option) result" where
  "mid_of known to_urn m =
     (if missing m then Inr None
      else case m of None \<Rightarrow> Inr None | Some n \<Rightarrow> if known (to_urn n) then Inr (Some (to_urn n)) else Inl (NoObjectType n))"

definition create_relation_type ::
  "(string \<Rightarrow> nat option) \<Rightarrow> (string \<Rightarrow> bool) \<Rightarrow> string \<Rightarrow> string \<Rightarrow> string \<Rightarrow> relation_spec \<Rightarrow> relation_db \<Rightarrow> (relation_error, relation_db) result" where
  "create_relation_type fromisoformat known tid ws name s db =
     (let to_urn = object_type_urn tid ws; urn = relation_type_urn tid ws name in
      case (rs_source_side s, rs_target_side s) of ((sd, sp, sapi, sv), (td, tp, tapi, tv)) \<Rightarrow>
      rbind (raise_if (rs_cardinality s \<notin> set valid_cardinalities) BadCardinality) (\<lambda>_.
      rbind (raise_if (rs_target_property s = []) TargetPropertyRequired) (\<lambda>_.
      rbind (lift_relation (normalize_deprecation_metadata fromisoformat (rs_status s) (rs_reason s) (rs_deadline s) (rs_replacement s) TargetRegistry)) (\<lambda>dep.
      rbind (raise_if (\<not> known (to_urn (rs_source s))) (NoObjectType (rs_source s))) (\<lambda>_.
      rbind (raise_if (\<not> known (to_urn (rs_target s))) (NoObjectType (rs_target s))) (\<lambda>_.
      rbind (mid_of known to_urn (rs_mid s)) (\<lambda>mid.
      rbind (raise_if (\<not> storage_ok (rs_storage s) (rs_cardinality s) (rs_source_property s) [rs_join_urn s, rs_join_source s, rs_join_target s]
                          [mid, rs_mid_source s, rs_mid_target s]) BadStorage) (\<lambda>_.
      rbind (normalize_side_metadata (case sapi of None \<Rightarrow> local_name name | Some a \<Rightarrow> a) sv) (\<lambda>src_api.
      rbind (normalize_side_metadata (case tapi of None \<Rightarrow> rs_target_property s | Some a \<Rightarrow> a) tv) (\<lambda>tgt_api.
      rbind (lift_relation (normalize_type_classes (rs_classes s))) (\<lambda>classes.
        if dict_get (rd_types db) urn \<noteq> None then Inl (DuplicateRelation name)
        else Inr (db\<lparr>rd_types := dict_set urn
          \<lparr>nr_name = name, nr_source_urn = to_urn (rs_source s), nr_target_urn = to_urn (rs_target s), nr_source_api = Some src_api,
            nr_target_api = Some tgt_api, nr_target_property = Some (rs_target_property s), nr_cardinality = rs_cardinality s,
            rt_source_property = (if rs_source_property s \<noteq> [] then rs_source_property s
              else if rs_storage s = ''join_dataset'' then (case rs_join_source s of None \<Rightarrow> [] | Some c \<Rightarrow> c) else or_else (rs_mid_source s) ''_''),
            rt_storage = rs_storage s, rt_join_urn = rs_join_urn s, rt_join_source = rs_join_source s, rt_join_target = rs_join_target s,
            rt_mid_urn = mid, rt_mid_source = rs_mid_source s, rt_mid_target = rs_mid_target s, rt_source_display = sd, rt_source_plural = sp,
            rt_source_visibility = sv, rt_target_display = td, rt_target_plural = tp, rt_target_visibility = tv, rt_classes = classes,
            rt_project = trimmed (rs_project s), rt_deprecation = dep\<rparr> (rd_types db)\<rparr>))))))))))))"

section \<open>Update\<close>

record relation_patch =
  rp_target_property :: "string option"
  rp_cardinality :: "string option"
  rp_storage :: "string option"
  rp_join_urn :: "string option"
  rp_join_source :: "string option"
  rp_join_target :: "string option"
  rp_mid :: "string option"
  rp_mid_source :: "string option"
  rp_mid_target :: "string option"
  rp_source_side :: "string option \<times> string option \<times> string option \<times> string option"
  rp_target_side :: "string option \<times> string option \<times> string option \<times> string option"
  rp_status :: "string option"
  rp_classes :: "json option"
  rp_project :: "string option"
  rp_clear_project :: bool
  rp_reason :: "string option"
  rp_deadline :: "nat raw_deadline"
  rp_replacement :: "string option"

definition chosen :: "'a option \<Rightarrow> 'a \<Rightarrow> 'a" where
  "chosen new old = (case new of None \<Rightarrow> old | Some x \<Rightarrow> x)"

definition chosen_opt :: "'a option \<Rightarrow> 'a option \<Rightarrow> 'a option" where
  "chosen_opt new old = (case new of None \<Rightarrow> old | Some x \<Rightarrow> Some x)"

definition update_relation_type ::
  "(string \<Rightarrow> nat option) \<Rightarrow> (string \<Rightarrow> bool) \<Rightarrow> string \<Rightarrow> string \<Rightarrow> string \<Rightarrow> relation_patch \<Rightarrow> relation_db \<Rightarrow> (relation_error, relation_db) result" where
  "update_relation_type fromisoformat known tid ws name u db =
     (let urn = relation_type_urn tid ws name in
      case dict_get (rd_types db) urn of
        None \<Rightarrow> Inl (UnknownRelationType name)
      | Some r \<Rightarrow>
      case (rp_source_side u, rp_target_side u) of ((sd, sp, sapi, sv), (td, tp, tapi, tv)) \<Rightarrow>
      let tprop = chosen_opt (rp_target_property u) (nr_target_property r); cardinality = chosen (rp_cardinality u) (nr_cardinality r);
          storage_kind = chosen (rp_storage u) (rt_storage r); d = rt_deprecation r;
          joins = [chosen_opt (rp_join_urn u) (rt_join_urn r), chosen_opt (rp_join_source u) (rt_join_source r), chosen_opt (rp_join_target u) (rt_join_target r)];
          msrc = chosen_opt (rp_mid_source u) (rt_mid_source r); mtgt = chosen_opt (rp_mid_target u) (rt_mid_target r);
          svis = chosen sv (rt_source_visibility r); tvis = chosen tv (rt_target_visibility r);
          deadline = (case rp_deadline u of RawNone \<Rightarrow> (case deprecation_deadline d of None \<Rightarrow> RawNone | Some x \<Rightarrow> RawDate x) | x \<Rightarrow> x) in
      rbind (case rp_mid u of None \<Rightarrow> Inr (rt_mid_urn r)
             | Some m \<Rightarrow> if known (object_type_urn tid ws m) then Inr (Some (object_type_urn tid ws m)) else Inl (NoObjectType m)) (\<lambda>mid.
      rbind (raise_if (missing tprop) TargetPropertyRequired) (\<lambda>_.
      rbind (raise_if (cardinality \<notin> set valid_cardinalities) BadCardinality) (\<lambda>_.
      rbind (raise_if (\<not> storage_ok storage_kind cardinality (rt_source_property r) joins [mid, msrc, mtgt]) BadStorage) (\<lambda>_.
      rbind (normalize_side_metadata (case sapi of None \<Rightarrow> or_else (nr_source_api r) (local_name name) | Some a \<Rightarrow> a) svis) (\<lambda>src_api.
      rbind (normalize_side_metadata (case tapi of None \<Rightarrow> or_else (nr_target_api r) (or_empty (nr_target_property r)) | Some a \<Rightarrow> a) tvis) (\<lambda>tgt_api.
      rbind (lift_relation (normalize_deprecation_metadata fromisoformat (chosen (rp_status u) (lifecycle_status d))
          (chosen_opt (rp_reason u) (deprecation_reason d)) deadline (chosen_opt (rp_replacement u) (replacement_urn d)) TargetRegistry)) (\<lambda>dep.
      rbind (case rp_classes u of None \<Rightarrow> Inr (rt_classes r) | Some j \<Rightarrow> lift_relation (normalize_type_classes j)) (\<lambda>classes.
        Inr (db\<lparr>rd_types := dict_set urn
          (r\<lparr>nr_target_property := tprop, nr_cardinality := cardinality, rt_storage := storage_kind, rt_join_urn := joins ! 0, rt_join_source := joins ! 1,
             rt_join_target := joins ! 2, rt_mid_urn := mid, rt_mid_source := msrc, rt_mid_target := mtgt,
             rt_source_display := chosen sd (rt_source_display r), rt_source_plural := chosen sp (rt_source_plural r), nr_source_api := Some src_api,
             rt_source_visibility := svis, rt_target_display := chosen td (rt_target_display r), rt_target_plural := chosen tp (rt_target_plural r),
             nr_target_api := Some tgt_api, rt_target_visibility := tvis, rt_deprecation := dep, rt_classes := classes,
             rt_project := (if rp_clear_project u then None else case rp_project u of None \<Rightarrow> rt_project r | Some x \<Rightarrow> trimmed (Some x))\<rparr>)
          (rd_types db)\<rparr>))))))))))"

section \<open>Deletion and cascade\<close>

definition delete_relation_type :: "string \<Rightarrow> string \<Rightarrow> string \<Rightarrow> relation_db \<Rightarrow> (relation_error, relation_db) result" where
  "delete_relation_type tid ws name db =
     (let urn = relation_type_urn tid ws name in
      case dict_get (rd_types db) urn of
        None \<Rightarrow> Inl (UnknownRelationType name)
      | Some r \<Rightarrow>
          if lifecycle_status (rt_deprecation r) = ''active'' then Inl ActiveRelation
          else Inr \<lparr>rd_types = dict_pop urn (rd_types db), rd_links = filter (\<lambda>l. fst l \<noteq> urn) (rd_links db),
                    rd_overlays = filter (\<lambda>l. fst l \<noteq> urn) (rd_overlays db), rd_syncs = filter (\<lambda>l. l \<noteq> urn) (rd_syncs db)\<rparr>)"

definition touches :: "string \<Rightarrow> relation_type \<Rightarrow> bool" where
  "touches ot r \<longleftrightarrow> nr_source_urn r = ot \<or> nr_target_urn r = ot \<or> rt_mid_urn r = Some ot"

definition cascaded_reason :: string where
  "cascaded_reason = ''Cascaded from linked ObjectType deprecation''"

definition cascaded :: "nat \<Rightarrow> string \<Rightarrow> nat deprecation \<Rightarrow> nat deprecation" where
  "cascaded today status d =
     (if status \<in> {''experimental'', ''example''} then
        (if lifecycle_status d \<in> {''experimental'', ''deprecated'', ''example''} then d
         else \<lparr>lifecycle_status = status, deprecation_reason = None, deprecation_deadline = None, replacement_urn = None\<rparr>)
      else if status = ''deprecated'' \<and> lifecycle_status d \<noteq> ''deprecated'' then
        d\<lparr>lifecycle_status := ''deprecated'', deprecation_reason := Some (or_else (deprecation_reason d) cascaded_reason),
          deprecation_deadline := (case deprecation_deadline d of None \<Rightarrow> Some (today + 90) | Some x \<Rightarrow> Some x)\<rparr>
      else d)"

definition cascade_lifecycle_from_object_type :: "nat \<Rightarrow> string \<Rightarrow> string \<Rightarrow> (string, relation_type) dict \<Rightarrow> (string, relation_type) dict" where
  "cascade_lifecycle_from_object_type today ot status types =
     map (\<lambda>(k, r). (k, if touches ot r then r\<lparr>rt_deprecation := cascaded today status (rt_deprecation r)\<rparr> else r)) types"



section \<open>Every row stays well formed\<close>

definition dep_ok :: "nat deprecation \<Rightarrow> bool" where
  "dep_ok d \<longleftrightarrow> lifecycle_status d \<in> {''experimental'', ''active'', ''deprecated'', ''example''} \<and>
     (if lifecycle_status d = ''deprecated'' then deprecation_deadline d \<noteq> None \<and> (\<exists>r. deprecation_reason d = Some r \<and> r \<noteq> [] \<and> length r \<le> 2000)
      else deprecation_reason d = None \<and> deprecation_deadline d = None \<and> replacement_urn d = None)"

definition api_ok :: "string option \<Rightarrow> bool" where
  "api_ok s \<longleftrightarrow> (\<exists>a. s = Some a \<and> a \<noteq> [] \<and> py_strip a = a)"

definition relation_ok :: "relation_type \<Rightarrow> bool" where
  "relation_ok r \<longleftrightarrow> nr_cardinality r \<in> set valid_cardinalities \<and> \<not> missing (nr_target_property r) \<and>
     storage_ok (rt_storage r) (nr_cardinality r) (rt_source_property r) [rt_join_urn r, rt_join_source r, rt_join_target r]
       [rt_mid_urn r, rt_mid_source r, rt_mid_target r] \<and>
     api_ok (nr_source_api r) \<and> api_ok (nr_target_api r) \<and> rt_source_visibility r \<in> set valid_visibilities \<and>
     rt_target_visibility r \<in> set valid_visibilities \<and> dep_ok (rt_deprecation r) \<and> normalize_each (rt_classes r) = Inr (rt_classes r)"

definition relations_ok :: "relation_db \<Rightarrow> bool" where
  "relations_ok db \<longleftrightarrow> dict_wf (rd_types db) \<and> (\<forall>u r. dict_get (rd_types db) u = Some r \<longrightarrow> relation_ok r)"

lemma lift_relation_ok [simp]: "lift_relation r = Inr v \<longleftrightarrow> r = Inr v"
  by (simp add: lift_relation_def split: sum.splits)

lemma normalized_dep_ok: "normalize_deprecation_metadata fmt st reason dl repl TargetRegistry = Inr d \<Longrightarrow> dep_ok d"
  by (drule deprecation_metadata_bounds) (auto simp: dep_ok_def valid_lifecycle_statuses_def)

lemma side_ok: "normalize_side_metadata api v = Inr a \<Longrightarrow> v \<in> set valid_visibilities \<and> api_ok (Some a)"
  by (auto simp: normalize_side_metadata_def api_ok_def split: if_splits)

lemma classes_ok: "normalize_type_classes j = Inr cs \<Longrightarrow> normalize_each cs = Inr cs"
  by (auto simp: normalize_type_classes_def normalize_again split: json.splits if_splits)

lemma storage_effective:
  "storage_ok k c s js ms \<Longrightarrow> storage_ok k c (if s \<noteq> [] then s else x) js ms"
  by (simp add: storage_ok_def)

lemma create_relation_ok:
  assumes "create_relation_type fmt known tid ws name s db = Inr db'" and "relations_ok db"
  shows "relations_ok db'"
proof -
  obtain sd sp sapi sv td tp tapi tv where side: "rs_source_side s = (sd, sp, sapi, sv)" "rs_target_side s = (td, tp, tapi, tv)"
    by (metis prod_cases4)
  let ?joins = "[rs_join_urn s, rs_join_source s, rs_join_target s]"
  from assms(1) obtain dep mid src_api tgt_api classes x where c: "rs_cardinality s \<in> set valid_cardinalities" "rs_target_property s \<noteq> []"
    "normalize_deprecation_metadata fmt (rs_status s) (rs_reason s) (rs_deadline s) (rs_replacement s) TargetRegistry = Inr dep"
    "storage_ok (rs_storage s) (rs_cardinality s) (rs_source_property s) ?joins [mid, rs_mid_source s, rs_mid_target s]"
    "normalize_side_metadata (case sapi of None \<Rightarrow> local_name name | Some a \<Rightarrow> a) sv = Inr src_api"
    "normalize_side_metadata (case tapi of None \<Rightarrow> rs_target_property s | Some a \<Rightarrow> a) tv = Inr tgt_api"
    "normalize_type_classes (rs_classes s) = Inr classes"
    and db': "db' = db\<lparr>rd_types := dict_set (relation_type_urn tid ws name)
          \<lparr>nr_name = name, nr_source_urn = object_type_urn tid ws (rs_source s), nr_target_urn = object_type_urn tid ws (rs_target s), nr_source_api = Some src_api,
            nr_target_api = Some tgt_api, nr_target_property = Some (rs_target_property s), nr_cardinality = rs_cardinality s,
            rt_source_property = (if rs_source_property s \<noteq> [] then rs_source_property s else x),
            rt_storage = rs_storage s, rt_join_urn = rs_join_urn s, rt_join_source = rs_join_source s, rt_join_target = rs_join_target s,
            rt_mid_urn = mid, rt_mid_source = rs_mid_source s, rt_mid_target = rs_mid_target s, rt_source_display = sd, rt_source_plural = sp,
            rt_source_visibility = sv, rt_target_display = td, rt_target_plural = tp, rt_target_visibility = tv, rt_classes = classes,
            rt_project = trimmed (rs_project s), rt_deprecation = dep\<rparr> (rd_types db)\<rparr>"
    unfolding create_relation_type_def Let_def side prod.case rbind_Inr_iff raise_if_iff lift_relation_ok not_not if_distrib [of "\<lambda>r. r = Inr db'"]
    by (auto split: if_splits)
  show ?thesis
    using assms(2) c(1,2) storage_effective [OF c(4)] side_ok [OF c(5)] side_ok [OF c(6)] normalized_dep_ok [OF c(3)] classes_ok [OF c(7)]
    by (auto simp: relations_ok_def db' relation_ok_def missing_def)
qed


lemma update_relation_ok:
  assumes "update_relation_type fmt known tid ws name u db = Inr db'" and "relations_ok db"
  shows "relations_ok db'"
proof -
  obtain sd sp sapi sv td tp tapi tv where side: "rp_source_side u = (sd, sp, sapi, sv)" "rp_target_side u = (td, tp, tapi, tv)"
    by (metis prod_cases4)
  from assms(1) obtain r where r: "dict_get (rd_types db) (relation_type_urn tid ws name) = Some r"
    by (auto simp: update_relation_type_def Let_def split: option.splits)
  with assms(2) have old: "relation_ok r" by (simp add: relations_ok_def)
  let ?tprop = "chosen_opt (rp_target_property u) (nr_target_property r)" and ?card = "chosen (rp_cardinality u) (nr_cardinality r)"
  let ?storage = "chosen (rp_storage u) (rt_storage r)" and ?svis = "chosen sv (rt_source_visibility r)" and ?tvis = "chosen tv (rt_target_visibility r)"
  let ?joins = "[chosen_opt (rp_join_urn u) (rt_join_urn r), chosen_opt (rp_join_source u) (rt_join_source r), chosen_opt (rp_join_target u) (rt_join_target r)]"
  let ?msrc = "chosen_opt (rp_mid_source u) (rt_mid_source r)" and ?mtgt = "chosen_opt (rp_mid_target u) (rt_mid_target r)"
  from assms(1) obtain mid src_api tgt_api dep classes st reason dl repl s1 s2 where c: "\<not> missing ?tprop" "?card \<in> set valid_cardinalities"
    "storage_ok ?storage ?card (rt_source_property r) ?joins [mid, ?msrc, ?mtgt]"
    "normalize_side_metadata s1 ?svis = Inr src_api" "normalize_side_metadata s2 ?tvis = Inr tgt_api"
    "normalize_deprecation_metadata fmt st reason dl repl TargetRegistry = Inr dep"
    "(case rp_classes u of None \<Rightarrow> Inr (rt_classes r) | Some j \<Rightarrow> lift_relation (normalize_type_classes j)) = Inr classes"
    and db': "db' = db\<lparr>rd_types := dict_set (relation_type_urn tid ws name)
          (r\<lparr>nr_target_property := ?tprop, nr_cardinality := ?card, rt_storage := ?storage, rt_join_urn := ?joins ! 0, rt_join_source := ?joins ! 1,
             rt_join_target := ?joins ! 2, rt_mid_urn := mid, rt_mid_source := ?msrc, rt_mid_target := ?mtgt,
             rt_source_display := chosen sd (rt_source_display r), rt_source_plural := chosen sp (rt_source_plural r), nr_source_api := Some src_api,
             rt_source_visibility := ?svis, rt_target_display := chosen td (rt_target_display r), rt_target_plural := chosen tp (rt_target_plural r),
             nr_target_api := Some tgt_api, rt_target_visibility := ?tvis, rt_deprecation := dep, rt_classes := classes,
             rt_project := (if rp_clear_project u then None else case rp_project u of None \<Rightarrow> rt_project r | Some x \<Rightarrow> trimmed (Some x))\<rparr>)
          (rd_types db)\<rparr>"
    unfolding update_relation_type_def Let_def side r prod.case option.case rbind_Inr_iff raise_if_iff lift_relation_ok not_not by blast
  have "normalize_each classes = Inr classes"
    using c(7) old by (auto simp: relation_ok_def dest: classes_ok split: option.splits)
  then show ?thesis
    using assms(2) c(1-3) side_ok [OF c(4)] side_ok [OF c(5)] normalized_dep_ok [OF c(6)]
    by (auto simp: relations_ok_def db' relation_ok_def)
qed

lemma delete_relation_ok:
  assumes "delete_relation_type tid ws name db = Inr db'"
  shows "relations_ok db \<Longrightarrow> relations_ok db'" and "dict_get (rd_types db') (relation_type_urn tid ws name) = None \<and>
     relation_type_urn tid ws name \<notin> fst ` set (rd_links db') \<union> fst ` set (rd_overlays db') \<union> set (rd_syncs db')"
  using assms by (auto simp: delete_relation_type_def Let_def relations_ok_def split: option.splits if_splits)

lemma cascaded_ok: "dep_ok d \<Longrightarrow> dep_ok (cascaded today status d)"
  by (auto simp: dep_ok_def cascaded_def cascaded_reason_def or_else_def split: option.splits)

lemma dict_get_map_values: "dict_get (map (\<lambda>(k, v). (k, f v)) d) j = map_option f (dict_get d j)"
  by (induction d) (auto simp: dict_get_def)

lemma cascade_ok:
  assumes "relations_ok db"
  shows "relations_ok (db\<lparr>rd_types := cascade_lifecycle_from_object_type today ot status (rd_types db)\<rparr>)"
proof -
  let ?f = "\<lambda>r. if touches ot r then r\<lparr>rt_deprecation := cascaded today status (rt_deprecation r)\<rparr> else r"
  have "map fst (cascade_lifecycle_from_object_type today ot status (rd_types db)) = map fst (rd_types db)"
    by (simp add: cascade_lifecycle_from_object_type_def o_def case_prod_unfold)
  then have "dict_wf (cascade_lifecycle_from_object_type today ot status (rd_types db))" using assms by (simp add: relations_ok_def dict_wf_def)
  moreover have ok: "relation_ok (?f r)" if "relation_ok r" for r using that by (auto simp: relation_ok_def cascaded_ok)
  moreover have get: "dict_get (cascade_lifecycle_from_object_type today ot status (rd_types db)) u = map_option ?f (dict_get (rd_types db) u)" for u
    unfolding cascade_lifecycle_from_object_type_def by (rule dict_get_map_values)
  have "relation_ok r" if r: "dict_get (cascade_lifecycle_from_object_type today ot status (rd_types db)) u = Some r" for u r
  proof -
    from r obtain r0 where r0: "dict_get (rd_types db) u = Some r0" "r = ?f r0" unfolding get map_option_eq_Some by blast
    with assms have "relation_ok r0" unfolding relations_ok_def by blast
    then show ?thesis unfolding r0(2) by (rule ok)
  qed
  ultimately show ?thesis unfolding relations_ok_def by simp
qed

datatype relation_request =
    CreateRelation string string string relation_spec
  | UpdateRelation string string string relation_patch
  | DeleteRelation string string string
  | CascadeLifecycle nat string string

text \<open>A request that is refused changes nothing; \<open>known\<close> are the object types registered when it comes.\<close>

fun serve_relation :: "(string \<Rightarrow> nat option) \<Rightarrow> (string \<Rightarrow> bool) \<times> relation_request \<Rightarrow> relation_db \<Rightarrow> relation_db" where
  "serve_relation fmt (known, CreateRelation tid ws n s) db = (case create_relation_type fmt known tid ws n s db of Inl _ \<Rightarrow> db | Inr db' \<Rightarrow> db')"
| "serve_relation fmt (known, UpdateRelation tid ws n u) db = (case update_relation_type fmt known tid ws n u db of Inl _ \<Rightarrow> db | Inr db' \<Rightarrow> db')"
| "serve_relation fmt (known, DeleteRelation tid ws n) db = (case delete_relation_type tid ws n db of Inl _ \<Rightarrow> db | Inr db' \<Rightarrow> db')"
| "serve_relation fmt (known, CascadeLifecycle today ot status) db =
     db\<lparr>rd_types := cascade_lifecycle_from_object_type today ot status (rd_types db)\<rparr>"

definition serve_relations :: "(string \<Rightarrow> nat option) \<Rightarrow> ((string \<Rightarrow> bool) \<times> relation_request) list \<Rightarrow> relation_db" where
  "serve_relations fmt qs = fold (serve_relation fmt) qs \<lparr>rd_types = [], rd_links = [], rd_overlays = [], rd_syncs = []\<rparr>"

lemma serve_relation_ok: "relations_ok db \<Longrightarrow> relations_ok (serve_relation fmt q db)"
  by (cases "(fmt, q, db)" rule: serve_relation.cases)
     (auto intro: create_relation_ok update_relation_ok delete_relation_ok(1) cascade_ok split: sum.split)

text \<open>
  C15. Whatever creations, updates, deletions and lifecycle cascades the registry of relation types has served, every
  relation type has a cardinality and a storage that fit together, both of its api names, legal visibilities, normalised type
  classes, and a reason and a deadline exactly when it is deprecated.
\<close>

theorem relation_types_well_formed:
  "relations_ok (serve_relations fmt qs)"
proof -
  have "relations_ok db \<Longrightarrow> relations_ok (fold (serve_relation fmt) qs db)" for db
    by (induction qs arbitrary: db) (simp_all add: serve_relation_ok)
  moreover have "relations_ok \<lparr>rd_types = [], rd_links = [], rd_overlays = [], rd_syncs = []\<rparr>" by (simp add: relations_ok_def)
  ultimately show ?thesis by (simp add: serve_relations_def)
qed

section \<open>What an update does not look at\<close>

definition side :: "string \<times> string \<times> string option \<times> string" where
  "side = ([], [], None, ''normal'')"

definition pumps_spec :: relation_spec where
  "pumps_spec = \<lparr>rs_source = ''Pump'', rs_target = ''Site'', rs_source_property = [], rs_target_property = ''pumps'', rs_cardinality = ''many_to_many'',
     rs_storage = ''join_dataset'', rs_join_urn = Some ''d'', rs_join_source = Some ''pump_id'', rs_join_target = Some ''site_id'', rs_mid = None,
     rs_mid_source = None, rs_mid_target = None, rs_source_side = side, rs_target_side = side, rs_status = ''experimental'', rs_classes = JNull,
     rs_project = None, rs_reason = None, rs_deadline = RawNone, rs_replacement = None\<rparr>"

definition no_relation_patch :: relation_patch where
  "no_relation_patch = \<lparr>rp_target_property = None, rp_cardinality = None, rp_storage = None, rp_join_urn = None, rp_join_source = None,
     rp_join_target = None, rp_mid = None, rp_mid_source = None, rp_mid_target = None, rp_source_side = (None, None, None, None),
     rp_target_side = (None, None, None, None), rp_status = None, rp_classes = None, rp_project = None, rp_clear_project = False, rp_reason = None,
     rp_deadline = RawNone, rp_replacement = None\<rparr>"


definition empty_relations :: relation_db where
  "empty_relations = \<lparr>rd_types = [], rd_links = [], rd_overlays = [], rd_syncs = []\<rparr>"

definition storage_and_property :: "(relation_error, relation_db) result \<Rightarrow> (string \<times> string) list" where
  "storage_and_property r = (case r of Inl _ \<Rightarrow> [] | Inr db \<Rightarrow> map (\<lambda>e. (rt_storage (snd e), rt_source_property (snd e))) (rd_types db))"

text \<open>The column of a join dataset stands in for the source property; a later change to a foreign key takes it for one.\<close>

lemma join_column_becomes_foreign_key:
  "storage_and_property (rbind (create_relation_type (\<lambda>_. None) (\<lambda>_. True) ''t'' ''w'' ''pump_site'' pumps_spec empty_relations)
     (update_relation_type (\<lambda>_. None) (\<lambda>_. True) ''t'' ''w'' ''pump_site'' (no_relation_patch\<lparr>rp_storage := Some ''foreign_key''\<rparr>))) =
   [(''foreign_key'', ''pump_id'')]"
  by code_simp

text \<open>The cardinality of a relation changes under the object types whose interface links are bound to it.\<close>

definition site_spec :: relation_spec where
  "site_spec = pumps_spec\<lparr>rs_source_property := ''site_id'', rs_cardinality := ''many_to_one'', rs_storage := ''foreign_key''\<rparr>"

definition pump_registry :: iface_reg where
  "pump_registry = [(''Located'', \<lparr>if_properties = [], if_actions = [], if_types = [], if_links = [located_link], if_parents = [], if_description = [],
     if_deprecation = plain_deprecation\<rparr>)]"

definition bound_pump :: ot_row where
  "bound_pump = \<lparr>ot_name = ''Pump'', ot_mapping = [], ot_types = [], ot_implements = [''Located''],
     ot_link_bindings = [(''Located'', JObj [(''site'', JStr ''pump_site'')])], ot_prop_bindings = []\<rparr>"

definition relations_of :: "(relation_error, relation_db) result \<Rightarrow> card_relation list" where
  "relations_of r = (case r of Inl _ \<Rightarrow> [] | Inr db \<Rightarrow> map (\<lambda>e. card_relation.truncate (snd e)) (rd_types db))"

definition implements_with :: "(relation_error, relation_db) result \<Rightarrow> (impl_error, unit) result" where
  "implements_with r = validate_implements \<lparr>ca_actions = [], ca_relations = relations_of r, ca_types = [bound_pump]\<rparr> pump_registry [] bound_pump"

lemma relation_update_breaks_implementer:
  "implements_with (create_relation_type (\<lambda>_. None) (\<lambda>_. True) ''t'' ''w'' ''pump_site'' site_spec empty_relations) = Inr () \<and>
   implements_with (rbind (create_relation_type (\<lambda>_. None) (\<lambda>_. True) ''t'' ''w'' ''pump_site'' site_spec empty_relations)
     (update_relation_type (\<lambda>_. None) (\<lambda>_. True) ''t'' ''w'' ''pump_site'' (no_relation_patch\<lparr>rp_cardinality := Some ''one_to_many''\<rparr>))) =
     Inl (LinkCardinality ''site'')"
  by code_simp

end
