(* ===== verification/Holon_Publishing.thy ===== *)
theory Holon_Publishing
  imports Holon_Property_Rules Holon_Markings Holon_Relation_Types
begin

text \<open>
  The life of one object type (\<open>ontology/object_types.py\<close>, \<open>publishing.py\<close>, \<open>branching.py\<close>): drafts, branches with
  their reviews, and publication. The checks of a publication run outside its transaction, so every operation is a step that reads
  and later steps that write, and operations interleave. Where the code reads the live row through the definition
  cache, the row it gets is an argument: the cache may answer with an old one.
\<close>

section \<open>Definitions and their metadata\<close>

record ot_def =
  df_mapping :: "(string, string) dict"
  df_description :: string
  df_implements :: "string list"
  df_derived :: payload
  df_project :: "string option"
  df_markings :: "string list"
  df_formats :: payload
  df_conditional :: payload
  df_types :: payload
  df_link_bindings :: payload
  df_prop_bindings :: payload
  df_primary_key :: string
  df_title_key :: "string option"
  df_plural :: string
  df_visibility :: string
  df_icon :: "string option"
  df_dep :: "nat deprecation"

datatype publish_error =
    BadOtVisibility
  | PrimaryKeyRequired
  | PrimaryKeyUnmapped
  | TitleKeyUnmapped
  | OtMetadata metadata_error
  | UnknownObjectType
  | NoSuchVersion
  | AlreadyPublished
  | BehindLive
  | PrimaryKeyFrozen
  | ImplementsError impl_error
  | DerivedError derived_error
  | NoIdentity
  | UnknownProject
  | ProjectStatus nat
  | MarkingsError marking_error
  | RulesError rule_error
  | BadDecision
  | BranchExists
  | UnknownBranch
  | BranchClosed
  | DraftConflict
  | TypeInUse

definition map_error :: "('e \<Rightarrow> 'f) \<Rightarrow> ('e, 'a) result \<Rightarrow> ('f, 'a) result" where
  "map_error f r = (case r of Inl e \<Rightarrow> Inl (f e) | Inr v \<Rightarrow> Inr v)"

lemma map_error_ok [simp]: "map_error f r = Inr v \<longleftrightarrow> r = Inr v"
  by (simp add: map_error_def split: sum.splits)

definition validate_ot_metadata ::
  "(string \<Rightarrow> nat option) \<Rightarrow> (string, string) dict \<Rightarrow> string \<Rightarrow> string option \<Rightarrow> string \<Rightarrow> string \<Rightarrow> string option \<Rightarrow> nat raw_deadline \<Rightarrow> string option
     \<Rightarrow> (publish_error, nat deprecation) result" where
  "validate_ot_metadata fmt mapping pk title status visibility reason deadline repl =
     rbind (raise_if (visibility \<notin> set valid_visibilities) BadOtVisibility) (\<lambda>_.
     rbind (raise_if (pk = []) PrimaryKeyRequired) (\<lambda>_.
     rbind (raise_if (dict_get mapping pk = None) PrimaryKeyUnmapped) (\<lambda>_.
     rbind (raise_if (case title of None \<Rightarrow> False | Some t \<Rightarrow> t \<noteq> [] \<and> dict_get mapping t = None) TitleKeyUnmapped) (\<lambda>_.
       map_error OtMetadata (normalize_deprecation_metadata fmt status reason deadline repl TargetObjectType)))))"

definition as_raw :: "nat option \<Rightarrow> nat raw_deadline" where
  "as_raw d = (case d of None \<Rightarrow> RawNone | Some x \<Rightarrow> RawDate x)"

definition metadata_of :: "(string \<Rightarrow> nat option) \<Rightarrow> ot_def \<Rightarrow> (publish_error, nat deprecation) result" where
  "metadata_of fmt d = validate_ot_metadata fmt (df_mapping d) (df_primary_key d) (df_title_key d) (lifecycle_status (df_dep d)) (df_visibility d)
     (deprecation_reason (df_dep d)) (as_raw (deprecation_deadline (df_dep d))) (replacement_urn (df_dep d))"

section \<open>Drafts\<close>

record ot_patch =
  op_mapping :: "(string, string) dict option"
  op_description :: "string option"
  op_implements :: "string list option"
  op_derived :: "payload option"
  op_project :: "string option"
  op_markings :: "string list option"
  op_formats :: "payload option"
  op_conditional :: "payload option"
  op_types :: "payload option"
  op_link_bindings :: "payload option"
  op_prop_bindings :: "payload option"
  op_primary_key :: "string option"
  op_title_key :: "string option"
  op_plural :: "string option"
  op_status :: "string option"
  op_visibility :: "string option"
  op_icon :: "string option"
  op_reason :: "string option"
  op_deadline :: "nat raw_deadline"
  op_replacement :: "string option"

text \<open>The draft a partial update makes of the current row: what is not given is carried forward.\<close>

definition drafted :: "(string \<Rightarrow> nat option) \<Rightarrow> ot_def \<Rightarrow> ot_patch \<Rightarrow> (publish_error, ot_def) result" where
  "drafted fmt c u =
     (let d = \<lparr>df_mapping = chosen (op_mapping u) (df_mapping c), df_description = chosen (op_description u) (df_description c),
                df_implements = chosen (op_implements u) (df_implements c), df_derived = chosen (op_derived u) (df_derived c),
                df_project = chosen_opt (op_project u) (df_project c), df_markings = chosen (op_markings u) (df_markings c),
                df_formats = chosen (op_formats u) (df_formats c), df_conditional = chosen (op_conditional u) (df_conditional c),
                df_types = chosen (op_types u) (df_types c), df_link_bindings = chosen (op_link_bindings u) (df_link_bindings c),
                df_prop_bindings = chosen (op_prop_bindings u) (df_prop_bindings c), df_primary_key = chosen (op_primary_key u) (df_primary_key c),
                df_title_key = chosen_opt (op_title_key u) (df_title_key c), df_plural = chosen (op_plural u) (df_plural c),
                df_visibility = chosen (op_visibility u) (df_visibility c), df_icon = chosen_opt (op_icon u) (df_icon c), df_dep = df_dep c\<rparr> in
      rbind (validate_ot_metadata fmt (df_mapping d) (df_primary_key d) (df_title_key d) (chosen (op_status u) (lifecycle_status (df_dep c)))
               (df_visibility d) (chosen_opt (op_reason u) (deprecation_reason (df_dep c)))
               (case op_deadline u of RawNone \<Rightarrow> as_raw (deprecation_deadline (df_dep c)) | x \<Rightarrow> x)
               (chosen_opt (op_replacement u) (replacement_urn (df_dep c)))) (\<lambda>dep. Inr (d\<lparr>df_dep := dep\<rparr>)))"

section \<open>The checks of a publication\<close>

record publish_env =
  pe_catalogue :: catalogue
  pe_interfaces :: iface_reg
  pe_active :: "string \<Rightarrow> bool"
  pe_relations :: "named_relation list"
  pe_mapping_of :: "string \<Rightarrow> (string, string) dict option"
  pe_project_status :: "string \<Rightarrow> nat"
  pe_identity :: bool
  pe_markings :: marking_registry
  pe_types :: type_registry

definition implementer_row :: "string \<Rightarrow> ot_def \<Rightarrow> ot_row" where
  "implementer_row name d = \<lparr>ot_name = name, ot_mapping = df_mapping d, ot_types = df_types d, ot_implements = df_implements d,
     ot_link_bindings = df_link_bindings d, ot_prop_bindings = df_prop_bindings d\<rparr>"

text \<open>A type rule that is not an object is an empty one for the reducers: either is refused.\<close>

definition rules_of :: "payload \<Rightarrow> (string, payload) dict" where
  "rules_of types = map (\<lambda>(p, r). (p, case r of JObj d \<Rightarrow> d | _ \<Rightarrow> [])) types"

text \<open>\<open>GET /projects/...\<close> of the identity service answers with a status; \<open>raise_for_status\<close> lets only success pass.\<close>

definition validate_project_scope :: "(string \<Rightarrow> nat) \<Rightarrow> string \<Rightarrow> (publish_error, unit) result" where
  "validate_project_scope status_of project =
     (let status = status_of (local_part project) in
      if status = 404 then Inl UnknownProject else if 200 \<le> status \<and> status < 300 then Inr () else Inl (ProjectStatus status))"

definition frozen_key :: "ot_def option \<Rightarrow> ot_def \<Rightarrow> bool" where
  "frozen_key current d =
     (case current of None \<Rightarrow> False
      | Some c \<Rightarrow> lifecycle_status (df_dep c) \<in> {''active'', ''promoted''} \<and> df_primary_key d \<noteq> df_primary_key c)"

text \<open>The result is the property types as their validation leaves them.\<close>

definition run_publish_validations :: "(string \<Rightarrow> nat option) \<Rightarrow> publish_env \<Rightarrow> string \<Rightarrow> ot_def option \<Rightarrow> ot_def \<Rightarrow> (publish_error, payload) result" where
  "run_publish_validations fmt env name current d =
     (let known = map fst (df_mapping d) @ map fst (df_derived d) in
      rbind (metadata_of fmt d) (\<lambda>_.
      rbind (raise_if (frozen_key current d) PrimaryKeyFrozen) (\<lambda>_.
      rbind (if df_implements d = [] then Inr ()
             else map_error ImplementsError (validate_implements (pe_catalogue env) (pe_interfaces env) [] (implementer_row name d))) (\<lambda>_.
      rbind (if df_derived d = [] then Inr ()
             else map_error DerivedError (validate_derived_properties (pe_active env) (pe_relations env) (pe_mapping_of env) (rules_of (df_types d)) name (df_derived d))) (\<lambda>_.
      rbind (case df_project d of None \<Rightarrow> Inr ()
             | Some p \<Rightarrow> if p = [] then Inr () else if \<not> pe_identity env then Inl NoIdentity else validate_project_scope (pe_project_status env) p) (\<lambda>_.
      rbind (if df_markings d = [] then Inr () else map_error MarkingsError (validate_markings (pe_markings env) (df_markings d))) (\<lambda>_.
      rbind (if df_formats d = [] then Inr () else map_error RulesError (validate_property_formats known (df_formats d))) (\<lambda>_.
      rbind (if df_conditional d = [] then Inr () else map_error RulesError (validate_conditional_formats known (df_conditional d))) (\<lambda>_.
        if df_types d = [] then Inr [] else map_error RulesError (validate_property_types (pe_types env) known (df_types d)))))))))))"

section \<open>The tables of one object type\<close>

record branch =
  br_version :: int
  br_status :: string
  br_creator :: string

record type_store =
  ts_live :: "(int \<times> ot_def) option"
  ts_versions :: "(int, bool \<times> ot_def) dict"
  ts_branches :: "(string, branch) dict"
  ts_reviews :: "(string \<times> string \<times> string) list"
  ts_events :: "(int \<times> int option) list"
  ts_relations :: "(string, relation_type) dict"

text \<open>A lifecycle other than active or promoted is written on every property as well.\<close>

definition cascaded_types :: "string \<Rightarrow> payload \<Rightarrow> payload" where
  "cascaded_types status types =
     (if status \<in> {''experimental'', ''deprecated'', ''example''}
      then map (\<lambda>(p, r). (p, case r of JObj d \<Rightarrow> JObj (dict_set ''lifecycle_status'' (JStr status) d) | x \<Rightarrow> x)) types
      else types)"

definition published_definition :: "ot_def \<Rightarrow> payload \<Rightarrow> ot_def" where
  "published_definition d types = d\<lparr>df_types := cascaded_types (lifecycle_status (df_dep d)) types\<rparr>"

text \<open>The transaction of a publication: under a lock on the live row its version is compared again.\<close>

definition write_publish :: "nat \<Rightarrow> string \<Rightarrow> int \<Rightarrow> ot_def \<Rightarrow> payload \<Rightarrow> int option \<Rightarrow> type_store \<Rightarrow> (publish_error, type_store) result" where
  "write_publish today urn v d types previous s =
     (let live = map_option fst (ts_live s) in
      if (case live of None \<Rightarrow> False | Some l \<Rightarrow> v \<le> l) then Inl BehindLive
      else Inr (s\<lparr>
        ts_versions := (case dict_get (ts_versions s) v of None \<Rightarrow> ts_versions s | Some (_, x) \<Rightarrow> dict_set v (True, x) (ts_versions s)),
        ts_live := map_option (\<lambda>_. (v, published_definition d types)) (ts_live s),
        ts_relations := cascade_lifecycle_from_object_type today urn (lifecycle_status (df_dep d)) (ts_relations s),
        ts_events := ts_events s @ [(v, case live of None \<Rightarrow> previous | Some l \<Rightarrow> Some l)]\<rparr>))"


section \<open>Creation and deletion\<close>

text \<open>The upsert keeps a published row's mapping and description, the second statement sets the metadata of any row.\<close>

definition upsert_object_type :: "(string, string) dict \<Rightarrow> string \<Rightarrow> ot_def \<Rightarrow> (int \<times> ot_def) option \<Rightarrow> (int \<times> ot_def) option" where
  "upsert_object_type mapping description row live =
     (case live of
        None \<Rightarrow> Some (1, row\<lparr>df_mapping := mapping, df_description := description\<rparr>)
      | Some (v, c) \<Rightarrow> Some (v, if v = 1 then c\<lparr>df_mapping := mapping, df_description := description\<rparr> else c))"

definition set_metadata :: "string \<Rightarrow> string option \<Rightarrow> string \<Rightarrow> string \<Rightarrow> string option \<Rightarrow> nat deprecation \<Rightarrow> (int \<times> ot_def) option \<Rightarrow> (int \<times> ot_def) option" where
  "set_metadata pk title plural visibility icon dep live =
     map_option (\<lambda>(v, c). (v, c\<lparr>df_primary_key := pk, df_title_key := title, df_plural := plural, df_visibility := visibility, df_icon := icon, df_dep := dep\<rparr>)) live"

definition fresh_definition :: ot_def where
  "fresh_definition = \<lparr>df_mapping = [], df_description = [], df_implements = [], df_derived = [], df_project = None, df_markings = [], df_formats = [],
     df_conditional = [], df_types = [], df_link_bindings = [], df_prop_bindings = [], df_primary_key = ''id'', df_title_key = None, df_plural = [],
     df_visibility = ''normal'', df_icon = None,
     df_dep = \<lparr>lifecycle_status = ''experimental'', deprecation_reason = None, deprecation_deadline = None, replacement_urn = None\<rparr>\<rparr>"

definition create_object_type ::
  "(string \<Rightarrow> nat option) \<Rightarrow> (int \<times> ot_def) option \<Rightarrow> ot_def \<Rightarrow> nat raw_deadline \<Rightarrow> (int \<times> ot_def) option \<Rightarrow> (publish_error, (int \<times> ot_def) option) result" where
  "create_object_type fmt seen d deadline live =
     rbind (validate_ot_metadata fmt (df_mapping d) (df_primary_key d) (df_title_key d) (lifecycle_status (df_dep d)) (df_visibility d)
              (deprecation_reason (df_dep d)) deadline (replacement_urn (df_dep d))) (\<lambda>dep.
     rbind (raise_if (seen \<noteq> None) TypeInUse) (\<lambda>_.
       Inr (set_metadata (df_primary_key d) (df_title_key d) (df_plural d) (df_visibility d) (df_icon d) dep
              (upsert_object_type (df_mapping d) (df_description d) fresh_definition live))))"

definition delete_object_type :: "type_store \<Rightarrow> (publish_error, type_store) result" where
  "delete_object_type s =
     (case ts_live s of
        None \<Rightarrow> Inl UnknownObjectType
      | Some (v, c) \<Rightarrow>
          if lifecycle_status (df_dep c) \<in> {''active'', ''promoted''} \<and> ts_versions s \<noteq> [] then Inl TypeInUse
          else if ts_versions s \<noteq> [] then Inl TypeInUse
          else if ts_branches s \<noteq> [] then Inl TypeInUse
          else Inr (s\<lparr>ts_live := None\<rparr>))"

section \<open>Operations as steps\<close>

datatype after_draft = Finish | OpenBranch string string | MoveBranch string

datatype pending_write =
    WriteDraft int ot_def after_draft
  | WriteBranch string int string
  | WriteMove string int
  | WritePublication int ot_def payload "int option"
  | WriteReview string string int ot_def payload "int option"

definition highest_version :: "type_store \<Rightarrow> int" where
  "highest_version s = fold max (map fst (ts_versions s)) 0"

definition begin_propose ::
  "(string \<Rightarrow> nat option) \<Rightarrow> (int \<times> ot_def) option \<Rightarrow> ot_patch \<Rightarrow> after_draft \<Rightarrow> type_store \<Rightarrow> (publish_error, pending_write) result" where
  "begin_propose fmt seen u next s =
     (case seen of
        None \<Rightarrow> Inl UnknownObjectType
      | Some (v, c) \<Rightarrow> rbind (drafted fmt c u) (\<lambda>d. Inr (WriteDraft (max v (highest_version s) + 1) d next)))"

definition begin_create_branch ::
  "(string \<Rightarrow> nat option) \<Rightarrow> (int \<times> ot_def) option \<Rightarrow> string \<Rightarrow> string \<Rightarrow> ot_patch \<Rightarrow> type_store \<Rightarrow> (publish_error, pending_write) result" where
  "begin_create_branch fmt seen n creator u s =
     (if dict_get (ts_branches s) n \<noteq> None then Inl BranchExists else begin_propose fmt seen u (OpenBranch n creator) s)"

definition open_branch :: "string \<Rightarrow> type_store \<Rightarrow> (publish_error, branch) result" where
  "open_branch n s =
     (case dict_get (ts_branches s) n of None \<Rightarrow> Inl UnknownBranch | Some b \<Rightarrow> if br_status b \<noteq> ''open'' then Inl BranchClosed else Inr b)"

definition begin_update_branch ::
  "(string \<Rightarrow> nat option) \<Rightarrow> (int \<times> ot_def) option \<Rightarrow> string \<Rightarrow> ot_patch \<Rightarrow> type_store \<Rightarrow> (publish_error, pending_write) result" where
  "begin_update_branch fmt seen n u s = rbind (open_branch n s) (\<lambda>_. begin_propose fmt seen u (MoveBranch n) s)"

definition begin_publish ::
  "(string \<Rightarrow> nat option) \<Rightarrow> publish_env \<Rightarrow> string \<Rightarrow> (int \<times> ot_def) option \<Rightarrow> int \<Rightarrow> type_store \<Rightarrow> (publish_error, ot_def \<times> payload) result" where
  "begin_publish fmt env name seen v s =
     (case dict_get (ts_versions s) v of
        None \<Rightarrow> Inl NoSuchVersion
      | Some (published, d) \<Rightarrow>
          if published then Inl AlreadyPublished
          else if (case seen of None \<Rightarrow> False | Some (l, _) \<Rightarrow> v \<le> l) then Inl BehindLive
          else rbind (run_publish_validations fmt env name (map_option snd seen) d) (\<lambda>types. Inr (d, types)))"

text \<open>One more write of an operation under way: the tables after it and what is left to write.\<close>

definition run_pending :: "nat \<Rightarrow> string \<Rightarrow> pending_write \<Rightarrow> type_store \<Rightarrow> (publish_error, type_store \<times> pending_write list) result" where
  "run_pending today urn p s =
     (case p of
        WriteDraft v d next \<Rightarrow>
          if ts_live s = None \<or> dict_get (ts_versions s) v \<noteq> None then Inl DraftConflict
          else Inr (s\<lparr>ts_versions := dict_set v (False, d) (ts_versions s)\<rparr>,
                    case next of Finish \<Rightarrow> [] | OpenBranch n c \<Rightarrow> [WriteBranch n v c] | MoveBranch n \<Rightarrow> [WriteMove n v])
      | WriteBranch n v c \<Rightarrow>
          if dict_get (ts_branches s) n \<noteq> None then Inl BranchExists
          else Inr (s\<lparr>ts_branches := dict_set n \<lparr>br_version = v, br_status = ''open'', br_creator = c\<rparr> (ts_branches s)\<rparr>, [])
      | WriteMove n v \<Rightarrow>
          Inr (case dict_get (ts_branches s) n of None \<Rightarrow> s | Some b \<Rightarrow> s\<lparr>ts_branches := dict_set n (b\<lparr>br_version := v\<rparr>) (ts_branches s)\<rparr>, [])
      | WritePublication v d types previous \<Rightarrow> rbind (write_publish today urn v d types previous s) (\<lambda>s'. Inr (s', []))
      | WriteReview n reviewer v d types previous \<Rightarrow>
          rbind (write_publish today urn v d types previous (s\<lparr>ts_reviews := ts_reviews s @ [(n, reviewer, ''approved'')]\<rparr>)) (\<lambda>s'.
            Inr (case dict_get (ts_branches s') n of None \<Rightarrow> s' | Some b \<Rightarrow> s'\<lparr>ts_branches := dict_set n (b\<lparr>br_status := ''merged''\<rparr>) (ts_branches s')\<rparr>, [])))"

record type_system =
  sy_store :: type_store
  sy_pending :: "pending_write list"

text \<open>The events of a service: a request begins, a process reseeds the row at boot, or an operation goes on with its next write.\<close>

datatype type_event =
    Propose "(int \<times> ot_def) option" ot_patch
  | CreateBranch "(int \<times> ot_def) option" string string ot_patch
  | UpdateBranch "(int \<times> ot_def) option" string ot_patch
  | Publish "(int \<times> ot_def) option" publish_env int
  | ReviewBranch "(int \<times> ot_def) option" publish_env string string string
  | Reseed "(string, string) dict" string
  | Continue nat nat

definition begin_with :: "(publish_error, pending_write) result \<Rightarrow> type_system \<Rightarrow> type_system" where
  "begin_with r y = (case r of Inl _ \<Rightarrow> y | Inr p \<Rightarrow> y\<lparr>sy_pending := sy_pending y @ [p]\<rparr>)"

definition review_branch ::
  "(string \<Rightarrow> nat option) \<Rightarrow> string \<Rightarrow> (int \<times> ot_def) option \<Rightarrow> publish_env \<Rightarrow> string \<Rightarrow> string \<Rightarrow> string \<Rightarrow> type_system \<Rightarrow> type_system" where
  "review_branch fmt name seen env n reviewer decision y =
     (case open_branch n (sy_store y) of
        Inl _ \<Rightarrow> y
      | Inr b \<Rightarrow>
          if decision = ''approved'' then
            begin_with (rbind (begin_publish fmt env name seen (br_version b) (sy_store y))
              (\<lambda>(d, types). Inr (WriteReview n reviewer (br_version b) d types (map_option fst seen)))) y
          else if decision = ''changes_requested'' then
            y\<lparr>sy_store := (sy_store y)\<lparr>ts_reviews := ts_reviews (sy_store y) @ [(n, reviewer, decision)]\<rparr>\<rparr>
          else y)"

fun type_step :: "(string \<Rightarrow> nat option) \<Rightarrow> string \<Rightarrow> string \<Rightarrow> type_event \<Rightarrow> type_system \<Rightarrow> type_system" where
  "type_step fmt urn name (Propose seen u) y = begin_with (begin_propose fmt seen u Finish (sy_store y)) y"
| "type_step fmt urn name (CreateBranch seen n creator u) y = begin_with (begin_create_branch fmt seen n creator u (sy_store y)) y"
| "type_step fmt urn name (UpdateBranch seen n u) y = begin_with (begin_update_branch fmt seen n u (sy_store y)) y"
| "type_step fmt urn name (Publish seen env v) y =
     begin_with (rbind (begin_publish fmt env name seen v (sy_store y)) (\<lambda>(d, types). Inr (WritePublication v d types (map_option fst seen)))) y"
| "type_step fmt urn name (ReviewBranch seen env n reviewer decision) y = review_branch fmt name seen env n reviewer decision y"
| "type_step fmt urn name (Reseed mapping description) y =
     y\<lparr>sy_store := (sy_store y)\<lparr>ts_live := upsert_object_type mapping description fresh_definition (ts_live (sy_store y))\<rparr>\<rparr>"
| "type_step fmt urn name (Continue i today) y =
     (if i < length (sy_pending y) then
        (case run_pending today urn (sy_pending y ! i) (sy_store y) of
           Inl _ \<Rightarrow> y\<lparr>sy_pending := take i (sy_pending y) @ drop (Suc i) (sy_pending y)\<rparr>
         | Inr (s, further) \<Rightarrow> y\<lparr>sy_store := s, sy_pending := take i (sy_pending y) @ drop (Suc i) (sy_pending y) @ further\<rparr>)
      else y)"

definition new_type :: "ot_def \<Rightarrow> (string, relation_type) dict \<Rightarrow> type_system" where
  "new_type d rels = \<lparr>sy_store = \<lparr>ts_live = Some (1, d), ts_versions = [], ts_branches = [], ts_reviews = [], ts_events = [], ts_relations = rels\<rparr>, sy_pending = []\<rparr>"

definition run_type :: "(string \<Rightarrow> nat option) \<Rightarrow> string \<Rightarrow> string \<Rightarrow> type_event list \<Rightarrow> type_system \<Rightarrow> type_system" where
  "run_type fmt urn name es y = fold (type_step fmt urn name) es y"



section \<open>The history of publications\<close>

definition checked :: "(string \<Rightarrow> nat option) \<Rightarrow> string \<Rightarrow> ot_def \<Rightarrow> payload \<Rightarrow> bool" where
  "checked fmt name d types \<longleftrightarrow> (\<exists>env current. run_publish_validations fmt env name current d = Inr types)"

definition published_versions :: "type_store \<Rightarrow> int list" where
  "published_versions s = 1 # map fst (ts_events s)"

text \<open>What a pending publication carries is a stored draft that passed the checks.\<close>

definition backed :: "(string \<Rightarrow> nat option) \<Rightarrow> string \<Rightarrow> type_store \<Rightarrow> pending_write \<Rightarrow> bool" where
  "backed fmt name s p \<longleftrightarrow>
     (case p of WritePublication v d types _ \<Rightarrow> checked fmt name d types \<and> (\<exists>b. dict_get (ts_versions s) v = Some (b, d))
      | WriteReview _ _ v d types _ \<Rightarrow> checked fmt name d types \<and> (\<exists>b. dict_get (ts_versions s) v = Some (b, d)) | _ \<Rightarrow> True)"

definition history_ok :: "(string \<Rightarrow> nat option) \<Rightarrow> string \<Rightarrow> type_store \<Rightarrow> bool" where
  "history_ok fmt name s \<longleftrightarrow>
     (let vs = published_versions s in
      sorted_wrt (<) vs \<and> map snd (ts_events s) = map Some (butlast vs) \<and> map_option fst (ts_live s) = Some (last vs) \<and>
      (\<forall>v. (\<exists>d. dict_get (ts_versions s) v = Some (True, d)) \<longleftrightarrow> v \<in> set (tl vs)) \<and>
      (tl vs = [] \<or> (\<exists>d types. dict_get (ts_versions s) (last vs) = Some (True, d) \<and> checked fmt name d types \<and>
         ts_live s = Some (last vs, published_definition d types))))"

definition system_ok :: "(string \<Rightarrow> nat option) \<Rightarrow> string \<Rightarrow> type_system \<Rightarrow> bool" where
  "system_ok fmt name y \<longleftrightarrow> history_ok fmt name (sy_store y) \<and> (\<forall>p \<in> set (sy_pending y). backed fmt name (sy_store y) p)"

lemma sorted_last: "sorted_wrt (<) vs \<Longrightarrow> x \<in> set vs \<Longrightarrow> x \<le> (last vs :: int)"
  by (induction vs) (auto split: if_splits intro: less_imp_le)

lemma sorted_snoc: "sorted_wrt (<) vs \<Longrightarrow> vs \<noteq> [] \<Longrightarrow> last vs < (v :: int) \<Longrightarrow> sorted_wrt (<) (vs @ [v])"
  using sorted_last by (fastforce simp: sorted_wrt_append)

lemma history_cong:
  "ts_versions s = ts_versions s' \<Longrightarrow> ts_live s = ts_live s' \<Longrightarrow> ts_events s = ts_events s' \<Longrightarrow> history_ok fmt name s = history_ok fmt name s'"
  by (simp add: history_ok_def published_versions_def)

lemma write_publish_history:
  assumes "write_publish today u v d types previous s = Inr s'" and "history_ok fmt name s" and "checked fmt name d types"
    and "dict_get (ts_versions s) v = Some (b, d)"
  shows "history_ok fmt name s'" and "\<forall>w e. (\<exists>b. dict_get (ts_versions s) w = Some (b, e)) \<longrightarrow> (\<exists>b. dict_get (ts_versions s') w = Some (b, e))"
proof -
  let ?vs = "published_versions s"
  from assms(2) obtain c where live: "ts_live s = Some (last ?vs, c)" by (auto simp: history_ok_def Let_def)
  with assms(1,4) have v: "last ?vs < v"
    and s': "s' = s\<lparr>ts_versions := dict_set v (True, d) (ts_versions s), ts_live := Some (v, published_definition d types),
        ts_relations := cascade_lifecycle_from_object_type today u (lifecycle_status (df_dep d)) (ts_relations s),
        ts_events := ts_events s @ [(v, Some (last ?vs))]\<rparr>"
    by (auto simp: write_publish_def Let_def split: if_splits)
  have vs': "published_versions s' = ?vs @ [v]" and ne: "?vs \<noteq> []" by (simp_all add: s' published_versions_def)
  have old: "sorted_wrt (<) ?vs" "map snd (ts_events s) = map Some (butlast ?vs)"
    "\<And>w. (\<exists>d. dict_get (ts_versions s) w = Some (True, d)) \<longleftrightarrow> w \<in> set (tl ?vs)" using assms(2) by (auto simp: history_ok_def Let_def)
  have "sorted_wrt (<) (?vs @ [v])" using sorted_snoc [OF old(1) ne v] .
  moreover have "map snd (ts_events s') = map Some (butlast (?vs @ [v]))" using old(2) ne by (simp add: s' map_butlast [symmetric] butlast_append) (metis append_butlast_last_id map_append list.simps(8,9) butlast_snoc)
  moreover have "(\<exists>d. dict_get (ts_versions s') w = Some (True, d)) \<longleftrightarrow> w \<in> set (tl (?vs @ [v]))" for w
    using old(3) [of w] ne by (auto simp: s')
  ultimately show "history_ok fmt name s'"
    using assms(3) unfolding history_ok_def vs' Let_def by (auto simp: s')
  show "\<forall>w e. (\<exists>b. dict_get (ts_versions s) w = Some (b, e)) \<longrightarrow> (\<exists>b. dict_get (ts_versions s') w = Some (b, e))"
    using assms(4) by (auto simp: s')
qed


text \<open>A stored draft is never changed.\<close>

definition keeps_drafts :: "type_store \<Rightarrow> type_store \<Rightarrow> bool" where
  "keeps_drafts s s' \<longleftrightarrow> (\<forall>w e. (\<exists>b. dict_get (ts_versions s) w = Some (b, e)) \<longrightarrow> (\<exists>b. dict_get (ts_versions s') w = Some (b, e)))"

lemma keeps_refl: "ts_versions s = ts_versions s' \<Longrightarrow> keeps_drafts s s'"
  by (simp add: keeps_drafts_def)

lemma backed_kept: "backed fmt name s p \<Longrightarrow> keeps_drafts s s' \<Longrightarrow> backed fmt name s' p"
  by (auto simp: backed_def keeps_drafts_def split: pending_write.splits)

lemma run_pending_ok:
  assumes "run_pending today u p s = Inr (s', new)" and "history_ok fmt name s" and "backed fmt name s p"
  shows "history_ok fmt name s' \<and> keeps_drafts s s' \<and> (\<forall>q \<in> set new. backed fmt name s' q)"
proof (cases p)
  case (WriteDraft v d nxt)
  with assms(1) have free: "\<not> (ts_live s = None \<or> dict_get (ts_versions s) v \<noteq> None)" by (simp add: run_pending_def split: if_splits)
  then have fresh: "dict_get (ts_versions s) v = None" by blast
  from assms(1) WriteDraft free have s': "s' = s\<lparr>ts_versions := dict_set v (False, d) (ts_versions s)\<rparr>"
    and new: "new = (case nxt of Finish \<Rightarrow> [] | OpenBranch n c \<Rightarrow> [WriteBranch n v c] | MoveBranch n \<Rightarrow> [WriteMove n v])"
    by (auto simp: run_pending_def split: if_splits)
  have "history_ok fmt name s'"
  proof -
    have pv: "published_versions s' = published_versions s" by (simp add: s' published_versions_def)
    have same: "(\<exists>e. dict_get (ts_versions s') w = Some (True, e)) \<longleftrightarrow> (\<exists>e. dict_get (ts_versions s) w = Some (True, e))" for w
      using fresh by (simp add: s')
    have kept: "dict_get (ts_versions s) w = Some x \<Longrightarrow> dict_get (ts_versions s') w = Some x" for w x using fresh by (auto simp: s')
    let ?vs = "published_versions s"
    from assms(2) have h: "sorted_wrt (<) ?vs" "map snd (ts_events s) = map Some (butlast ?vs)" "map_option fst (ts_live s) = Some (last ?vs)"
      "\<forall>v. (\<exists>d. dict_get (ts_versions s) v = Some (True, d)) \<longleftrightarrow> v \<in> set (tl ?vs)"
      and l: "tl ?vs = [] \<or> (\<exists>d types. dict_get (ts_versions s) (last ?vs) = Some (True, d) \<and> checked fmt name d types \<and>
         ts_live s = Some (last ?vs, published_definition d types))" unfolding history_ok_def Let_def by blast+
    from l have "tl ?vs = [] \<or> (\<exists>d types. dict_get (ts_versions s') (last ?vs) = Some (True, d) \<and> checked fmt name d types \<and>
         ts_live s = Some (last ?vs, published_definition d types))"
    proof
      assume "\<exists>d types. dict_get (ts_versions s) (last ?vs) = Some (True, d) \<and> checked fmt name d types \<and> ts_live s = Some (last ?vs, published_definition d types)"
      then obtain d types where "dict_get (ts_versions s) (last ?vs) = Some (True, d)" "checked fmt name d types" "ts_live s = Some (last ?vs, published_definition d types)"
        by blast
      with kept show ?thesis by blast
    qed blast
    moreover have "ts_events s' = ts_events s" "ts_live s' = ts_live s" by (simp_all add: s')
    ultimately show ?thesis unfolding history_ok_def Let_def pv same using h by simp
  qed
  moreover have "keeps_drafts s s'" using fresh by (auto simp: keeps_drafts_def s')
  moreover have "\<forall>q \<in> set new. backed fmt name s' q" by (auto simp: new backed_def split: after_draft.splits)
  ultimately show ?thesis by blast
next
  case (WriteBranch n v c)
  with assms(1) have "new = []" "ts_versions s = ts_versions s'" "ts_live s = ts_live s'" "ts_events s = ts_events s'"
    by (auto simp: run_pending_def split: if_splits)
  with assms(2) show ?thesis using history_cong [of s s' fmt name] keeps_refl [of s s'] by simp
next
  case (WriteMove n v)
  with assms(1) have "new = []" "ts_versions s = ts_versions s'" "ts_live s = ts_live s'" "ts_events s = ts_events s'"
    by (auto simp: run_pending_def split: option.splits)
  with assms(2) show ?thesis using history_cong [of s s' fmt name] keeps_refl [of s s'] by simp
next
  case (WritePublication v d types previous)
  with assms(3) obtain b where b: "checked fmt name d types" "dict_get (ts_versions s) v = Some (b, d)" by (auto simp: backed_def)
  from assms(1) WritePublication have w: "write_publish today u v d types previous s = Inr s'" "new = []" by (auto simp: run_pending_def rbind_Inr_iff)
  from write_publish_history [OF w(1) assms(2) b] w(2) show ?thesis by (auto simp: keeps_drafts_def)
next
  case (WriteReview n reviewer v d types previous)
  with assms(3) obtain b where b: "checked fmt name d types" "dict_get (ts_versions s) v = Some (b, d)" by (auto simp: backed_def)
  let ?r = "s\<lparr>ts_reviews := ts_reviews s @ [(n, reviewer, ''approved'')]\<rparr>"
  from assms(1) WriteReview obtain s1 where w: "write_publish today u v d types previous ?r = Inr s1" "new = []"
    and s': "ts_versions s1 = ts_versions s'" "ts_live s1 = ts_live s'" "ts_events s1 = ts_events s'"
    by (auto simp: run_pending_def rbind_Inr_iff split: option.splits)
  have "history_ok fmt name ?r" using assms(2) history_cong [of s ?r] by simp
  from write_publish_history [OF w(1) this b(1)] b(2) have "history_ok fmt name s1" "keeps_drafts s s1" by (auto simp: keeps_drafts_def)
  with s' w(2) show ?thesis using history_cong [OF s'] by (auto simp: keeps_drafts_def)
qed

lemma begin_publish_backed:
  "begin_publish fmt env name seen v s = Inr (d, types) \<Longrightarrow> checked fmt name d types \<and> (\<exists>b. dict_get (ts_versions s) v = Some (b, d))"
  by (auto simp: begin_publish_def checked_def rbind_Inr_iff split: option.splits if_splits prod.splits)

lemma begin_with_ok: "system_ok fmt name y \<Longrightarrow> (\<And>p. r = Inr p \<Longrightarrow> backed fmt name (sy_store y) p) \<Longrightarrow> system_ok fmt name (begin_with r y)"
  by (auto simp: begin_with_def system_ok_def split: sum.splits)

lemma begin_propose_backed: "begin_propose fmt seen u next s = Inr p \<Longrightarrow> backed fmt name s p"
  by (auto simp: begin_propose_def backed_def rbind_Inr_iff split: option.splits)

lemma type_step_ok: "system_ok fmt name y \<Longrightarrow> system_ok fmt name (type_step fmt u name e y)"
proof (cases e)
  assume ok: "system_ok fmt name y"
  {
    case (Propose seen p)
    show ?thesis unfolding Propose type_step.simps by (rule begin_with_ok [OF ok begin_propose_backed])
  next
    case (CreateBranch seen n creator p)
    show ?thesis unfolding CreateBranch type_step.simps
      by (rule begin_with_ok [OF ok]) (auto simp: begin_create_branch_def intro: begin_propose_backed split: if_splits)
  next
    case (UpdateBranch seen n p)
    show ?thesis unfolding UpdateBranch type_step.simps
      by (rule begin_with_ok [OF ok]) (auto simp: begin_update_branch_def rbind_Inr_iff intro: begin_propose_backed)
  next
    case (Publish seen env v)
    show ?thesis unfolding Publish type_step.simps
      by (rule begin_with_ok [OF ok]) (auto simp: rbind_Inr_iff backed_def dest: begin_publish_backed)
  next
    case (ReviewBranch seen env n reviewer decision)
    have "system_ok fmt name (y\<lparr>sy_store := (sy_store y)\<lparr>ts_reviews := x\<rparr>\<rparr>)" for x
      using ok history_cong [of "sy_store y" "(sy_store y)\<lparr>ts_reviews := x\<rparr>"] backed_kept keeps_refl [of "sy_store y" "(sy_store y)\<lparr>ts_reviews := x\<rparr>"]
      by (auto simp: system_ok_def)
    moreover have "system_ok fmt name (begin_with (rbind (begin_publish fmt env name seen v (sy_store y))
        (\<lambda>(d, types). Inr (WriteReview n reviewer v d types (map_option fst seen)))) y)" for v
      by (rule begin_with_ok [OF ok]) (auto simp: rbind_Inr_iff backed_def dest: begin_publish_backed)
    ultimately show ?thesis unfolding ReviewBranch type_step.simps review_branch_def using ok by (auto split: sum.split)
  next
    case (Reseed mapping description)
    let ?s = "sy_store y" and ?s' = "(sy_store y)\<lparr>ts_live := upsert_object_type mapping description fresh_definition (ts_live (sy_store y))\<rparr>"
    from ok have h: "history_ok fmt name ?s" by (simp add: system_ok_def)
    then obtain c where live: "ts_live ?s = Some (last (published_versions ?s), c)" by (auto simp: history_ok_def Let_def)
    have "history_ok fmt name ?s'"
    proof (cases "tl (published_versions ?s) = []")
      case True
      with h live show ?thesis by (auto simp: history_ok_def Let_def published_versions_def upsert_object_type_def)
    next
      case False
      then have "1 < last (published_versions ?s)"
      proof -
        have "sorted_wrt (<) (published_versions ?s)" using h by (simp add: history_ok_def Let_def)
        then have "\<forall>x \<in> set (map fst (ts_events ?s)). 1 < x" by (simp add: published_versions_def)
        moreover have "last (published_versions ?s) \<in> set (map fst (ts_events ?s))"
          using False last_in_set [of "map fst (ts_events ?s)"] by (simp add: published_versions_def)
        ultimately show ?thesis by blast
      qed
      then have "?s' = ?s" by (simp add: live upsert_object_type_def)
      with h show ?thesis by simp
    qed
    then show ?thesis unfolding Reseed type_step.simps using ok backed_kept keeps_refl [of ?s ?s'] by (auto simp: system_ok_def)
  next
    case (Continue i today)
    show ?thesis
    proof (cases "i < length (sy_pending y)")
      case True
      let ?p = "sy_pending y ! i"
      from True ok have p: "backed fmt name (sy_store y) ?p" "history_ok fmt name (sy_store y)" by (auto simp: system_ok_def)
      have others: "q \<in> set (take i (sy_pending y) @ drop (Suc i) (sy_pending y)) \<Longrightarrow> backed fmt name (sy_store y) q" for q
        using ok by (auto simp: system_ok_def dest: in_set_takeD in_set_dropD)
      show ?thesis
      proof (cases "run_pending today u ?p (sy_store y)")
        case (Inl x)
        with True p others show ?thesis by (auto simp: Continue system_ok_def)
      next
        case (Inr r)
        obtain s' new where r: "r = (s', new)" by (cases r)
        note ran = run_pending_ok [OF Inr [unfolded r] p(2,1)]
        have "backed fmt name s' q" if "q \<in> set (take i (sy_pending y) @ drop (Suc i) (sy_pending y))" for q
          using others [OF that] ran backed_kept by blast
        with ran True show ?thesis by (auto simp: Continue Inr r system_ok_def)
      qed
    qed (use ok in \<open>simp add: Continue\<close>)
  }
qed

text \<open>
  C14. However the proposals, publications, branch reviews and reseeds of an object type interleave, and whatever old row the definition cache
  answers them with: versions are published in increasing order, each at most once; each event names the version published
  before it; the live row is at the version published last, and once something has been published it is that
  version's draft with the property types its checks left and the cascaded lifecycle.
\<close>

theorem publication_history_linear:
  "let s = sy_store (run_type fmt urn name es (new_type d0 rels)); vs = 1 # map fst (ts_events s) in
   sorted_wrt (<) vs \<and> map snd (ts_events s) = map Some (butlast vs) \<and> map_option fst (ts_live s) = Some (last vs) \<and>
   (\<forall>v. (\<exists>d. dict_get (ts_versions s) v = Some (True, d)) \<longleftrightarrow> v \<in> set (map fst (ts_events s))) \<and>
   (ts_events s = [] \<or> (\<exists>d types env current. dict_get (ts_versions s) (last vs) = Some (True, d) \<and>
      run_publish_validations fmt env name current d = Inr types \<and> ts_live s = Some (last vs, published_definition d types)))"
proof -
  have "system_ok fmt name (new_type d0 rels)"
    by (simp add: system_ok_def new_type_def history_ok_def published_versions_def)
  moreover have "system_ok fmt name y \<Longrightarrow> system_ok fmt name (run_type fmt urn name es y)" for y
    unfolding run_type_def by (induction es arbitrary: y) (simp_all add: type_step_ok)
  ultimately have "history_ok fmt name (sy_store (run_type fmt urn name es (new_type d0 rels)))" by (simp add: system_ok_def)
  then show ?thesis by (simp add: history_ok_def published_versions_def checked_def Let_def)
qed



section \<open>What the lock does not cover\<close>

definition keep_all :: ot_patch where
  "keep_all = \<lparr>op_mapping = None, op_description = None, op_implements = None, op_derived = None, op_project = None, op_markings = None,
     op_formats = None, op_conditional = None, op_types = None, op_link_bindings = None, op_prop_bindings = None, op_primary_key = None,
     op_title_key = None, op_plural = None, op_status = None, op_visibility = None, op_icon = None, op_reason = None, op_deadline = RawNone,
     op_replacement = None\<rparr>"

definition pump_definition :: ot_def where
  "pump_definition = fresh_definition\<lparr>df_mapping := [(''id'', ''i''), (''code'', ''c'')], df_description := ''a pump''\<rparr>"

definition quiet_env :: publish_env where
  "quiet_env = \<lparr>pe_catalogue = \<lparr>ca_actions = [], ca_relations = [], ca_types = []\<rparr>, pe_interfaces = [], pe_active = (\<lambda>_. False), pe_relations = [],
     pe_mapping_of = (\<lambda>_. None), pe_project_status = (\<lambda>_. 404), pe_identity = False, pe_markings = \<lparr>mr_categories = [], mr_markings = []\<rparr>,
     pe_types = \<lparr>get_value_type = (\<lambda>_. None), get_shared_property_type = (\<lambda>_. None)\<rparr>\<rparr>"

definition run_pump :: "type_event list \<Rightarrow> type_store" where
  "run_pump es = sy_store (run_type (\<lambda>_. None) ''u'' ''Pump'' es (new_type pump_definition []))"

definition seen0 :: "(int \<times> ot_def) option" where
  "seen0 = Some (1, pump_definition)"

text \<open>Two drafts of the same live row, published one after the other: the second takes back what the first changed.\<close>

lemma later_draft_reverts_earlier:
  "map_option (df_description \<circ> snd) (ts_live (run_pump
     [Propose seen0 (keep_all\<lparr>op_description := Some ''a centrifugal pump''\<rparr>), Continue 0 0, Propose seen0 (keep_all\<lparr>op_title_key := Some ''code''\<rparr>), Continue 0 0,
      Publish seen0 quiet_env 2, Continue 0 0])) = Some ''a centrifugal pump'' \<and>
   map_option (df_description \<circ> snd) (ts_live (run_pump
     [Propose seen0 (keep_all\<lparr>op_description := Some ''a centrifugal pump''\<rparr>), Continue 0 0, Propose seen0 (keep_all\<lparr>op_title_key := Some ''code''\<rparr>), Continue 0 0,
      Publish seen0 quiet_env 2, Continue 0 0, Publish (Some (2, pump_definition)) quiet_env 3, Continue 0 0])) = Some ''a pump''"
  by code_simp

text \<open>A branch whose draft is replaced while its review is under way is merged at a version nobody published.\<close>

definition branch_run :: type_store where
  "branch_run = run_pump
     [CreateBranch seen0 ''b'' ''alice'' (keep_all\<lparr>op_description := Some ''x''\<rparr>), Continue 0 0, Continue 0 0,
      ReviewBranch seen0 quiet_env ''b'' ''bob'' ''approved'', UpdateBranch seen0 ''b'' (keep_all\<lparr>op_description := Some ''y''\<rparr>),
      Continue 1 0, Continue 1 0, Continue 0 0]"

lemma merged_at_unpublished_version:
  "dict_get (ts_branches branch_run) ''b'' = Some \<lparr>br_version = 3, br_status = ''merged'', br_creator = ''alice''\<rparr> \<and>
   map fst (ts_events branch_run) = [2] \<and> map_option fst (dict_get (ts_versions branch_run) 3) = Some False"
  by code_simp

text \<open>The key of an active type changes: the check of the second draft saw the row before the first made it active.\<close>

lemma key_of_active_type_changes:
  "map_option (\<lambda>(v, c). (v, df_primary_key c, lifecycle_status (df_dep c))) (ts_live (run_pump
     [Propose seen0 (keep_all\<lparr>op_status := Some ''active''\<rparr>), Continue 0 0, Propose seen0 (keep_all\<lparr>op_primary_key := Some ''code'', op_status := Some ''active''\<rparr>),
      Continue 0 0, Publish seen0 quiet_env 2, Publish seen0 quiet_env 3, Continue 0 0])) = Some (2, ''id'', ''active'') \<and>
   map_option (\<lambda>(v, c). (v, df_primary_key c, lifecycle_status (df_dep c))) (ts_live (run_pump
     [Propose seen0 (keep_all\<lparr>op_status := Some ''active''\<rparr>), Continue 0 0, Propose seen0 (keep_all\<lparr>op_primary_key := Some ''code'', op_status := Some ''active''\<rparr>),
      Continue 0 0, Publish seen0 quiet_env 2, Publish seen0 quiet_env 3, Continue 0 0, Continue 0 0])) = Some (3, ''code'', ''active'')"
  by code_simp

text \<open>The properties a cascade marked keep their lifecycle when the type becomes active.\<close>

lemma property_lifecycle_sticks:
  "map_option (df_types \<circ> snd) (ts_live (run_pump
     [Propose seen0 (keep_all\<lparr>op_types := Some [(''code'', JObj [(''editable'', JBool True)])]\<rparr>), Continue 0 0, Publish seen0 quiet_env 2, Continue 0 0,
      Propose (Some (2, pump_definition\<lparr>df_types := [(''code'', JObj [(''editable'', JBool True), (''lifecycle_status'', JStr ''experimental'')])]\<rparr>))
        (keep_all\<lparr>op_status := Some ''active''\<rparr>), Continue 0 0, Publish (Some (2, pump_definition)) quiet_env 3, Continue 0 0])) =
   Some [(''code'', JObj [(''editable'', JBool True), (''lifecycle_status'', JStr ''experimental'')])]"
  by code_simp

text \<open>An object type that has ever had a draft cannot be deleted, whatever its lifecycle.\<close>

lemma delete_needs_no_versions: "delete_object_type s = Inr s' \<Longrightarrow> ts_versions s = [] \<and> ts_branches s = []"
  by (auto simp: delete_object_type_def split: option.splits if_splits)

lemma deprecated_type_not_deletable:
  "delete_object_type (run_pump [Propose seen0 keep_all, Continue 0 0]) = Inl TypeInUse"
  by code_simp

text \<open>Two creations that both found nothing: the second overwrites the first and both succeed.\<close>

lemma creation_overwrites:
  "(case create_object_type (\<lambda>_. None) None pump_definition RawNone None of
      Inl _ \<Rightarrow> False
    | Inr live \<Rightarrow> (case create_object_type (\<lambda>_. None) None (pump_definition\<lparr>df_mapping := [(''code'', ''k'')], df_primary_key := ''code''\<rparr>) RawNone live of
        Inl _ \<Rightarrow> False
      | Inr live' \<Rightarrow> map_option (\<lambda>(v, c). (v, df_mapping c, df_primary_key c)) live' = Some (1, [(''code'', ''k'')], ''code'')))"
  by code_simp

end
