(* ===== verification/Spec2Isabelle.thy ===== *)
theory Spec2Isabelle
  imports Holon_Urn Holon_Ident Holon_Resilience Holon_Errors Holon_Posture Holon_Auth Holon_Authz
    Holon_Events Holon_Outbox Holon_Principal_Status Holon_Connector_Safety Holon_Secrets Holon_Masking
    Holon_Compare Holon_Value_Types Holon_Shared_Types Holon_Criteria Holon_Metadata Holon_Action_Rules
    Holon_Actions Holon_Workflow Holon_Saga Holon_Cursor Holon_Ingest Holon_Scheduler Holon_Paging Holon_Migrations
    Holon_Structural Holon_Lineage Holon_Markings Holon_Derived Holon_Derived_Rules Holon_Interfaces
    Holon_Implements Holon_Interface_Registry Holon_Property_Rules Holon_Relation_Types Holon_Publishing
begin

text \<open>
  Holon: verification of the shared primitives of the platform and of the core of its services.

  Holon is a data platform of five Python services over one library. Identity issues tokens and answers for revocations; Connectivity
  copies rows of source systems into Iceberg tables and schedules those syncs; Knowledge holds the ontology (object types, relation
  types, interfaces, value types, action types), serves instances of it under masks and markings, and lets users change them
  through actions with approvals; Automation writes approved actions back to source systems; Experience and
  Intelligence are clients of the others. All of them import \<open>src/libs/holon_common\<close> for URNs, tokens, decisions of the policy engine, events and
  resilience. Services talk by HTTP under a token and a decision of \<open>authz.py\<close>, and by events that leave a
  service through its outbox table.

  Conventions. A raise is \<open>Inl\<close> of the error datatype of the component, a return is \<open>Inr\<close>. A dictionary whose order or duplicates matter is an
  association list (\<open>dict\<close>), JSON is the datatype of Holon_Json, Python integers are \<open>int\<close>. A table is a field of a record; a database
  transaction is one function on that record. Where the code reads, validates and writes later, these are separate steps and a
  run is a list of steps of all the requests in any order. Libraries, databases and remote services are parameters: functions, or records
  of functions such as \<open>cursor_lib\<close>, \<open>token_lib\<close>, \<open>migration_env\<close>, \<open>stdlib\<close>, or lists of answers that a run consumes. What the code relies on
  about them is a named hypothesis of the theorem that uses it.

  Shared ground.
    Holon_Prelude: results and their composition, loops over lists that stop at the first raise, dictionaries, Python string methods, decimal numerals,
      and the collections \<open>res_simps\<close>, \<open>py_string\<close> and \<open>char_class\<close>.
    Holon_Json, Holon_Compare: JSON values; Python's equality, order, membership and length on them.
    Holon_Net: what the code uses of \<open>ipaddress\<close> and \<open>urllib.parse\<close>.

  The library (\<open>src/libs/holon_common\<close>).
    Holon_Urn (\<open>urn.py\<close>): printers and the parser; printing then parsing gives the URN back.
    Holon_Ident (\<open>spicedb_id.py\<close>, \<open>sql_ident.py\<close>, \<open>iceberg_ident.py\<close>): escaping codes, whose injectivity is proved once in the locales
      \<open>escape_code\<close> and \<open>delimited_code\<close> and interpreted on the two encodings; quoted SQL names read back as their parts.
    Holon_Resilience (\<open>observability.py\<close>): retries and the circuit breaker, whole calls and their interleaving; the locale
      \<open>guarded_call\<close> is what Holon_Workflow and Holon_Authz rely on.
    Holon_Errors (\<open>errors.py\<close>), Holon_Posture (\<open>security_posture.py\<close>): the error envelope; the gate of a production start.
    Holon_Auth (\<open>auth.py\<close>), Holon_Principal_Status (\<open>principal_status.py\<close>): tokens, denylists, tenant fences; the replacement of the
      denylists by a snapshot while events arrive.
    Holon_Authz (\<open>authz.py\<close>): the decision path with its denial cache: no decision allows without SpiceDB and OPA, whatever is cached.
    Holon_Events, Holon_Outbox (\<open>registry.py\<close>, \<open>events.py\<close>, \<open>outbox.py\<close>): envelopes, producer and consumer; the outbox under
      interleaved transactions and relays neither loses nor reorders.
    Holon_Connector_Safety, Holon_Secrets (\<open>connector_safety.py\<close>, \<open>secrets.py\<close>): the address a connector is pinned to; the place a secret reference
      reads, which no two tenants share.
    Holon_Migrations (\<open>migrations.py\<close>): each file once, in order, across boots that fail.

  Connectivity (\<open>src/services/connectivity/app\<close>).
    Holon_Cursor (\<open>cursor_window.py\<close>, \<open>file_cursor.py\<close>): cursor keys, their text, the tracker; the locale \<open>sorted_column\<close> holds the
      facts a sync needs about a cursor column, interpreted for integers, text and timestamps.
    Holon_Ingest (\<open>ingest_sync.py\<close>, \<open>iceberg_writer.py\<close>): the append path; every row exactly once through failed
      fetches, commits without an answer and lost cursor writes.
    Holon_Scheduler (\<open>scheduler_jobs.py\<close>, \<open>ingest_scheduler.py\<close>): the job runner as steps; limits, no deadlock, an end to every job.

  Knowledge, the ontology (\<open>src/services/knowledge/app/ontology\<close>).
    Holon_Metadata (\<open>type_classes.py\<close>, \<open>lifecycle.py\<close>): type classes, lifecycles, deprecations.
    Holon_Value_Types, Holon_Shared_Types (\<open>value_type_validate.py\<close>, \<open>typed_values.py\<close>, \<open>shared_property_types.py\<close>, \<open>shared_property_detach.py\<close>): validation
      of values against types that refer to each other, and why it ends; deletion of a shared type rewrites its users without changing what they accept.
    Holon_Property_Rules (\<open>publishing_validate_formats.py\<close>, \<open>publishing_validate_types.py\<close>, \<open>render_hints.py\<close>): the rules on properties and what their check
      writes back, a fixed point.
    Holon_Interfaces, Holon_Implements, Holon_Interface_Registry (\<open>interface_contract.py\<close>, \<open>publishing_validate_implements.py\<close>, \<open>interfaces.py\<close>):
      the contract an interface inherits, refined to the union of what its ancestors demand; what implements it; the registry, which keeps the hierarchy acyclic
      and, as long as parents stay, every implementer valid.
    Holon_Relation_Types (\<open>relation_types.py\<close>, \<open>relation_type_validate.py\<close>): the registry of relation types and the lifecycle cascade.
    Holon_Publishing (\<open>object_types.py\<close>, \<open>publishing.py\<close>, \<open>branching.py\<close>): drafts, checks, the publication under a row lock, branches and
      reviews; the history of an object type is linear. It calls the checks of Holon_Metadata, Holon_Property_Rules, Holon_Implements, Holon_Derived_Rules and Holon_Markings.
    Holon_Markings (\<open>markings.py\<close>): categories, markings and when a list of them is satisfied.

  Knowledge, instances and actions (\<open>src/services/knowledge/app\<close>).
    Holon_Masking (\<open>policy.py\<close>, \<open>struct_values.py\<close>, \<open>masking.py\<close>): the read path; masked columns have no influence on the answer.
    Holon_Derived, Holon_Derived_Rules (\<open>derived.py\<close>, \<open>publishing_validate_derived.py\<close>, the grouped query of \<open>serving_store.py\<close>): aggregates over links, by traversal and
      by a grouped query, and reducers.
    Holon_Paging (\<open>paging.py\<close>), Holon_Lineage (\<open>lineage.py\<close>): pages by key; the graph around an urn.
    Holon_Criteria, Holon_Action_Rules (\<open>ontology/action_types.py\<close>, \<open>actions/declarative_criteria.py\<close>, \<open>actions/declarative.py\<close>): submission
      criteria refined to a satisfaction relation; registration of Action Types and the validation report.
    Holon_Actions, Holon_Structural (\<open>actions/\<close>, \<open>action_structural.py\<close>, \<open>link_overlays.py\<close>): edits, approvals, compensation and revert, for properties, links and
      objects.

  Automation (\<open>src/services/automation/app/workflow.py\<close>).
    Holon_Workflow, Holon_Saga: the write-back with its breakers; composed with the approvals of Holon_Actions it ends with all or nothing.

  Kinds of lemmas. Each theory has an invariant of its state that every operation preserves, the behaviour of an operation on each
  branch, and the composition of both over all runs, which is the property stated for the component; encoders have round trips, optimised
  routines equivalences, contracts a refinement. Lemmas whose run ends badly are kept beside them: they show, on concrete input, what
  an interleaving does that the code does not guard against.

  Bounds. Python's recursion limit is the fuel of the validation of typed values; twice the number of shared types plus three frames are proved
  enough for every registry that can be reached. Contracts of interfaces recurse with one more frame than there are rows, which suffices when the hierarchy
  is acyclic. A walk over pages needs one page per row and one more. The lineage graph is cut at 80 nodes and a depth of 8, as in the code. A commit of a sync
  is tried four times, as in the code. The steps of a job and the passes of a relay are bounded by theorems, not by fuel.

  Not modelled: the web client in TypeScript, the HTTP routers (they check a permission and call the functions modelled), the SQL schema, the
  drivers that fetch from source systems, search and its index, proposals on other resources, object sets beyond their predicates, the directory and login protocols of
  Identity, application building, the agent runtime, and start-up, deployment and tests: they are input and output around the
  state, or answers of remote services, or write tables no property here is about.
\<close>

end
